(* ===== verification/Prelude.thy ===== *)
theory Prelude
  imports Main "HOL-Library.Word" "HOL-Library.Char_ord" "HOL-Library.List_Lexorder"
begin

text \<open>
  Shared vocabulary of the development: a collection of frame rules, the result type of
  fallible Go functions, nilable slices, and the map operations that stand for writes through
  a pointer held in a Go map. Nothing here models a line of the repository by itself.
\<close>

named_theorems frame_simps \<open>fields an operation does not write\<close>

section \<open>Machine integers\<close>

text \<open>Go's \<open>int32\<close> is a 32-bit word read in two's complement.\<close>

type_synonym int32 = "32 word"

section \<open>Results of fallible functions\<close>

text \<open>
  A Go function returning \<open>(T, error)\<close> is a function into \<open>'e + 'a\<close>: \<open>Inl e\<close> for a non-nil
  error, \<open>Inr x\<close> for a value with a nil error.
\<close>

definition bind_res :: "'e + 'a \<Rightarrow> ('a \<Rightarrow> 'e + 'b) \<Rightarrow> 'e + 'b" where
  "bind_res m f = (case m of Inl e \<Rightarrow> Inl e | Inr x \<Rightarrow> f x)"

lemma bind_res_simps [simp]:
  "bind_res (Inl e) f = Inl e"
  "bind_res (Inr x) f = f x"
  by (simp_all add: bind_res_def)

lemma bind_res_Inr_iff: "bind_res m f = Inr y \<longleftrightarrow> (\<exists>x. m = Inr x \<and> f x = Inr y)"
  by (cases m) simp_all

definition is_err :: "'e + 'a \<Rightarrow> bool" where
  "is_err r = (case r of Inl _ \<Rightarrow> True | Inr _ \<Rightarrow> False)"

lemma is_err_simps [simp]: "is_err (Inl e)" "\<not> is_err (Inr x)"
  by (simp_all add: is_err_def)

text \<open>A wrapped error: \<open>fmt.Errorf("...: %w", err)\<close> applied to a failing result.\<close>

definition wrap_err :: "('e \<Rightarrow> 'f) \<Rightarrow> 'e + 'a \<Rightarrow> 'f + 'a" where
  "wrap_err w r = (case r of Inl e \<Rightarrow> Inl (w e) | Inr x \<Rightarrow> Inr x)"

lemma wrap_err_simps [simp]:
  "wrap_err w (Inl e) = Inl (w e)"
  "wrap_err w (Inr x) = Inr x"
  by (simp_all add: wrap_err_def)

lemma wrap_err_Inr_iff [simp]: "wrap_err w r = Inr x \<longleftrightarrow> r = Inr x"
  by (cases r) simp_all

text \<open>A loop over a slice whose body may return an error: the first error ends it.\<close>

fun map_res :: "('a \<Rightarrow> 'e + 'b) \<Rightarrow> 'a list \<Rightarrow> 'e + 'b list" where
  "map_res f [] = Inr []"
| "map_res f (x # xs) = bind_res (f x) (\<lambda>y. bind_res (map_res f xs) (\<lambda>ys. Inr (y # ys)))"

lemma map_res_Inr_iff:
  "map_res f xs = Inr ys \<longleftrightarrow> list_all2 (\<lambda>x y. f x = Inr y) xs ys"
  by (induction xs arbitrary: ys) (auto simp: bind_res_Inr_iff list_all2_Cons1)

lemma map_res_Inr_length: "map_res f xs = Inr ys \<Longrightarrow> length ys = length xs"
  by (simp add: map_res_Inr_iff list_all2_lengthD)

section \<open>Slices that may be nil\<close>

type_synonym 'a slice = "'a list option"

text \<open>\<open>None\<close> is the nil slice. Appending no element to a nil slice leaves it nil.\<close>

definition items :: "'a slice \<Rightarrow> 'a list" where
  "items s = (case s of None \<Rightarrow> [] | Some xs \<Rightarrow> xs)"

definition append_slice :: "'a slice \<Rightarrow> 'a list \<Rightarrow> 'a slice" where
  "append_slice s ys = (if ys = [] then s else Some (items s @ ys))"

lemma items_simps [simp]: "items None = []" "items (Some xs) = xs"
  by (simp_all add: items_def)

lemma items_append_slice [simp]: "items (append_slice s ys) = items s @ ys"
  by (cases s) (simp_all add: append_slice_def)

section \<open>Maps\<close>

text \<open>
  A write through the pointer stored at a key: the map keeps its keys and the entry changes. A key
  that is not in the map has no pointer to write through, and nothing changes.
\<close>

definition adjust :: "'k \<Rightarrow> ('v \<Rightarrow> 'v) \<Rightarrow> ('k \<rightharpoonup> 'v) \<Rightarrow> ('k \<rightharpoonup> 'v)" where
  "adjust k f m = (case m k of None \<Rightarrow> m | Some v \<Rightarrow> m(k \<mapsto> f v))"

lemma adjust_apply: "adjust k f m k' = (if k' = k then map_option f (m k) else m k')"
  by (cases "m k") (auto simp: adjust_def)

lemma adjust_same [simp]: "adjust k f m k = map_option f (m k)"
  by (simp add: adjust_apply)

lemma adjust_other [simp]: "k' \<noteq> k \<Longrightarrow> adjust k f m k' = m k'"
  by (simp add: adjust_apply)

lemma dom_adjust [simp]: "dom (adjust k f m) = dom m"
  by (cases "m k") (auto simp: adjust_def)

lemma adjust_None [simp]: "adjust k f m k' = None \<longleftrightarrow> m k' = None"
  by (auto simp: adjust_apply)

lemma adjust_SomeD:
  "adjust k f m k' = Some v' \<Longrightarrow> \<exists>v. m k' = Some v \<and> v' = (if k' = k then f v else v)"
  by (auto simp: adjust_apply split: if_splits)

text \<open>An enumeration of a map's keys, in the order a \<open>range\<close> loop happens to visit them.\<close>

definition enumerates :: "'k list \<Rightarrow> ('k \<rightharpoonup> 'v) \<Rightarrow> bool" where
  "enumerates ks m \<longleftrightarrow> distinct ks \<and> set ks = dom m"

lemma enumerates_finite: "enumerates ks m \<Longrightarrow> finite (dom m)"
  by (metis enumerates_def List.finite_set)

lemma enumerates_card: "enumerates ks m \<Longrightarrow> card (dom m) = length ks"
  by (metis enumerates_def distinct_card)

lemma enumerates_mem: "enumerates ks m \<Longrightarrow> k \<in> set ks \<longleftrightarrow> m k \<noteq> None"
  by (auto simp: enumerates_def)

section \<open>Folds\<close>

text \<open>An invariant of a loop body is an invariant of the loop.\<close>

lemma fold_invariant_rule:
  assumes "\<And>x s. x \<in> set xs \<Longrightarrow> P s \<Longrightarrow> P (f x s)" and "P s"
  shows "P (fold f xs s)"
  using assms by (induction xs arbitrary: s) auto

end
