(* ===== verification/GoStrings.thy ===== *)
theory GoStrings
  imports Prelude
begin

text \<open>
  The part of Go's standard library that the program's text processing uses: \<open>strings.HasPrefix\<close>,
  \<open>TrimPrefix\<close>, \<open>Index\<close>, \<open>Contains\<close>, \<open>SplitN\<close>, \<open>Split\<close>, \<open>Join\<close>, \<open>Count\<close>, \<open>ReplaceAll\<close>, the
  \<open>%d\<close> verb of \<open>fmt.Sprintf\<close> and \<open>strconv.Atoi\<close>. A Go string is a list of bytes.
\<close>

section \<open>Prefixes and search\<close>

fun HasPrefix :: "string \<Rightarrow> string \<Rightarrow> bool" where
  "HasPrefix s [] = True"
| "HasPrefix [] (p # ps) = False"
| "HasPrefix (c # cs) (p # ps) = (c = p \<and> HasPrefix cs ps)"

lemma HasPrefix_iff: "HasPrefix s p \<longleftrightarrow> (\<exists>t. s = p @ t)"
  by (induction s p rule: HasPrefix.induct) auto

lemma HasPrefix_append [simp]: "HasPrefix (p @ t) p"
  by (auto simp: HasPrefix_iff)

lemma HasPrefix_take: "HasPrefix s p \<longleftrightarrow> take (length p) s = p"
  by (auto simp: HasPrefix_iff) (metis append_take_drop_id)

lemma HasPrefix_length: "HasPrefix s p \<Longrightarrow> length p \<le> length s"
  by (auto simp: HasPrefix_iff)

definition TrimPrefix :: "string \<Rightarrow> string \<Rightarrow> string" where
  "TrimPrefix s p = (if HasPrefix s p then drop (length p) s else s)"

text \<open>\<open>strings.Index\<close>, with \<open>None\<close> for its result -1.\<close>

fun Index :: "string \<Rightarrow> string \<Rightarrow> nat option" where
  "Index [] sub = (if sub = [] then Some 0 else None)"
| "Index (c # cs) sub =
     (if HasPrefix (c # cs) sub then Some 0 else map_option Suc (Index cs sub))"

lemma Index_0: "HasPrefix s sub \<Longrightarrow> Index s sub = Some 0"
  by (cases s; cases sub) auto

lemma Index_SomeD: "Index s sub = Some i \<Longrightarrow> HasPrefix (drop i s) sub \<and> i \<le> length s"
  by (induction s arbitrary: i) (auto split: if_splits)

lemma Index_least: "Index s sub = Some i \<Longrightarrow> j < i \<Longrightarrow> \<not> HasPrefix (drop j s) sub"
proof (induction s arbitrary: i j)
  case Nil
  then show ?case by (auto split: if_splits)
next
  case (Cons c cs)
  then show ?case
    by (cases j) (auto split: if_splits simp del: HasPrefix.simps)
qed

lemma Index_None_iff: "Index s sub = None \<longleftrightarrow> (\<forall>u v. s \<noteq> u @ sub @ v)"
proof (induction s)
  case Nil
  then show ?case by auto
next
  case (Cons c cs)
  show ?case
  proof (cases "HasPrefix (c # cs) sub")
    case True
    then obtain t where "c # cs = [] @ sub @ t" by (auto simp: HasPrefix_iff)
    then have "\<not> (\<forall>u v. c # cs \<noteq> u @ sub @ v)" by blast
    with True show ?thesis by (simp del: HasPrefix.simps)
  next
    case False
    have "(\<exists>u v. c # cs = u @ sub @ v) \<longleftrightarrow> (\<exists>u v. cs = u @ sub @ v)"
    proof
      assume "\<exists>u v. c # cs = u @ sub @ v"
      then obtain u v where uv: "c # cs = u @ sub @ v" by blast
      with False have "u \<noteq> []" by (auto simp: HasPrefix_iff)
      with uv show "\<exists>u v. cs = u @ sub @ v" by (cases u) auto
    next
      assume "\<exists>u v. cs = u @ sub @ v"
      then show "\<exists>u v. c # cs = u @ sub @ v" by (metis append_Cons)
    qed
    with False Cons.IH show ?thesis by (simp del: HasPrefix.simps) blast
  qed
qed

lemma Index_append_None_left:
  assumes "\<And>j. j < length u \<Longrightarrow> \<not> HasPrefix (drop j u @ v) sub"
  shows "Index (u @ v) sub = map_option ((+) (length u)) (Index v sub)"
  using assms
proof (induction u)
  case Nil
  then show ?case by (simp add: option.map_ident)
next
  case (Cons c u)
  have "\<not> HasPrefix (c # u @ v) sub" using Cons.prems [of 0] by simp
  moreover have "Index (u @ v) sub = map_option ((+) (length u)) (Index v sub)"
    by (rule Cons.IH) (use Cons.prems [of "Suc _"] in auto)
  ultimately show ?case by (simp add: option.map_comp comp_def del: HasPrefix.simps)
qed

definition Contains :: "string \<Rightarrow> string \<Rightarrow> bool" where
  "Contains s sub = (Index s sub \<noteq> None)"

lemma Contains_iff: "Contains s sub \<longleftrightarrow> (\<exists>u v. s = u @ sub @ v)"
  by (simp add: Contains_def Index_None_iff)

section \<open>Splitting and joining\<close>

text \<open>\<open>strings.SplitN(s, sep, 2)\<close> for a non-empty separator.\<close>

definition SplitN2 :: "string \<Rightarrow> string \<Rightarrow> string list" where
  "SplitN2 s sep =
     (case Index s sep of None \<Rightarrow> [s] | Some i \<Rightarrow> [take i s, drop (i + length sep) s])"

text \<open>\<open>strings.Split\<close> for a one-byte separator.\<close>

fun SplitChar :: "char \<Rightarrow> string \<Rightarrow> string list" where
  "SplitChar c [] = [[]]"
| "SplitChar c (x # xs) =
     (if x = c then [] # SplitChar c xs
      else case SplitChar c xs of [] \<Rightarrow> [[x]] | p # ps \<Rightarrow> (x # p) # ps)"

lemma SplitChar_nonempty [simp]: "SplitChar c s \<noteq> []"
  by (induction s) (auto split: list.splits)

lemma SplitChar_no_sep: "c \<notin> set s \<Longrightarrow> SplitChar c s = [s]"
  by (induction s) auto

lemma SplitChar_append: "c \<notin> set s \<Longrightarrow> SplitChar c (s @ c # t) = s # SplitChar c t"
  by (induction s) auto

lemma length_SplitChar: "length (SplitChar c s) = Suc (count_list s c)"
proof (induction s)
  case Nil
  then show ?case by simp
next
  case (Cons x s)
  then show ?case by (cases "SplitChar c s") auto
qed

fun Join :: "string list \<Rightarrow> string \<Rightarrow> string" where
  "Join [] sep = []"
| "Join [s] sep = s"
| "Join (s # t # ts) sep = s @ sep @ Join (t # ts) sep"

lemma Join_SplitChar: "Join (SplitChar c s) [c] = s"
proof (induction s)
  case Nil
  then show ?case by simp
next
  case (Cons x xs)
  obtain p ps where eq: "SplitChar c xs = p # ps"
    by (cases "SplitChar c xs") auto
  with Cons.IH have "Join (p # ps) [c] = xs" by simp
  with eq show ?case by (cases ps) auto
qed

lemma SplitChar_parts_no_sep: "p \<in> set (SplitChar c s) \<Longrightarrow> c \<notin> set p"
proof (induction s arbitrary: p)
  case Nil
  then show ?case by simp
next
  case (Cons x xs)
  then show ?case
    by (cases "SplitChar c xs") (auto split: if_splits)
qed

section \<open>Counting and replacing\<close>

text \<open>
  \<open>strings.Count\<close>: occurrences that do not overlap, from the left; on an empty pattern the number
  of characters plus one.
\<close>

function Count :: "string \<Rightarrow> string \<Rightarrow> nat" where
  "Count s sub =
     (if sub = [] then Suc (length s)
      else if s = [] then 0
      else if HasPrefix s sub then Suc (Count (drop (length sub) s) sub)
      else Count (tl s) sub)"
  by pat_completeness auto
termination
  by (relation "measure (\<lambda>(s, sub). length s)") auto

declare Count.simps [simp del]

lemma Count_Nil [simp]: "sub \<noteq> [] \<Longrightarrow> Count [] sub = 0"
  by (subst Count.simps) simp

lemma Count_Cons:
  "sub \<noteq> [] \<Longrightarrow> Count (c # cs) sub =
     (if HasPrefix (c # cs) sub then Suc (Count (drop (length sub) (c # cs)) sub)
      else Count cs sub)"
  by (subst Count.simps) simp

lemma Count_hit: "sub \<noteq> [] \<Longrightarrow> Count (sub @ t) sub = Suc (Count t sub)"
  by (subst Count.simps) simp

lemma Count_le_length: "sub \<noteq> [] \<Longrightarrow> Count s sub * length sub \<le> length s"
proof (induction s sub rule: Count.induct)
  case (1 s sub)
  show ?case
  proof (cases "s = []")
    case True
    with 1 show ?thesis by simp
  next
    case False
    show ?thesis
    proof (cases "HasPrefix s sub")
      case True
      with 1 False have "Count (drop (length sub) s) sub * length sub \<le> length (drop (length sub) s)"
        by simp
      moreover have "length sub \<le> length s" using True by (rule HasPrefix_length)
      ultimately show ?thesis using True False "1.prems" by (subst Count.simps) simp
    next
      case no: False
      with 1 False have "Count (tl s) sub * length sub \<le> length (tl s)" by simp
      with no False "1.prems" show ?thesis by (subst Count.simps) simp
    qed
  qed
qed

text \<open>\<open>strings.ReplaceAll\<close> for a one-byte pattern.\<close>

definition ReplaceAllChar :: "string \<Rightarrow> char \<Rightarrow> string \<Rightarrow> string" where
  "ReplaceAllChar s c r = concat (map (\<lambda>x. if x = c then r else [x]) s)"

section \<open>Decimal numbers\<close>

definition digit_char :: "nat \<Rightarrow> char" where
  "digit_char d = ''0123456789'' ! d"

definition digit_val :: "char \<Rightarrow> nat" where
  "digit_val c = of_char c - 48"

definition is_digit :: "char \<Rightarrow> bool" where
  "is_digit c \<longleftrightarrow> c \<in> set ''0123456789''"

fun dec :: "nat \<Rightarrow> string" where
  "dec n = (if n < 10 then [digit_char n] else dec (n div 10) @ [digit_char (n mod 10)])"

declare dec.simps [simp del]

text \<open>\<open>%d\<close> of an integer, and of an \<open>int32\<close>.\<close>

definition itoa :: "int \<Rightarrow> string" where
  "itoa i = (if i < 0 then CHR ''-'' # dec (nat (- i)) else dec (nat i))"

definition itoa32 :: "int32 \<Rightarrow> string" where
  "itoa32 w = itoa (sint w)"

definition num_val :: "string \<Rightarrow> nat" where
  "num_val s = foldl (\<lambda>n c. 10 * n + digit_val c) 0 s"

lemma digit_cases: "d < 10 \<Longrightarrow> d = 0 \<or> d = 1 \<or> d = 2 \<or> d = 3 \<or> d = 4 \<or> d = 5 \<or> d = 6 \<or> d = 7 \<or> d = 8 \<or> d = (9::nat)"
  by arith

lemma digit_val_char: "d < 10 \<Longrightarrow> digit_val (digit_char d) = d"
  by (drule digit_cases) (auto simp: digit_val_def digit_char_def)

lemma is_digit_char: "d < 10 \<Longrightarrow> is_digit (digit_char d)"
  by (drule digit_cases) (auto simp: is_digit_def digit_char_def)

lemma not_digit [simp]:
  "\<not> is_digit (CHR ''-'')" "\<not> is_digit (CHR ''+'')" "\<not> is_digit (CHR ''@'')" "\<not> is_digit (CHR '':'')"
  by (simp_all add: is_digit_def)

lemma dec_nonempty [simp]: "dec n \<noteq> []"
  by (subst dec.simps) simp

lemma dec_digits: "list_all is_digit (dec n)"
proof (induction n rule: dec.induct)
  case (1 n)
  show ?case
    using 1 by (subst dec.simps) (auto simp: is_digit_char)
qed

lemma num_val_snoc: "num_val (s @ [c]) = 10 * num_val s + digit_val c"
  by (simp add: num_val_def)

lemma num_val_dec [simp]: "num_val (dec n) = n"
proof (induction n rule: dec.induct)
  case (1 n)
  show ?case
  proof (cases "n < 10")
    case True
    then show ?thesis by (subst dec.simps) (simp add: num_val_def digit_val_char)
  next
    case False
    with 1 have "num_val (dec (n div 10)) = n div 10" by simp
    with False show ?thesis
      by (subst dec.simps) (simp add: num_val_snoc digit_val_char)
  qed
qed

lemma dec_inj: "dec m = dec n \<longleftrightarrow> m = n"
  by (metis num_val_dec)

lemma dec_no_dash: "CHR ''-'' \<notin> set (dec n)"
  using dec_digits [of n] by (auto simp: list_all_iff)

lemma itoa_nonneg_no_dash: "0 \<le> i \<Longrightarrow> CHR ''-'' \<notin> set (itoa i)"
  by (simp add: itoa_def dec_no_dash)

lemma itoa_inj: "itoa i = itoa j \<longleftrightarrow> i = j"
proof
  assume eq: "itoa i = itoa j"
  have neg: "itoa k = dec n \<Longrightarrow> 0 \<le> k" for k n
    using dec_no_dash [of n] by (auto simp: itoa_def split: if_splits) (metis list.set_intros(1))
  show "i = j"
  proof (cases "i < 0")
    case True
    then have "j < 0" using eq neg [of i "nat j"] by (auto simp: itoa_def split: if_splits)
    with True eq show ?thesis by (simp add: itoa_def dec_inj)
  next
    case False
    then have "0 \<le> j" using eq neg [of j "nat i"] by (simp add: itoa_def)
    with False eq show ?thesis by (simp add: itoa_def dec_inj)
  qed
qed simp

lemma itoa32_inj: "itoa32 v = itoa32 w \<longleftrightarrow> v = w"
  by (metis itoa32_def itoa_inj signed_word_eqI)

section \<open>strconv.Atoi\<close>

datatype atoi_error = ErrSyntax | ErrRange

fun split_sign :: "string \<Rightarrow> bool \<times> string" where
  "split_sign [] = (False, [])"
| "split_sign (c # cs) =
     (if c = CHR ''-'' then (True, cs) else if c = CHR ''+'' then (False, cs) else (False, c # cs))"

definition Atoi :: "string \<Rightarrow> atoi_error + int" where
  "Atoi s =
     (let (neg, ds) = split_sign s; v = (if neg then - int (num_val ds) else int (num_val ds))
      in if ds = [] \<or> \<not> list_all is_digit ds then Inl ErrSyntax
         else if v < - (2 ^ 63) \<or> 2 ^ 63 - 1 < v then Inl ErrRange
         else Inr v)"

lemma split_sign_dec [simp]: "split_sign (dec n) = (False, dec n)"
proof -
  obtain c cs where d: "dec n = c # cs" by (cases "dec n") auto
  then have "is_digit c" using dec_digits [of n] by simp
  then have "c \<noteq> CHR ''-''" "c \<noteq> CHR ''+''" by auto
  with d show ?thesis by simp
qed

lemma Atoi_itoa: "- (2 ^ 63) \<le> i \<Longrightarrow> i < 2 ^ 63 \<Longrightarrow> Atoi (itoa i) = Inr i"
  by (auto simp: Atoi_def itoa_def Let_def dec_digits)

lemma Atoi_range: "Atoi s = Inr i \<Longrightarrow> - (2 ^ 63) \<le> i \<and> i < 2 ^ 63"
  by (auto simp: Atoi_def Let_def split: prod.splits if_splits)

end
