(* ===== verification/Objects.thy ===== *)
theory Objects
  imports GoStrings
begin

text \<open>
  The Kubernetes, SMI and Traefik structs the program reads and writes, with the fields it uses.
  The types themselves belong to the packages the program imports (\<open>k8s.io/api\<close>, \<open>smi-sdk-go\<close>,
  \<open>traefik/v2/pkg/config/dynamic\<close>); only their field layout is fixed here.
  A Go map that is only looked up is a partial function; a Go map that is ranged over is the list
  of its entries in the order the loop visits them, so a statement for every list covers every
  iteration order.
\<close>

section \<open>Core objects\<close>

record ObjectMeta =
  om_Name :: string
  om_Namespace :: string
  om_Labels :: "string \<rightharpoonup> string"
  om_Annotations :: "string \<rightharpoonup> string"
  om_ResourceVersion :: string

datatype IntStrType = IntType | StringType

record IntOrString =
  ios_Type :: IntStrType
  ios_IntVal :: int32
  ios_StrVal :: string

text \<open>\<open>intstr.FromInt\<close>: its argument is an \<open>int\<close> narrowed to \<open>int32\<close>.\<close>

definition FromInt :: "int32 \<Rightarrow> IntOrString" where
  "FromInt i = \<lparr>ios_Type = IntType, ios_IntVal = i, ios_StrVal = []\<rparr>"

text \<open>\<open>corev1.Protocol\<close> is a string type.\<close>

abbreviation ProtocolTCP :: string where "ProtocolTCP \<equiv> ''TCP''"
abbreviation ProtocolUDP :: string where "ProtocolUDP \<equiv> ''UDP''"

record ServicePort =
  sp_Name :: string
  sp_Protocol :: string
  sp_Port :: int32
  sp_TargetPort :: IntOrString

record ContainerPort =
  cp_Name :: string
  cp_ContainerPort :: int32
  cp_Protocol :: string

record KService =
  ks_meta :: ObjectMeta
  ks_Selector :: "string \<rightharpoonup> string"
  ks_Ports :: "ServicePort list"
  ks_ClusterIP :: string
  ks_Type :: string
  ks_TopologyKeys :: "string list"

datatype OwnerReference = OwnerReference (or_Kind: string) (or_Name: string)

record Container =
  ct_Name :: string
  ct_Image :: string
  ct_Ports :: "ContainerPort list"

record KPod =
  kp_meta :: ObjectMeta
  kp_OwnerReferences :: "OwnerReference list"
  kp_ServiceAccountName :: string
  kp_Containers :: "Container list"
  kp_PodIP :: string

record ObjectReference =
  ref_Name :: string
  ref_Namespace :: string

record EndpointAddress =
  ea_TargetRef :: "ObjectReference option"

record EndpointSubset =
  es_Addresses :: "EndpointAddress list"

record Endpoints =
  ke_meta :: ObjectMeta
  ke_Subsets :: "EndpointSubset list"

section \<open>SMI objects\<close>

record HTTPMatch =
  hm_Name :: string
  hm_Methods :: "string list"
  hm_PathRegex :: string
  hm_Headers :: "(string \<times> string) list"

record HTTPRouteGroup =
  hrg_meta :: ObjectMeta
  hrg_Matches :: "HTTPMatch list"

record TCPRoute =
  tcr_meta :: ObjectMeta

record IdentitySubject =
  is_Name :: string
  is_Namespace :: string
  is_Port :: "int option"

record TrafficTargetRule =
  ttr_Kind :: string
  ttr_Name :: string
  ttr_Matches :: "string list"

record KTrafficTarget =
  ktt_meta :: ObjectMeta
  ktt_Destination :: IdentitySubject
  ktt_Sources :: "IdentitySubject list"
  ktt_Rules :: "TrafficTargetRule list"

record KSplitBackend =
  ksb_Service :: string
  ksb_Weight :: int

record LocalObjectRef =
  lor_Kind :: string
  lor_Name :: string

record KTrafficSplit =
  kts_meta :: ObjectMeta
  kts_Service :: string
  kts_Backends :: "KSplitBackend list"
  kts_Matches :: "LocalObjectRef list"

section \<open>Objects behind an interface value\<close>

text \<open>
  What \<open>interface{}\<close> values the resource filter and the event handlers tell apart: a service, any
  other object that carries metadata, and a value without metadata.
\<close>

datatype Object = ServiceObj KService | MetaObj ObjectMeta | NoMetaObj

text \<open>\<open>meta.Accessor\<close>: the metadata of an object, an error (\<open>None\<close>) if it has none.\<close>

fun Accessor :: "Object \<Rightarrow> ObjectMeta option" where
  "Accessor (ServiceObj s) = Some (ks_meta s)"
| "Accessor (MetaObj m) = Some m"
| "Accessor NoMetaObj = None"

text \<open>\<open>m[k]\<close> on a map of strings: the empty string when the key is absent.\<close>

definition str_get :: "(string \<rightharpoonup> string) \<Rightarrow> string \<Rightarrow> string" where
  "str_get m k = (case m k of None \<Rightarrow> [] | Some v \<Rightarrow> v)"

section \<open>Traefik dynamic configuration\<close>

record IPWhiteList =
  wl_SourceRange :: "string list"
  wl_IPStrategyDepth :: "int option"

record Middleware =
  mw_Retry :: "int option"
  mw_RateLimit :: "(int \<times> int) option" \<comment> \<open>burst and average\<close>
  mw_CircuitBreaker :: "string option"
  mw_IPWhiteList :: "IPWhiteList option"

definition no_middleware :: Middleware where
  "no_middleware =
     \<lparr>mw_Retry = None, mw_RateLimit = None, mw_CircuitBreaker = None, mw_IPWhiteList = None\<rparr>"

record Router =
  rt_EntryPoints :: "string list"
  rt_Middlewares :: "string list"
  rt_Service :: string
  rt_Rule :: string
  rt_Priority :: int

text \<open>A weighted service names its backends with their weights.\<close>

datatype HTTPService =
    LoadBalancer (lb_Servers: "string list") (lb_PassHostHeader: bool)
  | Weighted (wrr_Services: "(string \<times> int) list")

datatype L4Service =
    L4LoadBalancer (l4_Servers: "string list")
  | L4Weighted (l4_Services: "(string \<times> int) list")

record TCPRouter =
  tr_EntryPoints :: "string list"
  tr_Service :: string
  tr_Rule :: string

record UDPRouter =
  ur_EntryPoints :: "string list"
  ur_Service :: string

end
