(* ===== verification/ResourceFilter.thy ===== *)
theory ResourceFilter
  imports Objects "HOL-Library.Multiset"
begin

text \<open>
  \<open>pkg/k8s/filter.go\<close>: the filter that decides which cluster objects the mesh looks at. A filter is
  built by applying options to an empty record; \<open>IsIgnored\<close> then tests namespace, app label,
  service name and service type in that order.
\<close>

record NamespaceName =
  nn_Name :: string
  nn_Namespace :: string

record ResourceFilter =
  watchedNamespaces :: "string list"
  ignoredNamespaces :: "string list"
  ignoredServices :: "NamespaceName list"
  ignoredApps :: "string list"

type_synonym ResourceFilterOption = "ResourceFilter \<Rightarrow> ResourceFilter"

definition WatchNamespaces :: "string list \<Rightarrow> ResourceFilterOption" where
  "WatchNamespaces namespaces flt =
     flt\<lparr>watchedNamespaces := watchedNamespaces flt @ namespaces\<rparr>"

definition IgnoreNamespaces :: "string list \<Rightarrow> ResourceFilterOption" where
  "IgnoreNamespaces namespaces flt =
     flt\<lparr>ignoredNamespaces := ignoredNamespaces flt @ namespaces\<rparr>"

definition IgnoreApps :: "string list \<Rightarrow> ResourceFilterOption" where
  "IgnoreApps apps flt = flt\<lparr>ignoredApps := ignoredApps flt @ apps\<rparr>"

definition IgnoreService :: "string \<Rightarrow> string \<Rightarrow> ResourceFilterOption" where
  "IgnoreService namespace name flt =
     flt\<lparr>ignoredServices :=
       ignoredServices flt @ [\<lparr>nn_Name = name, nn_Namespace = namespace\<rparr>]\<rparr>"

definition NewResourceFilter :: "ResourceFilterOption list \<Rightarrow> ResourceFilter" where
  "NewResourceFilter opts =
     fold (\<lambda>opt flt. opt flt) opts
       \<lparr>watchedNamespaces = [], ignoredNamespaces = [], ignoredServices = [], ignoredApps = []\<rparr>"

fun contains :: "string list \<Rightarrow> string \<Rightarrow> bool" where
  "contains [] str = False"
| "contains (item # strs) str = (if item = str then True else contains strs str)"

fun containsNamespaceName :: "NamespaceName list \<Rightarrow> NamespaceName \<Rightarrow> bool" where
  "containsNamespaceName [] nn = False"
| "containsNamespaceName (item # strs) nn =
     (if nn_Namespace item = nn_Namespace nn \<and> nn_Name item = nn_Name nn then True
      else containsNamespaceName strs nn)"

abbreviation ServiceTypeExternalName :: string where
  "ServiceTypeExternalName \<equiv> ''ExternalName''"

definition IsIgnored :: "ResourceFilter \<Rightarrow> Object \<Rightarrow> bool" where
  "IsIgnored f obj =
     (case Accessor obj of
        None \<Rightarrow> True
      | Some pMeta \<Rightarrow>
          if 0 < length (watchedNamespaces f) \<and> \<not> contains (watchedNamespaces f) (om_Namespace pMeta)
          then True
          else if contains (ignoredNamespaces f) (om_Namespace pMeta) then True
          else if contains (ignoredApps f) (str_get (om_Labels pMeta) ''app'') then True
          else case obj of
            ServiceObj svc \<Rightarrow>
              if containsNamespaceName (ignoredServices f)
                   \<lparr>nn_Name = om_Name (ks_meta svc), nn_Namespace = om_Namespace (ks_meta svc)\<rparr>
              then True
              else ks_Type svc = ServiceTypeExternalName
          | _ \<Rightarrow> False)"

section \<open>The filter as a set of rules\<close>

lemma contains_iff [simp]: "contains strs str \<longleftrightarrow> str \<in> set strs"
  by (induction strs) auto

lemma containsNamespaceName_iff [simp]: "containsNamespaceName strs nn \<longleftrightarrow> nn \<in> set strs"
proof (induction strs)
  case (Cons a strs)
  show ?case using Cons by (cases a; cases nn) auto
qed simp

lemma IsIgnored_service_iff:
  "IsIgnored f (ServiceObj svc) \<longleftrightarrow>
     (watchedNamespaces f \<noteq> [] \<and> om_Namespace (ks_meta svc) \<notin> set (watchedNamespaces f))
   \<or> om_Namespace (ks_meta svc) \<in> set (ignoredNamespaces f)
   \<or> str_get (om_Labels (ks_meta svc)) ''app'' \<in> set (ignoredApps f)
   \<or> \<lparr>nn_Name = om_Name (ks_meta svc), nn_Namespace = om_Namespace (ks_meta svc)\<rparr> \<in> set (ignoredServices f)
   \<or> ks_Type svc = ServiceTypeExternalName"
  by (auto simp: IsIgnored_def)

lemma IsIgnored_meta_iff:
  "IsIgnored f (MetaObj m) \<longleftrightarrow>
     (watchedNamespaces f \<noteq> [] \<and> om_Namespace m \<notin> set (watchedNamespaces f))
   \<or> om_Namespace m \<in> set (ignoredNamespaces f)
   \<or> str_get (om_Labels m) ''app'' \<in> set (ignoredApps f)"
  by (auto simp: IsIgnored_def)

text \<open>Two filters with the same rules, whatever their order, ignore the same objects.\<close>

definition same_rules :: "ResourceFilter \<Rightarrow> ResourceFilter \<Rightarrow> bool" where
  "same_rules f g \<longleftrightarrow>
     set (watchedNamespaces f) = set (watchedNamespaces g)
   \<and> set (ignoredNamespaces f) = set (ignoredNamespaces g)
   \<and> set (ignoredServices f) = set (ignoredServices g)
   \<and> set (ignoredApps f) = set (ignoredApps g)"

lemma same_rules_IsIgnored: "same_rules f g \<Longrightarrow> IsIgnored f obj = IsIgnored g obj"
  by (cases obj) (auto simp: same_rules_def IsIgnored_service_iff IsIgnored_meta_iff IsIgnored_def)

lemmas option_defs = WatchNamespaces_def IgnoreNamespaces_def IgnoreApps_def IgnoreService_def

text \<open>The options the program builds filters from.\<close>

datatype FilterOption =
    OWatch "string list" | OIgnoreNs "string list" | OIgnoreApps "string list" | OIgnoreSvc string string

fun apply_option :: "FilterOption \<Rightarrow> ResourceFilterOption" where
  "apply_option (OWatch ns) = WatchNamespaces ns"
| "apply_option (OIgnoreNs ns) = IgnoreNamespaces ns"
| "apply_option (OIgnoreApps apps) = IgnoreApps apps"
| "apply_option (OIgnoreSvc ns n) = IgnoreService ns n"

fun option_rules :: "FilterOption \<Rightarrow> ResourceFilter" where
  "option_rules o1 = apply_option o1
     \<lparr>watchedNamespaces = [], ignoredNamespaces = [], ignoredServices = [], ignoredApps = []\<rparr>"

lemma fold_option_rules:
  "let g = fold (\<lambda>opt flt. opt flt) (map apply_option opts) f in
     set (watchedNamespaces g) = set (watchedNamespaces f) \<union> (\<Union>o1\<in>set opts. set (watchedNamespaces (option_rules o1)))
   \<and> set (ignoredNamespaces g) = set (ignoredNamespaces f) \<union> (\<Union>o1\<in>set opts. set (ignoredNamespaces (option_rules o1)))
   \<and> set (ignoredServices g) = set (ignoredServices f) \<union> (\<Union>o1\<in>set opts. set (ignoredServices (option_rules o1)))
   \<and> set (ignoredApps g) = set (ignoredApps f) \<union> (\<Union>o1\<in>set opts. set (ignoredApps (option_rules o1)))"
proof (induction opts arbitrary: f)
  case Nil
  show ?case by simp
next
  case (Cons x opts)
  show ?case
    using Cons [of "apply_option x f"]
    by (cases x) (auto simp: Let_def option_defs)
qed

lemma NewResourceFilter_same_rules:
  assumes "set opts = set opts'"
  shows "same_rules (NewResourceFilter (map apply_option opts)) (NewResourceFilter (map apply_option opts'))"
  using fold_option_rules [of opts] fold_option_rules [of opts'] assms
  by (simp add: same_rules_def NewResourceFilter_def Let_def)

text \<open>
  An option that adds ignore rules never makes an ignored object visible.
\<close>

lemma ignore_option_monotone:
  assumes "IsIgnored f obj" and "\<And>ns. opt \<noteq> OWatch ns"
  shows "IsIgnored (apply_option opt f) obj"
  using assms
  by (cases opt; cases obj)
     (auto simp: option_defs IsIgnored_service_iff IsIgnored_meta_iff IsIgnored_def)

text \<open>What a filter built from a list of options ignores among services, whatever the order of the
  options: the namespaces outside the watched ones when some are watched, the ignored namespaces and
  apps, the services ignored by name, and every ExternalName service.\<close>

theorem filter_options_services:
  "IsIgnored (NewResourceFilter (map apply_option opts)) (ServiceObj svc) \<longleftrightarrow>
     ((\<exists>ns. OWatch ns \<in> set opts \<and> ns \<noteq> []) \<and>
        \<not> (\<exists>ns. OWatch ns \<in> set opts \<and> om_Namespace (ks_meta svc) \<in> set ns))
   \<or> (\<exists>ns. OIgnoreNs ns \<in> set opts \<and> om_Namespace (ks_meta svc) \<in> set ns)
   \<or> (\<exists>apps. OIgnoreApps apps \<in> set opts \<and> str_get (om_Labels (ks_meta svc)) ''app'' \<in> set apps)
   \<or> OIgnoreSvc (om_Namespace (ks_meta svc)) (om_Name (ks_meta svc)) \<in> set opts
   \<or> ks_Type svc = ServiceTypeExternalName"
proof -
  have rules: "(x \<in> set (watchedNamespaces (option_rules opt)) \<longleftrightarrow> (\<exists>ns. opt = OWatch ns \<and> x \<in> set ns))"
    "(x \<in> set (ignoredNamespaces (option_rules opt)) \<longleftrightarrow> (\<exists>ns. opt = OIgnoreNs ns \<and> x \<in> set ns))"
    "(x \<in> set (ignoredApps (option_rules opt)) \<longleftrightarrow> (\<exists>apps. opt = OIgnoreApps apps \<and> x \<in> set apps))"
    "(y \<in> set (ignoredServices (option_rules opt)) \<longleftrightarrow> opt = OIgnoreSvc (nn_Namespace y) (nn_Name y))"
    for x y opt
    by (cases opt; auto simp: option_defs)+
  note fold = fold_option_rules [of opts "\<lparr>watchedNamespaces = [], ignoredNamespaces = [],
      ignoredServices = [], ignoredApps = []\<rparr>", unfolded Let_def]
  define flt where "flt = NewResourceFilter (map apply_option opts)"
  have sets: "x \<in> set (watchedNamespaces flt) \<longleftrightarrow> (\<exists>ns. OWatch ns \<in> set opts \<and> x \<in> set ns)"
    "x \<in> set (ignoredNamespaces flt) \<longleftrightarrow> (\<exists>ns. OIgnoreNs ns \<in> set opts \<and> x \<in> set ns)"
    "x \<in> set (ignoredApps flt) \<longleftrightarrow> (\<exists>apps. OIgnoreApps apps \<in> set opts \<and> x \<in> set apps)"
    "y \<in> set (ignoredServices flt) \<longleftrightarrow> OIgnoreSvc (nn_Namespace y) (nn_Name y) \<in> set opts" for x y
    using fold by (auto simp: flt_def NewResourceFilter_def rules simp del: option_rules.simps)
  have "watchedNamespaces flt \<noteq> [] \<longleftrightarrow> (\<exists>x. x \<in> set (watchedNamespaces flt))"
    by (metis ex_in_conv set_empty)
  then have "watchedNamespaces flt \<noteq> [] \<longleftrightarrow> (\<exists>ns. OWatch ns \<in> set opts \<and> ns \<noteq> [])"
    unfolding sets by (metis ex_in_conv set_empty)
  then show ?thesis
    unfolding flt_def [symmetric] IsIgnored_service_iff sets by simp
qed

end
