(* ===== verification/Annotations.thy ===== *)
theory Annotations
  imports Objects "HOL-Library.AList"
begin

text \<open>
  \<open>pkg/annotations\<close>: reading the \<open>mesh.traefik.io/*\<close> annotations of a service and building Traefik
  middlewares from them. Errors are values of \<open>ann_error\<close>; \<open>AnnNotFound\<close> is the sentinel
  \<open>ErrNotFound\<close> that the middleware builders turn into "no middleware".
\<close>

type_synonym annotations = "string \<rightharpoonup> string"

abbreviation ServiceTypeHTTP :: string where "ServiceTypeHTTP \<equiv> ''http''"
abbreviation ServiceTypeTCP :: string where "ServiceTypeTCP \<equiv> ''tcp''"
abbreviation ServiceTypeUDP :: string where "ServiceTypeUDP \<equiv> ''udp''"
abbreviation SchemeHTTP :: string where "SchemeHTTP \<equiv> ''http''"
abbreviation SchemeH2C :: string where "SchemeH2C \<equiv> ''h2c''"
abbreviation SchemeHTTPS :: string where "SchemeHTTPS \<equiv> ''https''"

definition annotationServiceType :: string where
  "annotationServiceType = ''mesh.traefik.io/traffic-type''"
definition annotationScheme :: string where
  "annotationScheme = ''mesh.traefik.io/scheme''"
definition annotationRetryAttempts :: string where
  "annotationRetryAttempts = ''mesh.traefik.io/retry-attempts''"
definition annotationCircuitBreakerExpression :: string where
  "annotationCircuitBreakerExpression = ''mesh.traefik.io/circuit-breaker-expression''"
definition annotationRateLimitAverage :: string where
  "annotationRateLimitAverage = ''mesh.traefik.io/ratelimit-average''"
definition annotationRateLimitBurst :: string where
  "annotationRateLimitBurst = ''mesh.traefik.io/ratelimit-burst''"

lemmas annotation_names =
  annotationServiceType_def annotationScheme_def annotationRetryAttempts_def
  annotationCircuitBreakerExpression_def annotationRateLimitAverage_def annotationRateLimitBurst_def

datatype ann_error =
    AnnNotFound
  | AnnUnsupportedTrafficType string
  | AnnUnsupportedScheme string
  | AnnInvalidValue string atoi_error
  | AnnBuildRetry ann_error
  | AnnBuildRateLimit ann_error
  | AnnRateLimitNotPositive
  | AnnBuildCircuitBreaker ann_error

section \<open>Reading annotations\<close>

definition GetTrafficType :: "string \<Rightarrow> annotations \<Rightarrow> ann_error + string" where
  "GetTrafficType defaultTrafficType anns =
     (case anns annotationServiceType of
        None \<Rightarrow> Inr defaultTrafficType
      | Some trafficType \<Rightarrow>
          if trafficType = ServiceTypeHTTP then Inr trafficType
          else if trafficType = ServiceTypeTCP then Inr trafficType
          else if trafficType = ServiceTypeUDP then Inr trafficType
          else Inl (AnnUnsupportedTrafficType trafficType))"

definition GetScheme :: "annotations \<Rightarrow> ann_error + string" where
  "GetScheme anns =
     (case anns annotationScheme of
        None \<Rightarrow> Inr SchemeHTTP
      | Some scheme \<Rightarrow>
          if scheme = SchemeHTTP then Inr scheme
          else if scheme = SchemeH2C then Inr scheme
          else if scheme = SchemeHTTPS then Inr scheme
          else Inl (AnnUnsupportedScheme scheme))"

definition GetRetryAttempts :: "annotations \<Rightarrow> ann_error + int" where
  "GetRetryAttempts anns =
     (case anns annotationRetryAttempts of
        None \<Rightarrow> Inl AnnNotFound
      | Some retryAttempts \<Rightarrow>
          wrap_err (AnnInvalidValue annotationRetryAttempts) (Atoi retryAttempts))"

definition GetCircuitBreakerExpression :: "annotations \<Rightarrow> ann_error + string" where
  "GetCircuitBreakerExpression anns =
     (case anns annotationCircuitBreakerExpression of
        None \<Rightarrow> Inl AnnNotFound
      | Some expression \<Rightarrow> Inr expression)"

definition GetRateLimitBurst :: "annotations \<Rightarrow> ann_error + int" where
  "GetRateLimitBurst anns =
     (case anns annotationRateLimitBurst of
        None \<Rightarrow> Inl AnnNotFound
      | Some burst \<Rightarrow> wrap_err (AnnInvalidValue annotationRateLimitBurst) (Atoi burst))"

definition GetRateLimitAverage :: "annotations \<Rightarrow> ann_error + int" where
  "GetRateLimitAverage anns =
     (case anns annotationRateLimitAverage of
        None \<Rightarrow> Inl AnnNotFound
      | Some average \<Rightarrow> wrap_err (AnnInvalidValue annotationRateLimitAverage) (Atoi average))"

section \<open>Building middlewares\<close>

text \<open>A builder returns an error, nothing (\<open>nil, "", nil\<close>), or a middleware and its name.\<close>

type_synonym built = "(Middleware \<times> string) option"

definition buildRetryMiddleware :: "annotations \<Rightarrow> ann_error + built" where
  "buildRetryMiddleware anns =
     (case GetRetryAttempts anns of
        Inl err \<Rightarrow> if err = AnnNotFound then Inr None else Inl (AnnBuildRetry err)
      | Inr retryAttempts \<Rightarrow>
          Inr (Some (no_middleware\<lparr>mw_Retry := Some retryAttempts\<rparr>, ''retry'')))"

definition buildRateLimitMiddleware :: "annotations \<Rightarrow> ann_error + built" where
  "buildRateLimitMiddleware anns =
     (case GetRateLimitBurst anns of
        Inl err \<Rightarrow> if err = AnnNotFound then Inr None else Inl (AnnBuildRateLimit err)
      | Inr rateLimitBurst \<Rightarrow>
          (case GetRateLimitAverage anns of
             Inl err \<Rightarrow> if err = AnnNotFound then Inr None else Inl (AnnBuildRateLimit err)
           | Inr rateLimitAverage \<Rightarrow>
               if rateLimitBurst \<le> 0 \<or> rateLimitAverage \<le> 0 then Inl AnnRateLimitNotPositive
               else Inr (Some
                 (no_middleware\<lparr>mw_RateLimit := Some (rateLimitBurst, rateLimitAverage)\<rparr>,
                  ''rate-limit''))))"

definition buildCircuitBreakerMiddleware :: "annotations \<Rightarrow> ann_error + built" where
  "buildCircuitBreakerMiddleware anns =
     (case GetCircuitBreakerExpression anns of
        Inl err \<Rightarrow> if err = AnnNotFound then Inr None else Inl (AnnBuildCircuitBreaker err)
      | Inr circuitBreakerExpression \<Rightarrow>
          Inr (Some (no_middleware\<lparr>mw_CircuitBreaker := Some circuitBreakerExpression\<rparr>,
                     ''circuit-breaker'')))"

text \<open>
  The loop of \<open>BuildMiddlewares\<close> over its builders. The map it fills is an association list with
  one entry per name.
\<close>

fun run_builders ::
  "(annotations \<Rightarrow> ann_error + built) list \<Rightarrow> annotations \<Rightarrow> (string \<times> Middleware) list
   \<Rightarrow> ann_error + (string \<times> Middleware) list" where
  "run_builders [] anns middlewares = Inr middlewares"
| "run_builders (builder # builders) anns middlewares =
     (case builder anns of
        Inl err \<Rightarrow> Inl err
      | Inr None \<Rightarrow> run_builders builders anns middlewares
      | Inr (Some (middleware, name)) \<Rightarrow>
          run_builders builders anns (AList.update name middleware middlewares))"

definition BuildMiddlewares :: "annotations \<Rightarrow> ann_error + (string \<times> Middleware) list" where
  "BuildMiddlewares anns =
     run_builders [buildRetryMiddleware, buildRateLimitMiddleware, buildCircuitBreakerMiddleware]
       anns []"

section \<open>What the getters return\<close>

lemmas getter_defs =
  GetRetryAttempts_def GetCircuitBreakerExpression_def GetRateLimitBurst_def GetRateLimitAverage_def
lemmas builder_defs =
  buildRetryMiddleware_def buildRateLimitMiddleware_def buildCircuitBreakerMiddleware_def

lemma wrap_AnnInvalid_not_found [simp]: "wrap_err (AnnInvalidValue n) r \<noteq> Inl AnnNotFound"
  by (cases r) auto

lemma wrap_err_Inl_iff: "wrap_err w r = Inl e \<longleftrightarrow> (\<exists>e'. r = Inl e' \<and> e = w e')"
  by (cases r) auto

lemma GetTrafficType_Inr_iff:
  "GetTrafficType d anns = Inr t \<longleftrightarrow>
     (anns annotationServiceType = None \<and> t = d)
   \<or> (anns annotationServiceType = Some t \<and> t \<in> {ServiceTypeHTTP, ServiceTypeTCP, ServiceTypeUDP})"
  by (auto simp: GetTrafficType_def split: option.splits)

lemma GetScheme_Inr_iff:
  "GetScheme anns = Inr s \<longleftrightarrow>
     (anns annotationScheme = None \<and> s = SchemeHTTP)
   \<or> (anns annotationScheme = Some s \<and> s \<in> {SchemeHTTP, SchemeH2C, SchemeHTTPS})"
  by (auto simp: GetScheme_def split: option.splits)

lemma buildRetryMiddleware_Inr_iff:
  "buildRetryMiddleware anns = Inr r \<longleftrightarrow>
     (case anns annotationRetryAttempts of
        None \<Rightarrow> r = None
      | Some v \<Rightarrow> \<exists>n. Atoi v = Inr n \<and> r = Some (no_middleware\<lparr>mw_Retry := Some n\<rparr>, ''retry''))"
  by (auto simp: buildRetryMiddleware_def GetRetryAttempts_def wrap_err_Inl_iff
           split: option.splits sum.splits)

lemma buildCircuitBreakerMiddleware_Inr_iff:
  "buildCircuitBreakerMiddleware anns = Inr r \<longleftrightarrow>
     (case anns annotationCircuitBreakerExpression of
        None \<Rightarrow> r = None
      | Some v \<Rightarrow> r = Some (no_middleware\<lparr>mw_CircuitBreaker := Some v\<rparr>, ''circuit-breaker''))"
  by (auto simp: buildCircuitBreakerMiddleware_def GetCircuitBreakerExpression_def
           split: option.splits sum.splits)

lemma buildRateLimitMiddleware_Inr_iff:
  "buildRateLimitMiddleware anns = Inr r \<longleftrightarrow>
     (case anns annotationRateLimitBurst of
        None \<Rightarrow> r = None
      | Some vb \<Rightarrow> \<exists>b. Atoi vb = Inr b \<and>
          (case anns annotationRateLimitAverage of
             None \<Rightarrow> r = None
           | Some va \<Rightarrow> \<exists>a. Atoi va = Inr a \<and> 0 < b \<and> 0 < a
               \<and> r = Some (no_middleware\<lparr>mw_RateLimit := Some (b, a)\<rparr>, ''rate-limit'')))"
  by (auto simp: buildRateLimitMiddleware_def GetRateLimitBurst_def GetRateLimitAverage_def
             wrap_err_Inl_iff
           split: option.splits sum.splits)

text \<open>
  The result of a builder, split into the error case and the entry it adds: \<open>entry\<close> is what
  \<open>BuildMiddlewares\<close> stores for it.
\<close>

definition entry :: "ann_error + built \<Rightarrow> (string \<times> Middleware) list" where
  "entry r = (case r of Inr (Some (mw, n)) \<Rightarrow> [(n, mw)] | _ \<Rightarrow> [])"

lemma entry_simps [simp]:
  "entry (Inl e) = []" "entry (Inr None) = []" "entry (Inr (Some (mw, n))) = [(n, mw)]"
  by (simp_all add: entry_def)

lemma retry_entry_name: "(n, mw) \<in> set (entry (buildRetryMiddleware anns)) \<Longrightarrow> n = ''retry''"
  by (auto simp: entry_def buildRetryMiddleware_def split: sum.splits option.splits if_splits)

lemma rate_limit_entry_name:
  "(n, mw) \<in> set (entry (buildRateLimitMiddleware anns)) \<Longrightarrow> n = ''rate-limit''"
  by (auto simp: entry_def buildRateLimitMiddleware_def split: sum.splits option.splits if_splits)

lemma circuit_breaker_entry_name:
  "(n, mw) \<in> set (entry (buildCircuitBreakerMiddleware anns)) \<Longrightarrow> n = ''circuit-breaker''"
  by (auto simp: entry_def buildCircuitBreakerMiddleware_def split: sum.splits option.splits if_splits)

lemma update_fresh: "n \<notin> fst ` set m \<Longrightarrow> AList.update n mw m = m @ [(n, mw)]"
  by (induction m) auto

lemma run_builders_Cons_fresh:
  assumes "\<And>n mw. (n, mw) \<in> set (entry (b anns)) \<Longrightarrow> n \<notin> fst ` set m"
  shows "run_builders (b # bs) anns m =
    (if is_err (b anns) then Inl (projl (b anns)) else run_builders bs anns (m @ entry (b anns)))"
  using assms by (auto simp: update_fresh split: sum.splits option.splits prod.splits)

lemma BuildMiddlewares_eq:
  "BuildMiddlewares anns =
     (let r = buildRetryMiddleware anns; l = buildRateLimitMiddleware anns;
          c = buildCircuitBreakerMiddleware anns
      in if is_err r then Inl (projl r) else if is_err l then Inl (projl l)
         else if is_err c then Inl (projl c) else Inr (entry r @ entry l @ entry c))"
proof -
  have 1: "n \<notin> fst ` set (entry (buildRetryMiddleware anns))"
    if "(n, mw) \<in> set (entry (buildRateLimitMiddleware anns))" for n mw
    using that by (auto dest!: retry_entry_name rate_limit_entry_name)
  have 2: "n \<notin> fst ` set (entry (buildRetryMiddleware anns) @ entry (buildRateLimitMiddleware anns))"
    if "(n, mw) \<in> set (entry (buildCircuitBreakerMiddleware anns))" for n mw
    using that by (auto dest!: retry_entry_name rate_limit_entry_name circuit_breaker_entry_name)
  note step0 = run_builders_Cons_fresh [of buildRetryMiddleware anns "[]"]
  note step1 = run_builders_Cons_fresh
    [of buildRateLimitMiddleware anns "entry (buildRetryMiddleware anns)", OF 1]
  note step2 = run_builders_Cons_fresh
    [of buildCircuitBreakerMiddleware anns
       "entry (buildRetryMiddleware anns) @ entry (buildRateLimitMiddleware anns)", OF 2]
  show ?thesis
    unfolding BuildMiddlewares_def Let_def
    by (simp add: step0 step1 step2 del: run_builders.simps(2))
qed

section \<open>Properties\<close>

text \<open>
  What the annotations must look like for a service to get its middlewares: a number where a number
  is expected, and a rate limit whose two values are positive. The average is not even read when the
  burst is absent.
\<close>

definition parses :: "string option \<Rightarrow> int \<Rightarrow> bool" where
  "parses v i \<longleftrightarrow> (\<exists>s. v = Some s \<and> Atoi s = Inr i)"

definition valid_annotations :: "annotations \<Rightarrow> bool" where
  "valid_annotations anns \<longleftrightarrow>
     (anns annotationRetryAttempts = None \<or> (\<exists>n. parses (anns annotationRetryAttempts) n))
   \<and> (anns annotationRateLimitBurst = None
      \<or> (\<exists>b. parses (anns annotationRateLimitBurst) b
           \<and> (anns annotationRateLimitAverage = None
              \<or> (0 < b \<and> (\<exists>a>0. parses (anns annotationRateLimitAverage) a)))))"

text \<open>The middleware each name stands for in the annotations.\<close>

definition declared_middleware :: "annotations \<Rightarrow> string \<Rightarrow> Middleware \<Rightarrow> bool" where
  "declared_middleware anns n mw \<longleftrightarrow>
     (n = ''retry'' \<and> (\<exists>i. parses (anns annotationRetryAttempts) i
        \<and> mw = no_middleware\<lparr>mw_Retry := Some i\<rparr>))
   \<or> (n = ''rate-limit'' \<and> (\<exists>b a. parses (anns annotationRateLimitBurst) b
        \<and> parses (anns annotationRateLimitAverage) a \<and> 0 < b \<and> 0 < a
        \<and> mw = no_middleware\<lparr>mw_RateLimit := Some (b, a)\<rparr>))
   \<or> (n = ''circuit-breaker'' \<and> (\<exists>e. anns annotationCircuitBreakerExpression = Some e
        \<and> mw = no_middleware\<lparr>mw_CircuitBreaker := Some e\<rparr>))"

lemma is_err_iff: "is_err r \<longleftrightarrow> (\<nexists>x. r = Inr x)"
  by (cases r) auto

lemma retry_entry:
  "(n, mw) \<in> set (entry (buildRetryMiddleware anns)) \<longleftrightarrow>
     n = ''retry'' \<and> (\<exists>i. parses (anns annotationRetryAttempts) i
       \<and> mw = no_middleware\<lparr>mw_Retry := Some i\<rparr>)"
  by (cases "anns annotationRetryAttempts")
     (auto simp: buildRetryMiddleware_def GetRetryAttempts_def wrap_err_Inl_iff parses_def
       split: sum.splits)

lemma circuit_breaker_entry:
  "(n, mw) \<in> set (entry (buildCircuitBreakerMiddleware anns)) \<longleftrightarrow>
     n = ''circuit-breaker'' \<and> (\<exists>e. anns annotationCircuitBreakerExpression = Some e
       \<and> mw = no_middleware\<lparr>mw_CircuitBreaker := Some e\<rparr>)"
  by (cases "anns annotationCircuitBreakerExpression")
     (auto simp: buildCircuitBreakerMiddleware_def GetCircuitBreakerExpression_def)

lemma rate_limit_entry:
  "(n, mw) \<in> set (entry (buildRateLimitMiddleware anns)) \<longleftrightarrow>
     n = ''rate-limit'' \<and> (\<exists>b a. parses (anns annotationRateLimitBurst) b
       \<and> parses (anns annotationRateLimitAverage) a \<and> 0 < b \<and> 0 < a
       \<and> mw = no_middleware\<lparr>mw_RateLimit := Some (b, a)\<rparr>)"
  by (cases "anns annotationRateLimitBurst"; cases "anns annotationRateLimitAverage")
     (auto simp: buildRateLimitMiddleware_def GetRateLimitBurst_def GetRateLimitAverage_def
        wrap_err_Inl_iff parses_def split: sum.splits if_splits)

lemma length_entry: "length (entry r) \<le> 1"
  by (auto simp: entry_def split: sum.splits option.splits)

lemma distinct_entry: "distinct (map fst (entry r))"
  by (auto simp: entry_def split: sum.splits option.splits)

lemma builder_errors:
  "is_err (buildRetryMiddleware anns) \<longleftrightarrow>
     \<not> (anns annotationRetryAttempts = None \<or> (\<exists>n. parses (anns annotationRetryAttempts) n))"
  "\<not> is_err (buildCircuitBreakerMiddleware anns)"
  "is_err (buildRateLimitMiddleware anns) \<longleftrightarrow>
     \<not> (anns annotationRateLimitBurst = None
      \<or> (\<exists>b. parses (anns annotationRateLimitBurst) b
           \<and> (anns annotationRateLimitAverage = None
              \<or> (0 < b \<and> (\<exists>a>0. parses (anns annotationRateLimitAverage) a)))))"
  by (auto simp: is_err_iff buildRetryMiddleware_Inr_iff buildCircuitBreakerMiddleware_Inr_iff
      buildRateLimitMiddleware_Inr_iff parses_def split: option.splits)

text \<open>C38: building the middlewares of a service succeeds exactly on valid annotations (every
  number parses as an int, and a rate limit has two positive values), and then yields one entry per
  name holding exactly the middlewares the annotations declare, with the declared values.\<close>

theorem BuildMiddlewares_spec:
  "case BuildMiddlewares anns of
     Inl _ \<Rightarrow> \<not> valid_annotations anns
   | Inr mws \<Rightarrow> valid_annotations anns \<and> distinct (map fst mws)
       \<and> set mws = {(n, mw). declared_middleware anns n mw}"
proof -
  have names: "fst ` set (entry (buildRetryMiddleware anns)) \<subseteq> {''retry''}"
    "fst ` set (entry (buildRateLimitMiddleware anns)) \<subseteq> {''rate-limit''}"
    "fst ` set (entry (buildCircuitBreakerMiddleware anns)) \<subseteq> {''circuit-breaker''}"
    by (auto dest: retry_entry_name rate_limit_entry_name circuit_breaker_entry_name)
  have "distinct (map fst (entry (buildRetryMiddleware anns) @ entry (buildRateLimitMiddleware anns)
      @ entry (buildCircuitBreakerMiddleware anns)))"
    using names by (fastforce simp: distinct_entry)
  moreover have "set (entry (buildRetryMiddleware anns) @ entry (buildRateLimitMiddleware anns)
      @ entry (buildCircuitBreakerMiddleware anns)) = {(n, mw). declared_middleware anns n mw}"
    by (simp add: set_eq_iff retry_entry rate_limit_entry circuit_breaker_entry
        declared_middleware_def)
  ultimately show ?thesis
    by (simp add: BuildMiddlewares_eq Let_def builder_errors valid_annotations_def)
qed

text \<open>The traffic type used for a service is a supported one whenever the default is: an unsupported annotation is an
  error and never falls back to the default, and the same holds of the scheme, whose default is http.\<close>

lemma traffic_type_and_scheme_supported:
  assumes "d \<in> {''http'', ''tcp'', ''udp''}"
  shows "GetTrafficType d anns = Inr t \<Longrightarrow> t \<in> {''http'', ''tcp'', ''udp''} \<and> (\<forall>v. anns annotationServiceType = Some v \<longrightarrow> v = t)"
    "GetScheme anns = Inr s \<Longrightarrow> s \<in> {''http'', ''h2c'', ''https''} \<and> (\<forall>v. anns annotationScheme = Some v \<longrightarrow> v = s)"
  using assms by (auto simp: GetTrafficType_Inr_iff GetScheme_Inr_iff)

end
