(* ===== verification/Topology.thy ===== *)
theory Topology
  imports Objects Annotations
begin

text \<open>
  \<open>pkg/topology/topology.go\<close>: the graph of services, pods, traffic targets and traffic splits, the
  keys its maps are indexed by with their text form, and the resolution of a service port. The
  pointers a Go map stores are shared: a service reached through the map is the service in the map,
  so a write to it is a write to the map's entry (\<open>adjust\<close>).
\<close>

section \<open>Keys\<close>

datatype Key = Key (Name: string) (Namespace: string)

datatype STTKey = STTKey (Service: Key) (TrafficTarget: Key)

instantiation Key :: linorder
begin
definition less_eq_Key :: "Key \<Rightarrow> Key \<Rightarrow> bool" where
  "less_eq_Key a b \<longleftrightarrow> Namespace a < Namespace b \<or> (Namespace a = Namespace b \<and> Name a \<le> Name b)"
definition less_Key :: "Key \<Rightarrow> Key \<Rightarrow> bool" where
  "less_Key a b \<longleftrightarrow> Namespace a < Namespace b \<or> (Namespace a = Namespace b \<and> Name a < Name b)"
instance
  by standard (auto simp: less_eq_Key_def less_Key_def Key.expand)
end

definition Key_String :: "Key \<Rightarrow> string" where
  "Key_String k = Name k @ ''@'' @ Namespace k"

definition Key_MarshalText :: "Key \<Rightarrow> string" where
  "Key_MarshalText k = Key_String k"

section \<open>Errors\<close>

text \<open>
  The errors the topology builder and the configuration provider create. A constructor stands for
  one \<open>fmt.Errorf\<close> or \<open>errors.New\<close> of the code, with the values its message carries; nesting is
  wrapping.
\<close>

datatype error =
    EUnmarshalKey string
  | EUnmarshalSTTKey string
  | EUnmarshalSTTService error
  | EUnmarshalSTTTrafficTarget error
  | EList string
  | ELoadServices error
  | ELoadResources error
  | EFindService Key
  | EFindRootService Key
  | EFindBackendService Key
  | EFindTrafficSplit Key
  | EFindTrafficTarget STTKey
  | EFindHTTPRouteGroup Key
  | EFindTCPRoute Key
  | EFindMatch string Key
  | EUnknownSpec string
  | EBuildSpec error
  | EPortMustBeExposed int32
  | EDestPortNotExposed int Key
  | EFindDestPorts Key error
  | ECircular Key Key
  | EIncomingPods error
  | ETooManyHTTPEntrypoints
  | EPortNotFound
  | EBuildEntrypoint int32 error
  | EBuildBackends int32 error
  | EUnknownTrafficType string
  | ETrafficTypeAnnotation ann_error
  | ESchemeAnnotation ann_error
  | EBuildMiddlewares ann_error
  | EBuildRoutersAndServices error
  | EBuildConfiguration error

section \<open>Text form of keys\<close>

text \<open>
  \<open>UnmarshalText\<close> writes into its receiver: the model takes the receiver and returns it with the
  error, if any. The receiver of a failed \<open>Key\<close> is unchanged; a \<open>ServiceTrafficTargetKey\<close> keeps
  the service it had already read when its second half is malformed.
\<close>

definition Key_UnmarshalText :: "Key \<Rightarrow> string \<Rightarrow> Key \<times> error option" where
  "Key_UnmarshalText k data =
     (case SplitChar (CHR ''@'') data of
        [p0, p1] \<Rightarrow> (Key p0 p1, None)
      | _ \<Rightarrow> (k, Some (EUnmarshalKey data)))"

text \<open>\<open>data[1 : len(data)-1]\<close> for data of at least two bytes.\<close>

definition strip_quotes :: "string \<Rightarrow> string" where
  "strip_quotes data = take (length data - 2) (drop 1 data)"

definition Key_UnmarshalJSON :: "Key \<Rightarrow> string \<Rightarrow> Key \<times> error option" where
  "Key_UnmarshalJSON k data =
     (if length data < 2 then (k, None) else Key_UnmarshalText k (strip_quotes data))"

definition STTKey_String :: "STTKey \<Rightarrow> string" where
  "STTKey_String k = Key_String (Service k) @ '':'' @ Key_String (TrafficTarget k)"

definition STTKey_MarshalText :: "STTKey \<Rightarrow> string" where
  "STTKey_MarshalText k = Key_MarshalText (Service k) @ '':'' @ Key_MarshalText (TrafficTarget k)"

definition STTKey_UnmarshalText :: "STTKey \<Rightarrow> string \<Rightarrow> STTKey \<times> error option" where
  "STTKey_UnmarshalText k data =
     (case SplitChar (CHR '':'') data of
        [p0, p1] \<Rightarrow>
          (case Key_UnmarshalText (Service k) p0 of
             (_, Some err) \<Rightarrow> (k, Some (EUnmarshalSTTService err))
           | (svc, None) \<Rightarrow>
               (case Key_UnmarshalText (TrafficTarget k) p1 of
                  (_, Some err) \<Rightarrow>
                    (STTKey svc (TrafficTarget k), Some (EUnmarshalSTTTrafficTarget err))
                | (tt, None) \<Rightarrow> (STTKey svc tt, None)))
      | _ \<Rightarrow> (k, Some (EUnmarshalSTTKey data)))"

definition STTKey_UnmarshalJSON :: "STTKey \<Rightarrow> string \<Rightarrow> STTKey \<times> error option" where
  "STTKey_UnmarshalJSON k data =
     (if length data < 2 then (k, None) else STTKey_UnmarshalText k (strip_quotes data))"

section \<open>The graph\<close>

record Service =
  svc_Name :: string
  svc_Namespace :: string
  svc_Selector :: "string \<rightharpoonup> string"
  svc_Annotations :: "string \<rightharpoonup> string"
  svc_Ports :: "ServicePort list"
  svc_ClusterIP :: string
  svc_Pods :: "Key list"
  svc_TrafficTargets :: "STTKey list"
  svc_TrafficSplits :: "Key list"
  svc_BackendOf :: "Key list"
  svc_Errors :: "error list"

record STTSource =
  src_ServiceAccount :: string
  src_Namespace :: string
  src_Pods :: "Key list"

record STTDestination =
  dst_ServiceAccount :: string
  dst_Namespace :: string
  dst_Ports :: "ServicePort list"
  dst_Pods :: "Key list"

text \<open>A traffic spec holds a route group with the matches selected from it, or a TCP route.\<close>

record TrafficSpec =
  spec_HTTPRouteGroup :: "HTTPRouteGroup option"
  spec_TCPRoute :: "TCPRoute option"
  spec_HTTPMatches :: "HTTPMatch list"

record ServiceTrafficTarget =
  stt_Service :: Key
  stt_Name :: string
  stt_Namespace :: string
  stt_Sources :: "STTSource list"
  stt_Destination :: STTDestination
  stt_Rules :: "TrafficSpec list"
  stt_Errors :: "error list"

record Pod =
  pod_Name :: string
  pod_Namespace :: string
  pod_ServiceAccount :: string
  pod_OwnerReferences :: "OwnerReference list"
  pod_ContainerPorts :: "ContainerPort list"
  pod_IP :: string
  pod_SourceOf :: "STTKey list"
  pod_DestinationOf :: "STTKey list"

record TrafficSplitBackend =
  tsb_Weight :: int
  tsb_Service :: Key

record TrafficSplit =
  ts_Name :: string
  ts_Namespace :: string
  ts_Service :: Key
  ts_Backends :: "TrafficSplitBackend list"
  ts_Rules :: "TrafficSpec list"
  ts_Incoming :: "Key list"
  ts_Errors :: "error list"

record Topology =
  Services :: "Key \<rightharpoonup> Service"
  Pods :: "Key \<rightharpoonup> Pod"
  ServiceTrafficTargets :: "STTKey \<rightharpoonup> ServiceTrafficTarget"
  TrafficSplits :: "Key \<rightharpoonup> TrafficSplit"

definition NewTopology :: Topology where
  "NewTopology = \<lparr>Services = Map.empty, Pods = Map.empty,
     ServiceTrafficTargets = Map.empty, TrafficSplits = Map.empty\<rparr>"

definition Service_AddError :: "error \<Rightarrow> Service \<Rightarrow> Service" where
  "Service_AddError err s = s\<lparr>svc_Errors := svc_Errors s @ [err]\<rparr>"

definition ServiceTrafficTarget_AddError :: "error \<Rightarrow> ServiceTrafficTarget \<Rightarrow> ServiceTrafficTarget" where
  "ServiceTrafficTarget_AddError err tt = tt\<lparr>stt_Errors := stt_Errors tt @ [err]\<rparr>"

definition TrafficSplit_AddError :: "error \<Rightarrow> TrafficSplit \<Rightarrow> TrafficSplit" where
  "TrafficSplit_AddError err ts = ts\<lparr>ts_Errors := ts_Errors ts @ [err]\<rparr>"

lemmas AddError_defs =
  Service_AddError_def ServiceTrafficTarget_AddError_def TrafficSplit_AddError_def

text \<open>The loop of \<open>ResolveServicePort\<close> over the container ports.\<close>

fun find_container_port :: "ServicePort \<Rightarrow> ContainerPort list \<Rightarrow> int32 \<times> bool" where
  "find_container_port svcPort [] = (0, False)"
| "find_container_port svcPort (containerPort # containerPorts) =
     (if ios_StrVal (sp_TargetPort svcPort) = cp_Name containerPort
         \<and> sp_Protocol svcPort = cp_Protocol containerPort
      then (cp_ContainerPort containerPort, True)
      else find_container_port svcPort containerPorts)"

definition ResolveServicePort :: "ServicePort \<Rightarrow> ContainerPort list \<Rightarrow> int32 \<times> bool" where
  "ResolveServicePort svcPort containerPorts =
     (if ios_Type (sp_TargetPort svcPort) = IntType
      then (ios_IntVal (sp_TargetPort svcPort), True)
      else find_container_port svcPort containerPorts)"

section \<open>Round trips of the text form\<close>

definition key_text_ok :: "Key \<Rightarrow> bool" where
  "key_text_ok k \<longleftrightarrow> CHR ''@'' \<notin> set (Name k) \<and> CHR ''@'' \<notin> set (Namespace k)"

lemma SplitChar_two_iff:
  "SplitChar c s = [p, q] \<longleftrightarrow> s = p @ c # q \<and> c \<notin> set p \<and> c \<notin> set q"
proof
  assume eq: "SplitChar c s = [p, q]"
  have "s = Join (SplitChar c s) [c]" by (rule Join_SplitChar [symmetric])
  then have "s = p @ c # q" by (simp add: eq)
  moreover have "c \<notin> set p" "c \<notin> set q"
    using SplitChar_parts_no_sep [of _ c s] by (auto simp: eq)
  ultimately show "s = p @ c # q \<and> c \<notin> set p \<and> c \<notin> set q" by blast
next
  assume "s = p @ c # q \<and> c \<notin> set p \<and> c \<notin> set q"
  then show "SplitChar c s = [p, q]" by (simp add: SplitChar_append SplitChar_no_sep)
qed

lemma Key_UnmarshalText_ok_iff:
  "Key_UnmarshalText k0 data = (k, None) \<longleftrightarrow> data = Key_MarshalText k \<and> key_text_ok k"
proof -
  have "Key_UnmarshalText k0 data = (k, None) \<longleftrightarrow> SplitChar (CHR ''@'') data = [Name k, Namespace k]"
    by (cases k) (auto simp: Key_UnmarshalText_def split: list.splits)
  then show ?thesis
    by (auto simp: SplitChar_two_iff Key_MarshalText_def Key_String_def key_text_ok_def)
qed

lemma Key_UnmarshalText_err:
  "snd (Key_UnmarshalText k0 data) \<noteq> None \<Longrightarrow> fst (Key_UnmarshalText k0 data) = k0"
  by (auto simp: Key_UnmarshalText_def split: list.splits)

definition stt_text_ok :: "STTKey \<Rightarrow> bool" where
  "stt_text_ok k \<longleftrightarrow> key_text_ok (Service k) \<and> key_text_ok (TrafficTarget k)
     \<and> CHR '':'' \<notin> set (Key_String (Service k)) \<and> CHR '':'' \<notin> set (Key_String (TrafficTarget k))"

lemma STTKey_UnmarshalText_ok_iff:
  "STTKey_UnmarshalText k0 data = (k, None) \<longleftrightarrow> data = STTKey_MarshalText k \<and> stt_text_ok k"
proof -
  have step: "STTKey_UnmarshalText k0 data = (k, None) \<longleftrightarrow>
      (\<exists>p q. SplitChar (CHR '':'') data = [p, q]
         \<and> Key_UnmarshalText (Service k0) p = (Service k, None)
         \<and> Key_UnmarshalText (TrafficTarget k0) q = (TrafficTarget k, None))"
    by (cases k) (auto simp: STTKey_UnmarshalText_def split: list.splits prod.splits option.splits)
  show ?thesis
    unfolding step
    by (auto simp: SplitChar_two_iff Key_UnmarshalText_ok_iff STTKey_MarshalText_def
        Key_MarshalText_def stt_text_ok_def)
qed

lemma strip_quotes_quoted [simp]: "strip_quotes (a # s @ [b]) = s"
  by (simp add: strip_quotes_def)

section \<open>Properties\<close>

text \<open>reading a key back from text succeeds exactly on the text that \<open>MarshalText\<close> writes for
  it, for keys whose name and namespace hold no \<open>@\<close>; any other text is an error and leaves the
  receiver as it was.\<close>

theorem key_text_round_trip:
  "(Key_UnmarshalText k0 data = (k, None)) = (data = Key_MarshalText k \<and> key_text_ok k)
   \<and> (fst (Key_UnmarshalText k0 data) = k0 \<or> snd (Key_UnmarshalText k0 data) = None)"
  using Key_UnmarshalText_ok_iff Key_UnmarshalText_err by blast

text \<open>a traffic-target key survives the trip through a quoted JSON map key: unmarshalling the
  quoted text of \<open>k\<close> gives \<open>k\<close> back without error exactly when no part of \<open>k\<close> holds a
  separator.\<close>

theorem stt_key_json_round_trip:
  "STTKey_UnmarshalJSON k0 (CHR 0x22 # STTKey_MarshalText k @ [CHR 0x22]) = (k, None)
     \<longleftrightarrow> stt_text_ok k"
  by (simp add: STTKey_UnmarshalJSON_def STTKey_UnmarshalText_ok_iff)

lemma find_container_port_eq:
  "find_container_port sp cps =
     (case List.find (\<lambda>c. ios_StrVal (sp_TargetPort sp) = cp_Name c \<and> sp_Protocol sp = cp_Protocol c) cps of
        None \<Rightarrow> (0, False) | Some c \<Rightarrow> (cp_ContainerPort c, True))"
  by (induction cps) auto

lemma ResolveServicePort_True_iff:
  "snd (ResolveServicePort sp cps) \<longleftrightarrow>
     ios_Type (sp_TargetPort sp) = IntType
   \<or> (\<exists>c\<in>set cps. ios_StrVal (sp_TargetPort sp) = cp_Name c \<and> sp_Protocol sp = cp_Protocol c)"
  by (cases "ios_Type (sp_TargetPort sp)")
     (auto simp: ResolveServicePort_def find_container_port_eq find_None_iff find_Some_iff
        split: option.splits)

end
