(* ===== verification/Resources.thy ===== *)
theory Resources
  imports Topology ResourceFilter
begin

text \<open>
  The loading half of \<open>pkg/topology/builder.go\<close>: listing the cluster, dropping ignored objects and
  indexing what is left by key, and the pods by service account, by service, and by service within
  a service account. The listers are parameters: a \<open>cluster\<close> holds what each of them returns, with
  \<open>None\<close> for an error; a lister that may be nil is an option on top of that.
\<close>

record cluster =
  l_Services :: "KService list option"
  l_Pods :: "KPod list option"
  l_Endpoints :: "Endpoints list option"
  l_TrafficSplits :: "KTrafficSplit list option"
  l_HTTPRouteGroups :: "HTTPRouteGroup list option option"
  l_TCPRoutes :: "TCPRoute list option option"
  l_TrafficTargets :: "KTrafficTarget list option option"

record resources =
  r_Services :: "Key \<rightharpoonup> KService"
  r_TrafficTargets :: "Key \<rightharpoonup> KTrafficTarget"
  r_TrafficSplits :: "Key \<rightharpoonup> KTrafficSplit"
  r_HTTPRouteGroups :: "Key \<rightharpoonup> HTTPRouteGroup"
  r_TCPRoutes :: "Key \<rightharpoonup> TCPRoute"
  PodsBySvc :: "Key \<rightharpoonup> KPod list"
  PodsByServiceAccounts :: "Key \<rightharpoonup> KPod list"
  PodsBySvcBySa :: "Key \<rightharpoonup> (Key \<rightharpoonup> KPod list)"

definition empty_resources :: resources where
  "empty_resources = \<lparr>r_Services = Map.empty, r_TrafficTargets = Map.empty,
     r_TrafficSplits = Map.empty, r_HTTPRouteGroups = Map.empty, r_TCPRoutes = Map.empty,
     PodsBySvc = Map.empty, PodsByServiceAccounts = Map.empty, PodsBySvcBySa = Map.empty\<rparr>"

text \<open>Reading a map of slices: a missing key gives the nil slice.\<close>

definition at :: "('k \<rightharpoonup> 'v list) \<Rightarrow> 'k \<Rightarrow> 'v list" where
  "at m k = (case m k of None \<Rightarrow> [] | Some vs \<Rightarrow> vs)"

lemma at_upd [simp]: "at (m(k \<mapsto> vs)) k' = (if k' = k then vs else at m k')"
  by (simp add: at_def)

lemma at_empty [simp]: "at Map.empty k = []"
  by (simp add: at_def)

definition meta_key :: "ObjectMeta \<Rightarrow> Key" where
  "meta_key m = Key (om_Name m) (om_Namespace m)"

definition pod_key :: "KPod \<Rightarrow> Key" where
  "pod_key pod = meta_key (kp_meta pod)"

definition sa_key :: "KPod \<Rightarrow> Key" where
  "sa_key pod = Key (kp_ServiceAccountName pod) (om_Namespace (kp_meta pod))"

section \<open>Loading\<close>

fun load_services :: "ResourceFilter \<Rightarrow> KService list \<Rightarrow> resources \<Rightarrow> resources" where
  "load_services flt [] res = res"
| "load_services flt (svc # svcs) res =
     (if IsIgnored flt (ServiceObj svc) then load_services flt svcs res
      else load_services flt svcs
        (res\<lparr>r_Services := (r_Services res)(meta_key (ks_meta svc) \<mapsto> svc)\<rparr>))"

definition loadServices :: "cluster \<Rightarrow> ResourceFilter \<Rightarrow> resources \<Rightarrow> error + resources" where
  "loadServices b flt res =
     (case l_Services b of
        None \<Rightarrow> Inl (EList ''Services'')
      | Some svcs \<Rightarrow> Inr (load_services flt svcs res))"

section \<open>Pod indexes\<close>

fun indexPodsByServiceAccount ::
  "ResourceFilter \<Rightarrow> KPod list \<Rightarrow> resources \<Rightarrow> (Key \<rightharpoonup> KPod) \<Rightarrow> resources \<times> (Key \<rightharpoonup> KPod)" where
  "indexPodsByServiceAccount flt [] r podsByName = (r, podsByName)"
| "indexPodsByServiceAccount flt (pod # pods) r podsByName =
     (if IsIgnored flt (MetaObj (kp_meta pod)) then indexPodsByServiceAccount flt pods r podsByName
      else indexPodsByServiceAccount flt pods
        (r\<lparr>PodsByServiceAccounts := (PodsByServiceAccounts r)
             (sa_key pod \<mapsto> at (PodsByServiceAccounts r) (sa_key pod) @ [pod])\<rparr>)
        (podsByName(pod_key pod \<mapsto> pod)))"

definition indexPodByService ::
  "Endpoints \<Rightarrow> EndpointAddress \<Rightarrow> (Key \<rightharpoonup> KPod) \<Rightarrow> resources \<times> Key set \<Rightarrow> resources \<times> Key set" where
  "indexPodByService ep address podsByName st =
     (let (r, indexedServicePods) = st in
      case ea_TargetRef address of
        None \<Rightarrow> (r, indexedServicePods)
      | Some ref \<Rightarrow>
          let keyPod = Key (ref_Name ref) (ref_Namespace ref) in
          if keyPod \<in> indexedServicePods then (r, indexedServicePods)
          else case podsByName keyPod of
            None \<Rightarrow> (r, indexedServicePods)
          | Some pod \<Rightarrow>
              let keySA = sa_key pod;
                  keyEP = meta_key (ke_meta ep);
                  bySvc = (case PodsBySvcBySa r keySA of None \<Rightarrow> Map.empty | Some m \<Rightarrow> m)
              in (r\<lparr>PodsBySvcBySa := (PodsBySvcBySa r)(keySA \<mapsto> bySvc(keyEP \<mapsto> at bySvc keyEP @ [pod])),
                    PodsBySvc := (PodsBySvc r)(keyEP \<mapsto> at (PodsBySvc r) keyEP @ [pod])\<rparr>,
                  insert keyPod indexedServicePods))"

definition indexEndpoints ::
  "Endpoints \<Rightarrow> (Key \<rightharpoonup> KPod) \<Rightarrow> resources \<Rightarrow> resources" where
  "indexEndpoints ep podsByName r =
     fst (fold (\<lambda>subset st. fold (\<lambda>address. indexPodByService ep address podsByName)
                  (es_Addresses subset) st)
            (ke_Subsets ep) (r, {}))"

fun indexPodsByService ::
  "ResourceFilter \<Rightarrow> Endpoints list \<Rightarrow> (Key \<rightharpoonup> KPod) \<Rightarrow> resources \<Rightarrow> resources" where
  "indexPodsByService flt [] podsByName r = r"
| "indexPodsByService flt (ep # eps) podsByName r =
     (if IsIgnored flt (MetaObj (ke_meta ep)) then indexPodsByService flt eps podsByName r
      else indexPodsByService flt eps podsByName (indexEndpoints ep podsByName r))"

definition indexPods :: "ResourceFilter \<Rightarrow> KPod list \<Rightarrow> Endpoints list \<Rightarrow> resources \<Rightarrow> resources" where
  "indexPods flt pods eps r =
     (let (r', podsByName) = indexPodsByServiceAccount flt pods r Map.empty
      in indexPodsByService flt eps podsByName r')"

section \<open>SMI indexes\<close>

definition index_httpRouteGroup :: "ResourceFilter \<Rightarrow> HTTPRouteGroup \<Rightarrow> resources \<Rightarrow> resources" where
  "index_httpRouteGroup flt g r =
     (if IsIgnored flt (MetaObj (hrg_meta g)) then r
      else r\<lparr>r_HTTPRouteGroups := (r_HTTPRouteGroups r)(meta_key (hrg_meta g) \<mapsto> g)\<rparr>)"

definition index_tcpRoute :: "ResourceFilter \<Rightarrow> TCPRoute \<Rightarrow> resources \<Rightarrow> resources" where
  "index_tcpRoute flt t r =
     (if IsIgnored flt (MetaObj (tcr_meta t)) then r
      else r\<lparr>r_TCPRoutes := (r_TCPRoutes r)(meta_key (tcr_meta t) \<mapsto> t)\<rparr>)"

text \<open>A traffic target without a destination namespace gets its own namespace.\<close>

definition default_destination :: "KTrafficTarget \<Rightarrow> KTrafficTarget" where
  "default_destination tt =
     (if is_Namespace (ktt_Destination tt) = []
      then tt\<lparr>ktt_Destination := (ktt_Destination tt)\<lparr>is_Namespace := om_Namespace (ktt_meta tt)\<rparr>\<rparr>
      else tt)"

definition index_trafficTarget :: "ResourceFilter \<Rightarrow> KTrafficTarget \<Rightarrow> resources \<Rightarrow> resources" where
  "index_trafficTarget flt tt r =
     (if IsIgnored flt (MetaObj (ktt_meta tt)) then r
      else r\<lparr>r_TrafficTargets :=
               (r_TrafficTargets r)(meta_key (ktt_meta tt) \<mapsto> default_destination tt)\<rparr>)"

definition index_trafficSplit :: "ResourceFilter \<Rightarrow> KTrafficSplit \<Rightarrow> resources \<Rightarrow> resources" where
  "index_trafficSplit flt ts r =
     (if IsIgnored flt (MetaObj (kts_meta ts)) then r
      else r\<lparr>r_TrafficSplits := (r_TrafficSplits r)(meta_key (kts_meta ts) \<mapsto> ts)\<rparr>)"

definition indexSMIResources ::
  "ResourceFilter \<Rightarrow> KTrafficTarget list \<Rightarrow> KTrafficSplit list \<Rightarrow> TCPRoute list
   \<Rightarrow> HTTPRouteGroup list \<Rightarrow> resources \<Rightarrow> resources" where
  "indexSMIResources flt tts tss tcpRts httpRtGrps r =
     fold (index_trafficSplit flt) tss
       (fold (index_trafficTarget flt) tts
         (fold (index_tcpRoute flt) tcpRts
           (fold (index_httpRouteGroup flt) httpRtGrps r)))"

text \<open>A lister that may be nil is not consulted, and lists nothing, when it is.\<close>

definition list_optional :: "string \<Rightarrow> 'a list option option \<Rightarrow> error + 'a list" where
  "list_optional what lister =
     (case lister of
        None \<Rightarrow> Inr []
      | Some None \<Rightarrow> Inl (EList what)
      | Some (Some xs) \<Rightarrow> Inr xs)"

definition list_required :: "string \<Rightarrow> 'a list option \<Rightarrow> error + 'a list" where
  "list_required what lister = (case lister of None \<Rightarrow> Inl (EList what) | Some xs \<Rightarrow> Inr xs)"

definition loadResources :: "cluster \<Rightarrow> ResourceFilter \<Rightarrow> error + resources" where
  "loadResources b flt =
     bind_res (wrap_err ELoadServices (loadServices b flt empty_resources)) (\<lambda>res.
     bind_res (list_required ''Pods'' (l_Pods b)) (\<lambda>pods.
     bind_res (list_required ''Endpoints'' (l_Endpoints b)) (\<lambda>eps.
     bind_res (list_required ''TrafficSplits'' (l_TrafficSplits b)) (\<lambda>tss.
     bind_res (list_optional ''HTTPRouteGroups'' (l_HTTPRouteGroups b)) (\<lambda>httpRtGrps.
     bind_res (list_optional ''TCPRouteGroups'' (l_TCPRoutes b)) (\<lambda>tcpRts.
     bind_res (list_optional ''TrafficTargets'' (l_TrafficTargets b)) (\<lambda>tts.
       Inr (indexPods flt pods eps (indexSMIResources flt tts tss tcpRts httpRtGrps res)))))))))"

section \<open>What the indexes hold\<close>

text \<open>The pods of a service within a service account, as the builder reads them.\<close>

definition pods_by_svc_by_sa :: "resources \<Rightarrow> Key \<Rightarrow> Key \<Rightarrow> KPod list" where
  "pods_by_svc_by_sa r sa svc =
     at (case PodsBySvcBySa r sa of None \<Rightarrow> Map.empty | Some m \<Rightarrow> m) svc"

definition index_consistent :: "resources \<Rightarrow> bool" where
  "index_consistent r \<longleftrightarrow>
     (\<forall>sa svc. pods_by_svc_by_sa r sa svc = filter (\<lambda>p. sa_key p = sa) (at (PodsBySvc r) svc))"

lemma indexPodByService_cases:
  obtains "indexPodByService ep a pbn (r, I) = (r, I)"
  | ref pod where "ea_TargetRef a = Some ref"
      "Key (ref_Name ref) (ref_Namespace ref) \<notin> I"
      "pbn (Key (ref_Name ref) (ref_Namespace ref)) = Some pod"
      "indexPodByService ep a pbn (r, I) =
        (let bySvc = (case PodsBySvcBySa r (sa_key pod) of None \<Rightarrow> Map.empty | Some m \<Rightarrow> m);
             keyEP = meta_key (ke_meta ep) in
         (r\<lparr>PodsBySvcBySa := (PodsBySvcBySa r)(sa_key pod \<mapsto> bySvc(keyEP \<mapsto> at bySvc keyEP @ [pod])),
            PodsBySvc := (PodsBySvc r)(keyEP \<mapsto> at (PodsBySvc r) keyEP @ [pod])\<rparr>,
          insert (Key (ref_Name ref) (ref_Namespace ref)) I))"
proof (cases "ea_TargetRef a")
  case None
  then show ?thesis using that(1) by (simp add: indexPodByService_def)
next
  case (Some ref)
  then show ?thesis
    using that
    by (cases "Key (ref_Name ref) (ref_Namespace ref) \<in> I";
        cases "pbn (Key (ref_Name ref) (ref_Namespace ref))")
       (auto simp: indexPodByService_def Let_def)
qed

lemma indexPodByService_consistent:
  "index_consistent r \<Longrightarrow> index_consistent (fst (indexPodByService ep a pbn (r, I)))"
  by (rule indexPodByService_cases [of ep a pbn r I])
     (auto simp: index_consistent_def pods_by_svc_by_sa_def Let_def split: option.splits)

definition addr_keys :: "EndpointAddress list \<Rightarrow> Key set" where
  "addr_keys as = {Key (ref_Name ref) (ref_Namespace ref) | ref. \<exists>a\<in>set as. ea_TargetRef a = Some ref}"

definition ep_addresses :: "Endpoints \<Rightarrow> EndpointAddress list" where
  "ep_addresses ep = concat (map es_Addresses (ke_Subsets ep))"

lemma fold_fold_concat: "fold (\<lambda>x. fold f (g x)) xs s = fold f (concat (map g xs)) s"
  by (induction xs arbitrary: s) auto

lemma indexEndpoints_eq:
  "indexEndpoints ep pbn r = fst (fold (\<lambda>a. indexPodByService ep a pbn) (ep_addresses ep) (r, {}))"
  by (simp add: indexEndpoints_def ep_addresses_def fold_fold_concat)

lemma addr_keys_simps [simp]:
  "addr_keys [] = {}"
  "addr_keys (a # as) =
     (case ea_TargetRef a of None \<Rightarrow> {} | Some ref \<Rightarrow> {Key (ref_Name ref) (ref_Namespace ref)}) \<union> addr_keys as"
  by (auto simp: addr_keys_def split: option.splits)

definition keys_match :: "(Key \<rightharpoonup> KPod) \<Rightarrow> bool" where
  "keys_match pbn \<longleftrightarrow> (\<forall>k p. pbn k = Some p \<longrightarrow> pod_key p = k)"

text \<open>One endpoints object: the pods it adds to its service.\<close>

lemma fold_indexPodByService:
  assumes "keys_match pbn" and "fold (\<lambda>a. indexPodByService ep a pbn) as (r, I) = (r', I')"
  shows "\<exists>new. PodsBySvc r' = (if new = [] then PodsBySvc r else
             (PodsBySvc r)(meta_key (ke_meta ep) \<mapsto> at (PodsBySvc r) (meta_key (ke_meta ep)) @ new))
         \<and> distinct (map pod_key new) \<and> set new \<subseteq> ran pbn
         \<and> pod_key ` set new = (addr_keys as \<inter> dom pbn) - I"
  using assms
proof (induction as arbitrary: r I)
  case Nil
  then show ?case by auto
next
  case (Cons a as)
  show ?case
  proof (cases rule: indexPodByService_cases [of ep a pbn r I])
    case 1
    from 1 Cons.prems have "fold (\<lambda>a. indexPodByService ep a pbn) as (r, I) = (r', I')" by simp
    from Cons.IH [OF Cons.prems(1) this] obtain new where new:
      "PodsBySvc r' = (if new = [] then PodsBySvc r else
             (PodsBySvc r)(meta_key (ke_meta ep) \<mapsto> at (PodsBySvc r) (meta_key (ke_meta ep)) @ new))"
      "distinct (map pod_key new)" "set new \<subseteq> ran pbn"
      "pod_key ` set new = (addr_keys as \<inter> dom pbn) - I" by blast
    have "addr_keys (a # as) \<inter> dom pbn - I = addr_keys as \<inter> dom pbn - I"
      using 1 by (auto simp: indexPodByService_def Let_def split: option.splits if_splits)
    with new show ?thesis by metis
  next
    case (2 ref pod)
    let ?k = "Key (ref_Name ref) (ref_Namespace ref)"
    let ?ep = "meta_key (ke_meta ep)"
    obtain r1 where r1: "indexPodByService ep a pbn (r, I) = (r1, insert ?k I)"
      and svc1: "PodsBySvc r1 = (PodsBySvc r)(?ep \<mapsto> at (PodsBySvc r) ?ep @ [pod])"
      using 2(4) by (simp add: Let_def)
    from r1 Cons.prems have "fold (\<lambda>a. indexPodByService ep a pbn) as (r1, insert ?k I) = (r', I')"
      by simp
    from Cons.IH [OF Cons.prems(1) this] obtain new where new:
      "PodsBySvc r' = (if new = [] then PodsBySvc r1 else
             (PodsBySvc r1)(?ep \<mapsto> at (PodsBySvc r1) ?ep @ new))"
      "distinct (map pod_key new)" "set new \<subseteq> ran pbn"
      "pod_key ` set new = (addr_keys as \<inter> dom pbn) - insert ?k I" by blast
    have pk: "pod_key pod = ?k" using Cons.prems(1) 2(3) by (simp add: keys_match_def)
    have "PodsBySvc r' = (PodsBySvc r)(?ep \<mapsto> at (PodsBySvc r) ?ep @ pod # new)"
      using new(1) svc1 by auto
    moreover have "distinct (map pod_key (pod # new))" using new(2,4) pk by auto
    moreover have "set (pod # new) \<subseteq> ran pbn" using new(3) 2(3) by (auto simp: ran_def)
    moreover have "pod_key ` set (pod # new) = addr_keys (a # as) \<inter> dom pbn - I"
      using new(4) pk 2(1,2,3) by auto
    ultimately show ?thesis by (intro exI [of _ "pod # new"]) auto
  qed
qed

lemma fold_indexPodByService_consistent:
  "index_consistent r \<Longrightarrow> index_consistent (fst (fold (\<lambda>a. indexPodByService ep a pbn) as (r, I)))"
proof (induction as arbitrary: r I)
  case (Cons a as)
  obtain r1 I1 where "indexPodByService ep a pbn (r, I) = (r1, I1)" by fastforce
  with Cons indexPodByService_consistent [OF Cons.prems, of ep a pbn I] show ?case by simp
qed simp

lemma indexEndpoints_consistent: "index_consistent r \<Longrightarrow> index_consistent (indexEndpoints ep pbn r)"
  by (simp add: indexEndpoints_eq fold_indexPodByService_consistent)

lemma indexPodsByService_consistent:
  "index_consistent r \<Longrightarrow> index_consistent (indexPodsByService flt eps pbn r)"
  by (induction eps arbitrary: r) (auto simp: indexEndpoints_consistent)

lemma indexEndpoints_pods:
  assumes "keys_match pbn"
  shows "\<exists>new. PodsBySvc (indexEndpoints ep pbn r) = (if new = [] then PodsBySvc r else
             (PodsBySvc r)(meta_key (ke_meta ep) \<mapsto> at (PodsBySvc r) (meta_key (ke_meta ep)) @ new))
         \<and> distinct (map pod_key new) \<and> set new \<subseteq> ran pbn
         \<and> pod_key ` set new = addr_keys (ep_addresses ep) \<inter> dom pbn"
proof -
  obtain r' I' where "fold (\<lambda>a. indexPodByService ep a pbn) (ep_addresses ep) (r, {}) = (r', I')"
    by fastforce
  from fold_indexPodByService [OF assms this] this show ?thesis
    by (simp add: indexEndpoints_eq)
qed

text \<open>The endpoints objects the filter lets through, and the pods they reference for a service.\<close>

definition seen_endpoints :: "ResourceFilter \<Rightarrow> Endpoints list \<Rightarrow> Endpoints list" where
  "seen_endpoints flt eps = filter (\<lambda>ep. \<not> IsIgnored flt (MetaObj (ke_meta ep))) eps"

definition referenced :: "Endpoints list \<Rightarrow> Key \<Rightarrow> Key set" where
  "referenced eps k = (\<Union>ep\<in>{ep \<in> set eps. meta_key (ke_meta ep) = k}. addr_keys (ep_addresses ep))"

lemma seen_endpoints_simps [simp]:
  "seen_endpoints flt [] = []"
  "seen_endpoints flt (ep # eps) =
     (if IsIgnored flt (MetaObj (ke_meta ep)) then seen_endpoints flt eps
      else ep # seen_endpoints flt eps)"
  by (simp_all add: seen_endpoints_def)

lemma indexPodsByService_other:
  assumes "keys_match pbn" and "k \<notin> (meta_key \<circ> ke_meta) ` set (seen_endpoints flt eps)"
  shows "at (PodsBySvc (indexPodsByService flt eps pbn r)) k = at (PodsBySvc r) k"
  using assms(2)
proof (induction eps arbitrary: r)
  case (Cons ep eps)
  show ?case
  proof (cases "IsIgnored flt (MetaObj (ke_meta ep))")
    case True
    with Cons show ?thesis by simp
  next
    case False
    with Cons have "k \<noteq> meta_key (ke_meta ep)" by auto
    then have "at (PodsBySvc (indexEndpoints ep pbn r)) k = at (PodsBySvc r) k"
      using indexEndpoints_pods [OF assms(1), of ep r] by auto
    with False Cons show ?thesis by simp
  qed
qed simp

lemma indexPodsByService_pods:
  assumes "keys_match pbn"
    and "distinct (map (meta_key \<circ> ke_meta) (seen_endpoints flt eps))"
    and "ep \<in> set (seen_endpoints flt eps)" "meta_key (ke_meta ep) = k" "at (PodsBySvc r) k = []"
  shows "\<exists>new. at (PodsBySvc (indexPodsByService flt eps pbn r)) k = new
         \<and> distinct (map pod_key new) \<and> set new \<subseteq> ran pbn
         \<and> pod_key ` set new = addr_keys (ep_addresses ep) \<inter> dom pbn"
  using assms(2,3,5)
proof (induction eps arbitrary: r)
  case (Cons e eps)
  show ?case
  proof (cases "IsIgnored flt (MetaObj (ke_meta e))")
    case True
    with Cons show ?thesis by simp
  next
    case seen: False
    show ?thesis
    proof (cases "e = ep")
      case True
      with seen Cons.prems assms(4) have "k \<notin> (meta_key \<circ> ke_meta) ` set (seen_endpoints flt eps)"
        by auto
      from indexPodsByService_other [OF assms(1) this] True seen
        indexEndpoints_pods [OF assms(1), of ep r] Cons.prems(3) assms(4)
      show ?thesis by (auto split: if_splits)
    next
      case False
      with Cons.prems seen have ep: "ep \<in> set (seen_endpoints flt eps)" by simp
      have "(meta_key \<circ> ke_meta) e \<notin> (meta_key \<circ> ke_meta) ` set (seen_endpoints flt eps)"
        using Cons.prems(1) seen by simp
      with ep have "k \<noteq> meta_key (ke_meta e)"
        using assms(4) by (metis comp_apply image_eqI)
      then have "at (PodsBySvc (indexEndpoints e pbn r)) k = []"
        using indexEndpoints_pods [OF assms(1), of e r] Cons.prems(3) by auto
      with Cons.IH [of "indexEndpoints e pbn r"] Cons.prems(1) ep seen show ?thesis by simp
    qed
  qed
qed simp

text \<open>The pods the filter lets through.\<close>

definition seen_pods :: "ResourceFilter \<Rightarrow> KPod list \<Rightarrow> KPod list" where
  "seen_pods flt pods = filter (\<lambda>p. \<not> IsIgnored flt (MetaObj (kp_meta p))) pods"

lemma indexPodsByServiceAccount_eq:
  "indexPodsByServiceAccount flt pods r pbn = (r', pbn') \<Longrightarrow>
     pbn' = pbn ++ map_of (rev (map (\<lambda>p. (pod_key p, p)) (seen_pods flt pods)))
   \<and> (\<forall>sa. at (PodsByServiceAccounts r') sa
       = at (PodsByServiceAccounts r) sa @ filter (\<lambda>p. sa_key p = sa) (seen_pods flt pods))
   \<and> PodsBySvc r' = PodsBySvc r \<and> PodsBySvcBySa r' = PodsBySvcBySa r"
proof (induction pods arbitrary: r pbn)
  case Nil
  then show ?case by (simp add: seen_pods_def)
next
  case (Cons p pods)
  show ?case
  proof (cases "IsIgnored flt (MetaObj (kp_meta p))")
    case True
    with Cons show ?thesis by (simp add: seen_pods_def)
  next
    case False
    let ?r = "r\<lparr>PodsByServiceAccounts := (PodsByServiceAccounts r)
             (sa_key p \<mapsto> at (PodsByServiceAccounts r) (sa_key p) @ [p])\<rparr>"
    from False Cons.prems
    have "indexPodsByServiceAccount flt pods ?r (pbn(pod_key p \<mapsto> p)) = (r', pbn')" by simp
    from Cons.IH [OF this] False show ?thesis
      by (auto simp: seen_pods_def simp del: fun_upd_apply)
  qed
qed

lemma podsByName_keys_match:
  "indexPodsByServiceAccount flt pods r Map.empty = (r', pbn) \<Longrightarrow> keys_match pbn
   \<and> dom pbn = pod_key ` set (seen_pods flt pods) \<and> ran pbn \<subseteq> set (seen_pods flt pods)"
proof -
  let ?xs = "rev (map (\<lambda>p. (pod_key p, p)) (seen_pods flt pods))"
  assume "indexPodsByServiceAccount flt pods r Map.empty = (r', pbn)"
  then have pbn: "pbn = map_of ?xs" by (drule_tac indexPodsByServiceAccount_eq) simp
  have "dom pbn = fst ` set ?xs" unfolding pbn by (rule dom_map_of_conv_image_fst)
  moreover have "keys_match pbn" "ran pbn \<subseteq> set (seen_pods flt pods)"
    unfolding pbn by (auto simp: keys_match_def ran_def dest!: map_of_SomeD)
  ultimately show ?thesis by (simp add: image_image)
qed

section \<open>Frames of loading\<close>

lemma load_services_frame [frame_simps]:
  "r_TrafficTargets (load_services flt svcs r) = r_TrafficTargets r"
  "r_TrafficSplits (load_services flt svcs r) = r_TrafficSplits r"
  "PodsBySvc (load_services flt svcs r) = PodsBySvc r"
  "PodsBySvcBySa (load_services flt svcs r) = PodsBySvcBySa r"
  "PodsByServiceAccounts (load_services flt svcs r) = PodsByServiceAccounts r"
  by (induction svcs arbitrary: r) auto

lemma load_services_Services:
  "r_Services (load_services flt svcs r) k = Some s \<Longrightarrow>
     r_Services r k = Some s
   \<or> (s \<in> set svcs \<and> \<not> IsIgnored flt (ServiceObj s) \<and> k = meta_key (ks_meta s))"
proof (induction svcs arbitrary: r)
  case (Cons a svcs)
  show ?case
  proof (cases "IsIgnored flt (ServiceObj a)")
    case True
    with Cons.prems have "r_Services (load_services flt svcs r) k = Some s" by simp
    from Cons.IH [OF this] show ?thesis by auto
  next
    case False
    with Cons.prems have
      "r_Services (load_services flt svcs
         (r\<lparr>r_Services := (r_Services r)(meta_key (ks_meta a) \<mapsto> a)\<rparr>)) k = Some s" by simp
    from Cons.IH [OF this] False show ?thesis by (auto split: if_splits)
  qed
qed simp

lemmas smi_index_defs =
  index_httpRouteGroup_def index_tcpRoute_def index_trafficTarget_def index_trafficSplit_def

lemma fold_frame:
  assumes "\<And>x s. g (f x s) = g s"
  shows "g (fold f xs s) = g s"
  using assms by (induction xs arbitrary: s) simp_all

lemma indexSMIResources_frame [frame_simps]:
  "r_Services (indexSMIResources flt tts tss tcps hrgs r) = r_Services r"
  "PodsBySvc (indexSMIResources flt tts tss tcps hrgs r) = PodsBySvc r"
  "PodsBySvcBySa (indexSMIResources flt tts tss tcps hrgs r) = PodsBySvcBySa r"
  "PodsByServiceAccounts (indexSMIResources flt tts tss tcps hrgs r) = PodsByServiceAccounts r"
  unfolding indexSMIResources_def
  by (simp_all add: fold_frame smi_index_defs)

section \<open>What loading returns\<close>

text \<open>Every indexed object is stored under its own key, and no ignored object is indexed.\<close>

definition keys_ok :: "resources \<Rightarrow> bool" where
  "keys_ok r \<longleftrightarrow>
     (\<forall>k s. r_Services r k = Some s \<longrightarrow> k = meta_key (ks_meta s))
   \<and> (\<forall>k t. r_TrafficTargets r k = Some t \<longrightarrow> k = meta_key (ktt_meta t))
   \<and> (\<forall>k t. r_TrafficSplits r k = Some t \<longrightarrow> k = meta_key (kts_meta t))
   \<and> (\<forall>k g. r_HTTPRouteGroups r k = Some g \<longrightarrow> k = meta_key (hrg_meta g))
   \<and> (\<forall>k t. r_TCPRoutes r k = Some t \<longrightarrow> k = meta_key (tcr_meta t))"

definition none_ignored :: "ResourceFilter \<Rightarrow> resources \<Rightarrow> bool" where
  "none_ignored flt r \<longleftrightarrow>
     (\<forall>k s. r_Services r k = Some s \<longrightarrow> \<not> IsIgnored flt (ServiceObj s))
   \<and> (\<forall>k t. r_TrafficTargets r k = Some t \<longrightarrow> \<not> IsIgnored flt (MetaObj (ktt_meta t)))
   \<and> (\<forall>k t. r_TrafficSplits r k = Some t \<longrightarrow> \<not> IsIgnored flt (MetaObj (kts_meta t)))
   \<and> (\<forall>k g. r_HTTPRouteGroups r k = Some g \<longrightarrow> \<not> IsIgnored flt (MetaObj (hrg_meta g)))
   \<and> (\<forall>k t. r_TCPRoutes r k = Some t \<longrightarrow> \<not> IsIgnored flt (MetaObj (tcr_meta t)))"

lemma default_destination_meta [simp]: "ktt_meta (default_destination tt) = ktt_meta tt"
  by (simp add: default_destination_def)

lemma index_keys_ok:
  "keys_ok r \<Longrightarrow> keys_ok (index_httpRouteGroup flt g r)"
  "keys_ok r \<Longrightarrow> keys_ok (index_tcpRoute flt t r)"
  "keys_ok r \<Longrightarrow> keys_ok (index_trafficTarget flt tt r)"
  "keys_ok r \<Longrightarrow> keys_ok (index_trafficSplit flt ts r)"
  by (simp_all add: smi_index_defs keys_ok_def)

lemma index_none_ignored:
  "none_ignored flt r \<Longrightarrow> none_ignored flt (index_httpRouteGroup flt g r)"
  "none_ignored flt r \<Longrightarrow> none_ignored flt (index_tcpRoute flt t r)"
  "none_ignored flt r \<Longrightarrow> none_ignored flt (index_trafficTarget flt tt r)"
  "none_ignored flt r \<Longrightarrow> none_ignored flt (index_trafficSplit flt ts r)"
  by (simp_all add: smi_index_defs none_ignored_def)

lemma load_services_ok:
  "keys_ok r \<and> none_ignored flt r \<Longrightarrow>
     keys_ok (load_services flt svcs r) \<and> none_ignored flt (load_services flt svcs r)"
proof (induction svcs arbitrary: r)
  case (Cons s svcs)
  show ?case
  proof (cases "IsIgnored flt (ServiceObj s)")
    case True
    with Cons show ?thesis by simp
  next
    case False
    have "keys_ok (r\<lparr>r_Services := (r_Services r)(meta_key (ks_meta s) \<mapsto> s)\<rparr>)"
      using Cons.prems by (simp add: keys_ok_def)
    moreover have "none_ignored flt (r\<lparr>r_Services := (r_Services r)(meta_key (ks_meta s) \<mapsto> s)\<rparr>)"
      using Cons.prems False by (simp add: none_ignored_def)
    ultimately show ?thesis using Cons.IH False by simp
  qed
qed simp

lemma indexSMIResources_ok:
  assumes "keys_ok r \<and> none_ignored flt r"
  shows "keys_ok (indexSMIResources flt tts tss tcps hrgs r)
       \<and> none_ignored flt (indexSMIResources flt tts tss tcps hrgs r)"
  unfolding indexSMIResources_def
  by (intro fold_invariant_rule [where P = "\<lambda>r. keys_ok r \<and> none_ignored flt r"])
     (use assms index_keys_ok index_none_ignored in auto)

text \<open>Indexing pods writes the pod indexes only.\<close>

lemma indexPodByService_frame:
  "r_Services (fst (indexPodByService ep a pbn st)) = r_Services (fst st)"
  "r_TrafficTargets (fst (indexPodByService ep a pbn st)) = r_TrafficTargets (fst st)"
  "r_TrafficSplits (fst (indexPodByService ep a pbn st)) = r_TrafficSplits (fst st)"
  "r_HTTPRouteGroups (fst (indexPodByService ep a pbn st)) = r_HTTPRouteGroups (fst st)"
  "r_TCPRoutes (fst (indexPodByService ep a pbn st)) = r_TCPRoutes (fst st)"
  "PodsByServiceAccounts (fst (indexPodByService ep a pbn st)) = PodsByServiceAccounts (fst st)"
  by (cases st; simp add: indexPodByService_def Let_def split: option.splits)+

lemma fold_indexPodByService_frame:
  fixes ep pbn
  defines "f \<equiv> fold (\<lambda>a. indexPodByService ep a pbn)"
  shows "r_Services (fst (f as st)) = r_Services (fst st)"
    "r_TrafficTargets (fst (f as st)) = r_TrafficTargets (fst st)"
    "r_TrafficSplits (fst (f as st)) = r_TrafficSplits (fst st)"
    "r_HTTPRouteGroups (fst (f as st)) = r_HTTPRouteGroups (fst st)"
    "r_TCPRoutes (fst (f as st)) = r_TCPRoutes (fst st)"
    "PodsByServiceAccounts (fst (f as st)) = PodsByServiceAccounts (fst st)"
  unfolding f_def
  by (induction as arbitrary: st) (simp_all add: indexPodByService_frame)

lemma indexEndpoints_frame [frame_simps]:
  "r_Services (indexEndpoints ep pbn r) = r_Services r"
  "r_TrafficTargets (indexEndpoints ep pbn r) = r_TrafficTargets r"
  "r_TrafficSplits (indexEndpoints ep pbn r) = r_TrafficSplits r"
  "r_HTTPRouteGroups (indexEndpoints ep pbn r) = r_HTTPRouteGroups r"
  "r_TCPRoutes (indexEndpoints ep pbn r) = r_TCPRoutes r"
  "PodsByServiceAccounts (indexEndpoints ep pbn r) = PodsByServiceAccounts r"
  by (simp_all add: indexEndpoints_eq fold_indexPodByService_frame)

lemma indexPodsByService_frame [frame_simps]:
  "r_Services (indexPodsByService flt eps pbn r) = r_Services r"
  "r_TrafficTargets (indexPodsByService flt eps pbn r) = r_TrafficTargets r"
  "r_TrafficSplits (indexPodsByService flt eps pbn r) = r_TrafficSplits r"
  "r_HTTPRouteGroups (indexPodsByService flt eps pbn r) = r_HTTPRouteGroups r"
  "r_TCPRoutes (indexPodsByService flt eps pbn r) = r_TCPRoutes r"
  "PodsByServiceAccounts (indexPodsByService flt eps pbn r) = PodsByServiceAccounts r"
  by (induction eps arbitrary: r) (auto simp: frame_simps)

lemma indexPodsByServiceAccount_frame:
  "indexPodsByServiceAccount flt pods r pbn = (r', pbn') \<Longrightarrow>
     r_Services r' = r_Services r \<and> r_TrafficTargets r' = r_TrafficTargets r
   \<and> r_TrafficSplits r' = r_TrafficSplits r \<and> r_HTTPRouteGroups r' = r_HTTPRouteGroups r
   \<and> r_TCPRoutes r' = r_TCPRoutes r"
  by (induction pods arbitrary: r pbn) (auto split: if_splits)

lemma indexPods_ok: "keys_ok (indexPods flt pods eps r) = keys_ok r"
  "none_ignored flt (indexPods flt pods eps r) = none_ignored flt r"
  by (auto simp: indexPods_def keys_ok_def none_ignored_def frame_simps
      dest!: indexPodsByServiceAccount_frame split: prod.splits)

lemma empty_resources_simps [simp]:
  "PodsBySvc empty_resources = Map.empty" "PodsBySvcBySa empty_resources = Map.empty"
  "PodsByServiceAccounts empty_resources = Map.empty"
  by (simp_all add: empty_resources_def)

text \<open>A successful load is the pod indexing of well-formed resources without pods.\<close>

lemma loadResources_Inr:
  assumes "loadResources b flt = Inr r"
  obtains pods eps r0 where "l_Pods b = Some pods" "l_Endpoints b = Some eps"
    "r = indexPods flt pods eps r0" "keys_ok r0" "none_ignored flt r0"
    "PodsBySvc r0 = Map.empty" "PodsBySvcBySa r0 = Map.empty" "PodsByServiceAccounts r0 = Map.empty"
proof -
  from assms obtain svcs pods eps tss hrgs tcps tts where
    ld: "l_Services b = Some svcs" "l_Pods b = Some pods" "l_Endpoints b = Some eps" and
    r: "r = indexPods flt pods eps
          (indexSMIResources flt tts tss tcps hrgs (load_services flt svcs empty_resources))"
    by (auto simp: loadResources_def bind_res_Inr_iff loadServices_def list_required_def
        split: option.splits)
  let ?r1 = "load_services flt svcs empty_resources"
  have "keys_ok ?r1 \<and> none_ignored flt ?r1"
    by (rule load_services_ok) (simp add: keys_ok_def none_ignored_def empty_resources_def)
  from indexSMIResources_ok [OF this] show ?thesis
    using that [OF ld(2,3) r] by (simp add: frame_simps)
qed

lemma loadResources_ok: "loadResources b flt = Inr r \<Longrightarrow> keys_ok r \<and> none_ignored flt r"
  by (erule loadResources_Inr) (simp add: indexPods_ok)

section \<open>Properties\<close>

text \<open>when every Endpoints object has its own key, the pods indexed for the service of a
  non-ignored Endpoints object are, each once, the non-ignored pods that its addresses reference,
  however many subsets repeat an address; and the index by service account holds for each account
  exactly those of them that run under it.\<close>

theorem loadResources_pod_index:
  assumes "loadResources b flt = Inr r"
    and "l_Pods b = Some pods" "l_Endpoints b = Some eps"
    and "distinct (map (meta_key \<circ> ke_meta) eps)"
    and "ep \<in> set eps" "\<not> IsIgnored flt (MetaObj (ke_meta ep))"
  shows "distinct (map pod_key (at (PodsBySvc r) (meta_key (ke_meta ep))))
       \<and> pod_key ` set (at (PodsBySvc r) (meta_key (ke_meta ep)))
           = addr_keys (ep_addresses ep) \<inter> pod_key ` set (seen_pods flt pods)
       \<and> set (at (PodsBySvc r) (meta_key (ke_meta ep))) \<subseteq> set (seen_pods flt pods)
       \<and> (\<forall>sa. pods_by_svc_by_sa r sa (meta_key (ke_meta ep))
            = filter (\<lambda>p. sa_key p = sa) (at (PodsBySvc r) (meta_key (ke_meta ep))))"
proof -
  from assms(1,2,3) obtain r0 where r: "r = indexPods flt pods eps r0"
    and r0: "PodsBySvc r0 = Map.empty" "PodsBySvcBySa r0 = Map.empty"
    by (auto elim: loadResources_Inr)
  obtain r1 pbn where r1: "indexPodsByServiceAccount flt pods r0 Map.empty = (r1, pbn)" by fastforce
  have rr: "r = indexPodsByService flt eps pbn r1" by (simp add: r indexPods_def r1)
  note km = podsByName_keys_match [OF r1]
  have svc1: "PodsBySvc r1 = Map.empty" "PodsBySvcBySa r1 = Map.empty"
    using indexPodsByServiceAccount_eq [OF r1] r0 by simp_all
  then have "index_consistent r1"
    by (simp add: index_consistent_def pods_by_svc_by_sa_def)
  then have ic: "index_consistent r"
    unfolding rr by (rule indexPodsByService_consistent)
  have dist: "distinct (map (meta_key \<circ> ke_meta) (seen_endpoints flt eps))"
    using assms(4) by (simp add: seen_endpoints_def distinct_map_filter)
  have "ep \<in> set (seen_endpoints flt eps)" using assms(5,6) by (simp add: seen_endpoints_def)
  from indexPodsByService_pods [OF _ dist this refl, of pbn r1] km svc1(1) ic
  show ?thesis unfolding index_consistent_def rr [symmetric] by auto
qed

text \<open>loading keeps every object under the key made of its own name and namespace and lets
  no ignored object through.\<close>

theorem loadResources_filtered:
  assumes "loadResources b flt = Inr r"
  shows "keys_ok r \<and> none_ignored flt r"
  using assms by (rule loadResources_ok)

section \<open>A small cluster\<close>

definition ex_meta :: "string \<Rightarrow> ObjectMeta" where
  "ex_meta n = \<lparr>om_Name = n, om_Namespace = ''ns'', om_Labels = Map.empty,
     om_Annotations = Map.empty, om_ResourceVersion = ''1''\<rparr>"

definition ex_pod :: KPod where
  "ex_pod = \<lparr>kp_meta = ex_meta ''p'', kp_OwnerReferences = [], kp_ServiceAccountName = ''sa'',
     kp_Containers = [], kp_PodIP = ''10.0.0.1''\<rparr>"

definition ex_endpoints :: Endpoints where
  "ex_endpoints =
     (let a = \<lparr>ea_TargetRef = Some \<lparr>ref_Name = ''p'', ref_Namespace = ''ns''\<rparr>\<rparr>
      in \<lparr>ke_meta = ex_meta ''svc'',
          ke_Subsets = [\<lparr>es_Addresses = [a]\<rparr>, \<lparr>es_Addresses = [a]\<rparr>]\<rparr>)"

definition ex_cluster :: cluster where
  "ex_cluster = \<lparr>l_Services = Some [], l_Pods = Some [ex_pod], l_Endpoints = Some [ex_endpoints],
     l_TrafficSplits = Some [], l_HTTPRouteGroups = None, l_TCPRoutes = None,
     l_TrafficTargets = None\<rparr>"

lemma ex_cluster_loads: "\<exists>r. loadResources ex_cluster (NewResourceFilter []) = Inr r"
  by (simp add: loadResources_def loadServices_def list_required_def list_optional_def ex_cluster_def)

lemma ex_not_ignored: "\<not> IsIgnored (NewResourceFilter []) (MetaObj m)"
  by (simp add: IsIgnored_meta_iff NewResourceFilter_def)

lemma loadResources_pod_index_witness:
  "\<exists>r. loadResources ex_cluster (NewResourceFilter []) = Inr r
     \<and> distinct (map pod_key (at (PodsBySvc r) (Key ''svc'' ''ns'')))
     \<and> pod_key ` set (at (PodsBySvc r) (Key ''svc'' ''ns'')) = {Key ''p'' ''ns''}"
proof -
  obtain r where r: "loadResources ex_cluster (NewResourceFilter []) = Inr r"
    using ex_cluster_loads by blast
  have h: "l_Pods ex_cluster = Some [ex_pod]" "l_Endpoints ex_cluster = Some [ex_endpoints]"
    "distinct (map (meta_key \<circ> ke_meta) [ex_endpoints])" "ex_endpoints \<in> set [ex_endpoints]"
    by (simp_all add: ex_cluster_def)
  have k: "meta_key (ke_meta ex_endpoints) = Key ''svc'' ''ns''" "pod_key ex_pod = Key ''p'' ''ns''"
    "addr_keys (ep_addresses ex_endpoints) = {Key ''p'' ''ns''}"
    by (simp_all add: ex_endpoints_def ex_pod_def ex_meta_def meta_key_def pod_key_def
        ep_addresses_def Let_def)
  from loadResources_pod_index [OF r h(1,2,3,4) ex_not_ignored] r show ?thesis
    by (auto simp: k seen_pods_def ex_not_ignored)
qed

lemma loadResources_filtered_witness:
  "\<exists>r. loadResources ex_cluster (NewResourceFilter []) = Inr r \<and> keys_ok r"
proof -
  obtain r where r: "loadResources ex_cluster (NewResourceFilter []) = Inr r"
    using ex_cluster_loads by blast
  from loadResources_filtered [OF r] r show ?thesis by blast
qed

end
