(* ===== verification/Builder.thy ===== *)
theory Builder
  imports Resources
begin

text \<open>
  The graph-building half of \<open>pkg/topology/builder.go\<close>: services, traffic splits and traffic targets
  are evaluated one after the other into the topology. The topology is threaded through every
  operation; a pointer into one of its maps is the key it is stored under. A \<open>range\<close> over a map takes
  the order it happens to visit the keys in as an argument.
\<close>

section \<open>Pods\<close>

definition new_pod :: "KPod \<Rightarrow> Pod" where
  "new_pod pod = \<lparr>pod_Name = om_Name (kp_meta pod), pod_Namespace = om_Namespace (kp_meta pod),
     pod_ServiceAccount = kp_ServiceAccountName pod,
     pod_OwnerReferences = kp_OwnerReferences pod,
     pod_ContainerPorts = concat (map ct_Ports (kp_Containers pod)),
     pod_IP = kp_PodIP pod, pod_SourceOf = [], pod_DestinationOf = []\<rparr>"

definition getOrCreatePod :: "Topology \<Rightarrow> KPod \<Rightarrow> Topology \<times> Key" where
  "getOrCreatePod t pod =
     (let podKey = pod_key pod in
      case Pods t podKey of
        Some _ \<Rightarrow> (t, podKey)
      | None \<Rightarrow> (t\<lparr>Pods := (Pods t)(podKey \<mapsto> new_pod pod)\<rparr>, podKey))"

text \<open>The loop of \<open>evaluateService\<close> over the pods of a service.\<close>

fun add_pods :: "Topology \<Rightarrow> KPod list \<Rightarrow> Topology \<times> Key list" where
  "add_pods t [] = (t, [])"
| "add_pods t (pod # pods) =
     (let (t1, k) = getOrCreatePod t pod; (t2, ks) = add_pods t1 pods in (t2, k # ks))"

text \<open>The loops that skip the pods without an IP.\<close>

fun add_ready_pods :: "Topology \<Rightarrow> KPod list \<Rightarrow> Topology \<times> Key list" where
  "add_ready_pods t [] = (t, [])"
| "add_ready_pods t (pod # pods) =
     (if kp_PodIP pod = [] then add_ready_pods t pods
      else let (t1, k) = getOrCreatePod t pod; (t2, ks) = add_ready_pods t1 pods in (t2, k # ks))"

section \<open>Services\<close>

definition evaluateService :: "resources \<Rightarrow> Topology \<Rightarrow> KService \<Rightarrow> Topology" where
  "evaluateService res t svc =
     (let svcKey = meta_key (ks_meta svc);
          (t1, pods) = add_pods t (at (PodsBySvc res) svcKey)
      in t1\<lparr>Services := (Services t1)(svcKey \<mapsto>
           \<lparr>svc_Name = om_Name (ks_meta svc), svc_Namespace = om_Namespace (ks_meta svc),
            svc_Selector = ks_Selector svc, svc_Annotations = om_Annotations (ks_meta svc),
            svc_Ports = ks_Ports svc, svc_ClusterIP = ks_ClusterIP svc, svc_Pods = pods,
            svc_TrafficTargets = [], svc_TrafficSplits = [], svc_BackendOf = [],
            svc_Errors = []\<rparr>)\<rparr>)"

section \<open>Route specs\<close>

abbreviation HTTPRouteGroupObjectKind :: string where "HTTPRouteGroupObjectKind \<equiv> ''HTTPRouteGroup''"
abbreviation TCPRouteObjectKind :: string where "TCPRouteObjectKind \<equiv> ''TCPRoute''"

fun buildHTTPRouteGroupMatches ::
  "string list \<Rightarrow> HTTPMatch list \<Rightarrow> HTTPMatch list \<Rightarrow> Key \<Rightarrow> error + HTTPMatch list" where
  "buildHTTPRouteGroupMatches [] httpRouteGroupMatches httpMatches key = Inr httpMatches"
| "buildHTTPRouteGroupMatches (name # ttMatches) httpRouteGroupMatches httpMatches key =
     (case List.find (\<lambda>m. hm_Name m = name) httpRouteGroupMatches of
        None \<Rightarrow> Inl (EFindMatch name key)
      | Some m \<Rightarrow>
          buildHTTPRouteGroupMatches ttMatches httpRouteGroupMatches (httpMatches @ [m]) key)"

definition buildHTTPRouteGroup ::
  "(Key \<rightharpoonup> HTTPRouteGroup) \<Rightarrow> string \<Rightarrow> string \<Rightarrow> string list \<Rightarrow> error + TrafficSpec" where
  "buildHTTPRouteGroup httpRtGrps ns name matches =
     (let key = Key name ns in
      case httpRtGrps key of
        None \<Rightarrow> Inl (EFindHTTPRouteGroup key)
      | Some httpRouteGroup \<Rightarrow>
          bind_res
            (if matches = [] then Inr (hrg_Matches httpRouteGroup)
             else buildHTTPRouteGroupMatches matches (hrg_Matches httpRouteGroup) [] key)
            (\<lambda>httpMatches. Inr \<lparr>spec_HTTPRouteGroup = Some httpRouteGroup, spec_TCPRoute = None,
               spec_HTTPMatches = httpMatches\<rparr>))"

definition buildTCPRoute :: "(Key \<rightharpoonup> TCPRoute) \<Rightarrow> string \<Rightarrow> string \<Rightarrow> error + TrafficSpec" where
  "buildTCPRoute tcpRts ns name =
     (let key = Key name ns in
      case tcpRts key of
        None \<Rightarrow> Inl (EFindTCPRoute key)
      | Some tcpRoute \<Rightarrow> Inr \<lparr>spec_HTTPRouteGroup = None, spec_TCPRoute = Some tcpRoute,
          spec_HTTPMatches = []\<rparr>)"

definition buildTrafficTargetRules :: "resources \<Rightarrow> KTrafficTarget \<Rightarrow> error + TrafficSpec list" where
  "buildTrafficTargetRules res tt =
     map_res (\<lambda>s.
       if ttr_Kind s = HTTPRouteGroupObjectKind then
         buildHTTPRouteGroup (r_HTTPRouteGroups res) (om_Namespace (ktt_meta tt)) (ttr_Name s) (ttr_Matches s)
       else if ttr_Kind s = TCPRouteObjectKind then
         buildTCPRoute (r_TCPRoutes res) (om_Namespace (ktt_meta tt)) (ttr_Name s)
       else Inl (EUnknownSpec (ttr_Kind s))) (ktt_Rules tt)"

definition buildTrafficSplitSpecs :: "resources \<Rightarrow> KTrafficSplit \<Rightarrow> error + TrafficSpec list" where
  "buildTrafficSplitSpecs res ts =
     map_res (\<lambda>m.
       if lor_Kind m = HTTPRouteGroupObjectKind then
         buildHTTPRouteGroup (r_HTTPRouteGroups res) (om_Namespace (kts_meta ts)) (lor_Name m) []
       else if lor_Kind m = TCPRouteObjectKind then
         buildTCPRoute (r_TCPRoutes res) (om_Namespace (kts_meta ts)) (lor_Name m)
       else Inl (EUnknownSpec (lor_Kind m))) (kts_Matches ts)"

section \<open>Traffic targets\<close>

definition getTrafficTargetDestinationPorts ::
  "Service \<Rightarrow> KTrafficTarget \<Rightarrow> error + ServicePort list" where
  "getTrafficTargetDestinationPorts svc tt =
     (case is_Port (ktt_Destination tt) of
        None \<Rightarrow> Inr (svc_Ports svc)
      | Some port \<Rightarrow>
          (case List.find (\<lambda>svcPort. ios_IntVal (sp_TargetPort svcPort) = word_of_int port) (svc_Ports svc) of
             Some svcPort \<Rightarrow> Inr [svcPort]
           | None \<Rightarrow> Inl (EDestPortNotExposed port (meta_key (ktt_meta tt)))))"

text \<open>The destination is returned with the pods found so far even when its ports are in error.\<close>

definition buildTrafficTargetDestination ::
  "Topology \<Rightarrow> KTrafficTarget \<Rightarrow> KPod list \<Rightarrow> Service \<Rightarrow> Topology \<times> STTDestination \<times> error option" where
  "buildTrafficTargetDestination t tt pods svc =
     (let (t1, podKeys) = add_ready_pods t pods;
          dest = \<lparr>dst_ServiceAccount = is_Name (ktt_Destination tt),
                  dst_Namespace = is_Namespace (ktt_Destination tt), dst_Ports = [], dst_Pods = podKeys\<rparr>
      in case getTrafficTargetDestinationPorts svc tt of
           Inl err \<Rightarrow> (t1, dest, Some (EFindDestPorts (Key (svc_Name svc) (svc_Namespace svc)) err))
         | Inr ports \<Rightarrow> (t1, dest\<lparr>dst_Ports := ports\<rparr>, None))"

fun build_sources :: "resources \<Rightarrow> Topology \<Rightarrow> IdentitySubject list \<Rightarrow> Topology \<times> STTSource list" where
  "build_sources res t [] = (t, [])"
| "build_sources res t (source # sources) =
     (let srcSaKey = Key (is_Name source) (is_Namespace source);
          (t1, srcPods) = add_ready_pods t (at (PodsByServiceAccounts res) srcSaKey);
          (t2, rest) = build_sources res t1 sources
      in (t2, \<lparr>src_ServiceAccount = is_Name source, src_Namespace = is_Namespace source,
               src_Pods = srcPods\<rparr> # rest))"

definition buildTrafficTargetSources ::
  "resources \<Rightarrow> Topology \<Rightarrow> KTrafficTarget \<Rightarrow> Topology \<times> STTSource list" where
  "buildTrafficTargetSources res t tt = build_sources res t (ktt_Sources tt)"

definition add_source_of :: "STTKey \<Rightarrow> Key \<Rightarrow> Topology \<Rightarrow> Topology" where
  "add_source_of svcTTKey podKey t =
     (if Pods t podKey = None then t
      else t\<lparr>Pods := adjust podKey (\<lambda>p. p\<lparr>pod_SourceOf := pod_SourceOf p @ [svcTTKey]\<rparr>) (Pods t)\<rparr>)"

definition add_destination_of :: "STTKey \<Rightarrow> Key \<Rightarrow> Topology \<Rightarrow> Topology" where
  "add_destination_of svcTTKey podKey t =
     (if Pods t podKey = None then t
      else t\<lparr>Pods := adjust podKey (\<lambda>p. p\<lparr>pod_DestinationOf := pod_DestinationOf p @ [svcTTKey]\<rparr>) (Pods t)\<rparr>)"

definition addSourceAndDestinationToPods :: "Topology \<Rightarrow> STTSource list \<Rightarrow> STTKey \<Rightarrow> Topology" where
  "addSourceAndDestinationToPods t sources svcTTKey =
     (let t1 = fold (add_source_of svcTTKey) (concat (map src_Pods sources)) t
      in case ServiceTrafficTargets t1 svcTTKey of
           None \<Rightarrow> t1
         | Some stt \<Rightarrow> fold (add_destination_of svcTTKey) (dst_Pods (stt_Destination stt)) t1)"

definition put_stt :: "STTKey \<Rightarrow> ServiceTrafficTarget \<Rightarrow> Topology \<Rightarrow> Topology" where
  "put_stt k stt t = t\<lparr>ServiceTrafficTargets := (ServiceTrafficTargets t)(k \<mapsto> stt)\<rparr>"

definition no_destination :: STTDestination where
  "no_destination = \<lparr>dst_ServiceAccount = [], dst_Namespace = [], dst_Ports = [], dst_Pods = []\<rparr>"

text \<open>The body of the loop of \<open>evaluateTrafficTarget\<close>, for one service and its destination pods.\<close>

definition evaluate_target_on ::
  "resources \<Rightarrow> KTrafficTarget \<Rightarrow> STTSource list \<Rightarrow> Key \<Rightarrow> KPod list \<Rightarrow> Topology \<Rightarrow> Topology" where
  "evaluate_target_on res tt sources svcKey pods t =
     (let svcTTKey = STTKey svcKey (meta_key (ktt_meta tt));
          stt = \<lparr>stt_Service = svcKey, stt_Name = om_Name (ktt_meta tt),
                 stt_Namespace = om_Namespace (ktt_meta tt), stt_Sources = sources,
                 stt_Destination = no_destination, stt_Rules = [], stt_Errors = []\<rparr>;
          t0 = put_stt svcTTKey stt t
      in case Services t0 svcKey of
           None \<Rightarrow> put_stt svcTTKey (ServiceTrafficTarget_AddError (EFindService svcKey) stt) t0
         | Some svc \<Rightarrow>
           (case buildTrafficTargetRules res tt of
              Inl err \<Rightarrow> put_stt svcTTKey (ServiceTrafficTarget_AddError (EBuildSpec err) stt) t0
            | Inr rules \<Rightarrow>
              (let stt1 = stt\<lparr>stt_Rules := rules\<rparr>;
                   (t1, dest, err) = buildTrafficTargetDestination t0 tt pods svc;
                   stt2 = stt1\<lparr>stt_Destination := dest\<rparr>
               in case err of
                    Some e \<Rightarrow> put_stt svcTTKey (ServiceTrafficTarget_AddError e stt2) t1
                  | None \<Rightarrow>
                      (let t2 = put_stt svcTTKey stt2 t1;
                           t3 = t2\<lparr>Services := adjust svcKey
                                  (\<lambda>s. s\<lparr>svc_TrafficTargets := svc_TrafficTargets s @ [svcTTKey]\<rparr>)
                                  (Services t2)\<rparr>
                       in addSourceAndDestinationToPods t3 sources svcTTKey))))"

text \<open>\<open>svcOrder\<close> is the order in which the services with pods of the destination account are visited.\<close>

definition evaluateTrafficTarget ::
  "resources \<Rightarrow> Key list \<Rightarrow> Topology \<Rightarrow> KTrafficTarget \<Rightarrow> Topology" where
  "evaluateTrafficTarget res svcOrder t tt =
     (let destSaKey = Key (is_Name (ktt_Destination tt)) (is_Namespace (ktt_Destination tt));
          (t1, sources) = buildTrafficTargetSources res t tt
      in fold (\<lambda>svcKey. evaluate_target_on res tt sources svcKey (pods_by_svc_by_sa res destSaKey svcKey))
           svcOrder t1)"

section \<open>Traffic splits\<close>

fun exposes :: "ServicePort list \<Rightarrow> int32 \<Rightarrow> bool" where
  "exposes [] port = False"
| "exposes (backendPort # backendPorts) port =
     (if port = sp_Port backendPort then True else exposes backendPorts port)"

fun validateServiceAndBackendPorts :: "ServicePort list \<Rightarrow> ServicePort list \<Rightarrow> error option" where
  "validateServiceAndBackendPorts [] backendPorts = None"
| "validateServiceAndBackendPorts (svcPort # svcPorts) backendPorts =
     (if \<not> exposes backendPorts (sp_Port svcPort) then Some (EPortMustBeExposed (sp_Port svcPort))
      else validateServiceAndBackendPorts svcPorts backendPorts)"

definition split_error :: "Key \<Rightarrow> error \<Rightarrow> Topology \<Rightarrow> Topology" where
  "split_error tsKey err t = t\<lparr>TrafficSplits := adjust tsKey (TrafficSplit_AddError err) (TrafficSplits t)\<rparr>"

text \<open>The body of the loop of \<open>evaluateTrafficSplit\<close> over the backends.\<close>

definition evaluate_backend ::
  "Key \<Rightarrow> string \<Rightarrow> ServicePort list \<Rightarrow> KSplitBackend \<Rightarrow> Topology \<Rightarrow> Topology" where
  "evaluate_backend tsKey ns svcPorts backend t =
     (let backendSvcKey = Key (ksb_Service backend) ns in
      case Services t backendSvcKey of
        None \<Rightarrow> split_error tsKey (EFindBackendService backendSvcKey) t
      | Some backendSvc \<Rightarrow>
          (case validateServiceAndBackendPorts svcPorts (svc_Ports backendSvc) of
             Some err \<Rightarrow> split_error tsKey err t
           | None \<Rightarrow>
               t\<lparr>TrafficSplits := adjust tsKey (\<lambda>ts. ts\<lparr>ts_Backends := ts_Backends ts @
                    [\<lparr>tsb_Weight = ksb_Weight backend, tsb_Service = backendSvcKey\<rparr>]\<rparr>) (TrafficSplits t),
                 Services := adjust backendSvcKey
                    (\<lambda>s. s\<lparr>svc_BackendOf := svc_BackendOf s @ [tsKey]\<rparr>) (Services t)\<rparr>))"

definition evaluateTrafficSplit :: "resources \<Rightarrow> Topology \<Rightarrow> KTrafficSplit \<Rightarrow> Topology" where
  "evaluateTrafficSplit res t trafficSplit =
     (let ns = om_Namespace (kts_meta trafficSplit);
          svcKey = Key (kts_Service trafficSplit) ns;
          tsKey = meta_key (kts_meta trafficSplit);
          ts = \<lparr>ts_Name = om_Name (kts_meta trafficSplit), ts_Namespace = ns, ts_Service = svcKey,
                ts_Backends = [], ts_Rules = [], ts_Incoming = [], ts_Errors = []\<rparr>;
          t0 = t\<lparr>TrafficSplits := (TrafficSplits t)(tsKey \<mapsto> ts)\<rparr>
      in case buildTrafficSplitSpecs res trafficSplit of
           Inl err \<Rightarrow> split_error tsKey (EBuildSpec err) t0
         | Inr rules \<Rightarrow>
           (let t1 = t0\<lparr>TrafficSplits := adjust tsKey (\<lambda>ts. ts\<lparr>ts_Rules := rules\<rparr>) (TrafficSplits t0)\<rparr>
            in case Services t1 svcKey of
                 None \<Rightarrow> split_error tsKey (EFindRootService svcKey) t1
               | Some svc \<Rightarrow>
                 (let t2 = fold (evaluate_backend tsKey ns (svc_Ports svc)) (kts_Backends trafficSplit) t1
                  in t2\<lparr>Services := adjust svcKey
                        (\<lambda>s. s\<lparr>svc_TrafficSplits := svc_TrafficSplits s @ [tsKey]\<rparr>) (Services t2)\<rparr>)))"

section \<open>Well-formed topologies\<close>

text \<open>
  No reference of the graph dangles: every key a node holds is a key of the map it points into, the
  node it points to is the right one, and the backends of a split expose the ports of its service.
\<close>

definition exposes_all :: "ServicePort list \<Rightarrow> ServicePort list \<Rightarrow> bool" where
  "exposes_all ports backendPorts \<longleftrightarrow> (\<forall>p\<in>set ports. \<exists>q\<in>set backendPorts. sp_Port q = sp_Port p)"

definition svc_ok :: "Topology \<Rightarrow> Key \<Rightarrow> Service \<Rightarrow> bool" where
  "svc_ok t k s \<longleftrightarrow> k = Key (svc_Name s) (svc_Namespace s)
     \<and> set (svc_Pods s) \<subseteq> dom (Pods t)
     \<and> (\<forall>x\<in>set (svc_TrafficTargets s). Service x = k \<and> x \<in> dom (ServiceTrafficTargets t))
     \<and> (\<forall>x\<in>set (svc_TrafficSplits s). \<exists>ts. TrafficSplits t x = Some ts \<and> ts_Service ts = k)
     \<and> (\<forall>x\<in>set (svc_BackendOf s).
          \<exists>ts. TrafficSplits t x = Some ts \<and> k \<in> tsb_Service ` set (ts_Backends ts))"

definition pod_ok :: "Topology \<Rightarrow> Key \<Rightarrow> Pod \<Rightarrow> bool" where
  "pod_ok t k p \<longleftrightarrow> k = Key (pod_Name p) (pod_Namespace p)
     \<and> set (pod_SourceOf p) \<union> set (pod_DestinationOf p) \<subseteq> dom (ServiceTrafficTargets t)"

definition stt_ok :: "Topology \<Rightarrow> STTKey \<Rightarrow> ServiceTrafficTarget \<Rightarrow> bool" where
  "stt_ok t x stt \<longleftrightarrow> x = STTKey (stt_Service stt) (Key (stt_Name stt) (stt_Namespace stt))
     \<and> (\<forall>src\<in>set (stt_Sources stt). set (src_Pods src) \<subseteq> dom (Pods t))
     \<and> set (dst_Pods (stt_Destination stt)) \<subseteq> dom (Pods t)"

definition backend_ok :: "Topology \<Rightarrow> Key \<Rightarrow> TrafficSplit \<Rightarrow> TrafficSplitBackend \<Rightarrow> bool" where
  "backend_ok t k ts b \<longleftrightarrow> Namespace (tsb_Service b) = ts_Namespace ts
     \<and> (\<exists>root bs. Services t (ts_Service ts) = Some root \<and> Services t (tsb_Service b) = Some bs
          \<and> exposes_all (svc_Ports root) (svc_Ports bs) \<and> k \<in> set (svc_BackendOf bs))"

definition ts_ok :: "Topology \<Rightarrow> Key \<Rightarrow> TrafficSplit \<Rightarrow> bool" where
  "ts_ok t k ts \<longleftrightarrow> k = Key (ts_Name ts) (ts_Namespace ts)
     \<and> Namespace (ts_Service ts) = ts_Namespace ts
     \<and> (\<forall>b\<in>set (ts_Backends ts). backend_ok t k ts b)
     \<and> set (ts_Incoming ts) \<subseteq> dom (Pods t)"

definition wf_topology :: "Topology \<Rightarrow> bool" where
  "wf_topology t \<longleftrightarrow>
     (\<forall>k s. Services t k = Some s \<longrightarrow> svc_ok t k s)
   \<and> (\<forall>k p. Pods t k = Some p \<longrightarrow> pod_ok t k p)
   \<and> (\<forall>x stt. ServiceTrafficTargets t x = Some stt \<longrightarrow> stt_ok t x stt)
   \<and> (\<forall>k ts. TrafficSplits t k = Some ts \<longrightarrow> ts_ok t k ts)"

lemma wf_topologyD:
  assumes "wf_topology t"
  shows "Services t k = Some s \<Longrightarrow> svc_ok t k s" "Pods t k = Some p \<Longrightarrow> pod_ok t k p"
    "ServiceTrafficTargets t x = Some stt \<Longrightarrow> stt_ok t x stt"
    "TrafficSplits t k = Some ts \<Longrightarrow> ts_ok t k ts"
  using assms by (simp_all add: wf_topology_def)

lemma wf_topologyI:
  assumes "\<And>k s. Services t k = Some s \<Longrightarrow> svc_ok t k s"
    and "\<And>k p. Pods t k = Some p \<Longrightarrow> pod_ok t k p"
    and "\<And>x stt. ServiceTrafficTargets t x = Some stt \<Longrightarrow> stt_ok t x stt"
    and "\<And>k ts. TrafficSplits t k = Some ts \<Longrightarrow> ts_ok t k ts"
  shows "wf_topology t"
  using assms by (simp add: wf_topology_def)

text \<open>What later steps keep of an earlier topology: nodes are never removed, a service keeps its
  ports and the splits it backs, a split keeps its service and its backends.\<close>

definition extends :: "Topology \<Rightarrow> Topology \<Rightarrow> bool" where
  "extends t t' \<longleftrightarrow> dom (Pods t) \<subseteq> dom (Pods t')
     \<and> dom (ServiceTrafficTargets t) \<subseteq> dom (ServiceTrafficTargets t')
     \<and> (\<forall>k s. Services t k = Some s \<longrightarrow> (\<exists>s'. Services t' k = Some s' \<and> svc_Ports s' = svc_Ports s
          \<and> set (svc_BackendOf s) \<subseteq> set (svc_BackendOf s')))
     \<and> (\<forall>k ts. TrafficSplits t k = Some ts \<longrightarrow> (\<exists>ts'. TrafficSplits t' k = Some ts'
          \<and> ts_Service ts' = ts_Service ts \<and> set (ts_Backends ts) \<subseteq> set (ts_Backends ts')))"

lemma extends_refl [simp]: "extends t t"
  by (simp add: extends_def)

lemma extends_doms:
  assumes "extends t t'"
  shows "dom (Pods t) \<subseteq> dom (Pods t')"
    "dom (ServiceTrafficTargets t) \<subseteq> dom (ServiceTrafficTargets t')"
  using assms by (simp_all add: extends_def)

lemma extends_trans: "extends t u \<Longrightarrow> extends u v \<Longrightarrow> extends t v"
proof -
  assume 1: "extends t u" and 2: "extends u v"
  have "\<exists>s'. Services v k = Some s' \<and> svc_Ports s' = svc_Ports s
      \<and> set (svc_BackendOf s) \<subseteq> set (svc_BackendOf s')" if s: "Services t k = Some s" for k s
  proof -
    from 1 s obtain s1 where s1: "Services u k = Some s1" "svc_Ports s1 = svc_Ports s"
      "set (svc_BackendOf s) \<subseteq> set (svc_BackendOf s1)" unfolding extends_def by blast
    from 2 s1(1) obtain s2 where "Services v k = Some s2" "svc_Ports s2 = svc_Ports s1"
      "set (svc_BackendOf s1) \<subseteq> set (svc_BackendOf s2)" unfolding extends_def by blast
    with s1 show ?thesis by auto
  qed
  moreover have "\<exists>ts'. TrafficSplits v k = Some ts' \<and> ts_Service ts' = ts_Service ts
      \<and> set (ts_Backends ts) \<subseteq> set (ts_Backends ts')" if ts: "TrafficSplits t k = Some ts" for k ts
  proof -
    from 1 ts obtain s1 where s1: "TrafficSplits u k = Some s1" "ts_Service s1 = ts_Service ts"
      "set (ts_Backends ts) \<subseteq> set (ts_Backends s1)" unfolding extends_def by blast
    from 2 s1(1) obtain s2 where "TrafficSplits v k = Some s2" "ts_Service s2 = ts_Service s1"
      "set (ts_Backends s1) \<subseteq> set (ts_Backends s2)" unfolding extends_def by blast
    with s1 show ?thesis by auto
  qed
  moreover have "dom (Pods t) \<subseteq> dom (Pods v)"
    "dom (ServiceTrafficTargets t) \<subseteq> dom (ServiceTrafficTargets v)"
    using extends_doms [OF 1] extends_doms [OF 2] by (auto dest: subsetD)
  ultimately show ?thesis unfolding extends_def by blast
qed

lemma extends_ok:
  assumes "extends t t'"
  shows "svc_ok t k s \<Longrightarrow> svc_ok t' k s" "pod_ok t k p \<Longrightarrow> pod_ok t' k p"
    "stt_ok t x stt \<Longrightarrow> stt_ok t' x stt" "backend_ok t k ts b \<Longrightarrow> backend_ok t' k ts b"
    "ts_ok t k ts \<Longrightarrow> ts_ok t' k ts"
proof -
  have pods: "dom (Pods t) \<subseteq> dom (Pods t')"
    and stts: "dom (ServiceTrafficTargets t) \<subseteq> dom (ServiceTrafficTargets t')"
    and svcs: "\<And>k s. Services t k = Some s \<Longrightarrow> \<exists>s'. Services t' k = Some s'
         \<and> svc_Ports s' = svc_Ports s \<and> set (svc_BackendOf s) \<subseteq> set (svc_BackendOf s')"
    and tss: "\<And>k ts. TrafficSplits t k = Some ts \<Longrightarrow> \<exists>ts'. TrafficSplits t' k = Some ts'
         \<and> ts_Service ts' = ts_Service ts \<and> set (ts_Backends ts) \<subseteq> set (ts_Backends ts')"
    using assms by (auto simp: extends_def)
  show "svc_ok t k s \<Longrightarrow> svc_ok t' k s" for k s
  proof -
    assume ok: "svc_ok t k s"
    have "\<exists>ts. TrafficSplits t' x = Some ts \<and> ts_Service ts = k" if "x \<in> set (svc_TrafficSplits s)" for x
    proof -
      from ok that obtain ts where "TrafficSplits t x = Some ts" "ts_Service ts = k"
        unfolding svc_ok_def by blast
      with tss [of x ts] show ?thesis by auto
    qed
    moreover have "\<exists>ts. TrafficSplits t' x = Some ts \<and> k \<in> tsb_Service ` set (ts_Backends ts)"
      if "x \<in> set (svc_BackendOf s)" for x
    proof -
      from ok that obtain ts where "TrafficSplits t x = Some ts" "k \<in> tsb_Service ` set (ts_Backends ts)"
        unfolding svc_ok_def by blast
      with tss [of x ts] show ?thesis by auto
    qed
    moreover have "\<forall>x\<in>set (svc_TrafficTargets s). Service x = k \<and> x \<in> dom (ServiceTrafficTargets t')"
      "set (svc_Pods s) \<subseteq> dom (Pods t')" "k = Key (svc_Name s) (svc_Namespace s)"
      using ok pods stts unfolding svc_ok_def by blast+
    ultimately show ?thesis unfolding svc_ok_def by blast
  qed
  show "pod_ok t k p \<Longrightarrow> pod_ok t' k p" for k p
    unfolding pod_ok_def using stts by blast
  show "stt_ok t x stt \<Longrightarrow> stt_ok t' x stt" for x stt
    unfolding stt_ok_def using pods by blast
  show b: "backend_ok t k ts b \<Longrightarrow> backend_ok t' k ts b" for k ts b
  proof -
    assume "backend_ok t k ts b"
    then obtain root bs where ns: "Namespace (tsb_Service b) = ts_Namespace ts"
      and r: "Services t (ts_Service ts) = Some root" and b: "Services t (tsb_Service b) = Some bs"
      and p: "exposes_all (svc_Ports root) (svc_Ports bs)" "k \<in> set (svc_BackendOf bs)"
      unfolding backend_ok_def by blast
    from svcs [OF r] svcs [OF b] ns p show ?thesis unfolding backend_ok_def by fastforce
  qed
  show "ts_ok t k ts \<Longrightarrow> ts_ok t' k ts" for k ts
    unfolding ts_ok_def using pods b by blast
qed

section \<open>Adding pods\<close>

text \<open>A step that only adds pods.\<close>

definition adds_pods :: "Topology \<Rightarrow> Topology \<Rightarrow> bool" where
  "adds_pods t t' \<longleftrightarrow> Services t' = Services t \<and> ServiceTrafficTargets t' = ServiceTrafficTargets t
     \<and> TrafficSplits t' = TrafficSplits t \<and> dom (Pods t) \<subseteq> dom (Pods t')
     \<and> (wf_topology t \<longrightarrow> wf_topology t')"

lemma adds_pods_refl [simp]: "adds_pods t t"
  by (simp add: adds_pods_def)

lemma adds_pods_trans: "adds_pods t u \<Longrightarrow> adds_pods u v \<Longrightarrow> adds_pods t v"
  by (auto simp: adds_pods_def)

lemma adds_pods_extends: "adds_pods t t' \<Longrightarrow> extends t t'"
  by (auto simp: adds_pods_def extends_def)

lemma new_pod_ok: "pod_ok t (pod_key pod) (new_pod pod)"
  by (simp add: pod_ok_def new_pod_def pod_key_def meta_key_def)

lemma getOrCreatePod_adds:
  assumes "getOrCreatePod t pod = (t', k)"
  shows "adds_pods t t' \<and> k \<in> dom (Pods t') \<and> k = pod_key pod"
proof (cases "Pods t (pod_key pod)")
  case (Some p)
  with assms show ?thesis by (auto simp: getOrCreatePod_def Let_def)
next
  case None
  then have t': "t' = t\<lparr>Pods := (Pods t)(pod_key pod \<mapsto> new_pod pod)\<rparr>" "k = pod_key pod"
    using assms by (auto simp: getOrCreatePod_def Let_def)
  then have ext: "extends t t'" by (auto simp: extends_def)
  have "wf_topology t'" if "wf_topology t"
    by (rule wf_topologyI)
       (use t' extends_ok [OF ext] wf_topologyD [OF that] new_pod_ok in \<open>auto split: if_splits\<close>)
  with t' show ?thesis by (auto simp: adds_pods_def)
qed

lemma add_pods_adds:
  "add_pods t pods = (t', ks) \<Longrightarrow> adds_pods t t' \<and> set ks \<subseteq> dom (Pods t') \<and> ks = map pod_key pods"
proof (induction pods arbitrary: t t' ks)
  case (Cons pod pods)
  obtain t1 k where 1: "getOrCreatePod t pod = (t1, k)" by fastforce
  obtain t2 ks' where 2: "add_pods t1 pods = (t2, ks')" by fastforce
  from Cons.prems 1 2 have t': "t' = t2" "ks = k # ks'" by auto
  note ih = Cons.IH [OF 2] and one = getOrCreatePod_adds [OF 1]
  have "adds_pods t t2" using ih one adds_pods_trans by blast
  moreover have "dom (Pods t1) \<subseteq> dom (Pods t2)" using ih by (simp add: adds_pods_def)
  then have "set (k # ks') \<subseteq> dom (Pods t2)" using ih one by (simp only: list.set) blast
  moreover have "k # ks' = map pod_key (pod # pods)" using ih one by simp
  ultimately show ?case unfolding t' by blast
qed auto

lemma add_ready_pods_eq:
  "add_ready_pods t pods = add_pods t (filter (\<lambda>p. kp_PodIP p \<noteq> []) pods)"
  by (induction pods arbitrary: t) simp_all

lemma add_ready_pods_adds:
  "add_ready_pods t pods = (t', ks) \<Longrightarrow> adds_pods t t' \<and> set ks \<subseteq> dom (Pods t')
     \<and> ks = map pod_key (filter (\<lambda>p. kp_PodIP p \<noteq> []) pods)"
  unfolding add_ready_pods_eq by (rule add_pods_adds)

lemma build_sources_adds:
  "build_sources res t ss = (t', srcs) \<Longrightarrow>
     adds_pods t t' \<and> (\<forall>src\<in>set srcs. set (src_Pods src) \<subseteq> dom (Pods t'))"
proof (induction ss arbitrary: t t' srcs)
  case (Cons s ss)
  obtain t1 ks where 1: "add_ready_pods t (at (PodsByServiceAccounts res)
      (Key (is_Name s) (is_Namespace s))) = (t1, ks)" by fastforce
  obtain t2 rest where 2: "build_sources res t1 ss = (t2, rest)" by fastforce
  have t': "t' = t2" "srcs = \<lparr>src_ServiceAccount = is_Name s, src_Namespace = is_Namespace s,
      src_Pods = ks\<rparr> # rest" using Cons.prems 1 2 by (auto simp: Let_def)
  note ih = Cons.IH [OF 2] and ready = add_ready_pods_adds [OF 1]
  from ih have "dom (Pods t1) \<subseteq> dom (Pods t2)" by (simp add: adds_pods_def)
  with ready have "set ks \<subseteq> dom (Pods t2)" by blast
  with ih ready t' show ?case by (auto intro: adds_pods_trans simp del: set_map)
qed auto

section \<open>Evaluating services\<close>

lemma evaluateService_wf:
  assumes "wf_topology t" and "TrafficSplits t = Map.empty"
  shows "wf_topology (evaluateService res t svc) \<and> TrafficSplits (evaluateService res t svc) = Map.empty
       \<and> dom (Services (evaluateService res t svc)) = insert (meta_key (ks_meta svc)) (dom (Services t))
       \<and> ServiceTrafficTargets (evaluateService res t svc) = ServiceTrafficTargets t"
proof -
  let ?k = "meta_key (ks_meta svc)"
  obtain t1 ks where 1: "add_pods t (at (PodsBySvc res) ?k) = (t1, ks)" by fastforce
  note ap = add_pods_adds [OF 1]
  define s where "s = \<lparr>svc_Name = om_Name (ks_meta svc), svc_Namespace = om_Namespace (ks_meta svc),
            svc_Selector = ks_Selector svc, svc_Annotations = om_Annotations (ks_meta svc),
            svc_Ports = ks_Ports svc, svc_ClusterIP = ks_ClusterIP svc, svc_Pods = ks,
            svc_TrafficTargets = [], svc_TrafficSplits = [], svc_BackendOf = [], svc_Errors = []\<rparr>"
  have t': "evaluateService res t svc = t1\<lparr>Services := (Services t1)(?k \<mapsto> s)\<rparr>"
    by (simp add: evaluateService_def Let_def 1 s_def)
  have wf1: "wf_topology t1" and ts1: "TrafficSplits t1 = Map.empty"
    using ap assms by (auto simp: adds_pods_def)
  have "set ks \<subseteq> dom (Pods t1)" using ap by blast
  then have "svc_ok t1 ?k s" by (simp add: svc_ok_def s_def meta_key_def)
  then have "wf_topology (t1\<lparr>Services := (Services t1)(?k \<mapsto> s)\<rparr>)"
    using wf1 ts1
    by (auto simp: wf_topology_def svc_ok_def pod_ok_def stt_ok_def)
  with t' ap ts1 show ?thesis by (auto simp: adds_pods_def)
qed

section \<open>Evaluating traffic splits\<close>

text \<open>A step that grows a topology keeps it well-formed when the entries it writes are right.\<close>

lemma wf_extend:
  assumes "wf_topology t" and ext: "extends t t'"
    and "\<And>k s. Services t' k = Some s \<Longrightarrow> Services t k = Some s \<or> svc_ok t' k s"
    and "\<And>k p. Pods t' k = Some p \<Longrightarrow> Pods t k = Some p \<or> pod_ok t' k p"
    and "\<And>x stt. ServiceTrafficTargets t' x = Some stt \<Longrightarrow>
           ServiceTrafficTargets t x = Some stt \<or> stt_ok t' x stt"
    and "\<And>k ts. TrafficSplits t' k = Some ts \<Longrightarrow> TrafficSplits t k = Some ts \<or> ts_ok t' k ts"
  shows "wf_topology t'"
proof (rule wf_topologyI)
  note old = extends_ok [OF ext] wf_topologyD [OF assms(1)]
  show "Services t' k = Some s \<Longrightarrow> svc_ok t' k s" for k s
    using assms(3) [of k s] old(1) [of k s] old(6) [of k s] by blast
  show "Pods t' k = Some p \<Longrightarrow> pod_ok t' k p" for k p
    using assms(4) [of k p] old(2) [of k p] old(7) [of k p] by blast
  show "ServiceTrafficTargets t' x = Some stt \<Longrightarrow> stt_ok t' x stt" for x stt
    using assms(5) [of x stt] old(3) [of x stt] old(8) [of x stt] by blast
  show "TrafficSplits t' k = Some ts \<Longrightarrow> ts_ok t' k ts" for k ts
    using assms(6) [of k ts] old(5) [of k ts] old(9) [of k ts] by blast
qed

text \<open>One write at a time.\<close>

lemma ok_append:
  "svc_ok t k s \<Longrightarrow> TrafficSplits t x = Some ts \<Longrightarrow> k \<in> tsb_Service ` set (ts_Backends ts) \<Longrightarrow>
     svc_ok t k (s\<lparr>svc_BackendOf := svc_BackendOf s @ [x]\<rparr>)"
  "svc_ok t k s \<Longrightarrow> TrafficSplits t x = Some ts \<Longrightarrow> ts_Service ts = k \<Longrightarrow>
     svc_ok t k (s\<lparr>svc_TrafficSplits := svc_TrafficSplits s @ [x]\<rparr>)"
  "svc_ok t k s \<Longrightarrow> y \<in> dom (ServiceTrafficTargets t) \<Longrightarrow> Service y = k \<Longrightarrow>
     svc_ok t k (s\<lparr>svc_TrafficTargets := svc_TrafficTargets s @ [y]\<rparr>)"
  "pod_ok t k p \<Longrightarrow> y \<in> dom (ServiceTrafficTargets t) \<Longrightarrow>
     pod_ok t k (p\<lparr>pod_SourceOf := pod_SourceOf p @ [y]\<rparr>)"
  "pod_ok t k p \<Longrightarrow> y \<in> dom (ServiceTrafficTargets t) \<Longrightarrow>
     pod_ok t k (p\<lparr>pod_DestinationOf := pod_DestinationOf p @ [y]\<rparr>)"
  unfolding svc_ok_def pod_ok_def
  by ((elim conjE, intro conjI; simp?; blast?)+)

lemma backend_ok_cong [simp]:
  "backend_ok t k (ts\<lparr>ts_Errors := e\<rparr>) = backend_ok t k ts"
  "backend_ok t k (ts\<lparr>ts_Incoming := i\<rparr>) = backend_ok t k ts"
  "backend_ok t k (ts\<lparr>ts_Backends := bs\<rparr>) = backend_ok t k ts"
  by (simp_all add: backend_ok_def fun_eq_iff)

lemma ts_ok_errors [simp]: "ts_ok t k (ts\<lparr>ts_Errors := e\<rparr>) = ts_ok t k ts"
  by (simp add: ts_ok_def)

lemma ts_ok_backend:
  "ts_ok t k ts \<Longrightarrow> backend_ok t k ts b \<Longrightarrow> ts_ok t k (ts\<lparr>ts_Backends := ts_Backends ts @ [b]\<rparr>)"
  by (auto simp: ts_ok_def)

lemma exposes_iff [simp]: "exposes ps port \<longleftrightarrow> (\<exists>q\<in>set ps. sp_Port q = port)"
  by (induction ps) auto

lemma validate_None_iff: "validateServiceAndBackendPorts ps qs = None \<longleftrightarrow> exposes_all ps qs"
  by (induction ps) (auto simp: exposes_all_def)

text \<open>What the loop over the backends keeps of the split under evaluation.\<close>

definition split_loop_inv :: "Key \<Rightarrow> string \<Rightarrow> Key \<Rightarrow> ServicePort list \<Rightarrow> Topology \<Rightarrow> Topology \<Rightarrow> bool" where
  "split_loop_inv tsKey ns svcKey ports t0 t \<longleftrightarrow> wf_topology t \<and> extends t0 t
     \<and> (\<exists>ts. TrafficSplits t tsKey = Some ts \<and> ts_Service ts = svcKey \<and> ts_Namespace ts = ns)
     \<and> (\<exists>root. Services t svcKey = Some root \<and> svc_Ports root = ports)
     \<and> dom (TrafficSplits t) = dom (TrafficSplits t0) \<and> dom (Services t) = dom (Services t0)
     \<and> Pods t = Pods t0 \<and> ServiceTrafficTargets t = ServiceTrafficTargets t0"

lemma extends_split_adjust:
  assumes "\<And>ts. ts_Service (f ts) = ts_Service ts \<and> set (ts_Backends ts) \<subseteq> set (ts_Backends (f ts))"
  shows "extends t (t\<lparr>TrafficSplits := adjust k f (TrafficSplits t)\<rparr>)"
  using assms by (auto simp: extends_def adjust_apply)

lemma extends_service_adjust:
  assumes "\<And>s. svc_Ports (f s) = svc_Ports s \<and> set (svc_BackendOf s) \<subseteq> set (svc_BackendOf (f s))"
  shows "extends t (t\<lparr>Services := adjust k f (Services t)\<rparr>)"
  using assms by (auto simp: extends_def adjust_apply)

lemma split_error_wf:
  assumes "wf_topology t"
  shows "wf_topology (split_error k e t) \<and> extends t (split_error k e t)"
proof -
  have ext: "extends t (split_error k e t)"
    unfolding split_error_def by (rule extends_split_adjust) (simp add: AddError_defs)
  have "wf_topology (split_error k e t)"
  proof (rule wf_extend [OF assms ext])
    fix k' ts assume "TrafficSplits (split_error k e t) k' = Some ts"
    then obtain ts0 where "TrafficSplits t k' = Some ts0" "ts = ts0 \<or> ts = TrafficSplit_AddError e ts0"
      by (auto simp: split_error_def dest!: adjust_SomeD split: if_splits)
    then have "ts_ok t k' ts"
      using wf_topologyD(4) [OF assms] by (auto simp: AddError_defs)
    then show "TrafficSplits t k' = Some ts \<or> ts_ok (split_error k e t) k' ts"
      using extends_ok(5) [OF ext] by blast
  qed (simp_all add: split_error_def)
  with ext show ?thesis by blast
qed

lemma split_error_inv:
  assumes "split_loop_inv tsKey ns svcKey ports t0 t"
  shows "split_loop_inv tsKey ns svcKey ports t0 (split_error tsKey e t)"
proof -
  from assms have wf: "wf_topology t" by (simp add: split_loop_inv_def)
  from split_error_wf [OF this, of tsKey e] have "extends t0 (split_error tsKey e t)"
    using assms extends_trans unfolding split_loop_inv_def by blast
  with split_error_wf [OF wf, of tsKey e] assms show ?thesis
    unfolding split_loop_inv_def by (auto simp: split_error_def AddError_defs)
qed

lemma evaluate_backend_inv:
  assumes inv: "split_loop_inv tsKey ns svcKey ports t0 t"
  shows "split_loop_inv tsKey ns svcKey ports t0 (evaluate_backend tsKey ns ports b t)"
proof -
  let ?bk = "Key (ksb_Service b) ns"
  let ?b = "\<lparr>tsb_Weight = ksb_Weight b, tsb_Service = ?bk\<rparr>"
  show ?thesis
  proof (cases "\<exists>bs. Services t ?bk = Some bs \<and> exposes_all ports (svc_Ports bs)")
    case False
    then have "\<exists>e. evaluate_backend tsKey ns ports b t = split_error tsKey e t"
      using validate_None_iff [of ports]
      by (auto simp: evaluate_backend_def Let_def split: option.splits)
    with split_error_inv [OF inv] show ?thesis by fastforce
  next
    case True
    then obtain bs where bs: "Services t ?bk = Some bs" "exposes_all ports (svc_Ports bs)" by blast
    from inv obtain ts root where wf: "wf_topology t" and ts: "TrafficSplits t tsKey = Some ts"
      "ts_Service ts = svcKey" "ts_Namespace ts = ns"
      and root: "Services t svcKey = Some root" "svc_Ports root = ports"
      by (auto simp: split_loop_inv_def)
    define t' where "t' = evaluate_backend tsKey ns ports b t"
    let ?ts' = "ts\<lparr>ts_Backends := ts_Backends ts @ [?b]\<rparr>"
    let ?bs' = "bs\<lparr>svc_BackendOf := svc_BackendOf bs @ [tsKey]\<rparr>"
    have t': "t' = t\<lparr>TrafficSplits := (TrafficSplits t)(tsKey \<mapsto> ?ts'), Services := (Services t)(?bk \<mapsto> ?bs')\<rparr>"
      using bs ts(1) validate_None_iff [of ports "svc_Ports bs"]
      by (simp add: t'_def evaluate_backend_def Let_def adjust_def)
    have ext: "extends t t'" unfolding t' extends_def using bs(1) ts(1) by auto
    note old = extends_ok [OF ext] wf_topologyD [OF wf]
    have bs': "svc_ok t' ?bk ?bs'"
      by (rule ok_append(1) [OF old(1) [OF old(6) [OF bs(1)]], where ts = ?ts']) (simp_all add: t')
    have "backend_ok t' tsKey ts ?b"
      using bs root ts by (auto simp: backend_ok_def t')
    from ts_ok_backend [OF old(5) [OF old(9) [OF ts(1)]] this]
    have ts': "ts_ok t' tsKey ?ts'" .
    have "wf_topology t'"
      by (rule wf_extend [OF wf ext]) (use bs' ts' in \<open>auto simp: t' split: if_splits\<close>)
    moreover have "extends t0 t'" using inv ext extends_trans by (auto simp: split_loop_inv_def)
    ultimately have "split_loop_inv tsKey ns svcKey ports t0 t'"
      using inv ts root bs by (auto simp: split_loop_inv_def t')
    then show ?thesis by (simp add: t'_def)
  qed
qed

text \<open>Evaluating a split that is not in the topology yet: the node is added, \<dots>\<close>

lemma add_split_wf:
  assumes wf: "wf_topology t" and new: "TrafficSplits t k = None"
    and ts: "k = Key (ts_Name ts) (ts_Namespace ts)" "Namespace (ts_Service ts) = ts_Namespace ts"
      "ts_Backends ts = []" "ts_Incoming ts = []"
  defines "u \<equiv> t\<lparr>TrafficSplits := (TrafficSplits t)(k \<mapsto> ts)\<rparr>"
  shows "wf_topology u" "extends t u"
proof -
  show ext: "extends t u" using new by (auto simp: extends_def u_def)
  have "ts_ok u k ts" using ts by (simp add: ts_ok_def)
  then show "wf_topology u" by (intro wf_extend [OF wf ext]) (auto simp: u_def split: if_splits)
qed

text \<open>\<dots> it may be given an error, \<dots>\<close>

lemma failed_split_wf:
  fixes e
  assumes "wf_topology t" "TrafficSplits t k = None" "k = Key (ts_Name ts) (ts_Namespace ts)"
    "Namespace (ts_Service ts) = ts_Namespace ts" "ts_Backends ts = []" "ts_Incoming ts = []"
  defines "u \<equiv> split_error k e (t\<lparr>TrafficSplits := (TrafficSplits t)(k \<mapsto> ts)\<rparr>)"
  shows "wf_topology u \<and> extends t u \<and> dom (TrafficSplits u) = insert k (dom (TrafficSplits t))
       \<and> dom (Services u) = dom (Services t) \<and> Pods u = Pods t \<and> ServiceTrafficTargets u = ServiceTrafficTargets t"
proof -
  note add = add_split_wf [OF assms(1-6)]
  have "extends t u" using split_error_wf [OF add(1), of k e] add(2) extends_trans unfolding u_def by blast
  with split_error_wf [OF add(1), of k e] show ?thesis by (simp add: u_def split_error_def)
qed

text \<open>\<dots> or it is attached to its service.\<close>

lemma attach_split_wf:
  assumes inv: "split_loop_inv k ns svcKey ports t0 t"
  defines "u \<equiv> t\<lparr>Services := adjust svcKey (\<lambda>s. s\<lparr>svc_TrafficSplits := svc_TrafficSplits s @ [k]\<rparr>) (Services t)\<rparr>"
  shows "wf_topology u" "extends t u"
proof -
  have wf: "wf_topology t" using inv by (simp add: split_loop_inv_def)
  show ext: "extends t u" unfolding u_def by (rule extends_service_adjust) simp
  show "wf_topology u"
  proof (rule wf_extend [OF wf ext])
    fix k' s' assume "Services u k' = Some s'"
    then obtain s0 where s0: "Services t k' = Some s0"
      and s': "s' = (if k' = svcKey then s0\<lparr>svc_TrafficSplits := svc_TrafficSplits s0 @ [k]\<rparr> else s0)"
      unfolding u_def by (auto dest!: adjust_SomeD)
    have "svc_ok u k' s0" using extends_ok(1) [OF ext] wf_topologyD(1) [OF wf s0] by blast
    moreover have "\<exists>ts. TrafficSplits u k = Some ts \<and> ts_Service ts = svcKey"
      using inv by (auto simp: split_loop_inv_def u_def)
    ultimately show "Services t k' = Some s' \<or> svc_ok u k' s'"
      using s' ok_append(2) [of u k' s0 k] by (cases "k' = svcKey") auto
  qed (auto simp: u_def)
qed

lemma evaluateTrafficSplit_wf:
  fixes res :: resources
  assumes wf: "wf_topology t" and new: "TrafficSplits t (meta_key (kts_meta s)) = None"
  defines "t' \<equiv> evaluateTrafficSplit res t s"
  shows "wf_topology t' \<and> extends t t' \<and> dom (TrafficSplits t') = insert (meta_key (kts_meta s)) (dom (TrafficSplits t))
       \<and> dom (Services t') = dom (Services t) \<and> Pods t' = Pods t
       \<and> ServiceTrafficTargets t' = ServiceTrafficTargets t"
proof -
  let ?k = "meta_key (kts_meta s)" and ?ns = "om_Namespace (kts_meta s)"
  let ?svc = "Key (kts_Service s) ?ns"
  define ts where "ts rules = \<lparr>ts_Name = om_Name (kts_meta s), ts_Namespace = ?ns, ts_Service = ?svc,
                ts_Backends = [], ts_Rules = rules, ts_Incoming = [], ts_Errors = []\<rparr>" for rules
  define t0 where "t0 rules = t\<lparr>TrafficSplits := (TrafficSplits t)(?k \<mapsto> ts rules)\<rparr>" for rules
  have fields: "?k = Key (ts_Name (ts r)) (ts_Namespace (ts r))" "Namespace (ts_Service (ts r)) = ts_Namespace (ts r)"
    "ts_Backends (ts r) = []" "ts_Incoming (ts r) = []" for r by (simp_all add: ts_def meta_key_def)
  note added = add_split_wf [OF wf new fields, folded t0_def]
    and failed = failed_split_wf [OF wf new fields, folded t0_def]
  have rules: "(t0 [])\<lparr>TrafficSplits := adjust ?k (\<lambda>ts. ts\<lparr>ts_Rules := r\<rparr>) (TrafficSplits (t0 []))\<rparr> = t0 r" for r
    by (simp add: t0_def adjust_def ts_def)
  have unf: "t' = (case buildTrafficSplitSpecs res s of
       Inl err \<Rightarrow> split_error ?k (EBuildSpec err) (t0 [])
     | Inr r \<Rightarrow> (case Services (t0 r) ?svc of
         None \<Rightarrow> split_error ?k (EFindRootService ?svc) (t0 r)
       | Some svc \<Rightarrow>
         (let t2 = fold (evaluate_backend ?k ?ns (svc_Ports svc)) (kts_Backends s) (t0 r)
          in t2\<lparr>Services := adjust ?svc
               (\<lambda>s. s\<lparr>svc_TrafficSplits := svc_TrafficSplits s @ [?k]\<rparr>) (Services t2)\<rparr>)))"
    unfolding t'_def evaluateTrafficSplit_def Let_def ts_def [symmetric] t0_def [symmetric] rules ..
  show ?thesis
  proof (cases "\<exists>r svc. buildTrafficSplitSpecs res s = Inr r \<and> Services (t0 r) ?svc = Some svc")
    case False
    then have "\<exists>e r. t' = split_error ?k e (t0 r)" by (auto simp: unf split: sum.split option.split)
    then show ?thesis using failed by blast
  next
    case True
    then obtain r svc where ok: "buildTrafficSplitSpecs res s = Inr r" "Services (t0 r) ?svc = Some svc" by blast
    define t2 where "t2 = fold (evaluate_backend ?k ?ns (svc_Ports svc)) (kts_Backends s) (t0 r)"
    have t': "t' = t2\<lparr>Services := adjust ?svc
        (\<lambda>s. s\<lparr>svc_TrafficSplits := svc_TrafficSplits s @ [?k]\<rparr>) (Services t2)\<rparr>"
      using ok by (simp add: unf t2_def Let_def)
    have "split_loop_inv ?k ?ns ?svc (svc_Ports svc) (t0 r) (t0 r)"
      using added(1) [of r] ok(2) by (simp add: split_loop_inv_def t0_def ts_def)
    then have inv: "split_loop_inv ?k ?ns ?svc (svc_Ports svc) (t0 r) t2"
      unfolding t2_def
      by (intro fold_invariant_rule [where P = "split_loop_inv ?k ?ns ?svc (svc_Ports svc) (t0 r)"])
         (rule evaluate_backend_inv)
    note attached = attach_split_wf [OF inv, folded t']
    have "extends t t'" using added(2) [of r] inv attached(2) extends_trans unfolding split_loop_inv_def by blast
    with attached(1) inv show ?thesis by (auto simp: split_loop_inv_def t' t0_def)
  qed
qed

section \<open>Evaluating traffic targets\<close>

text \<open>Steps on targets leave the splits and the ports and splits of every service alone.\<close>

definition target_step :: "Topology \<Rightarrow> Topology \<Rightarrow> bool" where
  "target_step t t' \<longleftrightarrow> extends t t' \<and> wf_topology t' \<and> TrafficSplits t' = TrafficSplits t
     \<and> dom (Services t') = dom (Services t)"

lemma target_step_trans: "target_step t u \<Longrightarrow> target_step u v \<Longrightarrow> target_step t v"
  unfolding target_step_def using extends_trans by auto

lemma target_step_wf: "target_step t t' \<Longrightarrow> wf_topology t'"
  by (simp add: target_step_def)

lemma target_step_doms:
  assumes "target_step t t'"
  shows "dom (Pods t) \<subseteq> dom (Pods t')"
    "dom (ServiceTrafficTargets t) \<subseteq> dom (ServiceTrafficTargets t')"
  using assms extends_doms by (auto simp only: target_step_def)

lemma adds_pods_target_step: "wf_topology t \<Longrightarrow> adds_pods t t' \<Longrightarrow> target_step t t'"
  using adds_pods_extends by (simp add: target_step_def adds_pods_def)

lemma put_stt_step:
  assumes "wf_topology t" and "stt_ok t k stt"
  shows "target_step t (put_stt k stt t)"
proof -
  have ext: "extends t (put_stt k stt t)" by (auto simp: put_stt_def extends_def)
  have "wf_topology (put_stt k stt t)"
    by (rule wf_extend [OF assms(1) ext])
       (use extends_ok(3) [OF ext assms(2)] in \<open>auto simp: put_stt_def split: if_splits\<close>)
  with ext show ?thesis by (simp add: target_step_def put_stt_def)
qed

lemma pod_adjust_step:
  assumes wf: "wf_topology t" and f: "\<And>p. pod_ok t k p \<Longrightarrow> pod_ok t k (f p)"
  shows "target_step t (t\<lparr>Pods := adjust k f (Pods t)\<rparr>)"
proof -
  have ext: "extends t (t\<lparr>Pods := adjust k f (Pods t)\<rparr>)" by (auto simp: extends_def)
  have "wf_topology (t\<lparr>Pods := adjust k f (Pods t)\<rparr>)"
  proof (rule wf_extend [OF wf ext])
    fix k' p assume "Pods (t\<lparr>Pods := adjust k f (Pods t)\<rparr>) k' = Some p"
    then obtain p0 where p0: "Pods t k' = Some p0" "p = (if k' = k then f p0 else p0)"
      by (auto dest!: adjust_SomeD)
    have "pod_ok t k' p" using f wf_topologyD(2) [OF wf p0(1)] p0(2) by auto
    then show "Pods t k' = Some p \<or> pod_ok (t\<lparr>Pods := adjust k f (Pods t)\<rparr>) k' p"
      using extends_ok(2) [OF ext] by blast
  qed simp_all
  with ext show ?thesis by (simp add: target_step_def)
qed

lemma add_pod_refs_step:
  assumes "wf_topology t" and "y \<in> dom (ServiceTrafficTargets t)"
  shows "target_step t (add_source_of y k t)" "target_step t (add_destination_of y k t)"
proof -
  have "target_step t t" using assms(1) by (simp add: target_step_def)
  then show "target_step t (add_source_of y k t)" "target_step t (add_destination_of y k t)"
    using pod_adjust_step [OF assms(1), of k] ok_append(4,5) [OF _ assms(2)]
    by (simp_all add: add_source_of_def add_destination_of_def)
qed

lemma fold_target_step:
  assumes "\<And>x t. wf_topology t \<Longrightarrow> y \<in> dom (ServiceTrafficTargets t) \<Longrightarrow> target_step t (f x t)"
    and "wf_topology t" and "y \<in> dom (ServiceTrafficTargets t)"
  shows "target_step t (fold f xs t)"
  using assms(2,3)
proof (induction xs arbitrary: t)
  case Nil
  then show ?case by (simp add: target_step_def)
next
  case (Cons x xs)
  have step: "target_step t (f x t)" by (rule assms(1) [OF Cons.prems])
  then have "wf_topology (f x t)" "y \<in> dom (ServiceTrafficTargets (f x t))"
    using Cons.prems(2) target_step_doms(2) target_step_wf by blast+
  from target_step_trans [OF step Cons.IH [OF this]] show ?case by simp
qed

lemma addSourceAndDestinationToPods_step:
  assumes "wf_topology t" and "y \<in> dom (ServiceTrafficTargets t)"
  shows "target_step t (addSourceAndDestinationToPods t sources y)"
proof -
  let ?t1 = "fold (add_source_of y) (concat (map src_Pods sources)) t"
  have 1: "target_step t ?t1"
    by (rule fold_target_step [OF _ assms]) (rule add_pod_refs_step)
  then have wf1: "wf_topology ?t1" and y1: "y \<in> dom (ServiceTrafficTargets ?t1)"
    using assms(2) target_step_doms(2) target_step_wf by blast+
  have "target_step ?t1 (fold (add_destination_of y) ks ?t1)" for ks
    by (rule fold_target_step [OF _ wf1 y1]) (rule add_pod_refs_step)
  with 1 show ?thesis
    by (auto simp: addSourceAndDestinationToPods_def Let_def split: option.splits
        intro: target_step_trans)
qed

lemma target_append_step:
  assumes wf: "wf_topology t" and y: "y \<in> dom (ServiceTrafficTargets t)" "Service y = k"
  shows "target_step t (t\<lparr>Services := adjust k
           (\<lambda>s. s\<lparr>svc_TrafficTargets := svc_TrafficTargets s @ [y]\<rparr>) (Services t)\<rparr>)" (is "target_step t ?t'")
proof -
  have ext: "extends t ?t'" by (rule extends_service_adjust) simp
  have "wf_topology ?t'"
  proof (rule wf_extend [OF wf ext])
    fix k' s assume "Services ?t' k' = Some s"
    then obtain s0 where s0: "Services t k' = Some s0"
      "s = (if k' = k then s0\<lparr>svc_TrafficTargets := svc_TrafficTargets s0 @ [y]\<rparr> else s0)"
      by (auto dest!: adjust_SomeD)
    have "svc_ok t k' s" using ok_append(3) [of t k' s0 y] wf_topologyD(1) [OF wf s0(1)] s0(2) y by auto
    then show "Services t k' = Some s \<or> svc_ok ?t' k' s" using extends_ok(1) [OF ext] by blast
  qed simp_all
  with ext show ?thesis by (simp add: target_step_def)
qed

lemma destination_step:
  assumes wf: "wf_topology t" and d: "buildTrafficTargetDestination t tt pods svc = (t1, dest, err)"
  shows "target_step t t1" "set (dst_Pods dest) \<subseteq> dom (Pods t1)"
proof -
  obtain u ks where rp: "add_ready_pods t pods = (u, ks)" by fastforce
  have eqs: "u = t1" "dst_Pods dest = ks"
    using d rp by (auto simp: buildTrafficTargetDestination_def Let_def split: sum.splits)
  show "set (dst_Pods dest) \<subseteq> dom (Pods t1)" using add_ready_pods_adds [OF rp] unfolding eqs by blast
  show "target_step t t1" using add_ready_pods_adds [OF rp] unfolding eqs by (blast intro: adds_pods_target_step [OF wf])
qed

lemma attach_target_step:
  assumes step: "target_step t u" and y: "y \<in> dom (ServiceTrafficTargets u)" "Service y = k"
  shows "target_step t (addSourceAndDestinationToPods
     (u\<lparr>Services := adjust k (\<lambda>s. s\<lparr>svc_TrafficTargets := svc_TrafficTargets s @ [y]\<rparr>) (Services u)\<rparr>) sources y)"
proof -
  note app = target_append_step [OF target_step_wf [OF step] y]
  show ?thesis
    by (rule target_step_trans [OF target_step_trans [OF step app] addSourceAndDestinationToPods_step])
       (use target_step_wf [OF app] y in simp_all)
qed

lemma evaluate_target_on_step:
  assumes wf: "wf_topology t"
    and srcs: "\<forall>src\<in>set sources. set (src_Pods src) \<subseteq> dom (Pods t)"
  shows "target_step t (evaluate_target_on res tt sources k pods t)"
proof -
  let ?y = "STTKey k (meta_key (ktt_meta tt))"
  define stt where "stt rules dest errs =
     \<lparr>stt_Service = k, stt_Name = om_Name (ktt_meta tt), stt_Namespace = om_Namespace (ktt_meta tt),
      stt_Sources = sources, stt_Destination = dest, stt_Rules = rules, stt_Errors = errs\<rparr>"
    for rules dest errs
  have put: "target_step t (put_stt ?y (stt rules dest errs) u)"
    if u: "target_step t u" "set (dst_Pods dest) \<subseteq> dom (Pods u)" for u rules dest errs
  proof -
    have "\<forall>src\<in>set sources. set (src_Pods src) \<subseteq> dom (Pods u)" using srcs target_step_doms(1) [OF u(1)] by blast
    with u(2) have "stt_ok u ?y (stt rules dest errs)" by (simp add: stt_ok_def stt_def meta_key_def)
    from target_step_trans [OF u(1) put_stt_step [OF target_step_wf [OF u(1)] this]] show ?thesis .
  qed
  have nd: "set (dst_Pods no_destination) \<subseteq> dom (Pods u)" for u by (simp add: no_destination_def)
  define t0 where "t0 = put_stt ?y (stt [] no_destination []) t"
  have "target_step t t" using wf by (simp add: target_step_def)
  from put [OF this nd] have 0: "target_step t t0" unfolding t0_def .
  have unf: "evaluate_target_on res tt sources k pods t =
    (case Services t0 k of
       None \<Rightarrow> put_stt ?y (stt [] no_destination [EFindService k]) t0
     | Some svc \<Rightarrow> (case buildTrafficTargetRules res tt of
         Inl err \<Rightarrow> put_stt ?y (stt [] no_destination [EBuildSpec err]) t0
       | Inr rules \<Rightarrow>
           (let (t1, dest, err) = buildTrafficTargetDestination t0 tt pods svc
            in case err of
                 Some e \<Rightarrow> put_stt ?y (stt rules dest [e]) t1
               | None \<Rightarrow>
                   (let t2 = put_stt ?y (stt rules dest []) t1 in
                    addSourceAndDestinationToPods
                      (t2\<lparr>Services := adjust k (\<lambda>s. s\<lparr>svc_TrafficTargets := svc_TrafficTargets s @ [?y]\<rparr>)
                            (Services t2)\<rparr>) sources ?y))))"
    unfolding evaluate_target_on_def Let_def t0_def stt_def
    by (simp add: AddError_defs split: option.split sum.split prod.split)
  show ?thesis
  proof (cases "\<exists>svc rules. Services t0 k = Some svc \<and> buildTrafficTargetRules res tt = Inr rules")
    case False
    then show ?thesis unfolding unf using put [OF 0 nd] by (auto split: option.splits sum.splits)
  next
    case True
    then obtain svc rules where sv: "Services t0 k = Some svc" "buildTrafficTargetRules res tt = Inr rules"
      by blast
    obtain t1 dest err where d: "buildTrafficTargetDestination t0 tt pods svc = (t1, dest, err)"
      using prod_cases3 by blast
    note dest = destination_step [OF target_step_wf [OF 0] d]
    note put1 = put [OF target_step_trans [OF 0 dest(1)] dest(2)]
    have "?y \<in> dom (ServiceTrafficTargets (put_stt ?y (stt rules dest []) t1))" by (simp add: put_stt_def)
    from attach_target_step [OF put1 this] put1 show ?thesis unfolding unf by (cases err) (simp_all add: sv d Let_def)
  qed
qed

lemma evaluateTrafficTarget_step:
  assumes "wf_topology t"
  shows "target_step t (evaluateTrafficTarget res order t tt)"
proof -
  obtain t1 sources where 1: "buildTrafficTargetSources res t tt = (t1, sources)" by fastforce
  note src = build_sources_adds [OF 1 [unfolded buildTrafficTargetSources_def]]
  have step1: "target_step t t1" using src assms by (blast intro: adds_pods_target_step)
  have "target_step t1 (fold (\<lambda>k. evaluate_target_on res tt sources k (g k)) ks t1)" for g ks
  proof (rule fold_invariant_rule [where P = "target_step t1"])
    fix k u assume u: "target_step t1 u"
    then have "\<forall>src\<in>set sources. set (src_Pods src) \<subseteq> dom (Pods u)"
      using src target_step_doms(1) [OF u] by blast
    from target_step_trans [OF u evaluate_target_on_step [OF target_step_wf [OF u] this]]
    show "target_step t1 (evaluate_target_on res tt sources k (g k) u)" .
  next
    show "target_step t1 t1" using step1 by (simp add: target_step_def)
  qed
  with step1 show ?thesis
    unfolding evaluateTrafficTarget_def Let_def 1 by (auto intro: target_step_trans)
qed

end
