(* ===== verification/Incoming.thy ===== *)
theory Incoming
  imports Builder
begin

text \<open>
  The last phase of \<open>pkg/topology/builder.go\<close>: which pods may send traffic through a traffic split.
  The search walks from a split to the splits of its backend services, down to services without
  splits, whose traffic targets name the source pods. The set of visited splits is one Go map that
  callees write to, so it is returned; \<open>mapCopy\<close> is the place where the written set is dropped.

  The recursion has no bound in the code. The model spends one unit of fuel per split it enters;
  \<open>None\<close> is running out of it, and the lemmas below show how much is enough and that more changes
  nothing.
\<close>

section \<open>The search\<close>

definition unionPod :: "Key slice \<Rightarrow> Key slice \<Rightarrow> Key slice" where
  "unionPod pods1 pods2 =
     (case pods2 of
        None \<Rightarrow> pods1
      | Some ps2 \<Rightarrow> append_slice None (filter (\<lambda>pod. pod \<in> set (items pods1)) ps2))"

fun pods_of_targets :: "Topology \<Rightarrow> STTKey list \<Rightarrow> Key slice \<Rightarrow> error + Key slice" where
  "pods_of_targets t [] pods = Inr pods"
| "pods_of_targets t (ttKey # ttKeys) pods =
     (case ServiceTrafficTargets t ttKey of
        None \<Rightarrow> Inl (EFindTrafficTarget ttKey)
      | Some tt \<Rightarrow> pods_of_targets t ttKeys
          (fold (\<lambda>source ps. append_slice ps (src_Pods source)) (stt_Sources tt) pods))"

definition getPodsForServiceWithNoTrafficSplits :: "Topology \<Rightarrow> Service \<Rightarrow> error + Key slice" where
  "getPodsForServiceWithNoTrafficSplits t svc = pods_of_targets t (svc_TrafficTargets svc) None"

type_synonym search = "TrafficSplit \<Rightarrow> Key set \<Rightarrow> (Key set \<times> (error + Key slice)) option"

text \<open>The loop of \<open>getIncomingPodsForService\<close>; \<open>rec\<close> is the search from a split.\<close>

fun service_loop ::
  "search \<Rightarrow> Topology \<Rightarrow> Key list \<Rightarrow> Key slice \<Rightarrow> Key set \<Rightarrow> (Key set \<times> (error + Key slice)) option" where
  "service_loop rec t [] acc visited = Some (visited, Inr acc)"
| "service_loop rec t (tsKey # tsKeys) acc visited =
     (case TrafficSplits t tsKey of
        None \<Rightarrow> Some (visited, Inl (EFindTrafficSplit tsKey))
      | Some ts \<Rightarrow>
          (case rec ts visited of
             None \<Rightarrow> None
           | Some (visited', Inl err) \<Rightarrow> Some (visited', Inl err)
           | Some (visited', Inr tsPods) \<Rightarrow>
               (let acc' = unionPod tsPods acc in
                if items acc' = [] then Some (visited', Inr acc')
                else service_loop rec t tsKeys acc' visited')))"

definition getIncomingPodsForService ::
  "search \<Rightarrow> Topology \<Rightarrow> Key \<Rightarrow> Key set \<Rightarrow> (Key set \<times> (error + Key slice)) option" where
  "getIncomingPodsForService rec t svcKey visited =
     (case Services t svcKey of
        None \<Rightarrow> Some (visited, Inl (EFindService svcKey))
      | Some svc \<Rightarrow>
          if svc_TrafficSplits svc = [] then
            Some (visited, getPodsForServiceWithNoTrafficSplits t svc)
          else service_loop rec t (svc_TrafficSplits svc) None visited)"

text \<open>The loop over the backends: each gets its own copy of the visited set.\<close>

fun backends_loop ::
  "search \<Rightarrow> Topology \<Rightarrow> TrafficSplitBackend list \<Rightarrow> Key slice \<Rightarrow> Key set \<Rightarrow> (error + Key slice) option" where
  "backends_loop rec t [] acc visited = Some (Inr acc)"
| "backends_loop rec t (backend # backends) acc visited =
     (case getIncomingPodsForService rec t (tsb_Service backend) visited of
        None \<Rightarrow> None
      | Some (_, Inl err) \<Rightarrow> Some (Inl err)
      | Some (_, Inr backendPods) \<Rightarrow>
          (let acc' = unionPod backendPods acc in
           if items acc' = [] then Some (Inr acc')
           else backends_loop rec t backends acc' visited))"

definition ts_key :: "TrafficSplit \<Rightarrow> Key" where
  "ts_key ts = Key (ts_Name ts) (ts_Namespace ts)"

definition search_split :: "search \<Rightarrow> Topology \<Rightarrow> search" where
  "search_split rec t ts visited =
     (let tsKey = ts_key ts in
      if tsKey \<in> visited then Some (visited, Inl (ECircular tsKey (ts_Service ts)))
      else
        let visited' = insert tsKey visited in
        map_option (\<lambda>r. (visited', r)) (backends_loop rec t (ts_Backends ts) None visited'))"

primrec getIncomingPodsForTrafficSplit :: "nat \<Rightarrow> Topology \<Rightarrow> search" where
  "getIncomingPodsForTrafficSplit 0 t = (\<lambda>ts visited. None)"
| "getIncomingPodsForTrafficSplit (Suc fuel) t = search_split (getIncomingPodsForTrafficSplit fuel t) t"

section \<open>Populating the splits\<close>

text \<open>
  The state of \<open>populateTrafficSplitsAuthorizedIncomingTraffic\<close>: the topology and, for each service,
  the splits whose search failed. The map of failed splits is keyed by service.
\<close>

type_synonym populate_state = "Topology \<times> (Key \<rightharpoonup> Key list)"

definition populate_split :: "nat \<Rightarrow> Key \<Rightarrow> Key \<Rightarrow> populate_state \<Rightarrow> populate_state option" where
  "populate_split fuel svcKey tsKey st =
     (let (t, loops) = st in
      case TrafficSplits t tsKey of
        None \<Rightarrow> Some (t, loops)
      | Some ts \<Rightarrow>
          (case getIncomingPodsForTrafficSplit fuel t ts {} of
             None \<Rightarrow> None
           | Some (_, Inl err) \<Rightarrow>
               Some (split_error tsKey (EIncomingPods err) t, loops(svcKey \<mapsto> at loops svcKey @ [tsKey]))
           | Some (_, Inr pods) \<Rightarrow>
               Some (t\<lparr>TrafficSplits := adjust tsKey (\<lambda>ts. ts\<lparr>ts_Incoming := items pods\<rparr>)
                       (TrafficSplits t)\<rparr>, loops)))"

fun populate_splits :: "nat \<Rightarrow> Key \<Rightarrow> Key list \<Rightarrow> populate_state \<Rightarrow> populate_state option" where
  "populate_splits fuel svcKey [] st = Some st"
| "populate_splits fuel svcKey (tsKey # tsKeys) st =
     Option.bind (populate_split fuel svcKey tsKey st) (populate_splits fuel svcKey tsKeys)"

fun populate_services :: "nat \<Rightarrow> Key list \<Rightarrow> populate_state \<Rightarrow> populate_state option" where
  "populate_services fuel [] st = Some st"
| "populate_services fuel (svcKey # svcKeys) st =
     Option.bind
       (case Services (fst st) svcKey of
          None \<Rightarrow> Some st
        | Some svc \<Rightarrow> populate_splits fuel svcKey (svc_TrafficSplits svc) st)
       (populate_services fuel svcKeys)"

text \<open>
  \<open>removeLoopCausingTrafficSplits\<close>: every listed split is dropped once from its service. The entries
  of the map are about different services, so the order they are visited in does not matter.
\<close>

definition removeLoopCausingTrafficSplits :: "(Key \<rightharpoonup> Key list) \<Rightarrow> Topology \<Rightarrow> Topology" where
  "removeLoopCausingTrafficSplits loops t =
     t\<lparr>Services := (\<lambda>k. map_option
         (\<lambda>svc. svc\<lparr>svc_TrafficSplits := fold remove1 (at loops k) (svc_TrafficSplits svc)\<rparr>)
         (Services t k))\<rparr>"

text \<open>\<open>svcOrder\<close> is the order in which the services are visited.\<close>

definition populateTrafficSplitsAuthorizedIncomingTraffic ::
  "nat \<Rightarrow> Key list \<Rightarrow> Topology \<Rightarrow> Topology option" where
  "populateTrafficSplitsAuthorizedIncomingTraffic fuel svcOrder t =
     map_option (\<lambda>(t', loops). removeLoopCausingTrafficSplits loops t')
       (populate_services fuel svcOrder (t, Map.empty))"

section \<open>More fuel changes nothing\<close>

definition refines :: "search \<Rightarrow> search \<Rightarrow> bool" where
  "refines f g \<longleftrightarrow> (\<forall>ts v r. f ts v = Some r \<longrightarrow> g ts v = Some r)"

lemma service_loop_mono:
  "refines f g \<Longrightarrow> service_loop f t ks u v = Some r \<Longrightarrow> service_loop g t ks u v = Some r"
proof (induction ks arbitrary: u v)
  case (Cons k ks)
  show ?case
  proof (cases "TrafficSplits t k")
    case None
    with Cons.prems show ?thesis by simp
  next
    case (Some ts)
    with Cons.prems obtain v1 r1 where f: "f ts v = Some (v1, r1)"
      by (auto split: option.splits)
    with Cons.prems(1) have "g ts v = Some (v1, r1)" by (simp add: refines_def)
    with Some f Cons show ?thesis by (cases r1) (auto simp: Let_def split: if_splits)
  qed
qed simp

lemma getIncomingPodsForService_mono:
  "refines f g \<Longrightarrow> getIncomingPodsForService f t k v = Some r \<Longrightarrow>
     getIncomingPodsForService g t k v = Some r"
  by (auto simp: getIncomingPodsForService_def service_loop_mono split: option.splits if_splits)

lemma backends_loop_mono:
  "refines f g \<Longrightarrow> backends_loop f t bs u v = Some r \<Longrightarrow> backends_loop g t bs u v = Some r"
proof (induction bs arbitrary: u)
  case (Cons b bs)
  from Cons.prems(2) obtain v1 r1 where
    f: "getIncomingPodsForService f t (tsb_Service b) v = Some (v1, r1)"
    by (auto split: option.splits)
  note g = getIncomingPodsForService_mono [OF Cons.prems(1) f]
  from Cons f g show ?case by (cases r1) (auto simp: Let_def split: if_splits)
qed simp

lemma search_split_mono: "refines f g \<Longrightarrow> refines (search_split f t) (search_split g t)"
  using backends_loop_mono [of f g t] by (auto simp: refines_def search_split_def Let_def)

lemma search_Suc: "refines (getIncomingPodsForTrafficSplit n t) (getIncomingPodsForTrafficSplit (Suc n) t)"
proof (induction n)
  case (Suc n)
  then show ?case using search_split_mono by simp
qed (simp add: refines_def)

lemma search_mono:
  "n \<le> m \<Longrightarrow> refines (getIncomingPodsForTrafficSplit n t) (getIncomingPodsForTrafficSplit m t)"
proof (induction m)
  case (Suc m)
  with search_Suc [of m t] show ?case
    by (cases "n = Suc m") (auto simp: refines_def simp del: getIncomingPodsForTrafficSplit.simps)
qed (simp add: refines_def)

section \<open>Enough fuel\<close>

definition keyed :: "Topology \<Rightarrow> bool" where
  "keyed t \<longleftrightarrow> (\<forall>k ts. TrafficSplits t k = Some ts \<longrightarrow> ts_key ts = k)"

lemma keyedD: "keyed t \<Longrightarrow> TrafficSplits t k = Some ts \<Longrightarrow> ts_key ts = k"
  by (simp add: keyed_def)

lemma wf_keyed: "wf_topology t \<Longrightarrow> keyed t"
  by (simp add: keyed_def wf_topology_def ts_ok_def ts_key_def)

text \<open>\<open>rec\<close> returns from every split of the topology once the keys in \<open>v\<close> are visited.\<close>

definition returns :: "Topology \<Rightarrow> Key set \<Rightarrow> search \<Rightarrow> bool" where
  "returns t v rec \<longleftrightarrow> (\<forall>k ts v1. TrafficSplits t k = Some ts \<longrightarrow> v \<subseteq> v1 \<longrightarrow>
     (\<exists>v2 r. rec ts v1 = Some (v2, r) \<and> v1 \<subseteq> v2))"

lemma service_loop_returns:
  "returns t v rec \<Longrightarrow> v \<subseteq> v1 \<Longrightarrow> \<exists>v2 r. service_loop rec t ks u v1 = Some (v2, r)"
proof (induction ks arbitrary: u v1)
  case (Cons k ks)
  show ?case
  proof (cases "TrafficSplits t k")
    case (Some ts)
    with Cons.prems obtain v2 r where rec: "rec ts v1 = Some (v2, r)" "v1 \<subseteq> v2"
      unfolding returns_def by blast
    from rec(2) Cons.prems(2) have "v \<subseteq> v2" by blast
    from Cons.IH [OF Cons.prems(1) this] Some rec(1) show ?thesis
      by (cases r) (auto simp: Let_def)
  qed simp
qed simp

lemma backends_loop_returns:
  "returns t v rec \<Longrightarrow> \<exists>r. backends_loop rec t bs u v = Some r"
proof (induction bs arbitrary: u)
  case (Cons b bs)
  have "\<exists>v2 r. getIncomingPodsForService rec t (tsb_Service b) v = Some (v2, r)"
    using service_loop_returns [OF Cons.prems subset_refl]
    by (auto simp: getIncomingPodsForService_def split: option.splits)
  then obtain v2 r where "getIncomingPodsForService rec t (tsb_Service b) v = Some (v2, r)" by blast
  with Cons show ?case by (cases r) (auto simp: Let_def)
qed simp

lemma search_returns:
  assumes "keyed t" and fin: "finite (dom (TrafficSplits t))"
  shows "card (dom (TrafficSplits t) - v) < n \<Longrightarrow> returns t v (getIncomingPodsForTrafficSplit n t)"
proof (induction n arbitrary: v)
  case (Suc n)
  show ?case
    unfolding returns_def
  proof (intro allI impI)
    fix k ts v1 assume ts: "TrafficSplits t k = Some ts" and v1: "v \<subseteq> v1"
    let ?D = "dom (TrafficSplits t)"
    from keyedD [OF assms(1) ts] have key: "ts_key ts = k" .
    show "\<exists>v2 r. getIncomingPodsForTrafficSplit (Suc n) t ts v1 = Some (v2, r) \<and> v1 \<subseteq> v2"
    proof (cases "k \<in> v1")
      case True
      with key show ?thesis by (simp add: search_split_def)
    next
      case False
      with ts v1 have "?D - insert k v1 \<subset> ?D - v" by blast
      with fin have "card (?D - insert k v1) < card (?D - v)" by (simp add: psubset_card_mono)
      with Suc.prems have "card (?D - insert k v1) < n" by linarith
      from backends_loop_returns [OF Suc.IH [OF this], of "ts_Backends ts" None] key False
      show ?thesis by (auto simp: search_split_def Let_def)
    qed
  qed
qed simp

text \<open>C23: The search for the pods allowed through a traffic split always ends, although the splits may
  form a graph with cycles: with one unit of fuel more than there are splits it returns, and every
  larger amount of fuel returns the same result.\<close>

theorem search_terminates:
  assumes "wf_topology t" "finite (dom (TrafficSplits t))" "TrafficSplits t k = Some ts"
    and "card (dom (TrafficSplits t)) < n"
  shows "\<exists>res. \<forall>m\<ge>n. getIncomingPodsForTrafficSplit m t ts {} = Some res"
proof -
  from assms(4) have "card (dom (TrafficSplits t) - {}) < n" by simp
  from search_returns [OF wf_keyed [OF assms(1)] assms(2) this] assms(3)
  obtain v r where "getIncomingPodsForTrafficSplit n t ts {} = Some (v, r)"
    unfolding returns_def by blast
  with search_mono show ?thesis unfolding refines_def by blast
qed

section \<open>Who is allowed\<close>

text \<open>
  The specification of the search: a pod is allowed through a split when it is allowed on every
  backend service, of which there is at least one; it is allowed on a service with splits when it is
  allowed through all of them, and on a service without splits when it is a source of one of the
  service's traffic targets.
\<close>

inductive allowed_split :: "Topology \<Rightarrow> Key \<Rightarrow> Key \<Rightarrow> bool"
  and allowed_service :: "Topology \<Rightarrow> Key \<Rightarrow> Key \<Rightarrow> bool" for t p where
  split: "TrafficSplits t k = Some ts \<Longrightarrow> ts_Backends ts \<noteq> [] \<Longrightarrow>
      (\<And>b. b \<in> set (ts_Backends ts) \<Longrightarrow> allowed_service t p (tsb_Service b)) \<Longrightarrow> allowed_split t p k"
| leaf: "Services t k = Some svc \<Longrightarrow> svc_TrafficSplits svc = [] \<Longrightarrow>
      x \<in> set (svc_TrafficTargets svc) \<Longrightarrow> ServiceTrafficTargets t x = Some stt \<Longrightarrow>
      src \<in> set (stt_Sources stt) \<Longrightarrow> p \<in> set (src_Pods src) \<Longrightarrow> allowed_service t p k"
| node: "Services t k = Some svc \<Longrightarrow> svc_TrafficSplits svc \<noteq> [] \<Longrightarrow>
      (\<And>x. x \<in> set (svc_TrafficSplits svc) \<Longrightarrow> allowed_split t p x) \<Longrightarrow> allowed_service t p k"

inductive_simps allowed_split_iff: "allowed_split t p k"
inductive_simps allowed_service_iff: "allowed_service t p k"

lemma items_unionPod:
  "set (items (unionPod a b)) = (if b = None then set (items a) else set (items a) \<inter> set (items b))"
  by (auto simp: unionPod_def split: option.splits)

lemma set_fold_append_sources:
  "set (items (fold (\<lambda>source ps. append_slice ps (src_Pods source)) srcs a)) =
     set (items a) \<union> (\<Union>src\<in>set srcs. set (src_Pods src))"
  by (induction srcs arbitrary: a) auto

lemma pods_of_targets_set:
  "pods_of_targets t ks a = Inr pods \<Longrightarrow> set (items pods) = set (items a) \<union>
     {p. \<exists>x\<in>set ks. \<exists>stt. ServiceTrafficTargets t x = Some stt \<and> (\<exists>src\<in>set (stt_Sources stt). p \<in> set (src_Pods src))}"
  by (induction ks arbitrary: a) (auto simp: set_fold_append_sources split: option.splits)

text \<open>A search that is right about the splits it is asked for.\<close>

definition answers :: "Topology \<Rightarrow> search \<Rightarrow> bool" where
  "answers t rec \<longleftrightarrow> (\<forall>k ts v v' pods. TrafficSplits t k = Some ts \<longrightarrow>
     rec ts v = Some (v', Inr pods) \<longrightarrow> set (items pods) = {p. allowed_split t p k})"

lemma answersD:
  "answers t rec \<Longrightarrow> TrafficSplits t k = Some ts \<Longrightarrow> rec ts v = Some (v', Inr pods) \<Longrightarrow>
     set (items pods) = {p. allowed_split t p k}"
  by (simp add: answers_def)

text \<open>What both loops compute: the intersection of the sets \<open>P k\<close>, with \<open>None\<close> for no set yet.\<close>

definition meets :: "Key slice \<Rightarrow> 'b list \<Rightarrow> ('b \<Rightarrow> Key \<Rightarrow> bool) \<Rightarrow> Key set" where
  "meets acc ks P = {p. (if acc = None then ks \<noteq> [] else p \<in> set (items acc)) \<and> (\<forall>k\<in>set ks. P k p)}"

lemma meets_Nil [simp]: "meets acc [] P = set (items acc)"
  by (cases acc) (auto simp: meets_def)

lemma meets_stop:
  "set (items pods) = {p. P k p} \<Longrightarrow> items (unionPod pods acc) = [] \<Longrightarrow> meets acc (k # ks) P = {}"
  using items_unionPod [of pods acc] by (auto simp: meets_def split: if_splits)

lemma meets_step:
  assumes "set (items pods) = {p. P k p}" "items (unionPod pods acc) \<noteq> []"
  shows "meets (unionPod pods acc) ks P = meets acc (k # ks) P"
proof -
  from assms(2) have "unionPod pods acc \<noteq> None" by (cases "unionPod pods acc") auto
  with assms(1) items_unionPod [of pods acc] show ?thesis
    by (auto simp: meets_def split: if_splits)
qed

lemma service_loop_answers:
  "answers t rec \<Longrightarrow> service_loop rec t ks acc v = Some (v', Inr pods) \<Longrightarrow>
     set (items pods) = meets acc ks (\<lambda>k p. allowed_split t p k)"
proof (induction ks arbitrary: acc v)
  case (Cons k ks)
  from Cons.prems(2) obtain ts v1 pods1 where
    ts: "TrafficSplits t k = Some ts" and rec: "rec ts v = Some (v1, Inr pods1)"
    and rest: "(if items (unionPod pods1 acc) = [] then Some (v1, Inr (unionPod pods1 acc))
       else service_loop rec t ks (unionPod pods1 acc) v1) = Some (v', Inr pods)"
    by (auto simp: Let_def split: option.splits sum.splits)
  note here = answersD [OF Cons.prems(1) ts rec]
  show ?case
  proof (cases "items (unionPod pods1 acc) = []")
    case True
    with rest meets_stop [of pods1 "\<lambda>k p. allowed_split t p k" k, OF here True] show ?thesis by auto
  next
    case False
    with rest Cons.IH [OF Cons.prems(1)]
      meets_step [of pods1 "\<lambda>k p. allowed_split t p k" k, OF here False] show ?thesis by simp
  qed
qed simp

lemma getIncomingPodsForService_answers:
  assumes "answers t rec" "getIncomingPodsForService rec t k v = Some (v', Inr pods)"
  shows "set (items pods) = {p. allowed_service t p k}"
proof -
  from assms(2) obtain svc where svc: "Services t k = Some svc"
    by (auto simp: getIncomingPodsForService_def split: option.splits)
  show ?thesis
  proof (cases "svc_TrafficSplits svc = []")
    case True
    with svc assms(2) have "pods_of_targets t (svc_TrafficTargets svc) None = Inr pods"
      by (simp add: getIncomingPodsForService_def getPodsForServiceWithNoTrafficSplits_def)
    from pods_of_targets_set [OF this] svc True show ?thesis
      by (auto simp: allowed_service_iff)
  next
    case False
    with svc assms(2) have "service_loop rec t (svc_TrafficSplits svc) None v = Some (v', Inr pods)"
      by (simp add: getIncomingPodsForService_def)
    from service_loop_answers [OF assms(1) this] svc False show ?thesis
      by (auto simp: allowed_service_iff meets_def)
  qed
qed

lemma backends_loop_answers:
  "answers t rec \<Longrightarrow> backends_loop rec t bs acc v = Some (Inr pods) \<Longrightarrow>
     set (items pods) = meets acc bs (\<lambda>b p. allowed_service t p (tsb_Service b))"
proof (induction bs arbitrary: acc)
  case (Cons b bs)
  from Cons.prems(2) obtain v1 pods1 where
    svc: "getIncomingPodsForService rec t (tsb_Service b) v = Some (v1, Inr pods1)"
    and rest: "(if items (unionPod pods1 acc) = [] then Some (Inr (unionPod pods1 acc))
       else backends_loop rec t bs (unionPod pods1 acc) v) = Some (Inr pods)"
    by (auto simp: Let_def split: option.splits sum.splits)
  note here = getIncomingPodsForService_answers [OF Cons.prems(1) svc]
  show ?case
  proof (cases "items (unionPod pods1 acc) = []")
    case True
    with rest meets_stop [of pods1 "\<lambda>b p. allowed_service t p (tsb_Service b)" b, OF here True]
    show ?thesis by auto
  next
    case False
    with rest Cons.IH [OF Cons.prems(1)]
      meets_step [of pods1 "\<lambda>b p. allowed_service t p (tsb_Service b)" b, OF here False]
    show ?thesis by simp
  qed
qed simp

lemma search_answers: "keyed t \<Longrightarrow> answers t (getIncomingPodsForTrafficSplit n t)"
proof (induction n)
  case (Suc n)
  show ?case
    unfolding answers_def
  proof (intro allI impI)
    fix k ts v v' pods assume ts: "TrafficSplits t k = Some ts"
      and res: "getIncomingPodsForTrafficSplit (Suc n) t ts v = Some (v', Inr pods)"
    from res have "backends_loop (getIncomingPodsForTrafficSplit n t) t (ts_Backends ts) None
        (insert (ts_key ts) v) = Some (Inr pods)"
      by (auto simp: search_split_def Let_def split: if_splits)
    from backends_loop_answers [OF Suc.IH [OF Suc.prems] this] ts
    show "set (items pods) = {p. allowed_split t p k}"
      by (auto simp: meets_def allowed_split_iff)
  qed
qed (simp add: answers_def)

section \<open>Errors are cycles\<close>

text \<open>One edge per backend of a split that hangs on a service.\<close>

definition split_graph :: "Topology \<Rightarrow> (Key \<times> Key) set" where
  "split_graph t = {(root, backend). \<exists>svc x ts b. Services t root = Some svc \<and> x \<in> set (svc_TrafficSplits svc)
     \<and> TrafficSplits t x = Some ts \<and> b \<in> set (ts_Backends ts) \<and> backend = tsb_Service b}"

definition distinct_splits :: "Topology \<Rightarrow> bool" where
  "distinct_splits t \<longleftrightarrow> (\<forall>k svc. Services t k = Some svc \<longrightarrow> distinct (svc_TrafficSplits svc))"

text \<open>Every visited split lies before the service \<open>k\<close> in the graph, except for those in \<open>ws\<close>, which are
  splits of \<open>k\<close> itself.\<close>

definition behind :: "Topology \<Rightarrow> Key \<Rightarrow> Key set \<Rightarrow> Key set \<Rightarrow> bool" where
  "behind t k ws v \<longleftrightarrow> (\<forall>u\<in>v. \<exists>ts. TrafficSplits t u = Some ts \<and>
     ((ts_Service ts, k) \<in> (split_graph t)\<^sup>+ \<or> (u \<in> ws \<and> ts_Service ts = k)))"

definition cycle_error :: "Topology \<Rightarrow> error + 'a \<Rightarrow> bool" where
  "cycle_error t r \<longleftrightarrow> (\<forall>e. r = Inl e \<longrightarrow> (\<exists>x k. e = ECircular x k \<and> (k, k) \<in> (split_graph t)\<^sup>+))"

lemma cycle_error_Inr [simp]: "cycle_error t (Inr x)"
  by (simp add: cycle_error_def)

text \<open>What the search promises to a service whose splits in \<open>ws\<close> it has visited.\<close>

definition finds_cycles :: "Topology \<Rightarrow> search \<Rightarrow> bool" where
  "finds_cycles t rec \<longleftrightarrow> (\<forall>k svc x ts ws v v' r. Services t k = Some svc \<longrightarrow>
     x \<in> set (svc_TrafficSplits svc) \<longrightarrow> TrafficSplits t x = Some ts \<longrightarrow> x \<notin> ws \<longrightarrow>
     behind t k ws v \<longrightarrow> rec ts v = Some (v', r) \<longrightarrow>
     cycle_error t r \<and> (is_err r \<or> v' = insert x v))"

lemma finds_cyclesD:
  assumes "finds_cycles t rec" "Services t k = Some svc" "x \<in> set (svc_TrafficSplits svc)"
    "TrafficSplits t x = Some ts" "x \<notin> ws" "behind t k ws v" "rec ts v = Some (v', r)"
  shows "cycle_error t r" "is_err r \<or> v' = insert x v"
  using assms unfolding finds_cycles_def by blast+

lemma behind_insert:
  "behind t k ws v \<Longrightarrow> TrafficSplits t x = Some ts \<Longrightarrow> ts_Service ts = k \<Longrightarrow>
     behind t k (insert x ws) (insert x v)"
  unfolding behind_def by blast

lemma pods_of_targets_ok:
  "\<forall>x\<in>set xs. x \<in> dom (ServiceTrafficTargets t) \<Longrightarrow> \<not> is_err (pods_of_targets t xs a)"
  by (induction xs arbitrary: a) auto

lemma service_loop_cycles:
  assumes "wf_topology t" "finds_cycles t rec" "Services t k = Some svc"
  shows "set xs \<subseteq> set (svc_TrafficSplits svc) \<Longrightarrow> distinct xs \<Longrightarrow> ws \<inter> set xs = {} \<Longrightarrow>
     behind t k ws v \<Longrightarrow> service_loop rec t xs acc v = Some (v', r) \<Longrightarrow> cycle_error t r"
proof (induction xs arbitrary: acc v ws)
  case (Cons x xs)
  from Cons.prems(1) have x: "x \<in> set (svc_TrafficSplits svc)" by simp
  have "svc_ok t k svc" using wf_topologyD [OF assms(1)] assms(3) by blast
  with x obtain ts where ts: "TrafficSplits t x = Some ts" "ts_Service ts = k"
    unfolding svc_ok_def by blast
  with Cons.prems(5) obtain v1 r1 where rec: "rec ts v = Some (v1, r1)"
    by (auto split: option.splits)
  from Cons.prems(3) have "x \<notin> ws" by auto
  note here = finds_cyclesD [OF assms(2,3) x ts(1) this Cons.prems(4) rec]
  show ?case
  proof (cases r1)
    case (Inl e)
    with Cons.prems(5) ts rec here(1) show ?thesis by (auto simp: cycle_error_def)
  next
    case (Inr pods)
    with here(2) have v1: "v1 = insert x v" by simp
    have ih: "service_loop rec t xs (unionPod pods acc) v1 = Some (v', r) \<Longrightarrow> cycle_error t r"
      using Cons.IH [of "insert x ws" v1 "unionPod pods acc"] Cons.prems behind_insert [OF Cons.prems(4) ts]
      by (auto simp: v1)
    from Cons.prems(5) ts rec Inr ih show ?thesis by (auto simp: Let_def split: if_splits)
  qed
qed auto

lemma getIncomingPodsForService_cycles:
  assumes wf: "wf_topology t" and dist: "distinct_splits t" and rec: "finds_cycles t rec"
    and "k \<in> dom (Services t)" and behind: "behind t k {} v"
    and res: "getIncomingPodsForService rec t k v = Some (v', r)"
  shows "cycle_error t r"
proof -
  from assms(4) obtain svc where svc: "Services t k = Some svc" by blast
  show ?thesis
  proof (cases "svc_TrafficSplits svc = []")
    case True
    have "svc_ok t k svc" using wf_topologyD [OF wf] svc by blast
    then have "\<not> is_err (pods_of_targets t (svc_TrafficTargets svc) None)"
      unfolding svc_ok_def by (intro pods_of_targets_ok) blast
    with True svc res show ?thesis
      by (cases r) (auto simp: getIncomingPodsForService_def getPodsForServiceWithNoTrafficSplits_def)
  next
    case False
    with svc res have "service_loop rec t (svc_TrafficSplits svc) None v = Some (v', r)"
      by (simp add: getIncomingPodsForService_def)
    with service_loop_cycles [OF wf rec svc subset_refl _ _ behind] dist svc show ?thesis
      by (simp add: distinct_splits_def)
  qed
qed

lemma backends_loop_cycles:
  assumes "wf_topology t" "distinct_splits t" "finds_cycles t rec"
  shows "(\<And>b. b \<in> set bs \<Longrightarrow> tsb_Service b \<in> dom (Services t) \<and> behind t (tsb_Service b) {} v) \<Longrightarrow>
     backends_loop rec t bs acc v = Some r \<Longrightarrow> cycle_error t r"
proof (induction bs arbitrary: acc)
  case (Cons b bs)
  from Cons.prems(2) obtain v1 r1 where
    svc: "getIncomingPodsForService rec t (tsb_Service b) v = Some (v1, r1)"
    by (auto split: option.splits)
  have "tsb_Service b \<in> dom (Services t)" "behind t (tsb_Service b) {} v" using Cons.prems(1) by simp_all
  note here = getIncomingPodsForService_cycles [OF assms this svc]
  show ?case
  proof (cases r1)
    case (Inl e)
    with Cons.prems(2) svc here show ?thesis by (auto simp: cycle_error_def)
  next
    case (Inr pods)
    have "backends_loop rec t bs (unionPod pods acc) v = Some r \<Longrightarrow> cycle_error t r"
      using Cons.IH Cons.prems(1) by simp
    with Cons.prems(2) svc Inr show ?thesis by (auto simp: Let_def split: if_splits)
  qed
qed auto

lemma search_cycles:
  assumes wf: "wf_topology t" and dist: "distinct_splits t"
  shows "finds_cycles t (getIncomingPodsForTrafficSplit n t)"
proof (induction n)
  case (Suc n)
  show ?case
    unfolding finds_cycles_def
  proof (intro allI impI)
    fix k svc x ts ws v v' r
    assume svc: "Services t k = Some svc" and x: "x \<in> set (svc_TrafficSplits svc)"
      and ts: "TrafficSplits t x = Some ts" and "x \<notin> ws" and behind: "behind t k ws v"
      and res: "getIncomingPodsForTrafficSplit (Suc n) t ts v = Some (v', r)"
    have key: "ts_key ts = x" using keyedD [OF wf_keyed [OF wf] ts] .
    have "svc_ok t k svc" "ts_ok t x ts" using wf_topologyD [OF wf] svc ts by blast+
    with x ts have root: "ts_Service ts = k" by (auto simp: svc_ok_def)
    show "cycle_error t r \<and> (is_err r \<or> v' = insert x v)"
    proof (cases "x \<in> v")
      case True
      with behind ts \<open>x \<notin> ws\<close> root have "(k, k) \<in> (split_graph t)\<^sup>+"
        unfolding behind_def by auto
      with res key True root show ?thesis by (auto simp: search_split_def cycle_error_def)
    next
      case False
      with res key have v': "v' = insert x v" and
        loop: "backends_loop (getIncomingPodsForTrafficSplit n t) t (ts_Backends ts) None (insert x v) = Some r"
        by (auto simp: search_split_def Let_def)
      have "tsb_Service b \<in> dom (Services t) \<and> behind t (tsb_Service b) {} (insert x v)"
        if b: "b \<in> set (ts_Backends ts)" for b
      proof
        from \<open>ts_ok t x ts\<close> b have "backend_ok t x ts b" unfolding ts_ok_def by blast
        then show "tsb_Service b \<in> dom (Services t)" by (auto simp: backend_ok_def)
        have edge: "(k, tsb_Service b) \<in> split_graph t"
          using svc x ts b unfolding split_graph_def by blast
        show "behind t (tsb_Service b) {} (insert x v)"
          unfolding behind_def
        proof
          fix u assume "u \<in> insert x v"
          with behind_insert [OF behind ts root] obtain tsu where tsu: "TrafficSplits t u = Some tsu"
            and "(ts_Service tsu, k) \<in> (split_graph t)\<^sup>+ \<or> ts_Service tsu = k"
            unfolding behind_def by blast
          with edge have "(ts_Service tsu, tsb_Service b) \<in> (split_graph t)\<^sup>+"
            by (auto intro: trancl_into_trancl)
          with tsu show "\<exists>ts. TrafficSplits t u = Some ts \<and>
              ((ts_Service ts, tsb_Service b) \<in> (split_graph t)\<^sup>+ \<or> u \<in> {} \<and> ts_Service ts = tsb_Service b)"
            by blast
        qed
      qed
      from backends_loop_cycles [OF wf dist Suc.IH this loop] v' show ?thesis by simp
    qed
  qed
qed (simp add: finds_cycles_def)

text \<open>C21: The search for the pods allowed through a split of a service is right: when it returns pods
  they are exactly the allowed ones, and when it fails the error is a circular reference, and the
  service it names really is on a cycle of the split graph.\<close>

theorem search_correct:
  assumes "wf_topology t" "distinct_splits t"
    and "Services t k = Some svc" "x \<in> set (svc_TrafficSplits svc)" "TrafficSplits t x = Some ts"
    and "getIncomingPodsForTrafficSplit n t ts {} = Some (v, r)"
  shows "(\<forall>pods. r = Inr pods \<longrightarrow> set (items pods) = {p. allowed_split t p x}) \<and>
     (\<forall>e. r = Inl e \<longrightarrow> (\<exists>y root. e = ECircular y root \<and> (root, root) \<in> (split_graph t)\<^sup>+))"
proof -
  have "behind t k {} {}" by (simp add: behind_def)
  from finds_cyclesD(1) [OF search_cycles [OF assms(1,2)] assms(3-5) _ this assms(6)]
  have "cycle_error t r" by simp
  with answersD [OF search_answers [OF wf_keyed [OF assms(1)]] assms(5)] assms(6) show ?thesis
    by (auto simp: cycle_error_def)
qed

section \<open>Populating changes what the search does not read\<close>

definition skeleton :: "TrafficSplit \<Rightarrow> Key \<times> Key \<times> TrafficSplitBackend list" where
  "skeleton ts = (ts_key ts, ts_Service ts, ts_Backends ts)"

definition same_graph :: "Topology \<Rightarrow> Topology \<Rightarrow> bool" where
  "same_graph t t' \<longleftrightarrow> Services t' = Services t \<and> ServiceTrafficTargets t' = ServiceTrafficTargets t \<and>
     (\<forall>k. map_option skeleton (TrafficSplits t' k) = map_option skeleton (TrafficSplits t k))"

definition agree :: "search \<Rightarrow> search \<Rightarrow> bool" where
  "agree f g \<longleftrightarrow> (\<forall>ts ts' v. skeleton ts = skeleton ts' \<longrightarrow> f ts v = g ts' v)"

lemma pods_of_targets_cong:
  "ServiceTrafficTargets t' = ServiceTrafficTargets t \<Longrightarrow> pods_of_targets t' ks a = pods_of_targets t ks a"
  by (induction ks arbitrary: a) (auto split: option.splits)

lemma service_loop_agree:
  assumes "same_graph t t'" "agree f g"
  shows "service_loop f t ks a v = service_loop g t' ks a v"
proof (induction ks arbitrary: a v)
  case (Cons k ks)
  from assms(1) have sk: "map_option skeleton (TrafficSplits t' k) = map_option skeleton (TrafficSplits t k)"
    by (simp add: same_graph_def)
  show ?case
  proof (cases "TrafficSplits t k")
    case None
    with sk show ?thesis by simp
  next
    case (Some ts)
    with sk obtain ts' where ts': "TrafficSplits t' k = Some ts'" "skeleton ts = skeleton ts'"
      by (cases "TrafficSplits t' k") auto
    with assms(2) have "f ts v = g ts' v" by (simp add: agree_def)
    with Some ts' Cons.IH show ?thesis by (simp add: Let_def split: option.split sum.split prod.split)
  qed
qed simp

lemma getIncomingPodsForService_agree:
  "same_graph t t' \<Longrightarrow> agree f g \<Longrightarrow> getIncomingPodsForService f t k v = getIncomingPodsForService g t' k v"
  using service_loop_agree [of t t' f g]
  by (simp add: getIncomingPodsForService_def getPodsForServiceWithNoTrafficSplits_def same_graph_def
      pods_of_targets_cong [of t' t] split: option.splits)

lemma backends_loop_agree:
  "same_graph t t' \<Longrightarrow> agree f g \<Longrightarrow> backends_loop f t bs a v = backends_loop g t' bs a v"
  by (induction bs arbitrary: a)
     (simp_all add: getIncomingPodsForService_agree Let_def split: option.split sum.split prod.split)

lemma search_agree:
  "same_graph t t' \<Longrightarrow> agree (getIncomingPodsForTrafficSplit n t) (getIncomingPodsForTrafficSplit n t')"
proof (induction n)
  case (Suc n)
  show ?case
    unfolding agree_def
  proof (intro allI impI)
    fix ts ts' v assume "skeleton ts = skeleton ts'"
    then have eqs: "ts_key ts = ts_key ts'" "ts_Service ts = ts_Service ts'" "ts_Backends ts = ts_Backends ts'"
      by (simp_all add: skeleton_def)
    show "getIncomingPodsForTrafficSplit (Suc n) t ts v = getIncomingPodsForTrafficSplit (Suc n) t' ts' v"
      using backends_loop_agree [OF Suc.prems Suc.IH [OF Suc.prems]]
      by (simp add: search_split_def Let_def eqs)
  qed
qed (simp add: agree_def)

text \<open>What the search says about a split, and what populating writes into it.\<close>

definition verdict :: "nat \<Rightarrow> Topology \<Rightarrow> Key \<Rightarrow> error + Key slice" where
  "verdict n t x = (case Option.bind (TrafficSplits t x) (\<lambda>ts. getIncomingPodsForTrafficSplit n t ts {}) of
     None \<Rightarrow> Inr None | Some (_, r) \<Rightarrow> r)"

definition annotate :: "nat \<Rightarrow> Topology \<Rightarrow> Key \<Rightarrow> TrafficSplit \<Rightarrow> TrafficSplit" where
  "annotate n t x ts = (case verdict n t x of
       Inl err \<Rightarrow> TrafficSplit_AddError (EIncomingPods err) ts
     | Inr pods \<Rightarrow> ts\<lparr>ts_Incoming := items pods\<rparr>)"

definition marked :: "nat \<Rightarrow> Topology \<Rightarrow> Key set \<Rightarrow> Topology" where
  "marked n t X = t\<lparr>TrafficSplits := (\<lambda>x.
     if x \<in> X then map_option (annotate n t x) (TrafficSplits t x) else TrafficSplits t x)\<rparr>"

lemma skeleton_annotate [simp]: "skeleton (annotate n t x ts) = skeleton ts"
  by (simp add: annotate_def skeleton_def ts_key_def TrafficSplit_AddError_def split: sum.splits)

lemma marked_simps [simp]:
  "Services (marked n t X) = Services t" "Pods (marked n t X) = Pods t"
  "ServiceTrafficTargets (marked n t X) = ServiceTrafficTargets t"
  "x \<notin> X \<Longrightarrow> TrafficSplits (marked n t X) x = TrafficSplits t x"
  "x \<in> X \<Longrightarrow> TrafficSplits (marked n t X) x = map_option (annotate n t x) (TrafficSplits t x)"
  "marked n t {} = t"
  by (simp_all add: marked_def)

lemma marked_insert:
  "x \<notin> X \<Longrightarrow> (marked n t X)\<lparr>TrafficSplits := adjust x (annotate n t x) (TrafficSplits (marked n t X))\<rparr>
     = marked n t (insert x X)"
  by (auto simp: marked_def adjust_apply fun_eq_iff)

lemma same_graph_marked: "same_graph (marked n t X) t"
  by (auto simp: same_graph_def marked_def option.map_comp o_def split: option.splits)
     (simp add: option.map_ident)?

lemma search_marked:
  "getIncomingPodsForTrafficSplit n (marked m t X) ts v = getIncomingPodsForTrafficSplit n t ts v"
  using search_agree [OF same_graph_marked] by (simp add: agree_def)

section \<open>The populated topology\<close>

definition splits_of :: "Topology \<Rightarrow> Key \<Rightarrow> Key list" where
  "splits_of t k = (case Services t k of None \<Rightarrow> [] | Some svc \<Rightarrow> svc_TrafficSplits svc)"

definition failed :: "nat \<Rightarrow> Topology \<Rightarrow> Key \<Rightarrow> bool" where
  "failed n t x \<longleftrightarrow> is_err (verdict n t x)"

lemma populate_split_marked:
  assumes "returns t {} (getIncomingPodsForTrafficSplit n t)" "TrafficSplits t x = Some ts" "x \<notin> X"
  shows "populate_split n k x (marked n t X, loops) =
     Some (marked n t (insert x X), if failed n t x then loops(k \<mapsto> at loops k @ [x]) else loops)"
proof -
  from assms(1,2) obtain v r where res: "getIncomingPodsForTrafficSplit n t ts {} = Some (v, r)"
    unfolding returns_def by blast
  with assms(2) have verdict: "verdict n t x = r" by (simp add: verdict_def)
  note step = marked_insert [OF assms(3), of n t]
  show ?thesis
  proof (cases r)
    case (Inl e)
    then have "annotate n t x = TrafficSplit_AddError (EIncomingPods e)"
      by (simp add: fun_eq_iff annotate_def verdict)
    with step Inl verdict assms(2,3) res show ?thesis
      by (simp add: populate_split_def search_marked failed_def split_error_def)
  next
    case (Inr pods)
    then have "annotate n t x = (\<lambda>ts. ts\<lparr>ts_Incoming := items pods\<rparr>)"
      by (simp add: fun_eq_iff annotate_def verdict)
    with step Inr verdict assms(2,3) res show ?thesis
      by (simp add: populate_split_def search_marked failed_def)
  qed
qed

lemma populate_splits_marked:
  assumes "returns t {} (getIncomingPodsForTrafficSplit n t)"
  shows "set xs \<subseteq> dom (TrafficSplits t) \<Longrightarrow> distinct xs \<Longrightarrow> set xs \<inter> X = {} \<Longrightarrow>
     \<exists>loops'. populate_splits n k xs (marked n t X, loops) = Some (marked n t (X \<union> set xs), loops')
       \<and> (\<forall>k'. at loops' k' = at loops k' @ (if k' = k then filter (failed n t) xs else []))"
proof (induction xs arbitrary: X loops)
  case (Cons x xs)
  then obtain ts where ts: "TrafficSplits t x = Some ts" by auto
  let ?l = "if failed n t x then loops(k \<mapsto> at loops k @ [x]) else loops"
  from Cons.prems have "x \<notin> X" by auto
  note here = populate_split_marked [OF assms ts this, of k loops]
  from Cons.prems have "set xs \<inter> insert x X = {}" by auto
  with Cons.IH [of "insert x X" ?l] Cons.prems obtain loops' where
    rest: "populate_splits n k xs (marked n t (insert x X), ?l) =
       Some (marked n t (insert x X \<union> set xs), loops')"
    and at: "\<forall>k'. at loops' k' = at ?l k' @ (if k' = k then filter (failed n t) xs else [])" by auto
  have "insert x X \<union> set xs = X \<union> set (x # xs)" by simp
  with rest here have "populate_splits n k (x # xs) (marked n t X, loops) =
      Some (marked n t (X \<union> set (x # xs)), loops')" by simp
  with at show ?case by auto
qed simp

lemma wf_splits_of:
  assumes "wf_topology t" "x \<in> set (splits_of t k)"
  shows "\<exists>ts. TrafficSplits t x = Some ts \<and> ts_Service ts = k"
proof -
  from assms(2) obtain svc where "Services t k = Some svc" "x \<in> set (svc_TrafficSplits svc)"
    by (cases "Services t k") (auto simp: splits_of_def)
  with wf_topologyD [OF assms(1)] have "svc_ok t k svc" by blast
  with \<open>x \<in> set (svc_TrafficSplits svc)\<close> show ?thesis unfolding svc_ok_def by blast
qed

lemma populate_services_marked:
  assumes wf: "wf_topology t" and dist: "distinct_splits t"
    and ret: "returns t {} (getIncomingPodsForTrafficSplit n t)"
  shows "distinct ks \<Longrightarrow> (\<And>k. k \<in> set ks \<Longrightarrow> set (splits_of t k) \<inter> X = {}) \<Longrightarrow>
     \<exists>loops'. populate_services n ks (marked n t X, loops) =
         Some (marked n t (X \<union> (\<Union>k\<in>set ks. set (splits_of t k))), loops')
       \<and> (\<forall>k. at loops' k = at loops k @ (if k \<in> set ks then filter (failed n t) (splits_of t k) else []))"
proof (induction ks arbitrary: X loops)
  case (Cons k ks)
  let ?X = "X \<union> set (splits_of t k)"
  have "distinct (splits_of t k)" using dist
    by (cases "Services t k") (simp_all add: splits_of_def distinct_splits_def)
  moreover have "set (splits_of t k) \<subseteq> dom (TrafficSplits t)" using wf_splits_of [OF wf] by blast
  ultimately obtain l1 where
    here: "populate_splits n k (splits_of t k) (marked n t X, loops) = Some (marked n t ?X, l1)"
    and l1: "\<forall>k'. at l1 k' = at loops k' @ (if k' = k then filter (failed n t) (splits_of t k) else [])"
    using populate_splits_marked [OF ret, of "splits_of t k" X k loops] Cons.prems(2) by auto
  have first: "(case Services (marked n t X) k of None \<Rightarrow> Some (marked n t X, loops)
      | Some svc \<Rightarrow> populate_splits n k (svc_TrafficSplits svc) (marked n t X, loops)) =
      Some (marked n t ?X, l1)" if "Services t k \<noteq> None"
    using here that by (auto simp: splits_of_def)
  have none: "?X = X" if "Services t k = None" using that by (simp add: splits_of_def)
  have "set (splits_of t k') \<inter> ?X = {}" if "k' \<in> set ks" for k'
  proof -
    from that Cons.prems(1) have "k' \<noteq> k" by auto
    then have "set (splits_of t k') \<inter> set (splits_of t k) = {}"
      using wf_splits_of [OF wf, of _ k'] wf_splits_of [OF wf, of _ k] by (fastforce simp: disjoint_iff)
    with Cons.prems(2) [of k'] that show ?thesis by auto
  qed
  note ih = Cons.IH [OF _ this]
  show ?case
  proof (cases "Services t k")
    case None
    from ih [of loops] Cons.prems(1) none [OF None] None show ?thesis
      by (auto simp: splits_of_def)
  next
    case (Some svc)
    from ih [of l1] Cons.prems(1) obtain l2 where
      "populate_services n ks (marked n t ?X, l1) =
         Some (marked n t (?X \<union> (\<Union>k\<in>set ks. set (splits_of t k))), l2)"
      and l2: "\<forall>k. at l2 k = at l1 k @ (if k \<in> set ks then filter (failed n t) (splits_of t k) else [])"
      by auto
    with first Some have "populate_services n (k # ks) (marked n t X, loops) =
        Some (marked n t (?X \<union> (\<Union>k\<in>set ks. set (splits_of t k))), l2)" by simp
    moreover have "?X \<union> (\<Union>k\<in>set ks. set (splits_of t k)) = X \<union> (\<Union>k\<in>set (k # ks). set (splits_of t k))"
      by auto
    ultimately show ?thesis using l1 l2 Cons.prems(1) by auto
  qed
qed simp

lemma fold_remove1_filter:
  "distinct xs \<Longrightarrow> fold remove1 ys xs = filter (\<lambda>x. x \<notin> set ys) xs"
proof (induction ys arbitrary: xs)
  case (Cons y ys)
  have "remove1 y xs = filter (\<lambda>x. x \<noteq> y) xs"
    using Cons.prems by (simp add: distinct_remove1_removeAll removeAll_filter_not_eq eq_commute)
  with Cons show ?case by (simp add: conj_commute)
qed simp

text \<open>The whole phase: every attached split is annotated, the failed ones leave their service.\<close>

definition populated :: "nat \<Rightarrow> Topology \<Rightarrow> Topology" where
  "populated n t = (marked n t (\<Union>k. set (splits_of t k)))\<lparr>Services := (\<lambda>k. map_option
     (\<lambda>svc. svc\<lparr>svc_TrafficSplits := filter (\<lambda>x. \<not> failed n t x) (svc_TrafficSplits svc)\<rparr>)
     (Services t k))\<rparr>"

lemma populate_eq:
  assumes "wf_topology t" "distinct_splits t" "returns t {} (getIncomingPodsForTrafficSplit n t)"
    and order: "enumerates svcOrder (Services t)"
  shows "populateTrafficSplitsAuthorizedIncomingTraffic n svcOrder t = Some (populated n t)"
proof -
  from order have "distinct svcOrder" and mem: "k \<in> set svcOrder \<longleftrightarrow> Services t k \<noteq> None" for k
    by (auto simp: enumerates_def)
  with populate_services_marked [OF assms(1-3), of svcOrder "{}" Map.empty] obtain loops where
    res: "populate_services n svcOrder (t, Map.empty) =
      Some (marked n t (\<Union>k\<in>set svcOrder. set (splits_of t k)), loops)"
    and loops: "\<And>k. at loops k = (if k \<in> set svcOrder then filter (failed n t) (splits_of t k) else [])"
    by auto
  have "splits_of t k = []" if "k \<notin> set svcOrder" for k using mem that by (simp add: splits_of_def)
  then have X: "(\<Union>k\<in>set svcOrder. set (splits_of t k)) = (\<Union>k. set (splits_of t k))" by auto
      (metis empty_iff list.set(1))
  have "fold remove1 (at loops k) (svc_TrafficSplits svc) =
      filter (\<lambda>x. \<not> failed n t x) (svc_TrafficSplits svc)" if "Services t k = Some svc" for k svc
  proof -
    from that assms(2) have "distinct (svc_TrafficSplits svc)" by (simp add: distinct_splits_def)
    with that loops mem show ?thesis
      by (auto simp: fold_remove1_filter splits_of_def intro: filter_cong)
  qed
  then have "removeLoopCausingTrafficSplits loops (marked n t (\<Union>k. set (splits_of t k))) = populated n t"
    by (auto simp: removeLoopCausingTrafficSplits_def populated_def fun_eq_iff intro!: arg_cong2 [where f = Services_update])
       (auto split: option.splits intro!: option.map_cong)
  with res X show ?thesis by (simp add: populateTrafficSplitsAuthorizedIncomingTraffic_def)
qed


lemma populated_simps [simp]:
  "Pods (populated n t) = Pods t" "ServiceTrafficTargets (populated n t) = ServiceTrafficTargets t"
  by (simp_all add: populated_def)

lemma populated_service:
  "Services (populated n t) k = map_option
     (\<lambda>svc. svc\<lparr>svc_TrafficSplits := filter (\<lambda>x. \<not> failed n t x) (svc_TrafficSplits svc)\<rparr>) (Services t k)"
  by (simp add: populated_def)

lemma populated_split:
  "TrafficSplits (populated n t) x =
     (if \<exists>k. x \<in> set (splits_of t k) then map_option (annotate n t x) (TrafficSplits t x) else TrafficSplits t x)"
  by (simp add: populated_def marked_def)

lemma annotate_frame:
  "ts_Name (annotate n t x ts) = ts_Name ts" "ts_Namespace (annotate n t x ts) = ts_Namespace ts"
  "ts_Service (annotate n t x ts) = ts_Service ts" "ts_Backends (annotate n t x ts) = ts_Backends ts"
  "ts_Rules (annotate n t x ts) = ts_Rules ts"
  by (simp_all add: annotate_def TrafficSplit_AddError_def split: sum.splits)

lemma extends_populated: "extends t (populated n t)"
  by (auto simp: extends_def populated_service populated_split annotate_frame)

lemma allowed_pods:
  assumes "wf_topology t"
  shows "allowed_split t p k \<Longrightarrow> p \<in> dom (Pods t)" "allowed_service t p k \<Longrightarrow> p \<in> dom (Pods t)"
proof (induction rule: allowed_split_allowed_service.inducts)
  case (split k ts)
  then show ?case by (cases "ts_Backends ts") auto
next
  case (leaf k svc x stt src)
  with wf_topologyD(3) [OF assms] have "stt_ok t x stt" by blast
  with leaf show ?case unfolding stt_ok_def by blast
next
  case (node k svc)
  then show ?case by (cases "svc_TrafficSplits svc") auto
qed

lemma verdict_correct:
  assumes wf: "wf_topology t" and dist: "distinct_splits t"
    and ret: "returns t {} (getIncomingPodsForTrafficSplit n t)" and x: "x \<in> set (splits_of t k)"
  shows "verdict n t x = Inr pods \<Longrightarrow> set (items pods) = {p. allowed_split t p x}"
    and "cycle_error t (verdict n t x)"
proof -
  from wf_splits_of [OF wf x] obtain ts where ts: "TrafficSplits t x = Some ts" by blast
  with ret obtain v r where res: "getIncomingPodsForTrafficSplit n t ts {} = Some (v, r)"
    unfolding returns_def by blast
  with ts have verdict: "verdict n t x = r" by (simp add: verdict_def)
  from x obtain svc where svc: "Services t k = Some svc" "x \<in> set (svc_TrafficSplits svc)"
    by (cases "Services t k") (auto simp: splits_of_def)
  have behind: "behind t k {} {}" by (simp add: behind_def)
  show "verdict n t x = Inr pods \<Longrightarrow> set (items pods) = {p. allowed_split t p x}"
    using answersD [OF search_answers [OF wf_keyed [OF wf]] ts, of n "{}" v pods] res verdict by simp
  from finds_cyclesD(1) [OF search_cycles [OF wf dist] svc ts _ behind res] verdict
  show "cycle_error t (verdict n t x)" by simp
qed

lemma populated_wf:
  assumes wf: "wf_topology t" and dist: "distinct_splits t"
    and ret: "returns t {} (getIncomingPodsForTrafficSplit n t)"
  shows "wf_topology (populated n t)"
proof (rule wf_topologyI)
  note old = extends_ok [OF extends_populated]
  show "svc_ok (populated n t) k s" if "Services (populated n t) k = Some s" for k s
  proof -
    from that obtain s0 where s0: "Services t k = Some s0"
      and s: "s = s0\<lparr>svc_TrafficSplits := filter (\<lambda>x. \<not> failed n t x) (svc_TrafficSplits s0)\<rparr>"
      by (auto simp: populated_service)
    from old(1) wf_topologyD(1) [OF wf s0] have "svc_ok (populated n t) k s0" .
    then show ?thesis by (auto simp: svc_ok_def s)
  qed
  show "pod_ok (populated n t) k p" if "Pods (populated n t) k = Some p" for k p
    using that old(2) wf_topologyD(2) [OF wf] by simp
  show "stt_ok (populated n t) x stt" if "ServiceTrafficTargets (populated n t) x = Some stt" for x stt
    using that old(3) wf_topologyD(3) [OF wf] by simp
  show "ts_ok (populated n t) x ts" if ts: "TrafficSplits (populated n t) x = Some ts" for x ts
  proof (cases "\<exists>k. x \<in> set (splits_of t k)")
    case False
    with ts have "TrafficSplits t x = Some ts" by (simp only: populated_split if_False)
    from old(5) wf_topologyD(4) [OF wf this] show ?thesis .
  next
    case True
    then obtain k where k: "x \<in> set (splits_of t k)" by blast
    from True ts obtain ts0 where ts0: "TrafficSplits t x = Some ts0" "ts = annotate n t x ts0"
      by (auto simp: populated_split)
    from old(5) wf_topologyD(4) [OF wf ts0(1)] have ok: "ts_ok (populated n t) x ts0" .
    have "set (ts_Incoming ts) \<subseteq> dom (Pods t)"
    proof (cases "verdict n t x")
      case (Inl e)
      with ok ts0 show ?thesis by (auto simp: annotate_def TrafficSplit_AddError_def ts_ok_def)
    next
      case (Inr pods)
      with ts0 have "ts_Incoming ts = items pods" by (simp add: annotate_def)
      with verdict_correct(1) [OF wf dist ret k Inr] allowed_pods(1) [OF wf] show ?thesis by auto
    qed
    with ok show ?thesis
      unfolding ts_ok_def backend_ok_def ts0(2) annotate_frame populated_simps by blast
  qed
qed

text \<open>C19: Populating the splits always ends, keeps the topology free of dangling references, and leaves
  on every split that still hangs on a service exactly the pods allowed through it: those that are
  allowed on all backends, down to the sources of the traffic targets.\<close>

theorem populate_incoming:
  assumes "wf_topology t" "distinct_splits t" "finite (dom (TrafficSplits t))"
    and "enumerates svcOrder (Services t)" "card (dom (TrafficSplits t)) < n"
  shows "\<exists>t'. populateTrafficSplitsAuthorizedIncomingTraffic n svcOrder t = Some t' \<and> wf_topology t' \<and>
    (\<forall>k svc x. Services t' k = Some svc \<and> x \<in> set (svc_TrafficSplits svc) \<longrightarrow>
       (\<exists>ts. TrafficSplits t' x = Some ts \<and> set (ts_Incoming ts) = {p. allowed_split t p x}))"
proof -
  from assms(5) have "card (dom (TrafficSplits t) - {}) < n" by simp
  note ret = search_returns [OF wf_keyed [OF assms(1)] assms(3) this]
  have "\<exists>ts. TrafficSplits (populated n t) x = Some ts \<and> set (ts_Incoming ts) = {p. allowed_split t p x}"
    if svc: "Services (populated n t) k = Some svc" "x \<in> set (svc_TrafficSplits svc)" for k svc x
  proof -
    from svc have x: "x \<in> set (splits_of t k)" and ok: "\<not> failed n t x"
      by (auto simp: populated_service splits_of_def)
    from wf_splits_of [OF assms(1) x] obtain ts where ts: "TrafficSplits t x = Some ts" by blast
    from ok obtain pods where "verdict n t x = Inr pods" by (cases "verdict n t x") (auto simp: failed_def)
    with verdict_correct(1) [OF assms(1,2) ret x this] x ts show ?thesis
      by (auto simp: populated_split annotate_def)
  qed
  with populate_eq [OF assms(1,2) ret assms(4)] populated_wf [OF assms(1,2) ret] show ?thesis by blast
qed

text \<open>C22: Populating removes splits only where there is a loop: when the split graph has no cycle every
  service keeps all its splits, and a split that is removed from its service carries the error that
  names a service on a cycle.\<close>

theorem populate_removes_loops:
  assumes "wf_topology t" "distinct_splits t" "finite (dom (TrafficSplits t))"
    and "enumerates svcOrder (Services t)" "card (dom (TrafficSplits t)) < n"
    and "populateTrafficSplitsAuthorizedIncomingTraffic n svcOrder t = Some t'"
    and "Services t k = Some svc"
  shows "\<exists>svc'. Services t' k = Some svc' \<and> set (svc_TrafficSplits svc') \<subseteq> set (svc_TrafficSplits svc) \<and>
    (acyclic (split_graph t) \<longrightarrow> svc' = svc) \<and>
    (\<forall>x\<in>set (svc_TrafficSplits svc) - set (svc_TrafficSplits svc').
       \<exists>ts y root. TrafficSplits t' x = Some ts \<and> EIncomingPods (ECircular y root) \<in> set (ts_Errors ts)
         \<and> (root, root) \<in> (split_graph t)\<^sup>+)"
proof -
  from assms(5) have "card (dom (TrafficSplits t) - {}) < n" by simp
  note ret = search_returns [OF wf_keyed [OF assms(1)] assms(3) this]
  from populate_eq [OF assms(1,2) ret assms(4)] assms(6) have t': "t' = populated n t" by simp
  let ?svc = "svc\<lparr>svc_TrafficSplits := filter (\<lambda>x. \<not> failed n t x) (svc_TrafficSplits svc)\<rparr>"
  have svc': "Services t' k = Some ?svc" using assms(7) by (simp add: t' populated_service)
  have cyc: "\<exists>y root. verdict n t x = Inl (ECircular y root) \<and> (root, root) \<in> (split_graph t)\<^sup>+"
    if "x \<in> set (splits_of t k)" "failed n t x" for x
    using verdict_correct(2) [OF assms(1,2) ret that(1)] that(2)
    by (cases "verdict n t x") (auto simp: failed_def cycle_error_def)
  have in_k: "x \<in> set (splits_of t k)" if "x \<in> set (svc_TrafficSplits svc)" for x
    using that assms(7) by (simp add: splits_of_def)
  have "?svc = svc" if "acyclic (split_graph t)"
  proof -
    have "\<forall>x\<in>set (svc_TrafficSplits svc). \<not> failed n t x"
      using that cyc in_k unfolding acyclic_def by blast
    then show ?thesis by simp
  qed
  moreover have "\<exists>ts y root. TrafficSplits t' x = Some ts \<and> EIncomingPods (ECircular y root) \<in> set (ts_Errors ts)
         \<and> (root, root) \<in> (split_graph t)\<^sup>+"
    if x: "x \<in> set (svc_TrafficSplits svc) - set (svc_TrafficSplits ?svc)" for x
  proof -
    from x have "x \<in> set (splits_of t k)" "failed n t x" using in_k by auto
    with cyc wf_splits_of [OF assms(1)] obtain ts y root where "TrafficSplits t x = Some ts"
      and "verdict n t x = Inl (ECircular y root)" "(root, root) \<in> (split_graph t)\<^sup>+" by meson
    moreover from this(1,2) \<open>x \<in> set (splits_of t k)\<close> have
      "TrafficSplits t' x = Some (TrafficSplit_AddError (EIncomingPods (ECircular y root)) ts)"
      by (auto simp: t' populated_split annotate_def)
    ultimately show ?thesis by (auto simp: TrafficSplit_AddError_def)
  qed
  ultimately show ?thesis using svc' by (intro exI [of _ ?svc]) auto
qed

section \<open>Small graphs\<close>

definition ex_svc :: "string \<Rightarrow> STTKey list \<Rightarrow> Key list \<Rightarrow> Key list \<Rightarrow> Service" where
  "ex_svc n tts splits backendOf = \<lparr>svc_Name = n, svc_Namespace = ''ns'', svc_Selector = Map.empty,
     svc_Annotations = Map.empty, svc_Ports = [], svc_ClusterIP = [], svc_Pods = [],
     svc_TrafficTargets = tts, svc_TrafficSplits = splits, svc_BackendOf = backendOf, svc_Errors = []\<rparr>"

definition ex_split :: "string \<Rightarrow> string \<Rightarrow> TrafficSplit" where
  "ex_split root backend = \<lparr>ts_Name = ''s'', ts_Namespace = ''ns'', ts_Service = Key root ''ns'',
     ts_Backends = [\<lparr>tsb_Weight = 1, tsb_Service = Key backend ''ns''\<rparr>], ts_Rules = [],
     ts_Incoming = [], ts_Errors = []\<rparr>"

text \<open>A split of \<open>a\<close> to \<open>b\<close>, which the pod \<open>p\<close> may talk to.\<close>

definition ex_graph :: Topology where
  "ex_graph =
     (let x = STTKey (Key ''b'' ''ns'') (Key ''tt'' ''ns''); s = Key ''s'' ''ns''; p = Key ''p'' ''ns'' in
      \<lparr>Services = [Key ''a'' ''ns'' \<mapsto> ex_svc ''a'' [] [s] [], Key ''b'' ''ns'' \<mapsto> ex_svc ''b'' [x] [] [s]],
       Pods = [p \<mapsto> \<lparr>pod_Name = ''p'', pod_Namespace = ''ns'', pod_ServiceAccount = ''sa'',
                 pod_OwnerReferences = [], pod_ContainerPorts = [], pod_IP = ''10.0.0.1'',
                 pod_SourceOf = [x], pod_DestinationOf = []\<rparr>],
       ServiceTrafficTargets = [x \<mapsto> \<lparr>stt_Service = Key ''b'' ''ns'', stt_Name = ''tt'',
                 stt_Namespace = ''ns'',
                 stt_Sources = [\<lparr>src_ServiceAccount = ''sa'', src_Namespace = ''ns'', src_Pods = [p]\<rparr>],
                 stt_Destination = no_destination, stt_Rules = [], stt_Errors = []\<rparr>],
       TrafficSplits = [s \<mapsto> ex_split ''a'' ''b'']\<rparr>)"

text \<open>A split whose backend is its own service.\<close>

definition ex_loop :: Topology where
  "ex_loop = \<lparr>Services = [Key ''a'' ''ns'' \<mapsto> ex_svc ''a'' [] [Key ''s'' ''ns''] [Key ''s'' ''ns'']],
     Pods = Map.empty, ServiceTrafficTargets = Map.empty,
     TrafficSplits = [Key ''s'' ''ns'' \<mapsto> ex_split ''a'' ''a'']\<rparr>"

lemmas ex_graph_defs = ex_graph_def ex_loop_def ex_svc_def ex_split_def no_destination_def

lemma ex_graph_wf: "wf_topology ex_graph"
  by (rule wf_topologyI)
     (auto simp: ex_graph_defs Let_def svc_ok_def pod_ok_def stt_ok_def ts_ok_def backend_ok_def
        exposes_all_def split: if_splits)

lemma ex_loop_wf: "wf_topology ex_loop"
  by (rule wf_topologyI)
     (auto simp: ex_graph_defs Let_def svc_ok_def ts_ok_def backend_ok_def exposes_all_def split: if_splits)

lemma ex_graph_distinct: "distinct_splits ex_graph"
  by (simp add: distinct_splits_def ex_graph_defs Let_def)

lemma ex_loop_distinct: "distinct_splits ex_loop"
  by (simp add: distinct_splits_def ex_graph_defs Let_def)

lemma ex_graph_splits: "TrafficSplits ex_graph = [Key ''s'' ''ns'' \<mapsto> ex_split ''a'' ''b'']"
  "TrafficSplits ex_loop = [Key ''s'' ''ns'' \<mapsto> ex_split ''a'' ''a'']"
  by (simp_all add: ex_graph_def ex_loop_def Let_def)

lemma ex_graph_orders:
  "enumerates [Key ''a'' ''ns'', Key ''b'' ''ns''] (Services ex_graph)"
  "enumerates [Key ''a'' ''ns''] (Services ex_loop)"
  by (auto simp: enumerates_def ex_graph_def ex_loop_def Let_def)

lemma ex_graph_search:
  "getIncomingPodsForTrafficSplit 2 ex_graph (ex_split ''a'' ''b'') {} =
     Some ({Key ''s'' ''ns''}, Inr (Some [Key ''p'' ''ns'']))"
  by (simp add: numeral_2_eq_2 search_split_def ts_key_def getIncomingPodsForService_def
      getPodsForServiceWithNoTrafficSplits_def ex_graph_defs Let_def unionPod_def append_slice_def)

lemma search_terminates_witness:
  "\<exists>res. \<forall>m\<ge>2. getIncomingPodsForTrafficSplit m ex_loop (ex_split ''a'' ''a'') {} = Some res"
  by (rule search_terminates [OF ex_loop_wf]) (simp_all add: ex_graph_splits)

lemma search_correct_witness: "{p. allowed_split ex_graph p (Key ''s'' ''ns'')} = {Key ''p'' ''ns''}"
proof -
  have "Services ex_graph (Key ''a'' ''ns'') = Some (ex_svc ''a'' [] [Key ''s'' ''ns''] [])"
    by (simp add: ex_graph_def Let_def)
  from search_correct [OF ex_graph_wf ex_graph_distinct this _ _ ex_graph_search, of "Key ''s'' ''ns''"]
  show ?thesis by (simp add: ex_svc_def ex_graph_splits)
qed

lemma populate_incoming_witness:
  "\<exists>t'. populateTrafficSplitsAuthorizedIncomingTraffic 2 [Key ''a'' ''ns'', Key ''b'' ''ns''] ex_graph = Some t'
     \<and> wf_topology t'"
  using populate_incoming [OF ex_graph_wf ex_graph_distinct _ ex_graph_orders(1), of 2]
  by (auto simp: ex_graph_splits)

lemma ex_loop_populated:
  "\<exists>t'. populateTrafficSplitsAuthorizedIncomingTraffic 2 [Key ''a'' ''ns''] ex_loop = Some t'
     \<and> (\<exists>svc. Services t' (Key ''a'' ''ns'') = Some svc \<and> svc_TrafficSplits svc = [])"
  by (simp add: populateTrafficSplitsAuthorizedIncomingTraffic_def numeral_2_eq_2 populate_split_def
      search_split_def ts_key_def getIncomingPodsForService_def ex_graph_defs Let_def
      removeLoopCausingTrafficSplits_def split_error_def)

lemma populate_removes_loops_witness:
  "\<exists>t' ts. populateTrafficSplitsAuthorizedIncomingTraffic 2 [Key ''a'' ''ns''] ex_loop = Some t'
     \<and> TrafficSplits t' (Key ''s'' ''ns'') = Some ts \<and> ts_Errors ts \<noteq> []"
proof -
  obtain t' svc' where t': "populateTrafficSplitsAuthorizedIncomingTraffic 2 [Key ''a'' ''ns''] ex_loop = Some t'"
    and svc': "Services t' (Key ''a'' ''ns'') = Some svc'" "svc_TrafficSplits svc' = []"
    using ex_loop_populated by blast
  have "Services ex_loop (Key ''a'' ''ns'') = Some (ex_svc ''a'' [] [Key ''s'' ''ns''] [Key ''s'' ''ns''])"
    by (simp add: ex_loop_def)
  from populate_removes_loops [OF ex_loop_wf ex_loop_distinct _ ex_graph_orders(2) _ t' this] svc'
  have "\<exists>ts. TrafficSplits t' (Key ''s'' ''ns'') = Some ts \<and> ts_Errors ts \<noteq> []"
    by (force simp: ex_graph_splits ex_svc_def)
  with t' show ?thesis by blast
qed

end
