(* ===== verification/Build.thy ===== *)
theory Build
  imports Incoming
begin

text \<open>
  \<open>Builder.Build\<close> of \<open>pkg/topology/builder.go\<close>: load, evaluate services, splits and targets, populate the
  splits. Every \<open>range\<close> over a Go map visits the entries in an order that the language leaves open; a
  \<open>schedule\<close> fixes one such order per loop, and the theorems hold for every schedule.
\<close>

section \<open>The build\<close>

record schedule =
  sch_Services :: "Key list"
  sch_TrafficSplits :: "Key list"
  sch_TrafficTargets :: "Key list"
  sch_PodsBySa :: "Key \<Rightarrow> Key list"
  sch_Populate :: "Key list"

definition destination_services :: "resources \<Rightarrow> KTrafficTarget \<Rightarrow> Key \<rightharpoonup> KPod list" where
  "destination_services res tt =
     (case PodsBySvcBySa res (Key (is_Name (ktt_Destination tt)) (is_Namespace (ktt_Destination tt))) of
        None \<Rightarrow> Map.empty | Some m \<Rightarrow> m)"

definition valid_schedule :: "resources \<Rightarrow> schedule \<Rightarrow> bool" where
  "valid_schedule res sch \<longleftrightarrow> enumerates (sch_Services sch) (r_Services res)
     \<and> enumerates (sch_TrafficSplits sch) (r_TrafficSplits res)
     \<and> enumerates (sch_TrafficTargets sch) (r_TrafficTargets res)
     \<and> (\<forall>k tt. r_TrafficTargets res k = Some tt \<longrightarrow>
          enumerates (sch_PodsBySa sch k) (destination_services res tt))
     \<and> enumerates (sch_Populate sch) (r_Services res)"

definition service_step :: "resources \<Rightarrow> Key \<Rightarrow> Topology \<Rightarrow> Topology" where
  "service_step res k t = (case r_Services res k of None \<Rightarrow> t | Some svc \<Rightarrow> evaluateService res t svc)"

definition split_step :: "resources \<Rightarrow> Key \<Rightarrow> Topology \<Rightarrow> Topology" where
  "split_step res k t = (case r_TrafficSplits res k of None \<Rightarrow> t | Some ts \<Rightarrow> evaluateTrafficSplit res t ts)"

definition traffic_target_step :: "resources \<Rightarrow> schedule \<Rightarrow> Key \<Rightarrow> Topology \<Rightarrow> Topology" where
  "traffic_target_step res sch k t = (case r_TrafficTargets res k of None \<Rightarrow> t
     | Some tt \<Rightarrow> evaluateTrafficTarget res (sch_PodsBySa sch k) t tt)"

definition evaluate_all :: "resources \<Rightarrow> schedule \<Rightarrow> Topology" where
  "evaluate_all res sch =
     fold (traffic_target_step res sch) (sch_TrafficTargets sch)
       (fold (split_step res) (sch_TrafficSplits sch)
         (fold (service_step res) (sch_Services sch) NewTopology))"

text \<open>\<open>None\<close> is running out of fuel.\<close>

definition Build_topology ::
  "nat \<Rightarrow> schedule \<Rightarrow> cluster \<Rightarrow> ResourceFilter \<Rightarrow> (error + Topology) option" where
  "Build_topology fuel sch b resourceFilter =
     (case loadResources b resourceFilter of
        Inl err \<Rightarrow> Some (Inl (ELoadResources err))
      | Inr res \<Rightarrow> map_option Inr
          (populateTrafficSplitsAuthorizedIncomingTraffic fuel (sch_Populate sch) (evaluate_all res sch)))"

section \<open>Splits of a service through the phases\<close>

lemma distinct_splits_iff: "distinct_splits t \<longleftrightarrow> (\<forall>k. distinct (splits_of t k))"
  by (auto simp: distinct_splits_def splits_of_def split: option.split)

lemma splits_of_adjust:
  assumes "\<And>s. svc_TrafficSplits (f s) = svc_TrafficSplits s"
  shows "splits_of (t\<lparr>Services := adjust k f (Services t)\<rparr>) k' = splits_of t k'"
  using assms by (auto simp: splits_of_def adjust_apply split: option.split)

lemma splits_of_cong: "Services t = Services t' \<Longrightarrow> splits_of t k = splits_of t' k"
  by (simp add: splits_of_def)

lemma splits_of_evaluateService:
  "splits_of (evaluateService res t svc) k = (if k = meta_key (ks_meta svc) then [] else splits_of t k)"
proof -
  obtain t1 ps where 1: "add_pods t (at (PodsBySvc res) (meta_key (ks_meta svc))) = (t1, ps)" by fastforce
  have "adds_pods t t1" using add_pods_adds [OF 1] by blast
  then have "Services t1 = Services t" by (simp add: adds_pods_def)
  with 1 show ?thesis by (simp add: evaluateService_def splits_of_def Let_def)
qed

lemma splits_of_evaluate_backend:
  "splits_of (evaluate_backend tsKey ns ps b t) k = splits_of t k"
  by (auto simp: evaluate_backend_def split_error_def splits_of_def Let_def adjust_apply split: option.split)

lemma splits_of_TrafficSplits [simp]: "splits_of (t\<lparr>TrafficSplits := f\<rparr>) k = splits_of t k"
  by (simp add: splits_of_def)

lemma splits_of_append:
  assumes "splits_of u k = splits_of t k"
  shows "splits_of (u\<lparr>Services := adjust root (\<lambda>s. s\<lparr>svc_TrafficSplits := svc_TrafficSplits s @ [x]\<rparr>) (Services u)\<rparr>) k
     \<in> {splits_of t k, splits_of t k @ [x]}"
  unfolding assms [symmetric] by (auto simp: splits_of_def adjust_apply split: option.splits)

lemma splits_of_evaluateTrafficSplit:
  "splits_of (evaluateTrafficSplit res t s) k \<in> {splits_of t k, splits_of t k @ [meta_key (kts_meta s)]}"
proof -
  have loop: "splits_of (fold (evaluate_backend tsKey ns ps) bs u) k = splits_of u k" for tsKey ns ps bs u
    by (induction bs arbitrary: u) (simp_all add: splits_of_evaluate_backend)
  show ?thesis
    unfolding evaluateTrafficSplit_def Let_def split_error_def
    by (simp add: splits_of_append loop split: option.split sum.split del: insert_iff) simp
qed

lemma add_pod_refs_frame:
  "Services (add_source_of x p t) = Services t" "Services (add_destination_of x p t) = Services t"
  "ServiceTrafficTargets (add_source_of x p t) = ServiceTrafficTargets t"
  "ServiceTrafficTargets (add_destination_of x p t) = ServiceTrafficTargets t"
  by (simp_all add: add_source_of_def add_destination_of_def)

lemma fold_keeps: "(\<And>x s. g (f x s) = g s) \<Longrightarrow> g (fold f xs s) = g s"
  by (induction xs arbitrary: s) simp_all

lemma addSourceAndDestinationToPods_frame [simp]:
  "Services (addSourceAndDestinationToPods t srcs x) = Services t"
  "ServiceTrafficTargets (addSourceAndDestinationToPods t srcs x) = ServiceTrafficTargets t"
  by (simp_all add: addSourceAndDestinationToPods_def Let_def add_pod_refs_frame
      fold_keeps [where g = Services] fold_keeps [where g = ServiceTrafficTargets] split: option.split)

lemma buildTrafficTargetDestination_frame:
  assumes "buildTrafficTargetDestination t tt pods svc = (t1, dest, err)"
  shows "Services t1 = Services t" "ServiceTrafficTargets t1 = ServiceTrafficTargets t"
    "dst_ServiceAccount dest = is_Name (ktt_Destination tt)"
    "dst_Namespace dest = is_Namespace (ktt_Destination tt)"
    "dst_Pods dest = map pod_key (filter (\<lambda>p. kp_PodIP p \<noteq> []) pods)"
    "err = None \<Longrightarrow> getTrafficTargetDestinationPorts svc tt = Inr (dst_Ports dest)"
proof -
  obtain t2 ks where 1: "add_ready_pods t pods = (t2, ks)" by fastforce
  note ready = add_ready_pods_adds [OF 1]
  then have "Services t2 = Services t" "ServiceTrafficTargets t2 = ServiceTrafficTargets t"
    by (simp_all add: adds_pods_def)
  with assms ready show "Services t1 = Services t" "ServiceTrafficTargets t1 = ServiceTrafficTargets t"
    "dst_ServiceAccount dest = is_Name (ktt_Destination tt)"
    "dst_Namespace dest = is_Namespace (ktt_Destination tt)"
    "dst_Pods dest = map pod_key (filter (\<lambda>p. kp_PodIP p \<noteq> []) pods)"
    "err = None \<Longrightarrow> getTrafficTargetDestinationPorts svc tt = Inr (dst_Ports dest)"
    by (auto simp: buildTrafficTargetDestination_def Let_def 1 split: sum.splits)
qed

section \<open>What a traffic target adds\<close>

definition ready_keys :: "KPod list \<Rightarrow> Key list" where
  "ready_keys pods = map pod_key (filter (\<lambda>p. kp_PodIP p \<noteq> []) pods)"

definition source_of :: "resources \<Rightarrow> IdentitySubject \<Rightarrow> STTSource" where
  "source_of res s = \<lparr>src_ServiceAccount = is_Name s, src_Namespace = is_Namespace s,
     src_Pods = ready_keys (at (PodsByServiceAccounts res) (Key (is_Name s) (is_Namespace s)))\<rparr>"

text \<open>What an entry of the topology says about the traffic target of the cluster it comes from: its
  sources are the pods of the accounts the target names, its destination the service's pods that run
  under the destination account, and without an error its rules and ports are the target's.\<close>

definition stt_from :: "resources \<Rightarrow> STTKey \<Rightarrow> ServiceTrafficTarget \<Rightarrow> bool" where
  "stt_from res x stt \<longleftrightarrow> (\<exists>tt. r_TrafficTargets res (TrafficTarget x) = Some tt
     \<and> stt_Sources stt = map (source_of res) (ktt_Sources tt)
     \<and> set (dst_Pods (stt_Destination stt)) \<subseteq> set (ready_keys (at (destination_services res tt) (Service x)))
     \<and> (stt_Errors stt = [] \<longrightarrow>
          dst_Pods (stt_Destination stt) = ready_keys (at (destination_services res tt) (Service x))
        \<and> buildTrafficTargetRules res tt = Inr (stt_Rules stt)))"

lemma build_sources_eq:
  "build_sources res t ss = (t', srcs) \<Longrightarrow> srcs = map (source_of res) ss"
proof (induction ss arbitrary: t t' srcs)
  case (Cons s ss)
  obtain t1 ks where 1: "add_ready_pods t (at (PodsByServiceAccounts res)
      (Key (is_Name s) (is_Namespace s))) = (t1, ks)" by fastforce
  obtain t2 rest where 2: "build_sources res t1 ss = (t2, rest)" by fastforce
  have "ks = ready_keys (at (PodsByServiceAccounts res) (Key (is_Name s) (is_Namespace s)))"
    using add_ready_pods_adds [OF 1] by (simp add: ready_keys_def)
  with Cons.prems Cons.IH [OF 2] 1 2 show ?case by (simp add: source_of_def)
qed simp

lemma pods_by_svc_by_sa_destination:
  "pods_by_svc_by_sa res (Key (is_Name (ktt_Destination tt)) (is_Namespace (ktt_Destination tt))) k =
     at (destination_services res tt) k"
  by (auto simp: pods_by_svc_by_sa_def destination_services_def at_def split: option.split)

lemma splits_of_put_stt [simp]: "splits_of (put_stt x stt t) k = splits_of t k"
  by (simp add: put_stt_def splits_of_def)

lemma splits_of_evaluate_target_on:
  "splits_of (evaluate_target_on res tt srcs svcKey pods t) k = splits_of t k"
proof -
  let ?x = "STTKey svcKey (meta_key (ktt_meta tt))"
  define t0 where "t0 = put_stt ?x \<lparr>stt_Service = svcKey, stt_Name = om_Name (ktt_meta tt),
      stt_Namespace = om_Namespace (ktt_meta tt), stt_Sources = srcs,
      stt_Destination = no_destination, stt_Rules = [], stt_Errors = []\<rparr> t"
  have t0: "splits_of t0 k = splits_of t k" by (simp add: t0_def)
  have dest: "splits_of t1 k = splits_of t k"
    if "buildTrafficTargetDestination t0 tt pods svc = (t1, dest, err)" for svc t1 dest err
    using buildTrafficTargetDestination_frame(1) [OF that] t0 splits_of_cong by metis
  have add: "splits_of (addSourceAndDestinationToPods u srcs x) k = splits_of u k" for u x
    by (rule splits_of_cong) simp
  show ?thesis
    unfolding evaluate_target_on_def Let_def t0_def [symmetric]
    by (auto simp: t0 dest add splits_of_adjust split: option.split sum.split prod.split)
qed

lemma splits_of_evaluateTrafficTarget:
  "splits_of (evaluateTrafficTarget res order t tt) k = splits_of t k"
proof -
  obtain t1 srcs where 1: "buildTrafficTargetSources res t tt = (t1, srcs)" by fastforce
  have "Services t1 = Services t"
    using build_sources_adds [OF 1 [unfolded buildTrafficTargetSources_def]] by (simp add: adds_pods_def)
  then have "splits_of t1 k = splits_of t k" by (rule splits_of_cong)
  then show ?thesis
    unfolding evaluateTrafficTarget_def Let_def 1
    by (simp add: fold_keeps [where g = "\<lambda>t. splits_of t k"] splits_of_evaluate_target_on)
qed

lemma evaluate_target_on_entry:
  assumes tt: "r_TrafficTargets res (meta_key (ktt_meta tt)) = Some tt"
    and srcs: "srcs = map (source_of res) (ktt_Sources tt)"
    and pods: "pods = at (destination_services res tt) svcKey"
  shows "\<exists>stt. ServiceTrafficTargets (evaluate_target_on res tt srcs svcKey pods t) =
       (ServiceTrafficTargets t)(STTKey svcKey (meta_key (ktt_meta tt)) \<mapsto> stt)
     \<and> stt_from res (STTKey svcKey (meta_key (ktt_meta tt))) stt"
proof -
  let ?x = "STTKey svcKey (meta_key (ktt_meta tt))"
  define stt where "stt = \<lparr>stt_Service = svcKey, stt_Name = om_Name (ktt_meta tt),
      stt_Namespace = om_Namespace (ktt_meta tt), stt_Sources = srcs,
      stt_Destination = no_destination, stt_Rules = [], stt_Errors = []\<rparr>"
  define t0 where "t0 = put_stt ?x stt t"
  have from_base: "stt_from res ?x (ServiceTrafficTarget_AddError e stt)" for e
    using tt by (simp add: stt_from_def stt_def srcs ServiceTrafficTarget_AddError_def no_destination_def)
  have STT0: "ServiceTrafficTargets t0 = (ServiceTrafficTargets t)(?x \<mapsto> stt)"
    by (simp add: t0_def put_stt_def)
  show ?thesis
  proof (cases "Services t0 svcKey")
    case None
    then show ?thesis
      unfolding evaluate_target_on_def Let_def stt_def [symmetric] t0_def [symmetric]
      using from_base by (auto simp: STT0 put_stt_def)
  next
    case (Some svc)
    show ?thesis
    proof (cases "buildTrafficTargetRules res tt")
      case (Inl err)
      with Some show ?thesis
        unfolding evaluate_target_on_def Let_def stt_def [symmetric] t0_def [symmetric]
        using from_base by (auto simp: STT0 put_stt_def)
    next
      case (Inr rules)
      obtain t1 dest err where d: "buildTrafficTargetDestination t0 tt pods svc = (t1, dest, err)"
        by (metis prod_cases3)
      note fr = buildTrafficTargetDestination_frame [OF d]
      let ?stt2 = "stt\<lparr>stt_Rules := rules, stt_Destination := dest\<rparr>"
      have ok: "stt_from res ?x ?stt2" "stt_from res ?x (ServiceTrafficTarget_AddError e ?stt2)" for e
        using tt Inr fr(5)
        by (simp_all add: stt_from_def stt_def srcs ServiceTrafficTarget_AddError_def pods ready_keys_def)
      have STT1: "ServiceTrafficTargets t1 = (ServiceTrafficTargets t)(?x \<mapsto> stt)"
        using fr(2) STT0 by simp
      have eq: "evaluate_target_on res tt srcs svcKey pods t =
        (case err of Some e \<Rightarrow> put_stt ?x (ServiceTrafficTarget_AddError e ?stt2) t1
         | None \<Rightarrow> addSourceAndDestinationToPods ((put_stt ?x ?stt2 t1)\<lparr>Services := adjust svcKey
              (\<lambda>s. s\<lparr>svc_TrafficTargets := svc_TrafficTargets s @ [?x]\<rparr>) (Services (put_stt ?x ?stt2 t1))\<rparr>) srcs ?x)"
        unfolding evaluate_target_on_def Let_def stt_def [symmetric] t0_def [symmetric]
        by (simp add: Some Inr d)
      show ?thesis
        unfolding eq using ok STT1 by (cases err) (auto simp: put_stt_def)
    qed
  qed
qed

lemma evaluateTrafficTarget_entries:
  assumes tt: "r_TrafficTargets res (meta_key (ktt_meta tt)) = Some tt"
  defines "added \<equiv> (\<lambda>order. (\<lambda>k. STTKey k (meta_key (ktt_meta tt))) ` set order)"
  shows "dom (ServiceTrafficTargets (evaluateTrafficTarget res order t tt)) =
       dom (ServiceTrafficTargets t) \<union> added order
     \<and> (\<forall>x stt. ServiceTrafficTargets (evaluateTrafficTarget res order t tt) x = Some stt \<longrightarrow>
          ServiceTrafficTargets t x = Some stt \<or> stt_from res x stt)"
proof -
  obtain t1 srcs where 1: "buildTrafficTargetSources res t tt = (t1, srcs)" by fastforce
  note src = 1 [unfolded buildTrafficTargetSources_def]
  have t1: "ServiceTrafficTargets t1 = ServiceTrafficTargets t"
    using build_sources_adds [OF src] by (simp add: adds_pods_def)
  have srcs: "srcs = map (source_of res) (ktt_Sources tt)" by (rule build_sources_eq [OF src])
  let ?f = "\<lambda>k. evaluate_target_on res tt srcs k (at (destination_services res tt) k)"
  have loop: "dom (ServiceTrafficTargets (fold ?f ks u)) = dom (ServiceTrafficTargets u) \<union> added ks
      \<and> (\<forall>x stt. ServiceTrafficTargets (fold ?f ks u) x = Some stt \<longrightarrow>
          ServiceTrafficTargets u x = Some stt \<or> stt_from res x stt)" for ks u
  proof (induction ks arbitrary: u)
    case Nil
    show ?case by (simp add: added_def)
  next
    case (Cons k ks)
    from evaluate_target_on_entry [OF tt srcs refl, of k u] obtain stt where
      "ServiceTrafficTargets (?f k u) = (ServiceTrafficTargets u)(STTKey k (meta_key (ktt_meta tt)) \<mapsto> stt)"
      "stt_from res (STTKey k (meta_key (ktt_meta tt))) stt" by blast
    with Cons.IH [of "?f k u"] show ?case
      unfolding added_def fold_simps o_apply by (auto split: if_splits)
  qed
  show ?thesis
    using loop [of order t1]
    by (simp add: evaluateTrafficTarget_def Let_def 1 t1 pods_by_svc_by_sa_destination)
qed

section \<open>The phases\<close>

lemma service_phase:
  assumes "keys_ok res" "set ks \<subseteq> dom (r_Services res)" "wf_topology t" "TrafficSplits t = Map.empty"
    and "\<forall>k. splits_of t k = []"
  defines "t' \<equiv> fold (service_step res) ks t"
  shows "wf_topology t' \<and> TrafficSplits t' = Map.empty \<and> dom (Services t') = dom (Services t) \<union> set ks
     \<and> ServiceTrafficTargets t' = ServiceTrafficTargets t \<and> (\<forall>k. splits_of t' k = [])"
  using assms(2-5) unfolding t'_def
proof (induction ks arbitrary: t)
  case (Cons k ks)
  from Cons.prems(1) obtain svc where svc: "r_Services res k = Some svc" by auto
  with assms(1) have k: "meta_key (ks_meta svc) = k" by (auto simp: keys_ok_def)
  note one = evaluateService_wf [OF Cons.prems(2,3), of res svc]
  have "\<forall>k. splits_of (evaluateService res t svc) k = []"
    using Cons.prems(4) by (simp add: splits_of_evaluateService)
  with Cons.IH [of "evaluateService res t svc"] Cons.prems(1) one svc k show ?case
    by (auto simp: service_step_def)
qed simp

lemma split_phase:
  assumes "keys_ok res"
  shows "set ks \<subseteq> dom (r_TrafficSplits res) \<Longrightarrow> distinct ks \<Longrightarrow> wf_topology t \<Longrightarrow>
     set ks \<inter> dom (TrafficSplits t) = {} \<Longrightarrow> (\<forall>k. distinct (splits_of t k)) \<Longrightarrow>
     wf_topology (fold (split_step res) ks t)
   \<and> dom (TrafficSplits (fold (split_step res) ks t)) = dom (TrafficSplits t) \<union> set ks
   \<and> dom (Services (fold (split_step res) ks t)) = dom (Services t)
   \<and> ServiceTrafficTargets (fold (split_step res) ks t) = ServiceTrafficTargets t
   \<and> (\<forall>k. distinct (splits_of (fold (split_step res) ks t) k))"
proof (induction ks arbitrary: t)
  case (Cons x ks)
  from Cons.prems(1) obtain ts where ts: "r_TrafficSplits res x = Some ts" by auto
  with assms have k: "meta_key (kts_meta ts) = x" by (auto simp: keys_ok_def)
  let ?t = "evaluateTrafficSplit res t ts"
  have new: "TrafficSplits t (meta_key (kts_meta ts)) = None" using Cons.prems(4) k by auto
  note one = evaluateTrafficSplit_wf [OF Cons.prems(3) new, of res, unfolded k]
  have "distinct (splits_of ?t k')" for k'
  proof -
    have "x \<notin> set (splits_of t k')" using wf_splits_of [OF Cons.prems(3), of x k'] new k by auto
    with Cons.prems(5) splits_of_evaluateTrafficSplit [of res t ts k'] k show ?thesis by auto
  qed
  moreover have "set ks \<inter> dom (TrafficSplits ?t) = {}" using one Cons.prems(2,4) by auto
  ultimately have "wf_topology (fold (split_step res) ks ?t)
   \<and> dom (TrafficSplits (fold (split_step res) ks ?t)) = dom (TrafficSplits ?t) \<union> set ks
   \<and> dom (Services (fold (split_step res) ks ?t)) = dom (Services ?t)
   \<and> ServiceTrafficTargets (fold (split_step res) ks ?t) = ServiceTrafficTargets ?t
   \<and> (\<forall>k. distinct (splits_of (fold (split_step res) ks ?t) k))"
    using Cons.IH [of ?t] Cons.prems(1,2) one by simp
  moreover have "split_step res x t = ?t" by (simp add: split_step_def ts)
  ultimately show ?case using one by simp
qed simp

text \<open>The entries that targets leave in the topology: one per target and service of its destination.\<close>

definition target_keys :: "resources \<Rightarrow> Key set \<Rightarrow> STTKey set" where
  "target_keys res ks = {STTKey svc k |svc k tt. k \<in> ks \<and> r_TrafficTargets res k = Some tt
     \<and> svc \<in> dom (destination_services res tt)}"

lemma target_phase:
  assumes "keys_ok res" "valid_schedule res sch"
  shows "set ks \<subseteq> dom (r_TrafficTargets res) \<Longrightarrow> wf_topology t \<Longrightarrow>
     (\<And>x stt. ServiceTrafficTargets t x = Some stt \<Longrightarrow> stt_from res x stt) \<Longrightarrow>
     wf_topology (fold (traffic_target_step res sch) ks t)
   \<and> TrafficSplits (fold (traffic_target_step res sch) ks t) = TrafficSplits t
   \<and> dom (Services (fold (traffic_target_step res sch) ks t)) = dom (Services t)
   \<and> (\<forall>k. splits_of (fold (traffic_target_step res sch) ks t) k = splits_of t k)
   \<and> dom (ServiceTrafficTargets (fold (traffic_target_step res sch) ks t)) =
       dom (ServiceTrafficTargets t) \<union> target_keys res (set ks)
   \<and> (\<forall>x stt. ServiceTrafficTargets (fold (traffic_target_step res sch) ks t) x = Some stt \<longrightarrow> stt_from res x stt)"
proof (induction ks arbitrary: t)
  case Nil
  then show ?case by (auto simp: target_keys_def)
next
  case (Cons x ks)
  from Cons.prems(1) obtain tt where tt: "r_TrafficTargets res x = Some tt" by auto
  with assms(1) have k: "meta_key (ktt_meta tt) = x" by (auto simp: keys_ok_def)
  let ?t = "evaluateTrafficTarget res (sch_PodsBySa sch x) t tt"
  have step: "traffic_target_step res sch x t = ?t" by (simp add: traffic_target_step_def tt)
  note wf = evaluateTrafficTarget_step [OF Cons.prems(2), of res "sch_PodsBySa sch x" tt]
  have "r_TrafficTargets res (meta_key (ktt_meta tt)) = Some tt" using tt k by simp
  note entries = evaluateTrafficTarget_entries [OF this, of "sch_PodsBySa sch x" t]
  have from_t: "stt_from res y stt" if "ServiceTrafficTargets ?t y = Some stt" for y stt
    using entries that Cons.prems(3) by blast
  have "set (sch_PodsBySa sch x) = dom (destination_services res tt)"
    using assms(2) tt by (auto simp: valid_schedule_def enumerates_def)
  then have "dom (ServiceTrafficTargets t) \<union> target_keys res (set (x # ks)) =
      dom (ServiceTrafficTargets ?t) \<union> target_keys res (set ks)"
    using entries tt k by (auto simp: target_keys_def)
  moreover have "splits_of ?t k = splits_of t k" for k by (rule splits_of_evaluateTrafficTarget)
  moreover note Cons.IH [of ?t, OF _ target_step_wf [OF wf] from_t] Cons.prems(1)
  ultimately show ?case using wf by (simp add: step target_step_def)
qed

lemma wf_NewTopology: "wf_topology NewTopology"
  by (simp add: wf_topology_def NewTopology_def)

lemma evaluate_all_props:
  assumes "keys_ok res" "valid_schedule res sch"
  defines "t \<equiv> evaluate_all res sch"
  shows "wf_topology t \<and> dom (Services t) = dom (r_Services res)
     \<and> dom (TrafficSplits t) = dom (r_TrafficSplits res) \<and> distinct_splits t
     \<and> dom (ServiceTrafficTargets t) = target_keys res UNIV
     \<and> (\<forall>x stt. ServiceTrafficTargets t x = Some stt \<longrightarrow> stt_from res x stt)"
proof -
  have sets: "set (sch_Services sch) = dom (r_Services res)"
    "set (sch_TrafficSplits sch) = dom (r_TrafficSplits res)" "distinct (sch_TrafficSplits sch)"
    "set (sch_TrafficTargets sch) = dom (r_TrafficTargets res)"
    using assms(2) by (auto simp: valid_schedule_def enumerates_def)
  define t1 where "t1 = fold (service_step res) (sch_Services sch) NewTopology"
  define t2 where "t2 = fold (split_step res) (sch_TrafficSplits sch) t1"
  have new: "TrafficSplits NewTopology = Map.empty" "\<forall>k. splits_of NewTopology k = []"
    "dom (Services NewTopology) = {}" "ServiceTrafficTargets NewTopology = Map.empty"
    by (simp_all add: NewTopology_def splits_of_def)
  note p1 = service_phase [OF assms(1) _ wf_NewTopology new(1,2), of "sch_Services sch", folded t1_def]
  have t1: "wf_topology t1" "TrafficSplits t1 = Map.empty" "dom (Services t1) = dom (r_Services res)"
    "ServiceTrafficTargets t1 = Map.empty" "\<forall>k. splits_of t1 k = []"
    using p1 sets new by simp_all
  note p2 = split_phase [OF assms(1) _ sets(3) t1(1), folded t2_def]
  have t2: "wf_topology t2" "dom (TrafficSplits t2) = dom (r_TrafficSplits res)"
    "dom (Services t2) = dom (r_Services res)" "ServiceTrafficTargets t2 = Map.empty"
    "\<forall>k. distinct (splits_of t2 k)"
    using p2 sets t1 by simp_all
  have t: "t = fold (traffic_target_step res sch) (sch_TrafficTargets sch) t2"
    by (simp add: t_def evaluate_all_def t1_def t2_def)
  have "target_keys res (dom (r_TrafficTargets res)) = target_keys res UNIV"
    by (auto simp: target_keys_def)
  with target_phase [OF assms(1,2), of "sch_TrafficTargets sch" t2, folded t] sets t2
  show ?thesis by (simp add: distinct_splits_iff)
qed

section \<open>The built topology\<close>

lemma Build_total:
  assumes "\<And>res. loadResources b flt = Inr res \<Longrightarrow> valid_schedule res sch"
    and "length (sch_TrafficSplits sch) < fuel"
  shows "case loadResources b flt of
      Inl err \<Rightarrow> Build_topology fuel sch b flt = Some (Inl (ELoadResources err))
    | Inr res \<Rightarrow> \<exists>t. Build_topology fuel sch b flt = Some (Inr t) \<and> wf_topology t
        \<and> dom (Services t) = dom (r_Services res) \<and> dom (TrafficSplits t) = dom (r_TrafficSplits res)
        \<and> dom (ServiceTrafficTargets t) = target_keys res UNIV"
proof (cases "loadResources b flt")
  case (Inr res)
  note valid = assms(1) [OF Inr]
  have keys: "keys_ok res" using loadResources_ok [OF Inr] by blast
  let ?t = "evaluate_all res sch"
  note props = evaluate_all_props [OF keys valid]
  have order: "enumerates (sch_Populate sch) (Services ?t)"
    and splits: "enumerates (sch_TrafficSplits sch) (TrafficSplits ?t)"
    using valid props by (simp_all add: valid_schedule_def enumerates_def)
  note fin = enumerates_finite [OF splits]
  have fuel: "card (dom (TrafficSplits ?t)) < fuel" using enumerates_card [OF splits] assms(2) by simp
  have "card (dom (TrafficSplits ?t) - {}) < fuel" using fuel by simp
  note ret = search_returns [OF wf_keyed fin this]
  from props have wf: "wf_topology ?t" and dist: "distinct_splits ?t" by blast+
  note eq = populate_eq [OF wf dist ret [OF wf] order]
  have doms: "dom (Services (populated fuel ?t)) = dom (Services ?t)"
    "dom (TrafficSplits (populated fuel ?t)) = dom (TrafficSplits ?t)"
    by (auto simp: populated_service populated_split split: if_splits)
  from populated_wf [OF wf dist ret [OF wf]] eq props show ?thesis
    by (simp add: Inr Build_topology_def doms)
qed (simp add: Build_topology_def)

text \<open>C1: Building the topology always ends, and succeeds exactly when loading does. In the result no
  reference dangles, there is one node for every loaded service and split and one for every traffic
  target and service of its destination, whatever order the maps were visited in.\<close>

theorem Build_total_wf:
  assumes "\<And>res. loadResources b flt = Inr res \<Longrightarrow> valid_schedule res sch"
    and "length (sch_TrafficSplits sch) < fuel"
  shows "case loadResources b flt of
      Inl err \<Rightarrow> Build_topology fuel sch b flt = Some (Inl (ELoadResources err))
    | Inr res \<Rightarrow> \<exists>t. Build_topology fuel sch b flt = Some (Inr t) \<and> wf_topology t
        \<and> dom (Services t) = dom (r_Services res) \<and> dom (TrafficSplits t) = dom (r_TrafficSplits res)
        \<and> dom (ServiceTrafficTargets t) = target_keys res UNIV"
  using assms by (rule Build_total)

text \<open>C20: Every traffic target node of a built topology is authentic: its sources are exactly the pods
  with an address that run under the accounts the cluster's TrafficTarget names, and its destination
  pods run under its destination account in the service the node is for. A node without errors has all
  of these pods and the rules of the TrafficTarget.\<close>

theorem Build_targets_authentic:
  assumes "loadResources b flt = Inr res" "valid_schedule res sch"
    and "Build_topology fuel sch b flt = Some (Inr t)"
    and "ServiceTrafficTargets t x = Some stt"
  shows "stt_from res x stt"
proof -
  have keys: "keys_ok res" using loadResources_ok [OF assms(1)] by blast
  have "ServiceTrafficTargets t = ServiceTrafficTargets (evaluate_all res sch)"
  proof -
    have "ServiceTrafficTargets (fst st') = ServiceTrafficTargets (fst st)"
      if "populate_split n k y st = Some st'" for n k y st st'
      using that by (cases st) (auto simp: populate_split_def split_error_def split: option.splits sum.splits)
    then have "ServiceTrafficTargets (fst st') = ServiceTrafficTargets (fst st)"
      if "populate_splits n k ys st = Some st'" for n k ys st st'
      using that by (induction ys arbitrary: st) (auto simp: bind_eq_Some_conv)
    then have "ServiceTrafficTargets (fst st') = ServiceTrafficTargets (fst st)"
      if "populate_services n ks st = Some st'" for n ks st st'
      using that by (induction ks arbitrary: st) (auto simp: bind_eq_Some_conv split: option.splits)
    from this [of _ _ "(evaluate_all res sch, Map.empty)"] assms(1,3) show ?thesis
      by (auto simp: Build_topology_def populateTrafficSplitsAuthorizedIncomingTraffic_def
          removeLoopCausingTrafficSplits_def)
  qed
  with evaluate_all_props [OF keys assms(2)] assms(4) show ?thesis by simp
qed


section \<open>A small mesh\<close>

text \<open>One service with one pod, which a traffic target lets talk to itself.\<close>

definition ex_service :: KService where
  "ex_service = \<lparr>ks_meta = ex_meta ''svc'', ks_Selector = Map.empty, ks_Ports = [],
     ks_ClusterIP = ''10.1.0.1'', ks_Type = ''ClusterIP'', ks_TopologyKeys = []\<rparr>"

definition ex_target :: KTrafficTarget where
  "ex_target = \<lparr>ktt_meta = ex_meta ''tt'',
     ktt_Destination = \<lparr>is_Name = ''sa'', is_Namespace = ''ns'', is_Port = None\<rparr>,
     ktt_Sources = [\<lparr>is_Name = ''sa'', is_Namespace = ''ns'', is_Port = None\<rparr>], ktt_Rules = []\<rparr>"

definition ex_mesh :: cluster where
  "ex_mesh = ex_cluster\<lparr>l_Services := Some [ex_service], l_TrafficTargets := Some (Some [ex_target])\<rparr>"

definition ex_schedule :: schedule where
  "ex_schedule = \<lparr>sch_Services = [Key ''svc'' ''ns''], sch_TrafficSplits = [],
     sch_TrafficTargets = [Key ''tt'' ''ns''], sch_PodsBySa = (\<lambda>k. [Key ''svc'' ''ns'']),
     sch_Populate = [Key ''svc'' ''ns'']\<rparr>"

lemma ex_service_not_ignored: "\<not> IsIgnored (NewResourceFilter []) (ServiceObj ex_service)"
  by (simp add: IsIgnored_def NewResourceFilter_def ex_service_def ex_meta_def)

lemma ex_mesh_loads:
  assumes "\<not> IsIgnored flt (ServiceObj ex_service)"
    and ign: "\<And>m. om_Namespace m = ''ns'' \<Longrightarrow> om_Labels m = Map.empty \<Longrightarrow> \<not> IsIgnored flt (MetaObj m)"
  obtains res where "loadResources ex_mesh flt = Inr res"
    "r_Services res = [Key ''svc'' ''ns'' \<mapsto> ex_service]" "r_TrafficSplits res = Map.empty"
    "r_TrafficTargets res = [Key ''tt'' ''ns'' \<mapsto> ex_target]"
    "destination_services res ex_target = [Key ''svc'' ''ns'' \<mapsto> [ex_pod]]"
    "PodsByServiceAccounts res = [Key ''sa'' ''ns'' \<mapsto> [ex_pod]]"
proof -
  note keys = meta_key_def pod_key_def sa_key_def ex_meta_def ex_pod_def ex_service_def ex_target_def
    ex_endpoints_def default_destination_def
  have "\<exists>res. loadResources ex_mesh flt = Inr res
    \<and> r_Services res = [Key ''svc'' ''ns'' \<mapsto> ex_service] \<and> r_TrafficSplits res = Map.empty
    \<and> r_TrafficTargets res = [Key ''tt'' ''ns'' \<mapsto> ex_target]
    \<and> destination_services res ex_target = [Key ''svc'' ''ns'' \<mapsto> [ex_pod]]
    \<and> PodsByServiceAccounts res = [Key ''sa'' ''ns'' \<mapsto> [ex_pod]]"
    using assms(1)
    by (simp add: loadResources_def loadServices_def list_required_def list_optional_def ex_mesh_def
        ex_cluster_def indexSMIResources_def index_trafficTarget_def indexPods_def ign empty_resources_def
        indexEndpoints_def indexPodByService_def destination_services_def Let_def keys)
  with that show thesis by blast
qed

lemma ex_mesh_valid:
  assumes "\<not> IsIgnored flt (ServiceObj ex_service)"
    and ign: "\<And>m. om_Namespace m = ''ns'' \<Longrightarrow> om_Labels m = Map.empty \<Longrightarrow> \<not> IsIgnored flt (MetaObj m)"
    and "loadResources ex_mesh flt = Inr res"
  shows "valid_schedule res ex_schedule"
  by (rule ex_mesh_loads [OF assms(1) ign]) (use assms(3) in \<open>simp_all add: valid_schedule_def ex_schedule_def enumerates_def\<close>)

lemma ex_mesh_schedule:
  "loadResources ex_mesh (NewResourceFilter []) = Inr res \<Longrightarrow> valid_schedule res ex_schedule"
  by (rule ex_mesh_valid [OF ex_service_not_ignored ex_not_ignored])

lemma Build_total_wf_witness:
  "\<exists>t. Build_topology 1 ex_schedule ex_mesh (NewResourceFilter []) = Some (Inr t) \<and> wf_topology t
     \<and> dom (Services t) = {Key ''svc'' ''ns''}"
proof -
  obtain res where res: "loadResources ex_mesh (NewResourceFilter []) = Inr res"
    "r_Services res = [Key ''svc'' ''ns'' \<mapsto> ex_service]" by (rule ex_mesh_loads [OF ex_service_not_ignored ex_not_ignored])
  have "length (sch_TrafficSplits ex_schedule) < 1" by (simp add: ex_schedule_def)
  from Build_total_wf [of ex_mesh "NewResourceFilter []" ex_schedule, OF ex_mesh_schedule this] res
  show ?thesis by auto
qed

lemma Build_targets_authentic_witness:
  "\<exists>t stt. Build_topology 1 ex_schedule ex_mesh (NewResourceFilter []) = Some (Inr t)
     \<and> ServiceTrafficTargets t (STTKey (Key ''svc'' ''ns'') (Key ''tt'' ''ns'')) = Some stt
     \<and> map src_Pods (stt_Sources stt) = [[Key ''p'' ''ns'']]"
proof -
  obtain res where res: "loadResources ex_mesh (NewResourceFilter []) = Inr res"
    "r_TrafficTargets res = [Key ''tt'' ''ns'' \<mapsto> ex_target]"
    "destination_services res ex_target = [Key ''svc'' ''ns'' \<mapsto> [ex_pod]]"
    "PodsByServiceAccounts res = [Key ''sa'' ''ns'' \<mapsto> [ex_pod]]" by (rule ex_mesh_loads [OF ex_service_not_ignored ex_not_ignored])
  let ?x = "STTKey (Key ''svc'' ''ns'') (Key ''tt'' ''ns'')"
  have "length (sch_TrafficSplits ex_schedule) < 1" by (simp add: ex_schedule_def)
  from Build_total [of ex_mesh "NewResourceFilter []" ex_schedule, OF ex_mesh_schedule this] res(1)
  obtain t where t: "Build_topology 1 ex_schedule ex_mesh (NewResourceFilter []) = Some (Inr t)"
    and dom: "dom (ServiceTrafficTargets t) = target_keys res UNIV" by auto
  have "?x \<in> target_keys res UNIV" by (simp add: target_keys_def res)
  with dom obtain stt where stt: "ServiceTrafficTargets t ?x = Some stt" by blast
  from Build_targets_authentic [OF res(1) ex_mesh_schedule [OF res(1)] t stt]
  have "map src_Pods (stt_Sources stt) = [[Key ''p'' ''ns'']]"
    by (simp add: stt_from_def res source_of_def ready_keys_def ex_target_def at_def ex_pod_def
        pod_key_def meta_key_def ex_meta_def)
  with t stt show ?thesis by (intro exI [of _ t] exI [of _ stt]) simp
qed

end
