(* ===== verification/PortMapping.thy ===== *)
theory PortMapping
  imports Objects "HOL-Library.AList"
begin

text \<open>
  \<open>pkg/controller/portmapping.go\<close>: the table from mesh ports to service ports. The table is the list of
  its entries in the order a \<open>range\<close> loop visits them; statements hold for every order. A read under
  the read lock and a write under the write lock are single steps of the one worker that calls them.
  \<open>Find\<close> returns a port and a flag in the code, here an option.
\<close>

section \<open>The table\<close>

record servicePort =
  pm_Namespace :: string
  pm_Name :: string
  pm_Port :: int32

record PortMapping =
  pm_namespace :: string
  minPort :: int32
  maxPort :: int32
  pm_table :: "(int32 \<times> servicePort) list"

definition NewPortMapping :: "string \<Rightarrow> int32 \<Rightarrow> int32 \<Rightarrow> PortMapping" where
  "NewPortMapping ns mn mx = \<lparr>pm_namespace = ns, minPort = mn, maxPort = mx, pm_table = []\<rparr>"

datatype mesh_error =
    EParseShadowName string
  | EListShadow
  | ENoAvailablePort
  | ENoMapping string string int32
  | ENoHTTPPort
  | EUnknownMode
  | EAddMapping mesh_error
  | EMapTCP mesh_error
  | EMapUDP mesh_error
  | EGetShadow string
  | EShadowTrafficType string
  | EShadowPorts mesh_error

definition Find :: "PortMapping \<Rightarrow> string \<Rightarrow> string \<Rightarrow> int32 \<Rightarrow> int32 option" where
  "Find p ns n port =
     map_option fst (List.find (\<lambda>(mappedPort, v). pm_Name v = n \<and> pm_Namespace v = ns \<and> pm_Port v = port)
       (pm_table p))"

text \<open>The loop of \<open>Add\<close> over an \<open>int32\<close> counter: \<open>None\<close> is a loop that does not end, \<open>Some None\<close> the
  end of the range.\<close>

partial_function (option) next_port :: "(int32 \<times> servicePort) list \<Rightarrow> int32 \<Rightarrow> int32 \<Rightarrow> int32 option option" where
  "next_port table mx i =
     (if i \<le>s mx then (if map_of table i \<noteq> None then next_port table mx (i + 1) else Some (Some i))
      else Some None)"

definition Add :: "PortMapping \<Rightarrow> string \<Rightarrow> string \<Rightarrow> int32 \<Rightarrow> (PortMapping \<times> (mesh_error + int32)) option" where
  "Add p ns n port =
     map_option (\<lambda>r. case r of
         Some i \<Rightarrow> (p\<lparr>pm_table := AList.update i \<lparr>pm_Namespace = ns, pm_Name = n, pm_Port = port\<rparr> (pm_table p)\<rparr>, Inr i)
       | None \<Rightarrow> (p, Inl ENoAvailablePort))
       (next_port (pm_table p) (maxPort p) (minPort p))"

text \<open>\<open>Remove\<close> overwrites its \<open>port\<close> argument with the result of \<open>Find\<close>, so the error it reports names
  port 0.\<close>

definition Remove :: "PortMapping \<Rightarrow> string \<Rightarrow> string \<Rightarrow> int32 \<Rightarrow> PortMapping \<times> (mesh_error + int32)" where
  "Remove p ns n port =
     (case Find p ns n port of
        None \<Rightarrow> (p, Inl (ENoMapping ns n 0))
      | Some mapped \<Rightarrow> (p\<lparr>pm_table := AList.delete mapped (pm_table p)\<rparr>, Inr mapped))"

section \<open>Shadow service names\<close>

definition shadow_marker :: string where
  "shadow_marker = ''-6d61657368-''"

definition getShadowServiceName :: "string \<Rightarrow> string \<Rightarrow> string \<Rightarrow> string" where
  "getShadowServiceName meshNs ns n = meshNs @ ''-'' @ n @ shadow_marker @ ns"

text \<open>The text around the last occurrence of \<open>m\<close>: what the greedy \<open>(.*)m(.*)\<close> captures.\<close>

fun last_split :: "string \<Rightarrow> string \<Rightarrow> (string \<times> string) option" where
  "last_split m [] = (if m = [] then Some ([], []) else None)"
| "last_split m (c # s) =
     (case last_split m s of
        Some (a, b) \<Rightarrow> Some (c # a, b)
      | None \<Rightarrow> if HasPrefix (c # s) m then Some ([], drop (length m) (c # s)) else None)"

text \<open>The leftmost match of the expression \<open>pre(.*)m(.*)\<close>, for a \<open>pre\<close> and an \<open>m\<close> without special
  characters and a text without line breaks.\<close>

fun match_greedy :: "string \<Rightarrow> string \<Rightarrow> string \<Rightarrow> (string \<times> string) option" where
  "match_greedy pre m s =
     (case (if HasPrefix s pre then last_split m (drop (length pre) s) else None) of
        Some r \<Rightarrow> Some r
      | None \<Rightarrow> (case s of [] \<Rightarrow> None | c # s' \<Rightarrow> match_greedy pre m s'))"

declare match_greedy.simps [simp del]

definition parseServiceNamespaceAndName :: "PortMapping \<Rightarrow> string \<Rightarrow> mesh_error + (string \<times> string)" where
  "parseServiceNamespaceAndName p shadowServiceName =
     (case match_greedy (pm_namespace p @ ''-'') shadow_marker shadowServiceName of
        None \<Rightarrow> Inl (EParseShadowName shadowServiceName)
      | Some (n, ns) \<Rightarrow> Inr (ns, n))"

section \<open>Loading the state\<close>

definition load_port :: "string \<Rightarrow> string \<Rightarrow> ServicePort \<Rightarrow> PortMapping \<Rightarrow> PortMapping" where
  "load_port ns n port p =
     (let targetPort = ios_IntVal (sp_TargetPort port) in
      if minPort p \<le>s targetPort \<and> targetPort \<le>s maxPort p then
        p\<lparr>pm_table := AList.update targetPort
            \<lparr>pm_Namespace = ns, pm_Name = n, pm_Port = sp_Port port\<rparr> (pm_table p)\<rparr>
      else p)"

definition load_service :: "KService \<Rightarrow> PortMapping \<Rightarrow> PortMapping" where
  "load_service svc p =
     (case parseServiceNamespaceAndName p (om_Name (ks_meta svc)) of
        Inl _ \<Rightarrow> p
      | Inr (ns, n) \<Rightarrow> fold (load_port ns n) (ks_Ports svc) p)"

text \<open>The argument is what the lister returns for the labels of shadow services, \<open>None\<close> an error.\<close>

definition LoadState :: "KService list option \<Rightarrow> PortMapping \<Rightarrow> PortMapping \<times> mesh_error option" where
  "LoadState shadowServices p =
     (case shadowServices of
        None \<Rightarrow> (p, Some EListShadow)
      | Some svcs \<Rightarrow> (fold load_service svcs p, None))"

section \<open>Names read back\<close>

lemma last_split_None_iff: "m \<noteq> [] \<Longrightarrow> last_split m s = None \<longleftrightarrow> \<not> Contains s m"
proof (induction s)
  case Nil
  then show ?case by (simp add: Contains_def)
next
  case (Cons c s)
  then show ?case by (auto simp: Contains_def split: option.splits)
qed

lemma last_split_SomeD:
  "last_split m s = Some (a, b) \<Longrightarrow> m \<noteq> [] \<Longrightarrow> s = a @ m @ b \<and> \<not> Contains (tl (m @ b)) m"
proof (induction s arbitrary: a)
  case (Cons c s)
  show ?case
  proof (cases "last_split m s")
    case None
    with Cons.prems have a: "a = []" "HasPrefix (c # s) m" "b = drop (length m) (c # s)"
      by (auto split: if_splits)
    then obtain t where t: "c # s = m @ t" by (auto simp: HasPrefix_iff)
    with a have b: "b = t" by simp
    have "tl (m @ b) = s" using t b by (metis list.sel(3))
    with None Cons.prems(2) t a b show ?thesis by (simp add: last_split_None_iff)
  next
    case (Some r)
    with Cons show ?thesis by (cases r) auto
  qed
qed simp

lemma last_split_append:
  "m \<noteq> [] \<Longrightarrow> \<not> Contains (tl (m @ v)) m \<Longrightarrow> last_split m (u @ m @ v) = Some (u, v)"
proof (induction u)
  case Nil
  then obtain c m' where m: "m = c # m'" by (cases m) auto
  with Nil have "last_split m (m' @ v) = None" by (simp add: last_split_None_iff)
  with m show ?case by (simp add: HasPrefix_iff)
qed simp

lemma marker_overlap: "Contains (tl (shadow_marker @ ns)) shadow_marker \<longleftrightarrow> Contains (''-'' @ ns) shadow_marker"
  by (simp add: shadow_marker_def Contains_def)

lemma match_greedy_prefix:
  "last_split m s = Some r \<Longrightarrow> match_greedy pre m (pre @ s) = Some r"
  by (subst match_greedy.simps) (simp add: HasPrefix_iff)

lemma parse_shadow_name:
  "parseServiceNamespaceAndName p (getShadowServiceName (pm_namespace p) ns n) = Inr (ns, n) \<longleftrightarrow>
     \<not> Contains (''-'' @ ns) shadow_marker"
proof -
  let ?s = "n @ shadow_marker @ ns"
  have ne: "shadow_marker \<noteq> []" by (simp add: shadow_marker_def)
  have "Contains ?s shadow_marker" by (auto simp: Contains_iff)
  with ne obtain a b where ab: "last_split shadow_marker ?s = Some (a, b)"
    using last_split_None_iff [of shadow_marker ?s] by (cases "last_split shadow_marker ?s") auto
  from match_greedy_prefix [OF ab, of "pm_namespace p @ ''-''"]
  have "parseServiceNamespaceAndName p (getShadowServiceName (pm_namespace p) ns n) = Inr (b, a)"
    by (simp add: parseServiceNamespaceAndName_def getShadowServiceName_def)
  moreover have "(b, a) = (ns, n) \<longleftrightarrow> \<not> Contains (''-'' @ ns) shadow_marker"
    using last_split_SomeD [OF ab ne] last_split_append [OF ne, of ns n] ab marker_overlap [of ns] by auto
  ultimately show ?thesis by simp
qed

section \<open>The loop of Add\<close>

lemma sint_inc:
  fixes i :: int32
  assumes "sint i < 2 ^ 31 - 1"
  shows "sint (i + 1) = sint i + 1"
proof -
  have "- (2 ^ 31) \<le> sint i" using sint_ge [of i] by simp
  with assms show ?thesis
    by (simp add: signed_take_bit_int_eq_self sint_word_ariths)
qed

lemma sint_inject: "sint (i :: int32) = sint k \<Longrightarrow> k = i"
  by transfer (simp add: signed_take_bit_eq_iff_take_bit_eq)

lemma next_port_spec:
  assumes "sint mx < 2 ^ 31 - 1"
  shows "\<exists>r. next_port t mx i = Some r \<and> (case r of
      Some j \<Rightarrow> sint i \<le> sint j \<and> sint j \<le> sint mx \<and> map_of t j = None
        \<and> (\<forall>k. sint i \<le> sint k \<and> sint k < sint j \<longrightarrow> map_of t k \<noteq> None)
    | None \<Rightarrow> \<forall>k. sint i \<le> sint k \<and> sint k \<le> sint mx \<longrightarrow> map_of t k \<noteq> None)"
proof (induction "nat (sint mx - sint i + 1)" arbitrary: i rule: less_induct)
  case less
  show ?case
  proof (cases "i \<le>s mx \<and> map_of t i \<noteq> None")
    case False
    then show ?thesis by (subst next_port.simps) (auto simp: word_sle_eq)
  next
    case True
    then have le: "sint i \<le> sint mx" by (simp add: word_sle_eq)
    with assms have inc: "sint (i + 1) = sint i + 1" by (intro sint_inc) simp
    with le have "nat (sint mx - sint (i + 1) + 1) < nat (sint mx - sint i + 1)" by simp
    from less.hyps [OF this] obtain r where r: "next_port t mx (i + 1) = Some r"
      and spec: "case r of
        Some j \<Rightarrow> sint i + 1 \<le> sint j \<and> sint j \<le> sint mx \<and> map_of t j = None
          \<and> (\<forall>k. sint i + 1 \<le> sint k \<and> sint k < sint j \<longrightarrow> map_of t k \<noteq> None)
      | None \<Rightarrow> \<forall>k. sint i + 1 \<le> sint k \<and> sint k \<le> sint mx \<longrightarrow> map_of t k \<noteq> None"
      unfolding inc by blast
    have step: "sint i \<le> sint k \<Longrightarrow> sint i + 1 \<le> sint k \<or> k = i" for k
      by (cases "sint i = sint k") (auto dest: sint_inject)
    from r True have "next_port t mx i = Some r" by (subst next_port.simps) simp
    with spec step True show ?thesis
      by (intro exI [of _ r]) (fastforce split: option.splits)
  qed
qed


section \<open>The contract of a port mapper\<close>

text \<open>What the shadow service manager and the provider rely on: a partial injection from service ports
  to mesh ports, which \<open>Add\<close> extends and \<open>Remove\<close> restricts.\<close>

locale port_mapper =
  fixes valid :: "'s \<Rightarrow> bool"
    and in_range :: "'s \<Rightarrow> int32 \<Rightarrow> bool"
    and pfind :: "'s \<Rightarrow> string \<Rightarrow> string \<Rightarrow> int32 \<Rightarrow> int32 option"
    and padd :: "'s \<Rightarrow> string \<Rightarrow> string \<Rightarrow> int32 \<Rightarrow> ('s \<times> (mesh_error + int32)) option"
    and premove :: "'s \<Rightarrow> string \<Rightarrow> string \<Rightarrow> int32 \<Rightarrow> 's \<times> (mesh_error + int32)"
  assumes find_range: "valid s \<Longrightarrow> pfind s ns n port = Some i \<Longrightarrow> in_range s i"
    and find_inject: "valid s \<Longrightarrow> pfind s ns n port = Some i \<Longrightarrow> pfind s ns' n' port' = Some i \<Longrightarrow>
      ns' = ns \<and> n' = n \<and> port' = port"
    and add_total: "valid s \<Longrightarrow> \<exists>r. padd s ns n port = Some r"
    and add_ok: "valid s \<Longrightarrow> pfind s ns n port = None \<Longrightarrow> padd s ns n port = Some (s', Inr i) \<Longrightarrow>
      valid s' \<and> in_range s' = in_range s \<and>
      pfind s' ns' n' port' = (if ns' = ns \<and> n' = n \<and> port' = port then Some i else pfind s ns' n' port')"
    and add_err: "valid s \<Longrightarrow> padd s ns n port = Some (s', Inl e) \<Longrightarrow> s' = s"
    and remove_ok: "valid s \<Longrightarrow> premove s ns n port = (s', r) \<Longrightarrow>
      valid s' \<and> in_range s' = in_range s \<and>
      pfind s' ns' n' port' = (if ns' = ns \<and> n' = n \<and> port' = port then None else pfind s ns' n' port')"

definition in_ports :: "PortMapping \<Rightarrow> int32 \<Rightarrow> bool" where
  "in_ports p i \<longleftrightarrow> sint (minPort p) \<le> sint i \<and> sint i \<le> sint (maxPort p)"

definition mapping_ok :: "PortMapping \<Rightarrow> bool" where
  "mapping_ok p \<longleftrightarrow> distinct (map fst (pm_table p)) \<and> distinct (map snd (pm_table p))
     \<and> (\<forall>(i, v)\<in>set (pm_table p). in_ports p i) \<and> sint (maxPort p) < 2 ^ 31 - 1"

lemma servicePort_eq_iff:
  "v = \<lparr>pm_Namespace = ns, pm_Name = n, pm_Port = port\<rparr> \<longleftrightarrow>
     pm_Name v = n \<and> pm_Namespace v = ns \<and> pm_Port v = port"
  by (cases v) auto

text \<open>On such a table \<open>Find\<close> does not depend on the order of the entries.\<close>

lemma Find_Some_iff:
  assumes "distinct (map snd (pm_table p))"
  shows "Find p ns n port = Some i \<longleftrightarrow>
     (i, \<lparr>pm_Namespace = ns, pm_Name = n, pm_Port = port\<rparr>) \<in> set (pm_table p)"
proof -
  let ?v = "\<lparr>pm_Namespace = ns, pm_Name = n, pm_Port = port\<rparr>"
  have "distinct (map snd t) \<Longrightarrow> map_option fst (List.find (\<lambda>(j, v). v = ?v) t) = Some i \<longleftrightarrow> (i, ?v) \<in> set t"
    for t :: "(int32 \<times> servicePort) list"
    by (induction t) (force simp: image_iff)+
  with assms show ?thesis by (simp add: Find_def servicePort_eq_iff [symmetric])
qed

lemma table_update_fresh: "map_of t i = None \<Longrightarrow> AList.update i v t = t @ [(i, v)]"
  by (induction t) (auto split: if_splits)

lemma mapping_ok_add:
  assumes ok: "mapping_ok p" and new: "Find p ns n port = None" and add: "Add p ns n port = Some (p', Inr i)"
  shows "mapping_ok p' \<and> in_ports p' = in_ports p \<and> in_ports p i \<and> map_of (pm_table p) i = None
     \<and> pm_table p' = pm_table p @ [(i, \<lparr>pm_Namespace = ns, pm_Name = n, pm_Port = port\<rparr>)]"
proof -
  let ?v = "\<lparr>pm_Namespace = ns, pm_Name = n, pm_Port = port\<rparr>"
  from ok have snd: "distinct (map snd (pm_table p))" and mx: "sint (maxPort p) < 2 ^ 31 - 1"
    by (simp_all add: mapping_ok_def)
  from add have np: "next_port (pm_table p) (maxPort p) (minPort p) = Some (Some i)"
    and p': "p' = p\<lparr>pm_table := AList.update i ?v (pm_table p)\<rparr>"
    by (auto simp: Add_def split: option.splits)
  from next_port_spec [OF mx, of "pm_table p" "minPort p"] np
  have i: "in_ports p i" "map_of (pm_table p) i = None" by (auto simp: in_ports_def)
  from i(2) have t': "pm_table p' = pm_table p @ [(i, ?v)]" by (simp add: p' table_update_fresh)
  have "?v \<notin> set (map snd (pm_table p))"
    using new Find_Some_iff [OF snd, of ns n port] by auto
  moreover have "i \<notin> fst ` set (pm_table p)" using i(2) by (simp add: map_of_eq_None_iff)
  moreover have "in_ports p' = in_ports p" by (simp add: p' in_ports_def fun_eq_iff)
  ultimately show ?thesis
    using ok i t' p' by (auto simp: mapping_ok_def)
qed

lemma mapping_ok_remove:
  assumes ok: "mapping_ok p" and rm: "Remove p ns n port = (p', r)"
  shows "mapping_ok p' \<and> in_ports p' = in_ports p \<and> set (pm_table p') =
     {(i, v) \<in> set (pm_table p). v \<noteq> \<lparr>pm_Namespace = ns, pm_Name = n, pm_Port = port\<rparr>}"
proof -
  let ?v = "\<lparr>pm_Namespace = ns, pm_Name = n, pm_Port = port\<rparr>"
  from ok have d: "distinct (map snd (pm_table p))" "distinct (map fst (pm_table p))"
    by (simp_all add: mapping_ok_def)
  show ?thesis
  proof (cases "Find p ns n port")
    case None
    with Find_Some_iff [OF d(1), of ns n port] have "(i, ?v) \<notin> set (pm_table p)" for i by simp
    with rm None ok show ?thesis by (auto simp: Remove_def)
  next
    case (Some m)
    then have m: "(m, ?v) \<in> set (pm_table p)" using Find_Some_iff [OF d(1)] by simp
    have p': "p' = p\<lparr>pm_table := AList.delete m (pm_table p)\<rparr>" using rm Some by (simp add: Remove_def)
    have iff: "i = m \<longleftrightarrow> v = ?v" if "(i, v) \<in> set (pm_table p)" for i v
    proof
      assume "i = m"
      with that m d(2) show "v = ?v" by (blast dest: eq_key_imp_eq_value)
    next
      assume "v = ?v"
      with that m d(1) have "snd (i, v) = snd (m, ?v)" by simp
      with that m d(1) have "(i, v) = (m, ?v)" unfolding distinct_map inj_on_def by blast
      then show "i = m" by simp
    qed
    have del: "AList.delete m (pm_table p) = filter (\<lambda>x. fst x \<noteq> m) (pm_table p)"
      by (auto simp: AList.delete_eq case_prod_unfold intro: filter_cong)
    have "set (pm_table p') = {(i, v) \<in> set (pm_table p). v \<noteq> ?v}"
      using iff by (auto simp: p' del) blast+
    with ok d show ?thesis
      by (auto simp: mapping_ok_def p' del in_ports_def fun_eq_iff distinct_map_filter)
  qed
qed

lemma Find_eqI:
  assumes "mapping_ok p" "mapping_ok p'"
    and "\<And>i. (i, \<lparr>pm_Namespace = ns, pm_Name = n, pm_Port = port\<rparr>) \<in> set (pm_table p) \<longleftrightarrow>
       (i, \<lparr>pm_Namespace = ns, pm_Name = n, pm_Port = port\<rparr>) \<in> set (pm_table p')"
  shows "Find p ns n port = Find p' ns n port"
proof -
  have d: "distinct (map snd (pm_table p))" "distinct (map snd (pm_table p'))"
    using assms by (simp_all add: mapping_ok_def)
  have "Find p ns n port = Some i \<longleftrightarrow> Find p' ns n port = Some i" for i
    using assms(3) by (simp add: Find_Some_iff [OF d(1)] Find_Some_iff [OF d(2)])
  then show ?thesis by (metis not_Some_eq)
qed

interpretation pm: port_mapper mapping_ok in_ports Find Add Remove
proof
  fix p ns n port i assume ok: "mapping_ok p" and f: "Find p ns n port = Some i"
  then have d: "distinct (map snd (pm_table p))" and fst: "distinct (map fst (pm_table p))"
    by (simp_all add: mapping_ok_def)
  from ok f Find_Some_iff [OF d] show "in_ports p i" by (auto simp: mapping_ok_def)
  fix ns' n' port' assume "Find p ns' n' port' = Some i"
  with f Find_Some_iff [OF d] fst show "ns' = ns \<and> n' = n \<and> port' = port"
    by (auto dest: eq_key_imp_eq_value)
next
  fix p ns n port assume "mapping_ok p"
  then have "sint (maxPort p) < 2 ^ 31 - 1" by (simp add: mapping_ok_def)
  from next_port_spec [OF this, of "pm_table p" "minPort p"]
  show "\<exists>r. Add p ns n port = Some r" by (auto simp: Add_def)
next
  fix p ns n port p' i ns' n' port'
  assume ok: "mapping_ok p" and new: "Find p ns n port = None" and add: "Add p ns n port = Some (p', Inr i)"
  note res = mapping_ok_add [OF ok new add]
  then have d: "distinct (map snd (pm_table p'))" unfolding mapping_ok_def by blast
  have "Find p' ns' n' port' = Some i" if "ns' = ns \<and> n' = n \<and> port' = port"
    using res that by (simp add: Find_Some_iff [OF d])
  moreover have "Find p' ns' n' port' = Find p ns' n' port'" if "\<not> (ns' = ns \<and> n' = n \<and> port' = port)"
    by (rule Find_eqI) (use res ok that in auto)
  ultimately show "mapping_ok p' \<and> in_ports p' = in_ports p \<and>
      Find p' ns' n' port' = (if ns' = ns \<and> n' = n \<and> port' = port then Some i else Find p ns' n' port')"
    using res by simp
next
  show "Add p ns n port = Some (p', Inl e) \<Longrightarrow> p' = p" for p ns n port p' e
    by (auto simp: Add_def split: option.splits)
next
  fix p ns n port p' r ns' n' port'
  assume ok: "mapping_ok p" and rm: "Remove p ns n port = (p', r)"
  note res = mapping_ok_remove [OF ok rm]
  then have d: "distinct (map snd (pm_table p'))" unfolding mapping_ok_def by blast
  have "Find p' ns n port = None"
    using Find_Some_iff [OF d, of ns n port] res by (cases "Find p' ns n port") auto
  moreover have "Find p' ns' n' port' = Find p ns' n' port'" if "\<not> (ns' = ns \<and> n' = n \<and> port' = port)"
    by (rule Find_eqI) (use res ok that in auto)
  ultimately show "mapping_ok p' \<and> in_ports p' = in_ports p \<and>
      Find p' ns' n' port' = (if ns' = ns \<and> n' = n \<and> port' = port then None else Find p ns' n' port')"
    using res by auto
qed


section \<open>What the table promises\<close>

text \<open>C24: Adding a mapping for a service port that has none always ends. It takes the least free port of
  the range, which no service port had before and which \<open>Find\<close> returns from then on, and leaves all other
  mappings alone; when the range is full it reports that and changes nothing.\<close>

theorem Add_least_free:
  assumes "mapping_ok p" "Find p ns n port = None"
  shows "\<exists>p' r. Add p ns n port = Some (p', r) \<and> (case r of
      Inr i \<Rightarrow> mapping_ok p' \<and> in_ports p i \<and> map_of (pm_table p) i = None
        \<and> \<not> (\<exists>j. in_ports p j \<and> sint j < sint i \<and> map_of (pm_table p) j = None)
        \<and> (\<forall>ns' n' port'. Find p' ns' n' port' =
             (if ns' = ns \<and> n' = n \<and> port' = port then Some i else Find p ns' n' port'))
    | Inl e \<Rightarrow> e = ENoAvailablePort \<and> p' = p \<and> \<not> (\<exists>j. in_ports p j \<and> map_of (pm_table p) j = None))"
proof -
  from assms(1) have "sint (maxPort p) < 2 ^ 31 - 1" by (simp add: mapping_ok_def)
  from next_port_spec [OF this, of "pm_table p" "minPort p"] obtain r where
    r: "next_port (pm_table p) (maxPort p) (minPort p) = Some r"
    and spec: "case r of
      Some j \<Rightarrow> sint (minPort p) \<le> sint j \<and> sint j \<le> sint (maxPort p) \<and> map_of (pm_table p) j = None
        \<and> (\<forall>k. sint (minPort p) \<le> sint k \<and> sint k < sint j \<longrightarrow> map_of (pm_table p) k \<noteq> None)
    | None \<Rightarrow> \<forall>k. sint (minPort p) \<le> sint k \<and> sint k \<le> sint (maxPort p) \<longrightarrow> map_of (pm_table p) k \<noteq> None"
    by blast
  show ?thesis
  proof (cases r)
    case None
    with r spec show ?thesis by (auto simp: Add_def in_ports_def)
  next
    case (Some i)
    with r obtain p' where add: "Add p ns n port = Some (p', Inr i)" by (simp add: Add_def)
    have "\<not> (\<exists>j. in_ports p j \<and> sint j < sint i \<and> map_of (pm_table p) j = None)"
      using spec Some by (auto simp: in_ports_def)
    with mapping_ok_add [OF assms add] pm.add_ok [OF assms add] add show ?thesis by simp
  qed
qed

text \<open>Removing a mapping frees exactly the port of that service port and nothing else, and keeps the
  table a partial injection from ports of the range to service ports.\<close>

theorem Remove_exactly:
  assumes "mapping_ok p"
  shows "mapping_ok (fst (Remove p ns n port)) \<and>
    Find (fst (Remove p ns n port)) ns' n' port' =
      (if ns' = ns \<and> n' = n \<and> port' = port then None else Find p ns' n' port') \<and>
    snd (Remove p ns n port) = (case Find p ns n port of None \<Rightarrow> Inl (ENoMapping ns n 0) | Some i \<Rightarrow> Inr i)"
proof -
  have "snd (Remove p ns n port) = (case Find p ns n port of None \<Rightarrow> Inl (ENoMapping ns n 0) | Some i \<Rightarrow> Inr i)"
    by (auto simp: Remove_def split: option.split)
  moreover have "Remove p ns n port = (fst (Remove p ns n port), snd (Remove p ns n port))" by simp
  ultimately show ?thesis using pm.remove_ok [OF assms] by blast
qed

text \<open>The name of a shadow service gives back the namespace and the name of its service, except when
  the namespace itself makes the marker \<open>-6d61657368-\<close> appear a second time after the name.\<close>

theorem shadow_name_round_trip:
  "parseServiceNamespaceAndName p (getShadowServiceName (pm_namespace p) ns n) = Inr (ns, n) \<longleftrightarrow>
     \<not> Contains (''-'' @ ns) shadow_marker"
  by (rule parse_shadow_name)

section \<open>The state after a restart\<close>

definition listed_ports :: "PortMapping \<Rightarrow> KService list \<Rightarrow> (int32 \<times> servicePort) list" where
  "listed_ports p svcs = concat (map (\<lambda>svc.
     case parseServiceNamespaceAndName p (om_Name (ks_meta svc)) of
       Inl _ \<Rightarrow> []
     | Inr (ns, n) \<Rightarrow> map (\<lambda>port. (ios_IntVal (sp_TargetPort port),
           \<lparr>pm_Namespace = ns, pm_Name = n, pm_Port = sp_Port port\<rparr>))
         (filter (\<lambda>port. in_ports p (ios_IntVal (sp_TargetPort port))) (ks_Ports svc))) svcs)"

definition put_all :: "(int32 \<times> servicePort) list \<Rightarrow> PortMapping \<Rightarrow> PortMapping" where
  "put_all kvs p = p\<lparr>pm_table := fold (\<lambda>(i, v). AList.update i v) kvs (pm_table p)\<rparr>"

lemma put_all_simps:
  "put_all [] p = p" "put_all (kvs @ kvs') p = put_all kvs' (put_all kvs p)"
  "minPort (put_all kvs p) = minPort p" "maxPort (put_all kvs p) = maxPort p"
  "pm_namespace (put_all kvs p) = pm_namespace p" "in_ports (put_all kvs p) = in_ports p"
  by (simp_all add: put_all_def in_ports_def fun_eq_iff)

lemma fold_load_port:
  "fold (load_port ns n) ports p = put_all (map (\<lambda>port. (ios_IntVal (sp_TargetPort port),
           \<lparr>pm_Namespace = ns, pm_Name = n, pm_Port = sp_Port port\<rparr>))
         (filter (\<lambda>port. in_ports p (ios_IntVal (sp_TargetPort port))) ports)) p"
proof (induction ports arbitrary: p)
  case (Cons a ports)
  have "in_ports (load_port ns n a p) = in_ports p"
    by (simp add: load_port_def Let_def in_ports_def fun_eq_iff)
  with Cons show ?case
    by (auto simp: load_port_def Let_def in_ports_def word_sle_eq put_all_def)
qed (simp add: put_all_simps)

lemma load_service_eq: "load_service svc p = put_all (listed_ports p [svc]) p"
  by (auto simp: load_service_def listed_ports_def fold_load_port put_all_simps split: sum.splits)

lemma listed_ports_cong:
  assumes "pm_namespace p = pm_namespace q" "in_ports p = in_ports q"
  shows "listed_ports p svcs = listed_ports q svcs"
  by (simp add: listed_ports_def parseServiceNamespaceAndName_def assms cong: sum.case_cong)

lemma fold_load_service: "fold load_service svcs p = put_all (listed_ports p svcs) p"
proof (induction svcs arbitrary: p)
  case Nil
  show ?case by (simp add: listed_ports_def put_all_simps)
next
  case (Cons svc svcs)
  have split: "listed_ports p (svc # svcs) = listed_ports p [svc] @ listed_ports p svcs"
    by (simp add: listed_ports_def)
  have "listed_ports (load_service svc p) svcs = listed_ports p svcs"
    by (rule listed_ports_cong) (simp_all add: load_service_eq put_all_simps)
  with Cons show ?case by (simp add: split put_all_simps load_service_eq)
qed

lemma fold_update_set:
  assumes "single_valued (set kvs)"
  shows "distinct (map fst (fold (\<lambda>(i, v). AList.update i v) kvs []))
     \<and> set (fold (\<lambda>(i, v). AList.update i v) kvs []) = set kvs"
proof -
  have "distinct (map fst t) \<Longrightarrow> single_valued (set t \<union> set kvs) \<Longrightarrow>
      distinct (map fst (fold (\<lambda>(i, v). AList.update i v) kvs t))
    \<and> set (fold (\<lambda>(i, v). AList.update i v) kvs t) = set t \<union> set kvs" for t
  proof (induction kvs arbitrary: t)
    case (Cons x kvs)
    obtain i v where x: "x = (i, v)" by fastforce
    have "set (AList.update i v t) = insert (i, v) (set t)"
    proof (cases "map_of t i")
      case None
      then show ?thesis by (simp add: table_update_fresh)
    next
      case (Some w)
      then have "(i, w) \<in> set t" by (rule map_of_SomeD)
      with Cons.prems(2) x have "w = v" by (auto simp: single_valued_def)
      with Some Cons.prems(1) have "AList.update i v t = t"
        by (induction t) (auto dest: map_of_SomeD)
      with \<open>(i, w) \<in> set t\<close> \<open>w = v\<close> show ?thesis by auto
    qed
    moreover have "distinct (map fst (AList.update i v t))" using Cons.prems(1) by (simp add: distinct_update)
    ultimately show ?case using Cons.IH [of "AList.update i v t"] Cons.prems(2) x by simp
  qed simp
  from this [of "[]"] assms show ?thesis by simp
qed

lemma LoadState_listed:
  assumes "pm_table p = []" "sint (maxPort p) < 2 ^ 31 - 1"
    and "single_valued (set (listed_ports p svcs))" "single_valued ((set (listed_ports p svcs))\<inverse>)"
  shows "mapping_ok (fst (LoadState (Some svcs) p)) \<and> snd (LoadState (Some svcs) p) = None
     \<and> set (pm_table (fst (LoadState (Some svcs) p))) = set (listed_ports p svcs)"
proof -
  let ?t = "fold (\<lambda>(i, v). AList.update i v) (listed_ports p svcs) []"
  note t = fold_update_set [OF assms(3)]
  have eq: "LoadState (Some svcs) p = (p\<lparr>pm_table := ?t\<rparr>, None)"
    using assms(1) by (simp add: LoadState_def fold_load_service put_all_def)
  have "distinct ?t" using t by (auto simp: distinct_map)
  moreover have "inj_on snd (set ?t)"
    using assms(4) t by (auto simp: inj_on_def single_valued_def)
  ultimately have "distinct (map snd ?t)" by (simp add: distinct_map)
  moreover have "\<forall>(i, v)\<in>set ?t. in_ports p i"
    using t by (auto simp: listed_ports_def split: sum.splits)
  ultimately show ?thesis using t assms(2) by (simp add: eq mapping_ok_def in_ports_def)
qed

text \<open>Loading the state into a fresh table recovers the mappings from the shadow services: when no
  mesh port is listed for two service ports and no service port twice, the table holds exactly the
  ports of the range that the shadow services list, each for the service port its name and port say.\<close>

theorem LoadState_recovers:
  assumes "p = NewPortMapping meshNs mn mx" "sint mx < 2 ^ 31 - 1"
    and "single_valued (set (listed_ports p svcs))" "single_valued ((set (listed_ports p svcs))\<inverse>)"
  shows "mapping_ok (fst (LoadState (Some svcs) p)) \<and> snd (LoadState (Some svcs) p) = None
     \<and> (Find (fst (LoadState (Some svcs) p)) ns n port = Some i \<longleftrightarrow>
          (i, \<lparr>pm_Namespace = ns, pm_Name = n, pm_Port = port\<rparr>) \<in> set (listed_ports p svcs))"
proof -
  have "pm_table p = []" "sint (maxPort p) < 2 ^ 31 - 1" using assms(1,2) by (simp_all add: NewPortMapping_def)
  from LoadState_listed [OF this assms(3,4)] show ?thesis
    by (simp add: mapping_ok_def Find_Some_iff)
qed

section \<open>A small table\<close>

definition ex_mapping :: PortMapping where
  "ex_mapping = \<lparr>pm_namespace = ''mesh'', minPort = 10000, maxPort = 10001,
     pm_table = [(10000, \<lparr>pm_Namespace = ''ns'', pm_Name = ''a'', pm_Port = 80\<rparr>)]\<rparr>"

definition ex_shadow :: KService where
  "ex_shadow = \<lparr>ks_meta = \<lparr>om_Name = ''mesh-a-6d61657368-ns'', om_Namespace = ''mesh'', om_Labels = Map.empty,
       om_Annotations = Map.empty, om_ResourceVersion = ''1''\<rparr>, ks_Selector = Map.empty,
     ks_Ports = [\<lparr>sp_Name = [], sp_Protocol = ''TCP'', sp_Port = 80, sp_TargetPort = FromInt 10000\<rparr>],
     ks_ClusterIP = ''10.1.0.1'', ks_Type = ''ClusterIP'', ks_TopologyKeys = []\<rparr>"

lemma ex_mapping_ok: "mapping_ok ex_mapping"
  by (simp add: mapping_ok_def ex_mapping_def in_ports_def)

lemma Add_least_free_witness:
  "\<exists>p' r. Add ex_mapping ''ns'' ''b'' 80 = Some (p', r) \<and> is_err r = False"
proof -
  have "Find ex_mapping ''ns'' ''b'' 80 = None" by (simp add: Find_def ex_mapping_def)
  note res = Add_least_free [OF ex_mapping_ok this]
  have free: "in_ports ex_mapping 10001 \<and> map_of (pm_table ex_mapping) 10001 = None"
    by (simp add: ex_mapping_def in_ports_def)
  from res obtain p' r where add: "Add ex_mapping ''ns'' ''b'' 80 = Some (p', r)"
    and spec: "case r of Inr i \<Rightarrow> True
      | Inl e \<Rightarrow> \<not> (\<exists>j. in_ports ex_mapping j \<and> map_of (pm_table ex_mapping) j = None)"
    by (force split: sum.splits)
  with free show ?thesis by (cases r) auto
qed

lemma Remove_exactly_witness: "Find (fst (Remove ex_mapping ''ns'' ''a'' 80)) ''ns'' ''a'' 80 = None"
  using Remove_exactly [OF ex_mapping_ok, of "''ns''" "''a''" 80 "''ns''" "''a''" 80] by simp

lemma ex_listed:
  assumes "pm_namespace p = ''mesh''"
  shows "listed_ports p [ex_shadow] =
     (if in_ports p 10000 then [(10000, \<lparr>pm_Namespace = ''ns'', pm_Name = ''a'', pm_Port = 80\<rparr>)] else [])"
proof -
  have "parseServiceNamespaceAndName p (getShadowServiceName (pm_namespace p) ''ns'' ''a'') = Inr (''ns'', ''a'')"
    by (subst parse_shadow_name) (simp add: Contains_def shadow_marker_def)
  then have "parseServiceNamespaceAndName p ''mesh-a-6d61657368-ns'' = Inr (''ns'', ''a'')"
    by (simp add: getShadowServiceName_def assms shadow_marker_def)
  then show ?thesis
    by (simp add: listed_ports_def ex_shadow_def FromInt_def)
qed

lemma LoadState_recovers_witness:
  "Find (fst (LoadState (Some [ex_shadow]) (NewPortMapping ''mesh'' 10000 10001))) ''ns'' ''a'' 80 = Some 10000"
  using LoadState_recovers [OF refl, of 10001 "''mesh''" 10000 "[ex_shadow]" "''ns''" "''a''" 80 10000]
  by (simp add: ex_listed single_valued_def NewPortMapping_def in_ports_def)

end
