(* ===== verification/ShadowService.thy ===== *)
theory ShadowService
  imports PortMapping Annotations
begin

text \<open>
  \<open>pkg/controller/service.go\<close>: the shadow service that mirrors a mesh service, and the port mappings
  behind it. A call to the Kubernetes API is the value the operation returns; the lister's answer and
  the result of the server version check are arguments. \<open>None\<close> is a call of \<open>Add\<close> that does not return,
  which the contract of the port mapper rules out.
\<close>

section \<open>Ports\<close>

record ShadowServiceManager =
  sm_namespace :: string
  tcpStateTable :: PortMapping
  udpStateTable :: PortMapping
  defaultTrafficType :: string
  minHTTPPort :: int32
  maxHTTPPort :: int32

definition isPortSuitable :: "string \<Rightarrow> ServicePort \<Rightarrow> bool" where
  "isPortSuitable trafficType sp =
     (if trafficType = ServiceTypeUDP then sp_Protocol sp = ProtocolUDP
      else if trafficType = ServiceTypeTCP \<or> trafficType = ServiceTypeHTTP then sp_Protocol sp = ProtocolTCP
      else False)"

fun containsPort :: "ServicePort list \<Rightarrow> ServicePort \<Rightarrow> bool" where
  "containsPort [] port = False"
| "containsPort (onePort # ports) port =
     (if sp_Port onePort = sp_Port port \<and> sp_Protocol onePort = sp_Protocol port then True
      else containsPort ports port)"

fun needsCleanup :: "ServicePort list \<Rightarrow> ServicePort \<Rightarrow> bool" where
  "needsCleanup [] port = True"
| "needsCleanup (onePort # ports) port =
     (if sp_Port onePort = sp_Port port \<and> sp_Protocol onePort = sp_Protocol port
          \<and> sp_TargetPort onePort = sp_TargetPort port then False
      else needsCleanup ports port)"

text \<open>The sum is an \<open>int32\<close> sum and wraps.\<close>

definition getHTTPPort :: "ShadowServiceManager \<Rightarrow> nat \<Rightarrow> mesh_error + int32" where
  "getHTTPPort s portID =
     (if maxHTTPPort s <s minHTTPPort s + word_of_nat portID then Inl ENoHTTPPort
      else Inr (minHTTPPort s + word_of_nat portID))"

text \<open>\<open>getMappedPort\<close> works on the interface: its arguments are the mapper's operations and state.\<close>

definition getMappedPort ::
  "('s \<Rightarrow> string \<Rightarrow> string \<Rightarrow> int32 \<Rightarrow> int32 option) \<Rightarrow>
   ('s \<Rightarrow> string \<Rightarrow> string \<Rightarrow> int32 \<Rightarrow> ('s \<times> (mesh_error + int32)) option) \<Rightarrow>
   's \<Rightarrow> string \<Rightarrow> string \<Rightarrow> int32 \<Rightarrow> ('s \<times> (mesh_error + int32)) option" where
  "getMappedPort pfind padd stateTable n ns port =
     (case pfind stateTable ns n port of
        Some mappedPort \<Rightarrow> Some (stateTable, Inr mappedPort)
      | None \<Rightarrow> map_option (\<lambda>(s, r). (s, wrap_err EAddMapping r)) (padd stateTable ns n port))"

definition getTargetPort ::
  "ShadowServiceManager \<Rightarrow> string \<Rightarrow> nat \<Rightarrow> string \<Rightarrow> string \<Rightarrow> int32 \<Rightarrow>
     (ShadowServiceManager \<times> (mesh_error + int32)) option" where
  "getTargetPort s trafficType portID n ns port =
     (if trafficType = ServiceTypeHTTP then Some (s, getHTTPPort s portID)
      else if trafficType = ServiceTypeTCP then
        map_option (\<lambda>(t, r). (s\<lparr>tcpStateTable := t\<rparr>, wrap_err EMapTCP r))
          (getMappedPort Find Add (tcpStateTable s) n ns port)
      else if trafficType = ServiceTypeUDP then
        map_option (\<lambda>(t, r). (s\<lparr>udpStateTable := t\<rparr>, wrap_err EMapUDP r))
          (getMappedPort Find Add (udpStateTable s) n ns port)
      else Some (s, Inl EUnknownMode))"

text \<open>The loop of \<open>getShadowServicePorts\<close>, from the \<open>i\<close>-th port on.\<close>

fun shadow_ports ::
  "ShadowServiceManager \<Rightarrow> string \<Rightarrow> nat \<Rightarrow> string \<Rightarrow> string \<Rightarrow> ServicePort list \<Rightarrow>
     (ShadowServiceManager \<times> ServicePort list) option" where
  "shadow_ports s trafficType i n ns [] = Some (s, [])"
| "shadow_ports s trafficType i n ns (sp # sps) =
     (if \<not> isPortSuitable trafficType sp then shadow_ports s trafficType (Suc i) n ns sps
      else case getTargetPort s trafficType i n ns (sp_Port sp) of
        None \<Rightarrow> None
      | Some (s', Inl _) \<Rightarrow> shadow_ports s' trafficType (Suc i) n ns sps
      | Some (s', Inr targetPort) \<Rightarrow>
          map_option (\<lambda>(s'', ports). (s'', \<lparr>sp_Name = sp_Name sp, sp_Protocol = sp_Protocol sp,
              sp_Port = sp_Port sp, sp_TargetPort = FromInt targetPort\<rparr> # ports))
            (shadow_ports s' trafficType (Suc i) n ns sps))"

definition getShadowServicePorts ::
  "ShadowServiceManager \<Rightarrow> KService \<Rightarrow> (ShadowServiceManager \<times> (mesh_error + ServicePort list)) option" where
  "getShadowServicePorts s svc =
     (case GetTrafficType (defaultTrafficType s) (om_Annotations (ks_meta svc)) of
        Inl _ \<Rightarrow> Some (s, Inl (EShadowTrafficType (om_Name (ks_meta svc))))
      | Inr trafficType \<Rightarrow> map_option (\<lambda>(s', ports). (s', Inr ports))
          (shadow_ports s trafficType 0 (om_Name (ks_meta svc)) (om_Namespace (ks_meta svc)) (ks_Ports svc)))"

section \<open>Mappings that go away\<close>

definition removeServicePortMapping ::
  "string \<Rightarrow> string \<Rightarrow> ServicePort \<Rightarrow> ShadowServiceManager \<Rightarrow> ShadowServiceManager" where
  "removeServicePortMapping ns n svcPort s =
     (if ios_IntVal (sp_TargetPort svcPort) \<le>s maxHTTPPort s then s
      else if sp_Protocol svcPort = ProtocolTCP then
        s\<lparr>tcpStateTable := fst (Remove (tcpStateTable s) ns n (sp_Port svcPort))\<rparr>
      else if sp_Protocol svcPort = ProtocolUDP then
        s\<lparr>udpStateTable := fst (Remove (udpStateTable s) ns n (sp_Port svcPort))\<rparr>
      else s)"

definition removeUnusedPortMappings ::
  "KService option \<Rightarrow> KService \<Rightarrow> ShadowServiceManager \<Rightarrow> ShadowServiceManager" where
  "removeUnusedPortMappings shadowSvc svc s =
     (case shadowSvc of
        None \<Rightarrow> s
      | Some shadow \<Rightarrow>
          fold (removeServicePortMapping (om_Namespace (ks_meta svc)) (om_Name (ks_meta svc)))
            (filter (\<lambda>sp. \<not> containsPort (ks_Ports svc) sp) (ks_Ports shadow)) s)"

definition cleanupPortMappings ::
  "string \<Rightarrow> string \<Rightarrow> ServicePort list \<Rightarrow> ServicePort list \<Rightarrow> ShadowServiceManager \<Rightarrow> ShadowServiceManager" where
  "cleanupPortMappings ns n oldPorts newPorts s =
     fold (removeServicePortMapping ns n) (filter (needsCleanup newPorts) oldPorts) s"

section \<open>Creating, updating and deleting\<close>

datatype lookup = Found KService | NotFound | LookupError

datatype api_call = CreateService KService | UpdateService KService | DeleteService string string

definition shadow_name :: "ShadowServiceManager \<Rightarrow> string \<Rightarrow> string \<Rightarrow> string" where
  "shadow_name s ns n = getShadowServiceName (sm_namespace s) ns n"

definition newShadowService :: "ShadowServiceManager \<Rightarrow> string \<Rightarrow> ServicePort list \<Rightarrow> bool \<Rightarrow> KService" where
  "newShadowService s shadowSvcName ports topologyKeys =
     \<lparr>ks_meta = \<lparr>om_Name = shadowSvcName, om_Namespace = sm_namespace s,
        om_Labels = [''app'' \<mapsto> ''maesh'', ''type'' \<mapsto> ''shadow''], om_Annotations = Map.empty,
        om_ResourceVersion = []\<rparr>,
      ks_Selector = [''component'' \<mapsto> ''maesh-mesh''], ks_Ports = ports, ks_ClusterIP = [], ks_Type = [],
      ks_TopologyKeys = (if topologyKeys then
        [''kubernetes.io/hostname'', ''topology.kubernetes.io/zone'', ''topology.kubernetes.io/region'', ''*'']
        else [])\<rparr>"

text \<open>\<open>topologyKeys\<close> is whether the server version is known and at least 1.17. The lister is asked for
  the shadow service in the mesh namespace.\<close>

definition CreateOrUpdate ::
  "lookup \<Rightarrow> bool \<Rightarrow> KService \<Rightarrow> ShadowServiceManager \<Rightarrow>
     (ShadowServiceManager \<times> (mesh_error + api_call)) option" where
  "CreateOrUpdate lookup topologyKeys svc s =
     (let ns = om_Namespace (ks_meta svc); n = om_Name (ks_meta svc);
          shadowSvcName = shadow_name s ns n
      in case (case lookup of Found shadow \<Rightarrow> Inr (Some shadow) | NotFound \<Rightarrow> Inr None
             | LookupError \<Rightarrow> Inl (EGetShadow shadowSvcName)) of
           Inl err \<Rightarrow> Some (s, Inl err)
         | Inr shadowSvc \<Rightarrow>
             (case getShadowServicePorts (removeUnusedPortMappings shadowSvc svc s) svc of
                None \<Rightarrow> None
              | Some (s1, Inl err) \<Rightarrow> Some (s1, Inl (EShadowPorts err))
              | Some (s1, Inr ports) \<Rightarrow>
                  (let new = newShadowService s shadowSvcName ports topologyKeys in
                   case shadowSvc of
                     None \<Rightarrow> Some (s1, Inr (CreateService new))
                   | Some shadow \<Rightarrow>
                       Some (cleanupPortMappings ns n (ks_Ports shadow) (ks_Ports new) s1,
                         Inr (UpdateService (shadow\<lparr>ks_Ports := ks_Ports new,
                           ks_TopologyKeys := ks_TopologyKeys new\<rparr>))))))"

definition Delete_shadow ::
  "lookup \<Rightarrow> string \<Rightarrow> string \<Rightarrow> ShadowServiceManager \<Rightarrow>
     ShadowServiceManager \<times> (mesh_error + api_call option)" where
  "Delete_shadow lookup ns n s =
     (case lookup of
        NotFound \<Rightarrow> (s, Inr None)
      | LookupError \<Rightarrow> (s, Inl (EGetShadow (shadow_name s ns n)))
      | Found shadow \<Rightarrow> (fold (removeServicePortMapping ns n) (ks_Ports shadow) s,
          Inr (Some (DeleteService (sm_namespace s) (shadow_name s ns n)))))"

section \<open>The mappings of a service\<close>

lemma containsPort_iff:
  "containsPort ps sp \<longleftrightarrow> (\<exists>q\<in>set ps. sp_Port q = sp_Port sp \<and> sp_Protocol q = sp_Protocol sp)"
  by (induction ps) auto

lemma needsCleanup_iff:
  "needsCleanup ps sp \<longleftrightarrow> \<not> (\<exists>q\<in>set ps. sp_Port q = sp_Port sp \<and> sp_Protocol q = sp_Protocol sp
     \<and> sp_TargetPort q = sp_TargetPort sp)"
  by (induction ps) auto

definition mapped :: "ShadowServiceManager \<Rightarrow> string \<Rightarrow> string \<Rightarrow> string \<Rightarrow> int32 \<Rightarrow> int32 option" where
  "mapped s proto ns n port =
     (if proto = ProtocolTCP then Find (tcpStateTable s) ns n port
      else if proto = ProtocolUDP then Find (udpStateTable s) ns n port else None)"

text \<open>The ports of both tables lie above the HTTP ports.\<close>

definition manager_ok :: "ShadowServiceManager \<Rightarrow> bool" where
  "manager_ok s \<longleftrightarrow> mapping_ok (tcpStateTable s) \<and> mapping_ok (udpStateTable s)
     \<and> sint (maxHTTPPort s) < sint (minPort (tcpStateTable s))
     \<and> sint (maxHTTPPort s) < sint (minPort (udpStateTable s))"

lemma in_ports_min: "in_ports p = in_ports p' \<Longrightarrow> in_ports p i \<Longrightarrow> x < sint (minPort p') \<Longrightarrow> x < sint i"
  by (auto simp: in_ports_def)

lemma Remove_min [simp]: "minPort (fst (Remove p ns n port)) = minPort p"
  by (auto simp: Remove_def split: option.split)

lemma Add_min: "Add p ns n port = Some (p', r) \<Longrightarrow> minPort p' = minPort p"
  by (auto simp: Add_def split: option.splits)

lemma mapped_above:
  assumes "manager_ok s" "mapped s proto ns n port = Some t"
  shows "sint (maxHTTPPort s) < sint t"
  using assms pm.find_range [of "tcpStateTable s" ns n port t] pm.find_range [of "udpStateTable s" ns n port t]
  by (auto simp: manager_ok_def mapped_def in_ports_def split: if_splits)

definition removes :: "ShadowServiceManager \<Rightarrow> ServicePort \<Rightarrow> string \<Rightarrow> int32 \<Rightarrow> bool" where
  "removes s sp proto port \<longleftrightarrow> sp_Port sp = port \<and> sp_Protocol sp = proto
     \<and> sint (maxHTTPPort s) < sint (ios_IntVal (sp_TargetPort sp))"

lemma remove_one:
  fixes ns n :: string and sp :: ServicePort
  assumes "manager_ok s"
  defines "s' \<equiv> removeServicePortMapping ns n sp s"
  shows "manager_ok s' \<and> maxHTTPPort s' = maxHTTPPort s \<and> minHTTPPort s' = minHTTPPort s
     \<and> sm_namespace s' = sm_namespace s \<and> defaultTrafficType s' = defaultTrafficType s"
    and "mapped s' proto ns' n' port =
      (if ns' = ns \<and> n' = n \<and> removes s sp proto port then None else mapped s proto ns' n' port)"
proof -
  have ok: "mapping_ok (tcpStateTable s)" "mapping_ok (udpStateTable s)"
    using assms(1) by (simp_all add: manager_ok_def)
  have tcp: "mapping_ok (fst (Remove (tcpStateTable s) ns n p))"
    "Find (fst (Remove (tcpStateTable s) ns n p)) ns' n' port =
      (if ns' = ns \<and> n' = n \<and> port = p then None else Find (tcpStateTable s) ns' n' port)" for p ns' n' port
    using pm.remove_ok [OF ok(1), of ns n p "fst (Remove (tcpStateTable s) ns n p)"
        "snd (Remove (tcpStateTable s) ns n p)" ns' n' port] unfolding prod.collapse by blast+
  have udp: "mapping_ok (fst (Remove (udpStateTable s) ns n p))"
    "Find (fst (Remove (udpStateTable s) ns n p)) ns' n' port =
      (if ns' = ns \<and> n' = n \<and> port = p then None else Find (udpStateTable s) ns' n' port)" for p ns' n' port
    using pm.remove_ok [OF ok(2), of ns n p "fst (Remove (udpStateTable s) ns n p)"
        "snd (Remove (udpStateTable s) ns n p)" ns' n' port] unfolding prod.collapse by blast+
  show "manager_ok s' \<and> maxHTTPPort s' = maxHTTPPort s \<and> minHTTPPort s' = minHTTPPort s
     \<and> sm_namespace s' = sm_namespace s \<and> defaultTrafficType s' = defaultTrafficType s"
    using assms(1) tcp(1) udp(1) by (simp add: s'_def removeServicePortMapping_def manager_ok_def)
  show "mapped s' proto ns' n' port =
      (if ns' = ns \<and> n' = n \<and> removes s sp proto port then None else mapped s proto ns' n' port)"
    by (auto simp: s'_def removeServicePortMapping_def mapped_def removes_def word_sle_eq tcp(2) udp(2))
qed

lemma remove_many:
  fixes ns n :: string
  assumes "manager_ok s"
  defines "rm \<equiv> (\<lambda>sps. fold (removeServicePortMapping ns n) sps s)"
  shows "manager_ok (rm sps) \<and> maxHTTPPort (rm sps) = maxHTTPPort s \<and> minHTTPPort (rm sps) = minHTTPPort s
     \<and> sm_namespace (rm sps) = sm_namespace s \<and> defaultTrafficType (rm sps) = defaultTrafficType s
     \<and> (\<forall>proto ns' n' port. mapped (rm sps) proto ns' n' port =
         (if ns' = ns \<and> n' = n \<and> (\<exists>sp\<in>set sps. removes s sp proto port) then None
          else mapped s proto ns' n' port))"
  using assms(1) unfolding rm_def
proof (induction sps arbitrary: s)
  case (Cons sp sps)
  let ?s = "removeServicePortMapping ns n sp s"
  note one = remove_one [OF Cons.prems, where ns = ns and n = n and sp = sp]
  from one(1) have ok: "manager_ok ?s" and "maxHTTPPort ?s = maxHTTPPort s" by simp_all
  then have "removes ?s = removes s" by (simp add: removes_def fun_eq_iff)
  with Cons.IH [OF ok] one show ?case by auto
qed simp

section \<open>The mapper's clients\<close>

context port_mapper begin

lemma getMappedPort_ok:
  assumes "valid s"
  obtains s' r where "getMappedPort pfind padd s n ns port = Some (s', r)" "valid s'" "in_range s' = in_range s"
    "\<And>ns' n' port'. \<not> (ns' = ns \<and> n' = n \<and> port' = port) \<Longrightarrow> pfind s' ns' n' port' = pfind s ns' n' port'"
    "\<And>t. pfind s ns n port = Some t \<Longrightarrow> pfind s' ns n port = Some t"
    "\<And>t. r = Inr t \<longleftrightarrow> pfind s' ns n port = Some t"
proof (cases "pfind s ns n port")
  case (Some t)
  with assms that [of s "Inr t"] show ?thesis by (auto simp: getMappedPort_def)
next
  case None
  obtain s' r where add: "padd s ns n port = Some (s', r)"
    using add_total [OF assms, of ns n port] by auto
  show ?thesis
  proof (cases r)
    case (Inl e)
    with add_err [OF assms] add have "s' = s" by blast
    with None add Inl assms that [of s' "Inl (EAddMapping e)"] show ?thesis
      by (auto simp: getMappedPort_def)
  next
    case (Inr i)
    with add_ok [OF assms None] add None that [of s' "Inr i"] show ?thesis
      by (auto simp: getMappedPort_def)
  qed
qed

end

definition proto_of :: "string \<Rightarrow> string" where
  "proto_of trafficType = (if trafficType = ServiceTypeUDP then ProtocolUDP else ProtocolTCP)"

lemma isPortSuitable_iff:
  "isPortSuitable tt sp \<longleftrightarrow> tt \<in> {ServiceTypeHTTP, ServiceTypeTCP, ServiceTypeUDP} \<and> sp_Protocol sp = proto_of tt"
  by (auto simp: isPortSuitable_def proto_of_def)

lemma getTargetPort_mapped:
  assumes ok: "manager_ok s" and tt: "tt = ServiceTypeTCP \<or> tt = ServiceTypeUDP"
  obtains s' r where "getTargetPort s tt i n ns port = Some (s', r)" "manager_ok s'"
    "maxHTTPPort s' = maxHTTPPort s" "sm_namespace s' = sm_namespace s"
    "\<And>proto ns' n' port'. \<not> (proto = proto_of tt \<and> ns' = ns \<and> n' = n \<and> port' = port) \<Longrightarrow>
       mapped s' proto ns' n' port' = mapped s proto ns' n' port'"
    "\<And>t. mapped s (proto_of tt) ns n port = Some t \<Longrightarrow> mapped s' (proto_of tt) ns n port = Some t"
    "\<And>t. r = Inr t \<longleftrightarrow> mapped s' (proto_of tt) ns n port = Some t"
  using tt
proof
  assume tcp: "tt = ServiceTypeTCP"
  from ok have "mapping_ok (tcpStateTable s)" by (simp add: manager_ok_def)
  then obtain t r where
    g: "getMappedPort Find Add (tcpStateTable s) n ns port = Some (t, r)" "mapping_ok t"
    "in_ports t = in_ports (tcpStateTable s)"
    "\<And>ns' n' port'. \<not> (ns' = ns \<and> n' = n \<and> port' = port) \<Longrightarrow> Find t ns' n' port' = Find (tcpStateTable s) ns' n' port'"
    "\<And>i. Find (tcpStateTable s) ns n port = Some i \<Longrightarrow> Find t ns n port = Some i"
    "\<And>i. r = Inr i \<longleftrightarrow> Find t ns n port = Some i"
    by (rule pm.getMappedPort_ok [of _ n ns port]) blast
  have "minPort t = minPort (tcpStateTable s)"
    using g(1) by (auto simp: getMappedPort_def dest: Add_min split: option.splits)
  with tcp g ok that [of "s\<lparr>tcpStateTable := t\<rparr>" "wrap_err EMapTCP r"] show ?thesis
    by (auto simp: getTargetPort_def manager_ok_def mapped_def proto_of_def)
next
  assume udp: "tt = ServiceTypeUDP"
  from ok have "mapping_ok (udpStateTable s)" by (simp add: manager_ok_def)
  then obtain t r where
    g: "getMappedPort Find Add (udpStateTable s) n ns port = Some (t, r)" "mapping_ok t"
    "in_ports t = in_ports (udpStateTable s)"
    "\<And>ns' n' port'. \<not> (ns' = ns \<and> n' = n \<and> port' = port) \<Longrightarrow> Find t ns' n' port' = Find (udpStateTable s) ns' n' port'"
    "\<And>i. Find (udpStateTable s) ns n port = Some i \<Longrightarrow> Find t ns n port = Some i"
    "\<And>i. r = Inr i \<longleftrightarrow> Find t ns n port = Some i"
    by (rule pm.getMappedPort_ok [of _ n ns port]) blast
  have "minPort t = minPort (udpStateTable s)"
    using g(1) by (auto simp: getMappedPort_def dest: Add_min split: option.splits)
  with udp g ok that [of "s\<lparr>udpStateTable := t\<rparr>" "wrap_err EMapUDP r"] show ?thesis
    by (auto simp: getTargetPort_def manager_ok_def mapped_def proto_of_def)
qed

definition shadow_port :: "ServicePort \<Rightarrow> int32 \<Rightarrow> ServicePort" where
  "shadow_port sp t = \<lparr>sp_Name = sp_Name sp, sp_Protocol = sp_Protocol sp, sp_Port = sp_Port sp,
     sp_TargetPort = FromInt t\<rparr>"

definition mapped_ports :: "ShadowServiceManager \<Rightarrow> string \<Rightarrow> string \<Rightarrow> string \<Rightarrow> ServicePort list \<Rightarrow> ServicePort set" where
  "mapped_ports s proto ns n sps = {shadow_port sp t |sp t. sp \<in> set sps \<and> sp_Protocol sp = proto
     \<and> mapped s proto ns n (sp_Port sp) = Some t}"

lemma mapped_ports_simps [simp]:
  "mapped_ports s proto ns n [] = {}"
  "sp_Protocol sp \<noteq> proto \<Longrightarrow> mapped_ports s proto ns n (sp # sps) = mapped_ports s proto ns n sps"
  "sp_Protocol sp = proto \<Longrightarrow> mapped_ports s proto ns n (sp # sps) =
     (case mapped s proto ns n (sp_Port sp) of None \<Rightarrow> {} | Some t \<Rightarrow> {shadow_port sp t})
       \<union> mapped_ports s proto ns n sps"
  by (auto simp: mapped_ports_def split: option.split)

text \<open>What the loop over the ports of a TCP or UDP service achieves from \<open>s\<close> to \<open>s'\<close>.\<close>

definition ports_mapped ::
  "ShadowServiceManager \<Rightarrow> ShadowServiceManager \<Rightarrow> string \<Rightarrow> string \<Rightarrow> string \<Rightarrow> ServicePort list \<Rightarrow> ServicePort list \<Rightarrow> bool" where
  "ports_mapped s s' P ns n sps ports \<longleftrightarrow> manager_ok s' \<and> maxHTTPPort s' = maxHTTPPort s \<and> sm_namespace s' = sm_namespace s
     \<and> (\<forall>proto ns' n' port. \<not> (proto = P \<and> ns' = ns \<and> n' = n
            \<and> (\<exists>sp\<in>set sps. sp_Protocol sp = proto \<and> sp_Port sp = port)) \<longrightarrow>
          mapped s' proto ns' n' port = mapped s proto ns' n' port)
     \<and> (\<forall>port t. mapped s P ns n port = Some t \<longrightarrow> mapped s' P ns n port = Some t)
     \<and> set ports = mapped_ports s' P ns n sps"

lemma ports_mappedD:
  assumes "ports_mapped s s' P ns n sps ports"
  shows "manager_ok s'" "maxHTTPPort s' = maxHTTPPort s" "sm_namespace s' = sm_namespace s"
    "\<not> (proto = P \<and> ns' = ns \<and> n' = n \<and> (\<exists>sp\<in>set sps. sp_Protocol sp = proto \<and> sp_Port sp = port)) \<Longrightarrow>
       mapped s' proto ns' n' port = mapped s proto ns' n' port"
    "mapped s P ns n port = Some t \<Longrightarrow> mapped s' P ns n port = Some t"
    "set ports = mapped_ports s' P ns n sps"
  using assms unfolding ports_mapped_def by blast+

lemma ports_mapped_skip:
  "sp_Protocol sp \<noteq> P \<Longrightarrow> ports_mapped s s' P ns n sps ports \<Longrightarrow> ports_mapped s s' P ns n (sp # sps) ports"
  by (auto simp: ports_mapped_def)

lemma ports_mapped_take:
  assumes sp: "sp_Protocol sp = P" "distinct (map (\<lambda>sp. (sp_Port sp, sp_Protocol sp)) (sp # sps))"
    and keeps: "maxHTTPPort s1 = maxHTTPPort s" "sm_namespace s1 = sm_namespace s"
    and frame: "\<And>proto ns' n' port'. \<not> (proto = P \<and> ns' = ns \<and> n' = n \<and> port' = sp_Port sp) \<Longrightarrow>
       mapped s1 proto ns' n' port' = mapped s proto ns' n' port'"
    and mono: "\<And>t. mapped s P ns n (sp_Port sp) = Some t \<Longrightarrow> mapped s1 P ns n (sp_Port sp) = Some t"
    and r: "\<And>t. r = Inr t \<longleftrightarrow> mapped s1 P ns n (sp_Port sp) = Some t"
    and rest: "ports_mapped s1 s2 P ns n sps ports"
  shows "ports_mapped s s2 P ns n (sp # sps) (case r of Inl e \<Rightarrow> ports | Inr t \<Rightarrow> shadow_port sp t # ports)"
proof -
  note re = ports_mappedD [OF rest]
  have "\<not> (\<exists>q\<in>set sps. sp_Protocol q = P \<and> sp_Port q = sp_Port sp)"
    using sp by (simp add: image_iff) metis
  then have own: "mapped s2 P ns n (sp_Port sp) = mapped s1 P ns n (sp_Port sp)" by (intro re(4)) blast
  have "set (case r of Inl e \<Rightarrow> ports | Inr t \<Rightarrow> shadow_port sp t # ports) = mapped_ports s2 P ns n (sp # sps)"
  proof (cases r)
    case (Inl e)
    with r have "mapped s1 P ns n (sp_Port sp) = None" by (metis Inl_Inr_False not_None_eq)
    with Inl re(6) own sp(1) show ?thesis by simp
  next
    case (Inr t)
    with r [of t] have "mapped s1 P ns n (sp_Port sp) = Some t" by simp
    with Inr re(6) own sp(1) show ?thesis by simp
  qed
  moreover have "mapped s2 proto ns' n' port = mapped s proto ns' n' port"
    if other: "\<not> (proto = P \<and> ns' = ns \<and> n' = n \<and> (\<exists>q\<in>set (sp # sps). sp_Protocol q = proto \<and> sp_Port q = port))"
    for proto ns' n' port
  proof -
    have "mapped s2 proto ns' n' port = mapped s1 proto ns' n' port" using other by (intro re(4)) auto
    also have "\<dots> = mapped s proto ns' n' port" using other sp(1) by (intro frame) auto
    finally show ?thesis .
  qed
  moreover have "mapped s2 P ns n port = Some t" if "mapped s P ns n port = Some t" for port t
    using that frame [of P ns n port] mono re(5) by (cases "port = sp_Port sp") auto
  ultimately show ?thesis using re(1-3) keeps unfolding ports_mapped_def by simp
qed

text \<open>The ports of a TCP or UDP service: suitable ports with a mapping.\<close>

lemma shadow_ports_chain:
  assumes "manager_ok s" and tt: "tt = ServiceTypeTCP \<or> tt = ServiceTypeUDP"
    and "distinct (map (\<lambda>sp. (sp_Port sp, sp_Protocol sp)) sps)"
  shows "\<exists>s' ports. shadow_ports s tt i n ns sps = Some (s', ports) \<and> ports_mapped s s' (proto_of tt) ns n sps ports"
  using assms(1,3)
proof (induction sps arbitrary: s i)
  case Nil
  then show ?case by (auto simp: ports_mapped_def)
next
  case (Cons sp sps)
  have dist: "distinct (map (\<lambda>sp. (sp_Port sp, sp_Protocol sp)) sps)" using Cons.prems(2) by simp
  show ?case
  proof (cases "sp_Protocol sp = proto_of tt")
    case False
    then have "\<not> isPortSuitable tt sp" by (simp add: isPortSuitable_iff)
    with Cons.IH [OF Cons.prems(1) dist, of "Suc i"] ports_mapped_skip [OF False] show ?thesis by auto
  next
    case True
    with tt have suit: "isPortSuitable tt sp" by (auto simp: isPortSuitable_iff)
    obtain s1 r where g: "getTargetPort s tt i n ns (sp_Port sp) = Some (s1, r)" "manager_ok s1"
      "maxHTTPPort s1 = maxHTTPPort s" "sm_namespace s1 = sm_namespace s"
      "\<And>proto ns' n' port'. \<not> (proto = proto_of tt \<and> ns' = ns \<and> n' = n \<and> port' = sp_Port sp) \<Longrightarrow>
         mapped s1 proto ns' n' port' = mapped s proto ns' n' port'"
      "\<And>t. mapped s (proto_of tt) ns n (sp_Port sp) = Some t \<Longrightarrow> mapped s1 (proto_of tt) ns n (sp_Port sp) = Some t"
      "\<And>t. r = Inr t \<longleftrightarrow> mapped s1 (proto_of tt) ns n (sp_Port sp) = Some t"
      by (rule getTargetPort_mapped [OF Cons.prems(1) tt]) blast
    from Cons.IH [OF g(2) dist, of "Suc i"] obtain s2 ports where
      rest: "shadow_ports s1 tt (Suc i) n ns sps = Some (s2, ports)" "ports_mapped s1 s2 (proto_of tt) ns n sps ports" by blast
    have "shadow_ports s tt i n ns (sp # sps) = Some (s2, case r of Inl e \<Rightarrow> ports | Inr t \<Rightarrow> shadow_port sp t # ports)"
      using suit g(1) rest(1) by (cases r) (simp_all add: shadow_port_def)
    with ports_mapped_take [OF True Cons.prems(2) g(3-7) rest(2)] show ?thesis by blast
  qed
qed

lemma shadow_ports_mapped:
  assumes "manager_ok s" "tt = ServiceTypeTCP \<or> tt = ServiceTypeUDP"
    and "distinct (map (\<lambda>sp. (sp_Port sp, sp_Protocol sp)) sps)"
  shows "\<exists>s' ports. shadow_ports s tt i n ns sps = Some (s', ports) \<and> manager_ok s'
     \<and> maxHTTPPort s' = maxHTTPPort s \<and> sm_namespace s' = sm_namespace s
     \<and> (\<forall>proto ns' n' port. \<not> (proto = proto_of tt \<and> ns' = ns \<and> n' = n
            \<and> (\<exists>sp\<in>set sps. sp_Protocol sp = proto \<and> sp_Port sp = port)) \<longrightarrow>
          mapped s' proto ns' n' port = mapped s proto ns' n' port)
     \<and> (\<forall>port t. mapped s (proto_of tt) ns n port = Some t \<longrightarrow> mapped s' (proto_of tt) ns n port = Some t)
     \<and> set ports = mapped_ports s' (proto_of tt) ns n sps"
  using shadow_ports_chain [OF assms, of i n ns] unfolding ports_mapped_def .

section \<open>Tables and shadow services agree\<close>

text \<open>The mappings of a service are exactly the ports above the HTTP ports in its shadow service.\<close>

definition lists_port :: "ShadowServiceManager \<Rightarrow> ServicePort list \<Rightarrow> string \<Rightarrow> int32 \<Rightarrow> int32 \<Rightarrow> bool" where
  "lists_port s ports proto port t \<longleftrightarrow> sint (maxHTTPPort s) < sint t \<and> proto \<in> {ProtocolTCP, ProtocolUDP} \<and>
     (\<exists>sp\<in>set ports. sp_Protocol sp = proto \<and> sp_Port sp = port \<and> sp_TargetPort sp = FromInt t)"

definition accurate :: "ShadowServiceManager \<Rightarrow> string \<Rightarrow> string \<Rightarrow> ServicePort list \<Rightarrow> bool" where
  "accurate s ns n ports \<longleftrightarrow> (\<forall>sp\<in>set ports. \<exists>t. sp_TargetPort sp = FromInt t)
     \<and> (\<forall>proto port t. mapped s proto ns n port = Some t \<longleftrightarrow> lists_port s ports proto port t)"

lemma FromInt_simps [simp]: "ios_IntVal (FromInt t) = t" "FromInt t = FromInt t' \<longleftrightarrow> t = t'"
  by (simp_all add: FromInt_def)

lemma mapped_proto: "mapped s proto ns n port = Some t \<Longrightarrow> proto \<in> {ProtocolTCP, ProtocolUDP}"
  by (auto simp: mapped_def split: if_splits)

lemma getHTTPPort_le: "getHTTPPort s i = Inr t \<Longrightarrow> sint t \<le> sint (maxHTTPPort s)"
  by (auto simp: getHTTPPort_def word_sless_alt split: if_splits)

lemma shadow_ports_other:
  assumes "tt \<noteq> ServiceTypeTCP" "tt \<noteq> ServiceTypeUDP"
  shows "\<exists>ports. shadow_ports s tt i n ns sps = Some (s, ports)
     \<and> (\<forall>sp\<in>set ports. \<exists>t. sp_TargetPort sp = FromInt t \<and> sint t \<le> sint (maxHTTPPort s))"
proof (induction sps arbitrary: i)
  case (Cons sp sps)
  from Cons [of "Suc i"] obtain ports where
    rest: "shadow_ports s tt (Suc i) n ns sps = Some (s, ports)"
    and le: "\<forall>sp\<in>set ports. \<exists>t. sp_TargetPort sp = FromInt t \<and> sint t \<le> sint (maxHTTPPort s)" by blast
  show ?case
  proof (cases "isPortSuitable tt sp \<and> tt = ServiceTypeHTTP")
    case False
    with assms rest le show ?thesis by (auto simp: isPortSuitable_iff)
  next
    case True
    then have g: "getTargetPort s tt i n ns (sp_Port sp) = Some (s, getHTTPPort s i)"
      by (simp add: getTargetPort_def)
    show ?thesis
    proof (cases "getHTTPPort s i")
      case (Inl e)
      with True g rest le show ?thesis by simp
    next
      case (Inr t)
      with True g rest le getHTTPPort_le [OF Inr] show ?thesis by auto
    qed
  qed
qed simp

abbreviation mapped_type :: "string \<Rightarrow> bool" where
  "mapped_type tt \<equiv> tt = ServiceTypeTCP \<or> tt = ServiceTypeUDP"

text \<open>The tables \<open>s\<close>, \<open>s0\<close>, \<open>s1\<close> and \<open>s2\<close> that an update of a service goes through: what is no longer
  needed is removed, the ports are mapped, what is left over is removed.\<close>

definition update_chain ::
  "ShadowServiceManager \<Rightarrow> ShadowServiceManager \<Rightarrow> ShadowServiceManager \<Rightarrow> ShadowServiceManager \<Rightarrow> string \<Rightarrow>
     string \<Rightarrow> string \<Rightarrow> ServicePort list \<Rightarrow> ServicePort list \<Rightarrow> ServicePort list \<Rightarrow> bool" where
  "update_chain s s0 s1 s2 tt ns n olds sps ports \<longleftrightarrow>
     manager_ok s1 \<and> manager_ok s2 \<and> maxHTTPPort s1 = maxHTTPPort s \<and> maxHTTPPort s2 = maxHTTPPort s
   \<and> (\<forall>proto ns' n' port. mapped s0 proto ns' n' port = (if ns' = ns \<and> n' = n \<and>
        (\<exists>sp\<in>set olds. \<not> containsPort sps sp \<and> removes s sp proto port) then None else mapped s proto ns' n' port))
   \<and> (\<forall>proto ns' n' port. \<not> (mapped_type tt \<and> proto = proto_of tt \<and> ns' = ns \<and> n' = n
            \<and> (\<exists>sp\<in>set sps. sp_Protocol sp = proto \<and> sp_Port sp = port)) \<longrightarrow>
          mapped s1 proto ns' n' port = mapped s0 proto ns' n' port)
   \<and> (\<forall>port t. mapped s0 (proto_of tt) ns n port = Some t \<longrightarrow> mapped s1 (proto_of tt) ns n port = Some t)
   \<and> (mapped_type tt \<longrightarrow> set ports = mapped_ports s1 (proto_of tt) ns n sps)
   \<and> (\<not> mapped_type tt \<longrightarrow> (\<forall>sp\<in>set ports. \<exists>t. sp_TargetPort sp = FromInt t \<and> sint t \<le> sint (maxHTTPPort s)))
   \<and> (\<forall>proto ns' n' port. mapped s2 proto ns' n' port = (if ns' = ns \<and> n' = n \<and>
        (\<exists>sp\<in>set olds. needsCleanup ports sp \<and> removes s sp proto port) then None else mapped s1 proto ns' n' port))"

lemma update_chainD:
  assumes "update_chain s s0 s1 s2 tt ns n olds sps ports"
  shows "manager_ok s1" "manager_ok s2" "maxHTTPPort s1 = maxHTTPPort s" "maxHTTPPort s2 = maxHTTPPort s"
    "mapped s0 proto ns' n' port = (if ns' = ns \<and> n' = n \<and>
        (\<exists>sp\<in>set olds. \<not> containsPort sps sp \<and> removes s sp proto port) then None else mapped s proto ns' n' port)"
    "\<not> (mapped_type tt \<and> proto = proto_of tt \<and> ns' = ns \<and> n' = n
            \<and> (\<exists>sp\<in>set sps. sp_Protocol sp = proto \<and> sp_Port sp = port)) \<Longrightarrow>
          mapped s1 proto ns' n' port = mapped s0 proto ns' n' port"
    "mapped s0 (proto_of tt) ns n port = Some t \<Longrightarrow> mapped s1 (proto_of tt) ns n port = Some t"
    "mapped_type tt \<Longrightarrow> set ports = mapped_ports s1 (proto_of tt) ns n sps"
    "\<not> mapped_type tt \<Longrightarrow> sp \<in> set ports \<Longrightarrow> \<exists>t. sp_TargetPort sp = FromInt t \<and> sint t \<le> sint (maxHTTPPort s)"
    "mapped s2 proto ns' n' port = (if ns' = ns \<and> n' = n \<and>
        (\<exists>sp\<in>set olds. needsCleanup ports sp \<and> removes s sp proto port) then None else mapped s1 proto ns' n' port)"
  using assms unfolding update_chain_def by blast+

lemma shadow_ports_step:
  assumes ok: "manager_ok s0" and dist: "distinct (map (\<lambda>sp. (sp_Port sp, sp_Protocol sp)) sps)"
    and ports: "shadow_ports s0 tt 0 n ns sps = Some (s1, ports)"
  shows "manager_ok s1 \<and> maxHTTPPort s1 = maxHTTPPort s0 \<and>
     (\<forall>proto ns' n' port. \<not> (mapped_type tt \<and> proto = proto_of tt \<and> ns' = ns \<and> n' = n
            \<and> (\<exists>sp\<in>set sps. sp_Protocol sp = proto \<and> sp_Port sp = port)) \<longrightarrow>
          mapped s1 proto ns' n' port = mapped s0 proto ns' n' port)
     \<and> (\<forall>port t. mapped s0 (proto_of tt) ns n port = Some t \<longrightarrow> mapped s1 (proto_of tt) ns n port = Some t)
     \<and> (mapped_type tt \<longrightarrow> set ports = mapped_ports s1 (proto_of tt) ns n sps)
     \<and> (\<not> mapped_type tt \<longrightarrow> (\<forall>sp\<in>set ports. \<exists>t. sp_TargetPort sp = FromInt t \<and> sint t \<le> sint (maxHTTPPort s0)))"
proof (cases "mapped_type tt")
  case True
  from shadow_ports_mapped [OF ok True dist, where i = 0 and ns = ns and n = n] ports True show ?thesis by auto
next
  case False
  then have "tt \<noteq> ServiceTypeTCP" "tt \<noteq> ServiceTypeUDP" by simp_all
  from shadow_ports_other [OF this, where s = s0 and i = 0 and ns = ns and n = n and sps = sps] ports False ok
  show ?thesis by auto
qed

lemma update_chainI:
  fixes ns n :: string and olds :: "ServicePort list"
  assumes ok: "manager_ok s" and dist: "distinct (map (\<lambda>sp. (sp_Port sp, sp_Protocol sp)) sps)"
  defines "s0 \<equiv> fold (removeServicePortMapping ns n) (filter (\<lambda>sp. \<not> containsPort sps sp) olds) s"
  assumes ports: "shadow_ports s0 tt 0 n ns sps = Some (s1, ports)"
  shows "update_chain s s0 s1 (cleanupPortMappings ns n olds ports s1) tt ns n olds sps ports"
proof -
  note rm0 = remove_many [OF ok, where ns = ns and n = n and sps = "filter (\<lambda>sp. \<not> containsPort sps sp) olds", folded s0_def]
  then have ok0: "manager_ok s0" and max0: "maxHTTPPort s0 = maxHTTPPort s" by simp_all
  note s1 = shadow_ports_step [OF ok0 dist ports, unfolded max0]
  then have ok1: "manager_ok s1" and max1: "maxHTTPPort s1 = maxHTTPPort s" by blast+
  note rm2 = remove_many [OF ok1, where ns = ns and n = n and sps = "filter (needsCleanup ports) olds",
      folded cleanupPortMappings_def]
  have "mapped s0 proto ns' n' port = (if ns' = ns \<and> n' = n \<and>
      (\<exists>sp\<in>set olds. \<not> containsPort sps sp \<and> removes s sp proto port) then None else mapped s proto ns' n' port)"
    for proto ns' n' port using rm0 by auto
  moreover have "mapped (cleanupPortMappings ns n olds ports s1) proto ns' n' port = (if ns' = ns \<and> n' = n \<and>
      (\<exists>sp\<in>set olds. needsCleanup ports sp \<and> removes s sp proto port) then None else mapped s1 proto ns' n' port)"
    for proto ns' n' port using rm2 max1 by (auto simp: removes_def)
  ultimately show ?thesis using s1 rm2 unfolding update_chain_def by simp
qed

text \<open>Every mapping that is left is a port of the new shadow service, \<dots>\<close>

lemma chain_listed:
  assumes chain: "update_chain s s0 s1 s2 tt ns n olds sps ports" and acc: "accurate s ns n olds"
    and m2: "mapped s2 proto ns n port = Some t"
  shows "lists_port s ports proto port t"
proof -
  note ch = update_chainD [OF chain]
  from m2 ch(10) [of proto ns n port] have kept: "\<not> (\<exists>sp\<in>set olds. needsCleanup ports sp \<and> removes s sp proto port)"
    and m1: "mapped s1 proto ns n port = Some t" by (auto split: if_splits)
  have above: "sint (maxHTTPPort s) < sint t" using mapped_above [OF ch(1) m1] ch(3) by simp
  show ?thesis
  proof (cases "mapped_type tt \<and> proto = proto_of tt \<and> (\<exists>sp\<in>set sps. sp_Protocol sp = proto \<and> sp_Port sp = port)")
    case True
    then obtain sp where sp: "sp \<in> set sps" "sp_Protocol sp = proto_of tt" "sp_Port sp = port" by blast
    with m1 True ch(8) have "shadow_port sp t \<in> set ports" unfolding mapped_ports_def by auto
    with above sp True mapped_proto [OF m1] show ?thesis
      unfolding lists_port_def by (intro conjI bexI [of _ "shadow_port sp t"]) (simp_all add: shadow_port_def)
  next
    case False
    then have "mapped s1 proto ns n port = mapped s0 proto ns n port" by (intro ch(6)) blast
    with m1 ch(5) [of proto ns n port] have m: "mapped s proto ns n port = Some t"
      and stay: "\<not> (\<exists>sp\<in>set olds. \<not> containsPort sps sp \<and> removes s sp proto port)" by (auto split: if_splits)
    from m acc obtain sp where sp: "sp \<in> set olds" "sp_Protocol sp = proto" "sp_Port sp = port"
      "sp_TargetPort sp = FromInt t" unfolding accurate_def lists_port_def by blast
    with above have rm: "removes s sp proto port" by (simp add: removes_def)
    with stay sp have "\<exists>q\<in>set sps. sp_Protocol q = proto \<and> sp_Port q = port" by (auto simp: containsPort_iff)
    with False have off: "\<not> mapped_type tt \<or> proto \<noteq> proto_of tt" by blast
    have "needsCleanup ports sp"
    proof (cases "mapped_type tt")
      case True
      with ch(8) off sp(2) show ?thesis by (auto simp: needsCleanup_iff mapped_ports_def shadow_port_def)
    next
      case False
      with ch(9) above sp(4) show ?thesis by (fastforce simp: needsCleanup_iff)
    qed
    with kept sp(1) rm show ?thesis by blast
  qed
qed

text \<open>\<dots> and every port of it that lies above the HTTP ports is still mapped.\<close>

lemma chain_mapped:
  assumes chain: "update_chain s s0 s1 s2 tt ns n olds sps ports" and acc: "accurate s ns n olds"
    and l: "lists_port s ports proto port t"
  shows "mapped s2 proto ns n port = Some t"
proof -
  note ch = update_chainD [OF chain]
  from l obtain sp where sp: "sp \<in> set ports" "sp_Protocol sp = proto" "sp_Port sp = port"
    "sp_TargetPort sp = FromInt t" and above: "sint (maxHTTPPort s) < sint t"
    and pr: "proto \<in> {ProtocolTCP, ProtocolUDP}" unfolding lists_port_def by blast
  have tt: "mapped_type tt" using ch(9) [OF _ sp(1)] sp(4) above by auto
  from ch(8) [OF tt] sp(1) obtain q u where q: "sp = shadow_port q u" "q \<in> set sps" "sp_Protocol q = proto_of tt"
    "mapped s1 (proto_of tt) ns n (sp_Port q) = Some u" unfolding mapped_ports_def by blast
  with sp have eqs: "proto = proto_of tt" "sp_Port q = port" "u = t" by (simp_all add: shadow_port_def)
  with q(4) have m1: "mapped s1 proto ns n port = Some t" by simp
  have "\<not> (needsCleanup ports o1 \<and> removes s o1 proto port)" if o1: "o1 \<in> set olds" for o1
  proof
    assume *: "needsCleanup ports o1 \<and> removes s o1 proto port"
    then have o1p: "sp_Port o1 = port" "sp_Protocol o1 = proto" "sint (maxHTTPPort s) < sint (ios_IntVal (sp_TargetPort o1))"
      by (simp_all add: removes_def)
    from acc o1 obtain v where v: "sp_TargetPort o1 = FromInt v" unfolding accurate_def by blast
    with o1 o1p pr have "lists_port s olds proto port v" by (auto simp: lists_port_def)
    with acc have m: "mapped s proto ns n port = Some v" by (simp add: accurate_def)
    have "containsPort sps o2" if "removes s o2 proto port" for o2
      using that q(2,3) eqs by (auto simp: removes_def containsPort_iff)
    with ch(5) [of proto ns n port] m have "mapped s0 proto ns n port = Some v" by auto
    with ch(7) eqs m1 have "v = t" by auto
    with * sp o1p v show False by (auto simp: needsCleanup_iff)
  qed
  with ch(10) [of proto ns n port] m1 show ?thesis by auto
qed

lemma accurate_step:
  fixes ns n :: string
  assumes ok: "manager_ok s" and acc: "accurate s ns n olds"
    and dist: "distinct (map (\<lambda>sp. (sp_Port sp, sp_Protocol sp)) sps)"
  defines "s0 \<equiv> fold (removeServicePortMapping ns n) (filter (\<lambda>sp. \<not> containsPort sps sp) olds) s"
  assumes ports: "shadow_ports s0 tt 0 n ns sps = Some (s1, ports)"
  defines "s2 \<equiv> cleanupPortMappings ns n olds ports s1"
  shows "manager_ok s2 \<and> accurate s2 ns n ports \<and>
    (\<forall>proto ns' n' port. (ns', n') \<noteq> (ns, n) \<longrightarrow> mapped s2 proto ns' n' port = mapped s proto ns' n' port)"
proof -
  have chain: "update_chain s s0 s1 s2 tt ns n olds sps ports"
    unfolding s2_def s0_def using ports unfolding s0_def by (intro update_chainI ok dist)
  note ch = update_chainD [OF chain]
  have "\<exists>t. sp_TargetPort sp = FromInt t" if "sp \<in> set ports" for sp
  proof (cases "mapped_type tt")
    case True
    from ch(8) [OF this] that show ?thesis by (auto simp: mapped_ports_def shadow_port_def)
  qed (use ch(9) that in blast)
  moreover have "lists_port s2 = lists_port s" by (simp add: lists_port_def ch(4) fun_eq_iff)
  ultimately have "accurate s2 ns n ports"
    using chain_listed [OF chain acc] chain_mapped [OF chain acc] unfolding accurate_def by metis
  moreover have "mapped s2 proto ns' n' port = mapped s proto ns' n' port" if "(ns', n') \<noteq> (ns, n)" for proto ns' n' port
  proof -
    have "mapped s2 proto ns' n' port = mapped s1 proto ns' n' port" using that by (subst ch(10)) auto
    also have "\<dots> = mapped s0 proto ns' n' port" using that by (intro ch(6)) auto
    also have "\<dots> = mapped s proto ns' n' port" using that by (subst ch(5)) auto
    finally show ?thesis .
  qed
  ultimately show ?thesis using ch(2) by blast
qed

definition call_ports :: "api_call \<Rightarrow> ServicePort list" where
  "call_ports c = (case c of CreateService svc \<Rightarrow> ks_Ports svc | UpdateService svc \<Rightarrow> ks_Ports svc
     | DeleteService _ _ \<Rightarrow> [])"

text \<open>The ports of the shadow service the lister knows.\<close>

definition known_ports :: "lookup \<Rightarrow> ServicePort list" where
  "known_ports l = (case l of Found shadow \<Rightarrow> ks_Ports shadow | _ \<Rightarrow> [])"

lemma getShadowServicePorts_returns:
  assumes "manager_ok s" "distinct (map (\<lambda>sp. (sp_Port sp, sp_Protocol sp)) (ks_Ports svc))"
  shows "\<exists>r. getShadowServicePorts s svc = Some r"
proof -
  have "\<exists>r. shadow_ports s tt 0 n ns (ks_Ports svc) = Some r" for tt n ns
  proof (cases "tt = ServiceTypeTCP \<or> tt = ServiceTypeUDP")
    case True
    from shadow_ports_mapped [OF assms(1) True assms(2), of 0 n ns] show ?thesis by blast
  next
    case False
    then have "tt \<noteq> ServiceTypeTCP" "tt \<noteq> ServiceTypeUDP" by simp_all
    from shadow_ports_other [OF this, of s 0 n ns "ks_Ports svc"] show ?thesis by blast
  qed
  then show ?thesis by (auto simp: getShadowServicePorts_def split: sum.split)
qed

lemma CreateOrUpdate_eq:
  assumes "l \<noteq> LookupError" and dist: "distinct (map (\<lambda>sp. (sp_Port sp, sp_Protocol sp)) (ks_Ports svc))"
    and ok: "manager_ok s" and "GetTrafficType (defaultTrafficType s) (om_Annotations (ks_meta svc)) = Inr tt"
  defines "ns \<equiv> om_Namespace (ks_meta svc)" and "n \<equiv> om_Name (ks_meta svc)"
  defines "s0 \<equiv> fold (removeServicePortMapping ns n)
      (filter (\<lambda>sp. \<not> containsPort (ks_Ports svc) sp) (known_ports l)) s"
  shows "\<exists>s1 ports call. shadow_ports s0 tt 0 n ns (ks_Ports svc) = Some (s1, ports)
     \<and> CreateOrUpdate l topologyKeys svc s =
         Some (cleanupPortMappings ns n (known_ports l) ports s1, Inr call)
     \<and> call_ports call = ports"
proof -
  have rm: "removeUnusedPortMappings (case l of Found shadow \<Rightarrow> Some shadow | _ \<Rightarrow> None) svc s = s0"
    by (simp add: removeUnusedPortMappings_def s0_def ns_def n_def known_ports_def split: lookup.split)
  note keeps = remove_many [OF ok, where ns = ns and n = n and
      sps = "filter (\<lambda>sp. \<not> containsPort (ks_Ports svc) sp) (known_ports l)", folded s0_def]
  then have ok0: "manager_ok s0" and dflt: "defaultTrafficType s0 = defaultTrafficType s" by simp_all
  from getShadowServicePorts_returns [OF ok0 dist] assms(4) dflt obtain s1 ports where
    sp: "shadow_ports s0 tt 0 n ns (ks_Ports svc) = Some (s1, ports)"
    and gs: "getShadowServicePorts s0 svc = Some (s1, Inr ports)"
    by (auto simp: getShadowServicePorts_def ns_def n_def)
  show ?thesis
  proof (cases l)
    case (Found shadow)
    with rm gs sp show ?thesis
      by (simp add: CreateOrUpdate_def Let_def known_ports_def newShadowService_def ns_def n_def call_ports_def)
  next
    case NotFound
    with rm gs sp show ?thesis
      by (simp add: CreateOrUpdate_def Let_def known_ports_def newShadowService_def ns_def n_def
          call_ports_def cleanupPortMappings_def)
  qed (use assms(1) in simp)
qed

lemma CreateOrUpdate_keeps_accurate:
  assumes "manager_ok s" "l \<noteq> LookupError"
    and "accurate s (om_Namespace (ks_meta svc)) (om_Name (ks_meta svc)) (known_ports l)"
    and "distinct (map (\<lambda>sp. (sp_Port sp, sp_Protocol sp)) (ks_Ports svc))"
    and "GetTrafficType (defaultTrafficType s) (om_Annotations (ks_meta svc)) = Inr tt"
  shows "\<exists>s' call. CreateOrUpdate l topologyKeys svc s = Some (s', Inr call) \<and> manager_ok s'
     \<and> accurate s' (om_Namespace (ks_meta svc)) (om_Name (ks_meta svc)) (call_ports call)
     \<and> (\<forall>proto ns n port. (ns, n) \<noteq> (om_Namespace (ks_meta svc), om_Name (ks_meta svc)) \<longrightarrow>
          mapped s' proto ns n port = mapped s proto ns n port)"
proof -
  from CreateOrUpdate_eq [OF assms(2,4,1,5), of topologyKeys] obtain s1 ports call where
    sp: "shadow_ports (fold (removeServicePortMapping (om_Namespace (ks_meta svc)) (om_Name (ks_meta svc)))
        (filter (\<lambda>sp. \<not> containsPort (ks_Ports svc) sp) (known_ports l)) s) tt 0
        (om_Name (ks_meta svc)) (om_Namespace (ks_meta svc)) (ks_Ports svc) = Some (s1, ports)"
    and cu: "CreateOrUpdate l topologyKeys svc s = Some (cleanupPortMappings (om_Namespace (ks_meta svc))
        (om_Name (ks_meta svc)) (known_ports l) ports s1, Inr call)" "call_ports call = ports" by blast
  from accurate_step [OF assms(1,3,4) sp] cu show ?thesis by blast
qed

text \<open>C17: Creating or updating a shadow service keeps tables and shadow services in agreement. When the
  mappings of a service are the ports its current shadow service lists, then after the call they are
  the ports of the shadow service that is written: nothing is leaked when ports go away or the traffic
  type changes, no mapping of the written service is missing, and no other service loses or gains one.\<close>

theorem CreateOrUpdate_accurate:
  assumes "manager_ok s" "l \<noteq> LookupError"
    and "accurate s (om_Namespace (ks_meta svc)) (om_Name (ks_meta svc)) (known_ports l)"
    and "distinct (map (\<lambda>sp. (sp_Port sp, sp_Protocol sp)) (ks_Ports svc))"
    and "GetTrafficType (defaultTrafficType s) (om_Annotations (ks_meta svc)) = Inr tt"
  shows "\<exists>s' call. CreateOrUpdate l topologyKeys svc s = Some (s', Inr call) \<and> manager_ok s'
     \<and> accurate s' (om_Namespace (ks_meta svc)) (om_Name (ks_meta svc)) (call_ports call)
     \<and> (\<forall>proto ns n port. (ns, n) \<noteq> (om_Namespace (ks_meta svc), om_Name (ks_meta svc)) \<longrightarrow>
          mapped s' proto ns n port = mapped s proto ns n port)"
  using assms by (rule CreateOrUpdate_keeps_accurate)

lemma Delete_clears:
  assumes "manager_ok s" "accurate s ns n (known_ports l)" "l \<noteq> LookupError"
  shows "manager_ok (fst (Delete_shadow l ns n s)) \<and> accurate (fst (Delete_shadow l ns n s)) ns n []
     \<and> (\<forall>proto ns' n' port. (ns', n') \<noteq> (ns, n) \<longrightarrow>
          mapped (fst (Delete_shadow l ns n s)) proto ns' n' port = mapped s proto ns' n' port)
     \<and> snd (Delete_shadow l ns n s) = Inr (case l of
          Found _ \<Rightarrow> Some (DeleteService (sm_namespace s) (shadow_name s ns n)) | _ \<Rightarrow> None)"
proof -
  let ?s = "fold (removeServicePortMapping ns n) (known_ports l) s"
  note rm = remove_many [OF assms(1), where ns = ns and n = n and sps = "known_ports l"]
  have del: "Delete_shadow l ns n s = (?s, Inr (case l of
          Found _ \<Rightarrow> Some (DeleteService (sm_namespace s) (shadow_name s ns n)) | _ \<Rightarrow> None))"
    using assms(3) by (simp add: Delete_shadow_def known_ports_def split: lookup.split)
  have "mapped ?s proto ns n port \<noteq> Some t" for proto port t
  proof
    assume some: "mapped ?s proto ns n port = Some t"
    with rm have m: "mapped s proto ns n port = Some t"
      and kept: "\<not> (\<exists>sp\<in>set (known_ports l). removes s sp proto port)" by (auto split: if_splits)
    from m assms(2) have "lists_port s (known_ports l) proto port t" unfolding accurate_def by blast
    with kept show False by (auto simp: lists_port_def removes_def)
  qed
  then have "accurate ?s ns n []" by (simp add: accurate_def lists_port_def)
  with rm del show ?thesis by auto
qed

text \<open>Deleting a shadow service frees the mappings of its service, all of them when they are the
  ports it lists, and those of no other service; a second delete is a no-op.\<close>

theorem Delete_frees:
  assumes "manager_ok s" "accurate s ns n (known_ports l)" "l \<noteq> LookupError"
  shows "manager_ok (fst (Delete_shadow l ns n s)) \<and> accurate (fst (Delete_shadow l ns n s)) ns n []
     \<and> (\<forall>proto ns' n' port. (ns', n') \<noteq> (ns, n) \<longrightarrow>
          mapped (fst (Delete_shadow l ns n s)) proto ns' n' port = mapped s proto ns' n' port)
     \<and> snd (Delete_shadow l ns n s) = Inr (case l of
          Found _ \<Rightarrow> Some (DeleteService (sm_namespace s) (shadow_name s ns n)) | _ \<Rightarrow> None)"
  using assms by (rule Delete_clears)

text \<open>The HTTP port of the \<open>i\<close>-th service port is the \<open>i\<close>-th port of the HTTP range, and an error past
  its end, as long as adding \<open>i\<close> to the first port does not leave the 32-bit range.\<close>

theorem getHTTPPort_range:
  assumes "sint (minHTTPPort s) + int i < 2 ^ 31" "0 \<le> sint (minHTTPPort s)"
  shows "getHTTPPort s i = (if sint (minHTTPPort s) + int i \<le> sint (maxHTTPPort s)
     then Inr (word_of_int (sint (minHTTPPort s) + int i)) else Inl ENoHTTPPort)"
proof -
  have eq: "minHTTPPort s + word_of_nat i = word_of_int (sint (minHTTPPort s) + int i)"
    by simp
  have "sint (word_of_int k :: int32) = k" if "- (2 ^ 31) \<le> k" "k < 2 ^ 31" for k
    using that by (simp add: sint_sbintrunc' signed_take_bit_int_eq_self)
  from this [of "sint (minHTTPPort s) + int i"] assms
  have "sint (word_of_int (sint (minHTTPPort s) + int i) :: int32) = sint (minHTTPPort s) + int i"
    by linarith
  then show ?thesis unfolding getHTTPPort_def eq by (auto simp: word_sless_alt)
qed

section \<open>A small service\<close>

definition ex_manager :: ShadowServiceManager where
  "ex_manager = \<lparr>sm_namespace = ''mesh'', tcpStateTable = ex_mapping,
     udpStateTable = NewPortMapping ''mesh'' 15000 15024, defaultTrafficType = ''tcp'',
     minHTTPPort = 5000, maxHTTPPort = 5009\<rparr>"

definition ex_tcp_service :: KService where
  "ex_tcp_service = \<lparr>ks_meta = \<lparr>om_Name = ''a'', om_Namespace = ''ns'', om_Labels = Map.empty,
       om_Annotations = Map.empty, om_ResourceVersion = ''2''\<rparr>, ks_Selector = Map.empty,
     ks_Ports = [\<lparr>sp_Name = ''web'', sp_Protocol = ''TCP'', sp_Port = 8080, sp_TargetPort = FromInt 80\<rparr>],
     ks_ClusterIP = ''10.1.0.2'', ks_Type = ''ClusterIP'', ks_TopologyKeys = []\<rparr>"

lemma ex_manager_ok: "manager_ok ex_manager"
  using ex_mapping_ok
  by (simp add: manager_ok_def ex_manager_def mapping_ok_def NewPortMapping_def ex_mapping_def)

lemma ex_manager_accurate: "accurate ex_manager ''ns'' ''a'' (known_ports (Found ex_shadow))"
  by (auto simp: accurate_def lists_port_def mapped_def ex_manager_def Find_def ex_mapping_def
      NewPortMapping_def known_ports_def ex_shadow_def)

lemma CreateOrUpdate_accurate_witness:
  "\<exists>s' call. CreateOrUpdate (Found ex_shadow) True ex_tcp_service ex_manager = Some (s', Inr call)
     \<and> accurate s' ''ns'' ''a'' (call_ports call)"
proof -
  have svc: "om_Namespace (ks_meta ex_tcp_service) = ''ns''" "om_Name (ks_meta ex_tcp_service) = ''a''"
    "distinct (map (\<lambda>sp. (sp_Port sp, sp_Protocol sp)) (ks_Ports ex_tcp_service))"
    "GetTrafficType (defaultTrafficType ex_manager) (om_Annotations (ks_meta ex_tcp_service)) = Inr ''tcp''"
    by (simp_all add: ex_tcp_service_def GetTrafficType_def ex_manager_def)
  have "accurate ex_manager (om_Namespace (ks_meta ex_tcp_service)) (om_Name (ks_meta ex_tcp_service))
      (known_ports (Found ex_shadow))"
    using ex_manager_accurate by (simp only: svc)
  from CreateOrUpdate_accurate [OF ex_manager_ok _ this svc(3,4), of True] show ?thesis
    by (simp only: svc lookup.distinct) blast
qed

lemma Delete_frees_witness:
  "mapped (fst (Delete_shadow (Found ex_shadow) ''ns'' ''a'' ex_manager)) ''TCP'' ''ns'' ''a'' 80 = None"
proof -
  have "accurate (fst (Delete_shadow (Found ex_shadow) ''ns'' ''a'' ex_manager)) ''ns'' ''a'' []"
    using Delete_frees [OF ex_manager_ok ex_manager_accurate] by simp
  then show ?thesis
    by (cases "mapped (fst (Delete_shadow (Found ex_shadow) ''ns'' ''a'' ex_manager)) ''TCP'' ''ns'' ''a'' 80")
       (auto simp: accurate_def lists_port_def)
qed

lemma getHTTPPort_range_witness: "getHTTPPort ex_manager 9 = Inr 5009"
  by (subst getHTTPPort_range) (simp_all add: ex_manager_def)

end
