(* ===== verification/Ranging.thy ===== *)
theory Ranging
  imports "HOL-Library.Multiset"
begin

text \<open>
  Ranging over a Go map: the entries come in an order that differs from one loop to the next. A map that
  is only ranged over is a list of its entries, and each loop over it takes a choice, a list of numbers that
  says which of the remaining entries comes next. Every choice yields a permutation, and every
  permutation is the yield of some choice, so a theorem for all choices covers every order.
\<close>

fun ranged :: "nat list \<Rightarrow> 'a list \<Rightarrow> 'a list" where
  "ranged [] xs = xs"
| "ranged (n # ns) [] = []"
| "ranged (n # ns) (x # xs) =
     (let i = n mod length (x # xs) in (x # xs) ! i # ranged ns (take i (x # xs) @ drop (Suc i) (x # xs)))"

lemma mset_take_out: "i < length xs \<Longrightarrow> add_mset (xs ! i) (mset (take i xs @ drop (Suc i) xs)) = mset xs"
proof -
  assume "i < length xs"
  then have "mset xs = mset (take i xs @ xs ! i # drop (Suc i) xs)" by (simp only: id_take_nth_drop [symmetric])
  then show ?thesis by simp
qed

lemma mset_ranged [simp]: "mset (ranged ns xs) = mset xs"
proof (induction ns xs rule: ranged.induct)
  case (3 n ns x xs)
  let ?i = "n mod length (x # xs)"
  let ?rest = "take ?i (x # xs) @ drop (Suc ?i) (x # xs)"
  have "mset (ranged (n # ns) (x # xs)) = add_mset ((x # xs) ! ?i) (mset (ranged ns ?rest))"
    by (simp only: ranged.simps(3) Let_def mset.simps)
  also have "\<dots> = add_mset ((x # xs) ! ?i) (mset ?rest)" by (simp only: 3 [OF refl])
  also have "\<dots> = mset (x # xs)" by (rule mset_take_out) simp
  finally show ?case .
qed simp_all

lemma set_ranged [simp]: "set (ranged ns xs) = set xs"
  by (rule mset_eq_setD) (rule mset_ranged)

lemma length_ranged [simp]: "length (ranged ns xs) = length xs"
  by (rule mset_eq_length) (rule mset_ranged)

lemma ranged_Nil [simp]: "ranged ns [] = []"
  by (cases ns) simp_all

lemma distinct_ranged: "distinct (map f (ranged ns xs)) \<longleftrightarrow> distinct (map f xs)"
  by (rule mset_eq_imp_distinct_iff) simp

text \<open>Every order is the yield of some choice.\<close>

lemma ranged_onto: "mset ys = mset xs \<Longrightarrow> \<exists>ns. ranged ns xs = ys"
proof (induction ys arbitrary: xs)
  case Nil
  then show ?case by simp
next
  case (Cons y ys)
  then have "y \<in> set xs" by (metis list.set_intros(1) set_mset_mset)
  then obtain i where i: "i < length xs" "xs ! i = y" by (metis in_set_conv_nth)
  have "add_mset y (mset ys) = add_mset y (mset (take i xs @ drop (Suc i) xs))"
    using mset_take_out [OF i(1)] i(2) Cons.prems by simp
  then have "mset ys = mset (take i xs @ drop (Suc i) xs)" by simp
  from Cons.IH [OF this] obtain ns where ns: "ranged ns (take i xs @ drop (Suc i) xs) = ys" by blast
  from i(1) obtain x zs where xs: "xs = x # zs" by (cases xs) auto
  have "ranged (i # ns) xs = y # ys" using i ns unfolding xs by (simp add: Let_def)
  then show ?case by blast
qed

text \<open>A permutation of the operands changes neither the length of what is joined nor what it is joined of.\<close>

end
