(* ===== verification/Rules.thy ===== *)
theory Rules
  imports Topology Ranging
begin

text \<open>
  \<open>pkg/provider/rule.go\<close> and \<open>pkg/provider/key.go\<close>: the rules and priorities of routers, and the names
  under which routers, services and middlewares are stored in the dynamic configuration.
\<close>

section \<open>Rules\<close>

definition appendPathFilter :: "string list \<Rightarrow> HTTPMatch \<Rightarrow> string list" where
  "appendPathFilter matchParts m =
     (if hm_PathRegex m = [] then matchParts
      else let pathRegex = (if HasPrefix (hm_PathRegex m) ''/'' then TrimPrefix (hm_PathRegex m) ''/''
                            else hm_PathRegex m)
           in matchParts @ [''PathPrefix(`/{path:'' @ pathRegex @ ''}`)''])"

definition appendMethodFilter :: "string list \<Rightarrow> HTTPMatch \<Rightarrow> string list" where
  "appendMethodFilter matchParts m =
     (if hm_Methods m = [] then matchParts
      else let matchAll = list_ex (\<lambda>method. method = ''*'') (hm_Methods m)
           in if \<not> matchAll then matchParts @ [''Method(`'' @ Join (hm_Methods m) ''`,`'' @ ''`)'']
              else matchParts)"

text \<open>The headers of a match are a map, over which each call ranges anew, by a choice of its own.\<close>

definition appendHeaderFilter :: "nat list \<Rightarrow> string list \<Rightarrow> HTTPMatch \<Rightarrow> string list" where
  "appendHeaderFilter choice matchParts m =
     (let rules = map (\<lambda>(name, value). ''HeadersRegexp(`'' @ name @ ''`, `'' @ value @ ''`)'') (ranged choice (hm_Headers m))
      in if 0 < length rules then matchParts @ [Join rules '' && ''] else matchParts)"

definition match_parts :: "nat list \<Rightarrow> HTTPMatch \<Rightarrow> string list" where
  "match_parts choice m = appendHeaderFilter choice (appendMethodFilter (appendPathFilter [] m) m) m"

definition match_cond :: "string list \<Rightarrow> string" where
  "match_cond matchParts =
     (let matchCond = Join matchParts '' && ''
      in if 1 < length matchParts then ''('' @ matchCond @ '')'' else matchCond)"

text \<open>\<open>choices\<close> has one for each match that the rule is made of.\<close>

definition buildHTTPRuleFromTrafficSpecs :: "(nat \<Rightarrow> nat list) \<Rightarrow> TrafficSpec list \<Rightarrow> string" where
  "buildHTTPRuleFromTrafficSpecs choices specs =
     Join (map match_cond (filter (\<lambda>parts. 0 < length parts)
       (map (\<lambda>(i, m). match_parts (choices i) m) (enumerate 0 (concat (map spec_HTTPMatches specs)))))) '' || ''"

definition buildHTTPRuleFromService :: "Service \<Rightarrow> string" where
  "buildHTTPRuleFromService svc =
     ''Host(`'' @ svc_Name svc @ ''.'' @ svc_Namespace svc @ ''.traefik.mesh`) || Host(`'' @
       svc_ClusterIP svc @ ''`)''"

definition buildHTTPRuleFromTrafficTarget :: "(nat \<Rightarrow> nat list) \<Rightarrow> ServiceTrafficTarget \<Rightarrow> Service \<Rightarrow> string" where
  "buildHTTPRuleFromTrafficTarget choices tt ttSvc =
     (let ttRule = buildHTTPRuleFromTrafficSpecs choices (stt_Rules tt);
          svcRule = buildHTTPRuleFromService ttSvc
      in if ttRule \<noteq> [] then ''('' @ svcRule @ '') && ('' @ ttRule @ '')'' else svcRule)"

definition buildHTTPRuleFromTrafficSplit :: "(nat \<Rightarrow> nat list) \<Rightarrow> TrafficSplit \<Rightarrow> Service \<Rightarrow> string" where
  "buildHTTPRuleFromTrafficSplit choices ts tsSvc =
     (let tsRule = buildHTTPRuleFromTrafficSpecs choices (ts_Rules ts);
          svcRule = buildHTTPRuleFromService tsSvc
      in if tsRule \<noteq> [] then ''('' @ svcRule @ '') && ('' @ tsRule @ '')'' else svcRule)"

definition indirectRule :: string where
  "indirectRule = ''HeadersRegexp(`X-Forwarded-For`, `.+`)''"

definition buildHTTPRuleFromTrafficTargetIndirect :: "(nat \<Rightarrow> nat list) \<Rightarrow> ServiceTrafficTarget \<Rightarrow> Service \<Rightarrow> string" where
  "buildHTTPRuleFromTrafficTargetIndirect choices tt ttSvc =
     (let ttRule = buildHTTPRuleFromTrafficSpecs choices (stt_Rules tt);
          svcRule = buildHTTPRuleFromService ttSvc
      in if ttRule \<noteq> [] then ''('' @ svcRule @ '') && ('' @ ttRule @ '') && '' @ indirectRule
         else ''('' @ svcRule @ '') && '' @ indirectRule)"

definition buildHTTPRuleFromTrafficSplitIndirect :: "(nat \<Rightarrow> nat list) \<Rightarrow> TrafficSplit \<Rightarrow> Service \<Rightarrow> string" where
  "buildHTTPRuleFromTrafficSplitIndirect choices ts tsSvc =
     (let tsRule = buildHTTPRuleFromTrafficSpecs choices (ts_Rules ts);
          svcRule = buildHTTPRuleFromService tsSvc
      in if tsRule \<noteq> [] then ''('' @ svcRule @ '') && ('' @ tsRule @ '') && '' @ indirectRule
         else ''('' @ svcRule @ '') && '' @ indirectRule)"

definition buildTCPRouterRule :: string where
  "buildTCPRouterRule = ''HostSNI(`*`)''"

definition getRulePriority :: "string \<Rightarrow> int \<Rightarrow> int" where
  "getRulePriority rule priority =
     (let andOps = int (Count rule ''&&''); orOps = int (Count rule ''||'')
      in priority * 1000 + (andOps + orOps))"

section \<open>Keys\<close>

definition blockAllMiddlewareKey :: string where "blockAllMiddlewareKey = ''block-all-middleware''"
definition blockAllServiceKey :: string where "blockAllServiceKey = ''block-all-service''"

definition getMiddlewareKey :: "Service \<Rightarrow> string \<Rightarrow> string" where
  "getMiddlewareKey svc name = svc_Namespace svc @ ''-'' @ svc_Name svc @ ''-'' @ name"

definition getServiceRouterKeyFromService :: "Service \<Rightarrow> int32 \<Rightarrow> string" where
  "getServiceRouterKeyFromService svc port =
     svc_Namespace svc @ ''-'' @ svc_Name svc @ ''-'' @ itoa32 port"

abbreviation tt_prefix :: "ServiceTrafficTarget \<Rightarrow> string" where
  "tt_prefix tt \<equiv> Namespace (stt_Service tt) @ ''-'' @ Name (stt_Service tt) @ ''-'' @ stt_Name tt"

abbreviation ts_prefix :: "TrafficSplit \<Rightarrow> string" where
  "ts_prefix ts \<equiv> Namespace (ts_Service ts) @ ''-'' @ Name (ts_Service ts) @ ''-'' @ ts_Name ts"

definition getWhitelistMiddlewareKeyFromTrafficTargetDirect :: "ServiceTrafficTarget \<Rightarrow> string" where
  "getWhitelistMiddlewareKeyFromTrafficTargetDirect tt = tt_prefix tt @ ''-whitelist-traffic-target-direct''"

definition getWhitelistMiddlewareKeyFromTrafficTargetIndirect :: "ServiceTrafficTarget \<Rightarrow> string" where
  "getWhitelistMiddlewareKeyFromTrafficTargetIndirect tt = tt_prefix tt @ ''-whitelist-traffic-target-indirect''"

definition getWhitelistMiddlewareKeyFromTrafficSplitDirect :: "TrafficSplit \<Rightarrow> string" where
  "getWhitelistMiddlewareKeyFromTrafficSplitDirect ts = ts_prefix ts @ ''-whitelist-traffic-split-direct''"

definition getWhitelistMiddlewareKeyFromTrafficSplitIndirect :: "TrafficSplit \<Rightarrow> string" where
  "getWhitelistMiddlewareKeyFromTrafficSplitIndirect ts = ts_prefix ts @ ''-whitelist-traffic-split-indirect''"

definition getServiceKeyFromTrafficTarget :: "ServiceTrafficTarget \<Rightarrow> int32 \<Rightarrow> string" where
  "getServiceKeyFromTrafficTarget tt port = tt_prefix tt @ ''-'' @ itoa32 port @ ''-traffic-target''"

definition getRouterKeyFromTrafficTargetDirect :: "ServiceTrafficTarget \<Rightarrow> int32 \<Rightarrow> string" where
  "getRouterKeyFromTrafficTargetDirect tt port = tt_prefix tt @ ''-'' @ itoa32 port @ ''-traffic-target-direct''"

definition getRouterKeyFromTrafficTargetIndirect :: "ServiceTrafficTarget \<Rightarrow> int32 \<Rightarrow> string" where
  "getRouterKeyFromTrafficTargetIndirect tt port = tt_prefix tt @ ''-'' @ itoa32 port @ ''-traffic-target-indirect''"

definition getServiceKeyFromTrafficSplit :: "TrafficSplit \<Rightarrow> int32 \<Rightarrow> string" where
  "getServiceKeyFromTrafficSplit ts port = ts_prefix ts @ ''-'' @ itoa32 port @ ''-traffic-split''"

definition getRouterKeyFromTrafficSplitDirect :: "TrafficSplit \<Rightarrow> int32 \<Rightarrow> string" where
  "getRouterKeyFromTrafficSplitDirect ts port = ts_prefix ts @ ''-'' @ itoa32 port @ ''-traffic-split-direct''"

definition getRouterKeyFromTrafficSplitIndirect :: "TrafficSplit \<Rightarrow> int32 \<Rightarrow> string" where
  "getRouterKeyFromTrafficSplitIndirect ts port = ts_prefix ts @ ''-'' @ itoa32 port @ ''-traffic-split-indirect''"

definition getServiceKeyFromTrafficSplitBackend :: "TrafficSplit \<Rightarrow> int32 \<Rightarrow> TrafficSplitBackend \<Rightarrow> string" where
  "getServiceKeyFromTrafficSplitBackend ts port backend =
     ts_prefix ts @ ''-'' @ itoa32 port @ ''-'' @ Name (tsb_Service backend) @ ''-traffic-split-backend''"

lemmas key_defs =
  getMiddlewareKey_def getServiceRouterKeyFromService_def
  getWhitelistMiddlewareKeyFromTrafficTargetDirect_def getWhitelistMiddlewareKeyFromTrafficTargetIndirect_def
  getWhitelistMiddlewareKeyFromTrafficSplitDirect_def getWhitelistMiddlewareKeyFromTrafficSplitIndirect_def
  getServiceKeyFromTrafficTarget_def getRouterKeyFromTrafficTargetDirect_def
  getRouterKeyFromTrafficTargetIndirect_def getServiceKeyFromTrafficSplit_def
  getRouterKeyFromTrafficSplitDirect_def getRouterKeyFromTrafficSplitIndirect_def
  getServiceKeyFromTrafficSplitBackend_def

section \<open>Names without dashes in front\<close>

lemma dash_split_first:
  assumes "u @ CHR ''-'' # v = u' @ CHR ''-'' # v'" "CHR ''-'' \<notin> set u" "CHR ''-'' \<notin> set u'"
  shows "u = u' \<and> v = v'"
  using assms by (auto simp: append_eq_append_conv2 append_eq_Cons_conv Cons_eq_append_conv)

lemma dash_split_last:
  assumes "u @ CHR ''-'' # v = u' @ CHR ''-'' # v'" "CHR ''-'' \<notin> set v" "CHR ''-'' \<notin> set v'"
  shows "u = u' \<and> v = v'"
  using assms by (auto simp: append_eq_append_conv2 append_eq_Cons_conv Cons_eq_append_conv)

lemma itoa32_no_dash: "0 \<le> sint w \<Longrightarrow> CHR ''-'' \<notin> set (itoa32 w)"
  by (simp add: itoa32_def itoa_nonneg_no_dash)

text \<open>The key of a service port names that port: two services in namespaces without a dash, and two
  ports that are not negative, share a key only when namespace, name and port agree.\<close>

theorem service_router_key_injective:
  assumes "CHR ''-'' \<notin> set (svc_Namespace svc)" "CHR ''-'' \<notin> set (svc_Namespace svc')"
    and "0 \<le> sint port" "0 \<le> sint port'"
    and "getServiceRouterKeyFromService svc port = getServiceRouterKeyFromService svc' port'"
  shows "svc_Namespace svc = svc_Namespace svc' \<and> svc_Name svc = svc_Name svc' \<and> port = port'"
proof -
  have "svc_Namespace svc @ CHR ''-'' # (svc_Name svc @ ''-'' @ itoa32 port) =
      svc_Namespace svc' @ CHR ''-'' # (svc_Name svc' @ ''-'' @ itoa32 port')"
    using assms(5) by (simp add: getServiceRouterKeyFromService_def)
  from dash_split_first [OF this assms(1,2)] have ns: "svc_Namespace svc = svc_Namespace svc'"
    and rest: "svc_Name svc @ CHR ''-'' # itoa32 port = svc_Name svc' @ CHR ''-'' # itoa32 port'" by simp_all
  from dash_split_last [OF rest itoa32_no_dash [OF assms(3)] itoa32_no_dash [OF assms(4)]] ns
  show ?thesis by (simp add: itoa32_inj)
qed

text \<open>Without the condition on the namespaces keys collide.\<close>

definition key_service :: "string \<Rightarrow> string \<Rightarrow> Service" where
  "key_service ns n = \<lparr>svc_Name = n, svc_Namespace = ns, svc_Selector = Map.empty,
     svc_Annotations = Map.empty, svc_Ports = [], svc_ClusterIP = [], svc_Pods = [],
     svc_TrafficTargets = [], svc_TrafficSplits = [], svc_BackendOf = [], svc_Errors = []\<rparr>"

lemma service_router_key_injective_witness:
  "getServiceRouterKeyFromService (key_service ''a'' ''b-c'') 80 \<noteq> getServiceRouterKeyFromService (key_service ''a'' ''b'') 80"
proof
  assume eq: "getServiceRouterKeyFromService (key_service ''a'' ''b-c'') 80 = getServiceRouterKeyFromService (key_service ''a'' ''b'') 80"
  have ns: "CHR ''-'' \<notin> set (svc_Namespace (key_service ''a'' ''b-c''))" "CHR ''-'' \<notin> set (svc_Namespace (key_service ''a'' ''b''))"
    by (simp_all add: key_service_def)
  from service_router_key_injective [OF ns _ _ eq] show False by (simp add: key_service_def)
qed

text \<open>Services in namespaces with a dash can share a key: the routers of one overwrite those of the
  other, whichever service is visited last.\<close>

theorem service_router_key_collision:
  "getServiceRouterKeyFromService (key_service ''a-b'' ''c'') port =
     getServiceRouterKeyFromService (key_service ''a'' ''b-c'') port"
  by (simp add: getServiceRouterKeyFromService_def key_service_def)

text \<open>The collision reaches the access control: the whitelist of one traffic target is stored under the
  key of another one in another namespace.\<close>

definition key_target :: "string \<Rightarrow> string \<Rightarrow> string \<Rightarrow> ServiceTrafficTarget" where
  "key_target ns svc n = \<lparr>stt_Service = Key svc ns, stt_Name = n, stt_Namespace = ns, stt_Sources = [],
     stt_Destination = \<lparr>dst_ServiceAccount = [], dst_Namespace = [], dst_Ports = [], dst_Pods = []\<rparr>,
     stt_Rules = [], stt_Errors = []\<rparr>"

theorem whitelist_key_collision:
  "getWhitelistMiddlewareKeyFromTrafficTargetDirect (key_target ''a-b'' ''c'' n) =
     getWhitelistMiddlewareKeyFromTrafficTargetDirect (key_target ''a'' ''b-c'' n)"
  by (simp add: getWhitelistMiddlewareKeyFromTrafficTargetDirect_def key_target_def)

section \<open>Priorities\<close>

definition operators :: "string \<Rightarrow> nat" where
  "operators rule = Count rule ''&&'' + Count rule ''||''"

lemma getRulePriority_eq: "getRulePriority rule p = p * 1000 + int (operators rule)"
  by (simp add: getRulePriority_def operators_def Let_def)

text \<open>The class of a router decides before the length of its rule: as long as the rules have fewer than
  1000 operators, a router of a higher class has a higher priority than one of a lower class, and within
  a class the rule with more operators wins.\<close>

theorem priority_order:
  assumes "operators rule < 1000" "operators rule' < 1000"
  shows "getRulePriority rule p < getRulePriority rule' q \<longleftrightarrow>
     p < q \<or> (p = q \<and> operators rule < operators rule')"
  using assms by (simp add: getRulePriority_eq) linarith

lemma priority_order_witness: "getRulePriority ''a && b'' 1 < getRulePriority ''a'' 2"
proof -
  have "operators ''a && b'' < 1000" "operators ''a'' < 1000"
    by (simp_all add: operators_def Count.simps)
  from priority_order [OF this, of 1 2] show ?thesis by simp
qed

end
