(* ===== verification/Provider.thy ===== *)
theory Provider
  imports Rules Annotations Builder
begin

text \<open>
  \<open>pkg/provider/provider.go\<close>: the Traefik dynamic configuration built from a topology. The two port
  tables and the middleware builder are interface values of the code, here functions. A nil map of the
  configuration is an empty one. Building writes the configuration and records errors in the topology,
  so the state of every step is a pair; a step that would dereference a missing split or target, as
  \<open>t.TrafficSplits[tsKey].AddError(err)\<close> does, panics: its result is \<open>None\<close>.
\<close>

section \<open>State\<close>

record Config =
  pc_MinHTTPPort :: int32
  pc_MaxHTTPPort :: int32
  pc_ACL :: bool
  pc_DefaultTrafficType :: string

text \<open>The loops over Go maps whose order a configuration shows: over the middlewares of a service, and over the
  headers of the matches each time a rule is built, for the direct router of a target or split once and for the
  indirect one at each port. A build of the configuration takes a choice for each of them.\<close>

datatype rule_site = TargetDirect STTKey | TargetIndirect STTKey nat | SplitDirect Key | SplitIndirect Key nat

record ranges =
  rg_middlewares :: "Key \<Rightarrow> nat list"
  rg_headers :: "rule_site \<Rightarrow> nat \<Rightarrow> nat list"

text \<open>The choices that leave everything in the order in which it is listed.\<close>

definition as_listed :: ranges where
  "as_listed = \<lparr>rg_middlewares = (\<lambda>k. []), rg_headers = (\<lambda>site i. [])\<rparr>"

text \<open>\<open>pv_ranges\<close> is no field of the struct: it holds the choices of the build that the provider makes next.\<close>

record Provider =
  pv_config :: Config
  pv_tcpFind :: "string \<Rightarrow> string \<Rightarrow> int32 \<Rightarrow> int32 option"
  pv_udpFind :: "string \<Rightarrow> string \<Rightarrow> int32 \<Rightarrow> int32 option"
  pv_buildServiceMiddleware :: "annotations \<Rightarrow> ann_error + (string \<times> Middleware) list"
  pv_ranges :: ranges

record HTTPConfiguration =
  hc_Routers :: "string \<rightharpoonup> Router"
  hc_Services :: "string \<rightharpoonup> HTTPService"
  hc_Middlewares :: "string \<rightharpoonup> Middleware"

record TCPConfiguration =
  tc_Routers :: "string \<rightharpoonup> TCPRouter"
  tc_Services :: "string \<rightharpoonup> L4Service"

record UDPConfiguration =
  uc_Routers :: "string \<rightharpoonup> UDPRouter"
  uc_Services :: "string \<rightharpoonup> L4Service"

record Configuration =
  cf_HTTP :: HTTPConfiguration
  cf_TCP :: "TCPConfiguration option"
  cf_UDP :: "UDPConfiguration option"

type_synonym conf_state = "Topology \<times> Configuration"

definition put_router :: "string \<Rightarrow> Router \<Rightarrow> Configuration \<Rightarrow> Configuration" where
  "put_router key r cfg =
     cfg\<lparr>cf_HTTP := (cf_HTTP cfg)\<lparr>hc_Routers := (hc_Routers (cf_HTTP cfg))(key \<mapsto> r)\<rparr>\<rparr>"

definition put_service :: "string \<Rightarrow> HTTPService \<Rightarrow> Configuration \<Rightarrow> Configuration" where
  "put_service key s cfg =
     cfg\<lparr>cf_HTTP := (cf_HTTP cfg)\<lparr>hc_Services := (hc_Services (cf_HTTP cfg))(key \<mapsto> s)\<rparr>\<rparr>"

definition put_middleware :: "string \<Rightarrow> Middleware \<Rightarrow> Configuration \<Rightarrow> Configuration" where
  "put_middleware key m cfg =
     cfg\<lparr>cf_HTTP := (cf_HTTP cfg)\<lparr>hc_Middlewares := (hc_Middlewares (cf_HTTP cfg))(key \<mapsto> m)\<rparr>\<rparr>"

definition tcp_conf :: "Configuration \<Rightarrow> TCPConfiguration" where
  "tcp_conf cfg = (case cf_TCP cfg of
     None \<Rightarrow> \<lparr>tc_Routers = Map.empty, tc_Services = Map.empty\<rparr> | Some c \<Rightarrow> c)"

definition udp_conf :: "Configuration \<Rightarrow> UDPConfiguration" where
  "udp_conf cfg = (case cf_UDP cfg of
     None \<Rightarrow> \<lparr>uc_Routers = Map.empty, uc_Services = Map.empty\<rparr> | Some c \<Rightarrow> c)"

definition addTCPService :: "string \<Rightarrow> L4Service \<Rightarrow> Configuration \<Rightarrow> Configuration" where
  "addTCPService key service cfg = cfg\<lparr>cf_TCP :=
     Some ((tcp_conf cfg)\<lparr>tc_Services := (tc_Services (tcp_conf cfg))(key \<mapsto> service)\<rparr>)\<rparr>"

definition addTCPRouter :: "string \<Rightarrow> TCPRouter \<Rightarrow> Configuration \<Rightarrow> Configuration" where
  "addTCPRouter key router cfg = cfg\<lparr>cf_TCP :=
     Some ((tcp_conf cfg)\<lparr>tc_Routers := (tc_Routers (tcp_conf cfg))(key \<mapsto> router)\<rparr>)\<rparr>"

definition addUDPService :: "string \<Rightarrow> L4Service \<Rightarrow> Configuration \<Rightarrow> Configuration" where
  "addUDPService key service cfg = cfg\<lparr>cf_UDP :=
     Some ((udp_conf cfg)\<lparr>uc_Services := (uc_Services (udp_conf cfg))(key \<mapsto> service)\<rparr>)\<rparr>"

definition addUDPRouter :: "string \<Rightarrow> UDPRouter \<Rightarrow> Configuration \<Rightarrow> Configuration" where
  "addUDPRouter key router cfg = cfg\<lparr>cf_UDP :=
     Some ((udp_conf cfg)\<lparr>uc_Routers := (uc_Routers (udp_conf cfg))(key \<mapsto> router)\<rparr>)\<rparr>"

definition whitelist :: "string list \<Rightarrow> int option \<Rightarrow> Middleware" where
  "whitelist ips depth =
     no_middleware\<lparr>mw_IPWhiteList := Some \<lparr>wl_SourceRange = ips, wl_IPStrategyDepth = depth\<rparr>\<rparr>"

definition NewDefaultDynamicConfig :: Configuration where
  "NewDefaultDynamicConfig =
     \<lparr>cf_HTTP = \<lparr>
        hc_Routers = [''readiness'' \<mapsto> \<lparr>rt_EntryPoints = [''readiness''], rt_Middlewares = [],
          rt_Service = ''readiness'', rt_Rule = ''Path(`/ping`)'', rt_Priority = 0\<rparr>],
        hc_Services = [''readiness'' \<mapsto> LoadBalancer [''http://127.0.0.1:8080''] True,
          blockAllServiceKey \<mapsto> LoadBalancer [] False],
        hc_Middlewares = [blockAllMiddlewareKey \<mapsto> whitelist [''255.255.255.255''] None]\<rparr>,
      cf_TCP = None, cf_UDP = None\<rparr>"

section \<open>Entry points\<close>

definition buildHTTPEntrypoint :: "Provider \<Rightarrow> nat \<Rightarrow> error + string" where
  "buildHTTPEntrypoint p portID =
     (let port = pc_MinHTTPPort (pv_config p) + word_of_nat portID in
      if pc_MaxHTTPPort (pv_config p) <s port then Inl ETooManyHTTPEntrypoints
      else Inr (''http-'' @ itoa32 port))"

definition buildTCPEntrypoint :: "Provider \<Rightarrow> Service \<Rightarrow> int32 \<Rightarrow> error + string" where
  "buildTCPEntrypoint p svc port =
     (case pv_tcpFind p (svc_Namespace svc) (svc_Name svc) port of
        None \<Rightarrow> Inl EPortNotFound | Some meshPort \<Rightarrow> Inr (''tcp-'' @ itoa32 meshPort))"

definition buildUDPEntrypoint :: "Provider \<Rightarrow> Service \<Rightarrow> int32 \<Rightarrow> error + string" where
  "buildUDPEntrypoint p svc port =
     (case pv_udpFind p (svc_Namespace svc) (svc_Name svc) port of
        None \<Rightarrow> Inl EPortNotFound | Some meshPort \<Rightarrow> Inr (''udp-'' @ itoa32 meshPort))"

section \<open>Services and middlewares\<close>

text \<open>\<open>net.JoinHostPort\<close>.\<close>

definition JoinHostPort :: "string \<Rightarrow> string \<Rightarrow> string" where
  "JoinHostPort host port =
     (if CHR '':'' \<in> set host then ''['' @ host @ '']:'' @ port else host @ '':'' @ port)"

text \<open>The loop over pods that all the server lists share.\<close>

fun pod_addresses :: "Topology \<Rightarrow> ServicePort \<Rightarrow> Key list \<Rightarrow> string list" where
  "pod_addresses t svcPort [] = []"
| "pod_addresses t svcPort (podKey # podKeys) =
     (case Pods t podKey of
        None \<Rightarrow> pod_addresses t svcPort podKeys
      | Some pod \<Rightarrow>
          (let (hostPort, ok) = ResolveServicePort svcPort (pod_ContainerPorts pod) in
           if \<not> ok then pod_addresses t svcPort podKeys
           else JoinHostPort (pod_IP pod) (itoa32 hostPort) # pod_addresses t svcPort podKeys))"

definition http_servers :: "string \<Rightarrow> string list \<Rightarrow> HTTPService" where
  "http_servers scheme addresses = LoadBalancer (map (\<lambda>a. scheme @ ''://'' @ a) addresses) True"

definition buildHTTPServiceFromService :: "Topology \<Rightarrow> Service \<Rightarrow> string \<Rightarrow> ServicePort \<Rightarrow> HTTPService" where
  "buildHTTPServiceFromService t svc scheme svcPort = http_servers scheme (pod_addresses t svcPort (svc_Pods svc))"

definition buildHTTPServiceFromTrafficTarget ::
  "Topology \<Rightarrow> ServiceTrafficTarget \<Rightarrow> string \<Rightarrow> ServicePort \<Rightarrow> HTTPService" where
  "buildHTTPServiceFromTrafficTarget t tt scheme svcPort =
     http_servers scheme (pod_addresses t svcPort (dst_Pods (stt_Destination tt)))"

definition buildTCPServiceFromService :: "Topology \<Rightarrow> Service \<Rightarrow> ServicePort \<Rightarrow> L4Service" where
  "buildTCPServiceFromService t svc svcPort = L4LoadBalancer (pod_addresses t svcPort (svc_Pods svc))"

definition buildTCPServiceFromTrafficTarget :: "Topology \<Rightarrow> ServiceTrafficTarget \<Rightarrow> ServicePort \<Rightarrow> L4Service" where
  "buildTCPServiceFromTrafficTarget t tt svcPort =
     L4LoadBalancer (pod_addresses t svcPort (dst_Pods (stt_Destination tt)))"

definition buildUDPServiceFromService :: "Topology \<Rightarrow> Service \<Rightarrow> ServicePort \<Rightarrow> L4Service" where
  "buildUDPServiceFromService t svc svcPort = L4LoadBalancer (pod_addresses t svcPort (svc_Pods svc))"

fun pod_ips :: "Topology \<Rightarrow> Key list \<Rightarrow> string list" where
  "pod_ips t [] = []"
| "pod_ips t (podKey # podKeys) =
     (case Pods t podKey of None \<Rightarrow> pod_ips t podKeys | Some pod \<Rightarrow> pod_IP pod # pod_ips t podKeys)"

definition buildWhitelistMiddlewareFromTrafficTargetDirect :: "Topology \<Rightarrow> ServiceTrafficTarget \<Rightarrow> Middleware" where
  "buildWhitelistMiddlewareFromTrafficTargetDirect t tt =
     whitelist (pod_ips t (concat (map src_Pods (stt_Sources tt)))) None"

definition buildWhitelistMiddlewareFromTrafficSplitDirect :: "Topology \<Rightarrow> TrafficSplit \<Rightarrow> Middleware" where
  "buildWhitelistMiddlewareFromTrafficSplitDirect t ts = whitelist (pod_ips t (ts_Incoming ts)) None"

definition with_depth :: "Middleware \<Rightarrow> Middleware" where
  "with_depth m = m\<lparr>mw_IPWhiteList :=
     map_option (\<lambda>wl. wl\<lparr>wl_IPStrategyDepth := Some 1\<rparr>) (mw_IPWhiteList m)\<rparr>"

definition buildWhitelistMiddlewareFromTrafficTargetIndirect :: "Topology \<Rightarrow> ServiceTrafficTarget \<Rightarrow> Middleware" where
  "buildWhitelistMiddlewareFromTrafficTargetIndirect t tt =
     with_depth (buildWhitelistMiddlewareFromTrafficTargetDirect t tt)"

definition buildWhitelistMiddlewareFromTrafficSplitIndirect :: "Topology \<Rightarrow> TrafficSplit \<Rightarrow> Middleware" where
  "buildWhitelistMiddlewareFromTrafficSplitIndirect t ts =
     with_depth (buildWhitelistMiddlewareFromTrafficSplitDirect t ts)"

definition backend_host :: "TrafficSplitBackend \<Rightarrow> int32 \<Rightarrow> string" where
  "backend_host backend port =
     Name (tsb_Service backend) @ ''.'' @ Namespace (tsb_Service backend) @ ''.traefik.mesh:'' @ itoa32 port"

definition buildHTTPSplitTrafficBackendService :: "TrafficSplitBackend \<Rightarrow> string \<Rightarrow> int32 \<Rightarrow> HTTPService" where
  "buildHTTPSplitTrafficBackendService backend scheme port =
     LoadBalancer [scheme @ ''://'' @ backend_host backend port] False"

definition buildTCPSplitTrafficBackendService :: "TrafficSplitBackend \<Rightarrow> int32 \<Rightarrow> L4Service" where
  "buildTCPSplitTrafficBackendService backend port = L4LoadBalancer [backend_host backend port]"

definition buildUDPSplitTrafficBackendService :: "TrafficSplitBackend \<Rightarrow> int32 \<Rightarrow> L4Service" where
  "buildUDPSplitTrafficBackendService backend port = L4LoadBalancer [backend_host backend port]"

section \<open>Routers\<close>

abbreviation priorityService :: int where "priorityService \<equiv> 1"
abbreviation priorityTrafficTargetDirect :: int where "priorityTrafficTargetDirect \<equiv> 2"
abbreviation priorityTrafficTargetIndirect :: int where "priorityTrafficTargetIndirect \<equiv> 3"
abbreviation priorityTrafficSplit :: int where "priorityTrafficSplit \<equiv> 4"

definition buildHTTPRouter :: "string \<Rightarrow> string \<Rightarrow> string list \<Rightarrow> string \<Rightarrow> int \<Rightarrow> Router" where
  "buildHTTPRouter routerRule entrypoint middlewares svcKey priority =
     \<lparr>rt_EntryPoints = [entrypoint], rt_Middlewares = middlewares, rt_Service = svcKey,
      rt_Rule = routerRule, rt_Priority = getRulePriority routerRule priority\<rparr>"

definition buildTCPRouter :: "string \<Rightarrow> string \<Rightarrow> string \<Rightarrow> TCPRouter" where
  "buildTCPRouter routerRule entrypoint svcKey =
     \<lparr>tr_EntryPoints = [entrypoint], tr_Service = svcKey, tr_Rule = routerRule\<rparr>"

definition buildUDPRouter :: "string \<Rightarrow> string \<Rightarrow> UDPRouter" where
  "buildUDPRouter entrypoint svcKey = \<lparr>ur_EntryPoints = [entrypoint], ur_Service = svcKey\<rparr>"

definition hasTrafficTargetRuleTCPRoute :: "ServiceTrafficTarget \<Rightarrow> bool" where
  "hasTrafficTargetRuleTCPRoute tt = list_ex (\<lambda>rule. spec_TCPRoute rule \<noteq> None) (stt_Rules tt)"

definition addToSliceCopy :: "'a list \<Rightarrow> 'a \<Rightarrow> 'a list" where
  "addToSliceCopy xs x = xs @ [x]"

section \<open>Recording errors\<close>

definition svc_error :: "Key \<Rightarrow> error \<Rightarrow> Topology \<Rightarrow> Topology" where
  "svc_error svcKey err t = t\<lparr>Services := adjust svcKey (Service_AddError err) (Services t)\<rparr>"

definition stt_error :: "STTKey \<Rightarrow> error \<Rightarrow> Topology \<Rightarrow> Topology" where
  "stt_error ttKey err t =
     t\<lparr>ServiceTrafficTargets := adjust ttKey (ServiceTrafficTarget_AddError err) (ServiceTrafficTargets t)\<rparr>"

section \<open>A service\<close>

definition http_service_port ::
  "Provider \<Rightarrow> Service \<Rightarrow> string \<Rightarrow> string list \<Rightarrow> Key \<Rightarrow> nat \<times> ServicePort \<Rightarrow> conf_state \<Rightarrow> conf_state" where
  "http_service_port p svc scheme middlewares svcKey = (\<lambda>(portID, svcPort) (t, cfg).
     case buildHTTPEntrypoint p portID of
       Inl err \<Rightarrow> (svc_error svcKey (EBuildEntrypoint (sp_Port svcPort) err) t, cfg)
     | Inr entrypoint \<Rightarrow>
         (let key = getServiceRouterKeyFromService svc (sp_Port svcPort) in
          (t, put_router key (buildHTTPRouter (buildHTTPRuleFromService svc) entrypoint middlewares key priorityService)
                (put_service key (buildHTTPServiceFromService t svc scheme svcPort) cfg))))"

definition buildServicesAndRoutersForHTTPService ::
  "Provider \<Rightarrow> Service \<Rightarrow> string \<Rightarrow> string list \<Rightarrow> Key \<Rightarrow> conf_state \<Rightarrow> conf_state" where
  "buildServicesAndRoutersForHTTPService p svc scheme middlewares svcKey =
     fold (http_service_port p svc scheme middlewares svcKey) (enumerate 0 (svc_Ports svc))"

definition tcp_service_port :: "Provider \<Rightarrow> Service \<Rightarrow> Key \<Rightarrow> ServicePort \<Rightarrow> conf_state \<Rightarrow> conf_state" where
  "tcp_service_port p svc svcKey svcPort = (\<lambda>(t, cfg).
     case buildTCPEntrypoint p svc (sp_Port svcPort) of
       Inl err \<Rightarrow> (svc_error svcKey (EBuildEntrypoint (sp_Port svcPort) err) t, cfg)
     | Inr entrypoint \<Rightarrow>
         (let key = getServiceRouterKeyFromService svc (sp_Port svcPort) in
          (t, addTCPRouter key (buildTCPRouter buildTCPRouterRule entrypoint key)
                (addTCPService key (buildTCPServiceFromService t svc svcPort) cfg))))"

definition buildServicesAndRoutersForTCPService :: "Provider \<Rightarrow> Service \<Rightarrow> Key \<Rightarrow> conf_state \<Rightarrow> conf_state" where
  "buildServicesAndRoutersForTCPService p svc svcKey = fold (tcp_service_port p svc svcKey) (svc_Ports svc)"

definition udp_service_port :: "Provider \<Rightarrow> Service \<Rightarrow> Key \<Rightarrow> ServicePort \<Rightarrow> conf_state \<Rightarrow> conf_state" where
  "udp_service_port p svc svcKey svcPort = (\<lambda>(t, cfg).
     case buildUDPEntrypoint p svc (sp_Port svcPort) of
       Inl err \<Rightarrow> (svc_error svcKey (EBuildEntrypoint (sp_Port svcPort) err) t, cfg)
     | Inr entrypoint \<Rightarrow>
         (let key = getServiceRouterKeyFromService svc (sp_Port svcPort) in
          (t, addUDPRouter key (buildUDPRouter entrypoint key)
                (addUDPService key (buildUDPServiceFromService t svc svcPort) cfg))))"

definition buildServicesAndRoutersForUDPService :: "Provider \<Rightarrow> Service \<Rightarrow> Key \<Rightarrow> conf_state \<Rightarrow> conf_state" where
  "buildServicesAndRoutersForUDPService p svc svcKey = fold (udp_service_port p svc svcKey) (svc_Ports svc)"

definition buildServicesAndRoutersForService ::
  "Provider \<Rightarrow> Service \<Rightarrow> string \<Rightarrow> string \<Rightarrow> string list \<Rightarrow> conf_state \<Rightarrow> conf_state \<times> error option" where
  "buildServicesAndRoutersForService p svc scheme trafficType middlewares st =
     (let svcKey = Key (svc_Name svc) (svc_Namespace svc) in
      if trafficType = ServiceTypeHTTP then
        (buildServicesAndRoutersForHTTPService p svc scheme middlewares svcKey st, None)
      else if trafficType = ServiceTypeTCP then (buildServicesAndRoutersForTCPService p svc svcKey st, None)
      else if trafficType = ServiceTypeUDP then (buildServicesAndRoutersForUDPService p svc svcKey st, None)
      else (st, Some (EUnknownTrafficType trafficType)))"

section \<open>Traffic targets\<close>

text \<open>The loop body over the destination ports. \<open>rule\<close> is a variable outside the loop that the body
  overwrites, so it is part of the loop's state; \<open>portID\<close> counts the destination's ports.\<close>

definition http_target_port ::
  "Provider \<Rightarrow> STTKey \<Rightarrow> ServiceTrafficTarget \<Rightarrow> Service \<Rightarrow> string \<Rightarrow> string list \<Rightarrow> string \<Rightarrow>
     nat \<times> ServicePort \<Rightarrow> string \<times> conf_state \<Rightarrow> string \<times> conf_state" where
  "http_target_port p ttKey tt ttSvc scheme middlewares whitelistDirectKey = (\<lambda>(portID, svcPort) (rule, t, cfg).
     case buildHTTPEntrypoint p portID of
       Inl err \<Rightarrow> (rule, stt_error ttKey (EBuildEntrypoint (sp_Port svcPort) err) t, cfg)
     | Inr entrypoint \<Rightarrow>
         (let svcKey = getServiceKeyFromTrafficTarget tt (sp_Port svcPort);
              cfg1 = put_service svcKey (buildHTTPServiceFromTrafficTarget t tt scheme svcPort) cfg;
              cfg2 = put_router (getRouterKeyFromTrafficTargetDirect tt (sp_Port svcPort))
                (buildHTTPRouter rule entrypoint (addToSliceCopy middlewares whitelistDirectKey) svcKey
                   priorityTrafficTargetDirect) cfg1
          in if 0 < length (svc_BackendOf ttSvc) then
               (let whitelistIndirectKey = getWhitelistMiddlewareKeyFromTrafficTargetIndirect tt;
                    cfg3 = put_middleware whitelistIndirectKey
                      (buildWhitelistMiddlewareFromTrafficTargetIndirect t tt) cfg2;
                    rule' = buildHTTPRuleFromTrafficTargetIndirect (rg_headers (pv_ranges p) (TargetIndirect ttKey portID)) tt ttSvc
                in (rule', t, put_router (getRouterKeyFromTrafficTargetIndirect tt (sp_Port svcPort))
                     (buildHTTPRouter rule' entrypoint (addToSliceCopy middlewares whitelistIndirectKey) svcKey
                        priorityTrafficTargetIndirect) cfg3))
             else (rule, t, cfg2)))"

definition buildHTTPServicesAndRoutersForTrafficTarget ::
  "Provider \<Rightarrow> ServiceTrafficTarget \<Rightarrow> Service \<Rightarrow> STTKey \<Rightarrow> string \<Rightarrow> string list \<Rightarrow> conf_state \<Rightarrow> conf_state" where
  "buildHTTPServicesAndRoutersForTrafficTarget p tt ttSvc ttKey scheme middlewares = (\<lambda>(t, cfg).
     let whitelistDirectKey = getWhitelistMiddlewareKeyFromTrafficTargetDirect tt;
         cfg1 = put_middleware whitelistDirectKey (buildWhitelistMiddlewareFromTrafficTargetDirect t tt) cfg
     in snd (fold (http_target_port p ttKey tt ttSvc scheme middlewares whitelistDirectKey)
          (enumerate 0 (dst_Ports (stt_Destination tt)))
          (buildHTTPRuleFromTrafficTarget (rg_headers (pv_ranges p) (TargetDirect ttKey)) tt ttSvc, t, cfg1)))"

definition tcp_target_port ::
  "Provider \<Rightarrow> STTKey \<Rightarrow> ServiceTrafficTarget \<Rightarrow> Service \<Rightarrow> ServicePort \<Rightarrow> conf_state \<Rightarrow> conf_state" where
  "tcp_target_port p ttKey tt ttSvc svcPort = (\<lambda>(t, cfg).
     case buildTCPEntrypoint p ttSvc (sp_Port svcPort) of
       Inl err \<Rightarrow> (stt_error ttKey (EBuildEntrypoint (sp_Port svcPort) err) t, cfg)
     | Inr entrypoint \<Rightarrow>
         (let key = getServiceRouterKeyFromService ttSvc (sp_Port svcPort) in
          (t, addTCPRouter key (buildTCPRouter buildTCPRouterRule entrypoint key)
                (addTCPService key (buildTCPServiceFromTrafficTarget t tt svcPort) cfg))))"

definition buildTCPServicesAndRoutersForTrafficTarget ::
  "Provider \<Rightarrow> ServiceTrafficTarget \<Rightarrow> Service \<Rightarrow> STTKey \<Rightarrow> conf_state \<Rightarrow> conf_state" where
  "buildTCPServicesAndRoutersForTrafficTarget p tt ttSvc ttKey st =
     (if \<not> hasTrafficTargetRuleTCPRoute tt then st
      else fold (tcp_target_port p ttKey tt ttSvc) (dst_Ports (stt_Destination tt)) st)"

definition buildServicesAndRoutersForTrafficTarget ::
  "Provider \<Rightarrow> STTKey \<Rightarrow> string \<Rightarrow> string \<Rightarrow> string list \<Rightarrow> conf_state \<Rightarrow> conf_state \<times> error option" where
  "buildServicesAndRoutersForTrafficTarget p ttKey scheme trafficType middlewares st =
     (case ServiceTrafficTargets (fst st) ttKey of
        None \<Rightarrow> (st, Some (EFindTrafficTarget ttKey))
      | Some tt \<Rightarrow>
          (case Services (fst st) (stt_Service tt) of
             None \<Rightarrow> (st, Some (EFindService (stt_Service tt)))
           | Some ttSvc \<Rightarrow>
               if trafficType = ServiceTypeHTTP then
                 (buildHTTPServicesAndRoutersForTrafficTarget p tt ttSvc ttKey scheme middlewares st, None)
               else if trafficType = ServiceTypeTCP then
                 (buildTCPServicesAndRoutersForTrafficTarget p tt ttSvc ttKey st, None)
               else (st, Some (EUnknownTrafficType trafficType))))"

section \<open>Traffic splits\<close>

text \<open>The loop over the backends stops at a missing service; what it wrote before stays.\<close>

fun buildServicesForTrafficSplitBackends ::
  "Topology \<Rightarrow> TrafficSplit \<Rightarrow> ServicePort \<Rightarrow> string \<Rightarrow> TrafficSplitBackend list \<Rightarrow> Configuration \<Rightarrow>
     Configuration \<times> (error + (string \<times> int) list)" where
  "buildServicesForTrafficSplitBackends t ts svcPort scheme [] cfg = (cfg, Inr [])"
| "buildServicesForTrafficSplitBackends t ts svcPort scheme (backend # backends) cfg =
     (case Services t (tsb_Service backend) of
        None \<Rightarrow> (cfg, Inl (EFindService (tsb_Service backend)))
      | Some backendSvc \<Rightarrow>
          (let backendSvcKey = getServiceKeyFromTrafficSplitBackend ts (sp_Port svcPort) backend;
               cfg1 = put_service backendSvcKey
                 (buildHTTPSplitTrafficBackendService backend scheme (sp_Port svcPort)) cfg;
               (cfg2, r) = buildServicesForTrafficSplitBackends t ts svcPort scheme backends cfg1
           in (cfg2, bind_res r (\<lambda>rest. Inr ((backendSvcKey, tsb_Weight backend) # rest)))))"

definition http_split_port ::
  "Provider \<Rightarrow> Key \<Rightarrow> string \<Rightarrow> TrafficSplit \<Rightarrow> Service \<Rightarrow> string list \<Rightarrow> string list \<Rightarrow>
     nat \<times> ServicePort \<Rightarrow> string \<times> conf_state \<Rightarrow> string \<times> conf_state" where
  "http_split_port p tsKey scheme ts tsSvc middlewares rtrMiddlewares = (\<lambda>(portID, svcPort) (rule, t, cfg).
     case buildServicesForTrafficSplitBackends t ts svcPort scheme (ts_Backends ts) cfg of
       (cfg1, Inl err) \<Rightarrow> (rule, split_error tsKey (EBuildBackends (sp_Port svcPort) err) t, cfg1)
     | (cfg1, Inr backendSvcs) \<Rightarrow>
         (case buildHTTPEntrypoint p portID of
            Inl err \<Rightarrow> (rule, split_error tsKey (EBuildEntrypoint (sp_Port svcPort) err) t, cfg1)
          | Inr entrypoint \<Rightarrow>
              (let svcKey = getServiceKeyFromTrafficSplit ts (sp_Port svcPort);
                   cfg2 = put_service svcKey (Weighted backendSvcs) cfg1;
                   cfg3 = put_router (getRouterKeyFromTrafficSplitDirect ts (sp_Port svcPort))
                     (buildHTTPRouter rule entrypoint rtrMiddlewares svcKey priorityTrafficSplit) cfg2
               in if 0 < length (svc_BackendOf tsSvc) \<and> pc_ACL (pv_config p) then
                    (let whitelistIndirectKey = getWhitelistMiddlewareKeyFromTrafficSplitIndirect ts;
                         cfg4 = put_middleware whitelistIndirectKey
                           (buildWhitelistMiddlewareFromTrafficSplitIndirect t ts) cfg3;
                         rule' = buildHTTPRuleFromTrafficSplitIndirect (rg_headers (pv_ranges p) (SplitIndirect tsKey portID)) ts tsSvc
                     in (rule', t, put_router (getRouterKeyFromTrafficSplitIndirect ts (sp_Port svcPort))
                          (buildHTTPRouter rule' entrypoint (addToSliceCopy middlewares whitelistIndirectKey)
                             svcKey priorityTrafficTargetIndirect) cfg4))
                  else (rule, t, cfg3))))"

definition buildHTTPServiceAndRoutersForTrafficSplit ::
  "Provider \<Rightarrow> Key \<Rightarrow> string \<Rightarrow> TrafficSplit \<Rightarrow> Service \<Rightarrow> string list \<Rightarrow> conf_state \<Rightarrow> conf_state" where
  "buildHTTPServiceAndRoutersForTrafficSplit p tsKey scheme ts tsSvc middlewares = (\<lambda>(t, cfg).
     let rule = buildHTTPRuleFromTrafficSplit (rg_headers (pv_ranges p) (SplitDirect tsKey)) ts tsSvc;
         whitelistDirectKey = getWhitelistMiddlewareKeyFromTrafficSplitDirect ts;
         (rtrMiddlewares, cfg1) =
           (if pc_ACL (pv_config p) then
              (addToSliceCopy middlewares whitelistDirectKey,
               put_middleware whitelistDirectKey (buildWhitelistMiddlewareFromTrafficSplitDirect t ts) cfg)
            else (middlewares, cfg))
     in snd (fold (http_split_port p tsKey scheme ts tsSvc middlewares rtrMiddlewares)
          (enumerate 0 (svc_Ports tsSvc)) (rule, t, cfg1)))"

text \<open>The backends of a TCP or UDP split are dialled on the integer target port.\<close>

definition tcp_split_port ::
  "Provider \<Rightarrow> Key \<Rightarrow> TrafficSplit \<Rightarrow> Service \<Rightarrow> ServicePort \<Rightarrow> conf_state \<Rightarrow> conf_state" where
  "tcp_split_port p tsKey ts tsSvc svcPort = (\<lambda>(t, cfg).
     case buildTCPEntrypoint p tsSvc (sp_Port svcPort) of
       Inl err \<Rightarrow> (split_error tsKey (EBuildEntrypoint (sp_Port svcPort) err) t, cfg)
     | Inr entrypoint \<Rightarrow>
         (let backendKey = getServiceKeyFromTrafficSplitBackend ts (sp_Port svcPort);
              cfg1 = fold (\<lambda>backend. addTCPService (backendKey backend)
                  (buildTCPSplitTrafficBackendService backend (ios_IntVal (sp_TargetPort svcPort))))
                (ts_Backends ts) cfg;
              backendSvcs = map (\<lambda>backend. (backendKey backend, tsb_Weight backend)) (ts_Backends ts);
              key = getServiceRouterKeyFromService tsSvc (sp_Port svcPort)
          in (t, addTCPRouter key (buildTCPRouter buildTCPRouterRule entrypoint key)
                   (addTCPService key (L4Weighted backendSvcs) cfg1))))"

definition buildTCPServiceAndRoutersForTrafficSplit ::
  "Provider \<Rightarrow> Key \<Rightarrow> TrafficSplit \<Rightarrow> Service \<Rightarrow> conf_state \<Rightarrow> conf_state" where
  "buildTCPServiceAndRoutersForTrafficSplit p tsKey ts tsSvc = fold (tcp_split_port p tsKey ts tsSvc) (svc_Ports tsSvc)"

definition udp_split_port ::
  "Provider \<Rightarrow> Key \<Rightarrow> TrafficSplit \<Rightarrow> Service \<Rightarrow> ServicePort \<Rightarrow> conf_state \<Rightarrow> conf_state" where
  "udp_split_port p tsKey ts tsSvc svcPort = (\<lambda>(t, cfg).
     case buildUDPEntrypoint p tsSvc (sp_Port svcPort) of
       Inl err \<Rightarrow> (split_error tsKey (EBuildEntrypoint (sp_Port svcPort) err) t, cfg)
     | Inr entrypoint \<Rightarrow>
         (let backendKey = getServiceKeyFromTrafficSplitBackend ts (sp_Port svcPort);
              cfg1 = fold (\<lambda>backend. addUDPService (backendKey backend)
                  (buildUDPSplitTrafficBackendService backend (ios_IntVal (sp_TargetPort svcPort))))
                (ts_Backends ts) cfg;
              backendSvcs = map (\<lambda>backend. (backendKey backend, tsb_Weight backend)) (ts_Backends ts);
              key = getServiceRouterKeyFromService tsSvc (sp_Port svcPort)
          in (t, addUDPRouter key (buildUDPRouter entrypoint key)
                   (addUDPService key (L4Weighted backendSvcs) cfg1))))"

definition buildUDPServiceAndRoutersForTrafficSplit ::
  "Provider \<Rightarrow> Key \<Rightarrow> TrafficSplit \<Rightarrow> Service \<Rightarrow> conf_state \<Rightarrow> conf_state" where
  "buildUDPServiceAndRoutersForTrafficSplit p tsKey ts tsSvc = fold (udp_split_port p tsKey ts tsSvc) (svc_Ports tsSvc)"

definition buildServiceAndRoutersForTrafficSplit ::
  "Provider \<Rightarrow> Key \<Rightarrow> string \<Rightarrow> string \<Rightarrow> string list \<Rightarrow> conf_state \<Rightarrow> conf_state \<times> error option" where
  "buildServiceAndRoutersForTrafficSplit p tsKey scheme trafficType middlewares st =
     (case TrafficSplits (fst st) tsKey of
        None \<Rightarrow> (st, Some (EFindTrafficSplit tsKey))
      | Some ts \<Rightarrow>
          (case Services (fst st) (ts_Service ts) of
             None \<Rightarrow> (st, Some (EFindService (ts_Service ts)))
           | Some tsSvc \<Rightarrow>
               if trafficType = ServiceTypeHTTP then
                 (buildHTTPServiceAndRoutersForTrafficSplit p tsKey scheme ts tsSvc middlewares st, None)
               else if trafficType = ServiceTypeTCP then
                 (buildTCPServiceAndRoutersForTrafficSplit p tsKey ts tsSvc st, None)
               else if trafficType = ServiceTypeUDP then
                 (buildUDPServiceAndRoutersForTrafficSplit p tsKey ts tsSvc st, None)
               else (st, Some (EUnknownTrafficType trafficType))))"

section \<open>The configuration of a service\<close>

definition block_all_port :: "Provider \<Rightarrow> Service \<Rightarrow> nat \<times> ServicePort \<Rightarrow> conf_state \<Rightarrow> conf_state" where
  "block_all_port p svc = (\<lambda>(portID, svcPort) (t, cfg).
     case buildHTTPEntrypoint p portID of
       Inl err \<Rightarrow> (svc_error (Key (svc_Name svc) (svc_Namespace svc)) (EBuildEntrypoint (sp_Port svcPort) err) t, cfg)
     | Inr entrypoint \<Rightarrow>
         (t, put_router (getServiceRouterKeyFromService svc (sp_Port svcPort))
           \<lparr>rt_EntryPoints = [entrypoint], rt_Middlewares = [blockAllMiddlewareKey],
            rt_Service = blockAllServiceKey, rt_Rule = buildHTTPRuleFromService svc,
            rt_Priority = priorityService\<rparr> cfg))"

definition buildBlockAllRouters :: "Provider \<Rightarrow> Service \<Rightarrow> conf_state \<Rightarrow> conf_state" where
  "buildBlockAllRouters p svc = fold (block_all_port p svc) (enumerate 0 (svc_Ports svc))"

text \<open>Running the steps of a loop that may panic.\<close>

fun fold_opt :: "('a \<Rightarrow> 's \<Rightarrow> 's option) \<Rightarrow> 'a list \<Rightarrow> 's \<Rightarrow> 's option" where
  "fold_opt f [] s = Some s"
| "fold_opt f (x # xs) s = Option.bind (f x s) (fold_opt f xs)"

definition target_config_step ::
  "Provider \<Rightarrow> string \<Rightarrow> string \<Rightarrow> string list \<Rightarrow> STTKey \<Rightarrow> conf_state \<Rightarrow> conf_state option" where
  "target_config_step p scheme trafficType middlewareKeys ttKey st =
     (case buildServicesAndRoutersForTrafficTarget p ttKey scheme trafficType middlewareKeys st of
        (st', None) \<Rightarrow> Some st'
      | ((t, cfg), Some err) \<Rightarrow>
          if ServiceTrafficTargets t ttKey = None then None
          else Some (stt_error ttKey (EBuildRoutersAndServices err) t, cfg))"

definition buildACLConfigRoutersAndServices ::
  "Provider \<Rightarrow> Service \<Rightarrow> string \<Rightarrow> string \<Rightarrow> string list \<Rightarrow> conf_state \<Rightarrow> conf_state option" where
  "buildACLConfigRoutersAndServices p svc scheme trafficType middlewareKeys st =
     fold_opt (target_config_step p scheme trafficType middlewareKeys) (svc_TrafficTargets svc)
       (if trafficType = ServiceTypeHTTP then buildBlockAllRouters p svc st else st)"

definition split_config_step ::
  "Provider \<Rightarrow> string \<Rightarrow> string \<Rightarrow> string list \<Rightarrow> Key \<Rightarrow> conf_state \<Rightarrow> conf_state option" where
  "split_config_step p scheme trafficType middlewareKeys tsKey st =
     (case buildServiceAndRoutersForTrafficSplit p tsKey scheme trafficType middlewareKeys st of
        (st', None) \<Rightarrow> Some st'
      | ((t, cfg), Some err) \<Rightarrow>
          if TrafficSplits t tsKey = None then None
          else Some (split_error tsKey (EBuildRoutersAndServices err) t, cfg))"

definition buildMiddlewaresForConfigFromService ::
  "Provider \<Rightarrow> Service \<Rightarrow> Configuration \<Rightarrow> Configuration \<times> (error + string list)" where
  "buildMiddlewaresForConfigFromService p svc cfg =
     (case pv_buildServiceMiddleware p (svc_Annotations svc) of
        Inl err \<Rightarrow> (cfg, Inl (EBuildMiddlewares err))
      | Inr built \<Rightarrow>
          let middlewares = ranged (rg_middlewares (pv_ranges p) (Key (svc_Name svc) (svc_Namespace svc))) built in
          (fold (\<lambda>(name, middleware). put_middleware (getMiddlewareKey svc name) middleware) middlewares cfg,
           Inr (map (\<lambda>(name, middleware). getMiddlewareKey svc name) middlewares)))"

definition buildConfigRoutersAndServices ::
  "Provider \<Rightarrow> Service \<Rightarrow> string \<Rightarrow> string \<Rightarrow> string list \<Rightarrow> conf_state \<Rightarrow> conf_state \<times> error option" where
  "buildConfigRoutersAndServices p svc scheme trafficType middlewareKeys st =
     (let (st', r) = buildServicesAndRoutersForService p svc scheme trafficType middlewareKeys st
      in (st', map_option EBuildRoutersAndServices r))"

definition buildConfigForService ::
  "Provider \<Rightarrow> Service \<Rightarrow> conf_state \<Rightarrow> (conf_state \<times> error option) option" where
  "buildConfigForService p svc st =
     (case GetTrafficType (pc_DefaultTrafficType (pv_config p)) (svc_Annotations svc) of
        Inl err \<Rightarrow> Some (st, Some (ETrafficTypeAnnotation err))
      | Inr trafficType \<Rightarrow>
      (case GetScheme (svc_Annotations svc) of
         Inl err \<Rightarrow> Some (st, Some (ESchemeAnnotation err))
       | Inr scheme \<Rightarrow>
       (case (if trafficType = ServiceTypeHTTP then buildMiddlewaresForConfigFromService p svc (snd st)
              else (snd st, Inr [])) of
          (cfg, Inl err) \<Rightarrow> Some ((fst st, cfg), Some err)
        | (cfg, Inr middlewareKeys) \<Rightarrow>
            (case (if pc_ACL (pv_config p) then
                     map_option (\<lambda>st. (st, None))
                       (buildACLConfigRoutersAndServices p svc scheme trafficType middlewareKeys (fst st, cfg))
                   else Some (buildConfigRoutersAndServices p svc scheme trafficType middlewareKeys (fst st, cfg))) of
               None \<Rightarrow> None
             | Some (st1, Some err) \<Rightarrow> Some (st1, Some err)
             | Some (st1, None) \<Rightarrow>
                 map_option (\<lambda>st. (st, None))
                   (fold_opt (split_config_step p scheme trafficType middlewareKeys) (svc_TrafficSplits svc) st1)))))"

definition config_step :: "Provider \<Rightarrow> Key \<Rightarrow> conf_state \<Rightarrow> conf_state option" where
  "config_step p svcKey st =
     (case Services (fst st) svcKey of
        None \<Rightarrow> Some st
      | Some svc \<Rightarrow>
          map_option (\<lambda>((t, cfg), r). case r of
              None \<Rightarrow> (t, cfg) | Some err \<Rightarrow> (svc_error svcKey (EBuildConfiguration err) t, cfg))
            (buildConfigForService p svc st))"

text \<open>\<open>svcOrder\<close> is the order in which the services are visited.\<close>

definition BuildConfig :: "Provider \<Rightarrow> Key list \<Rightarrow> Topology \<Rightarrow> conf_state option" where
  "BuildConfig p svcOrder t = fold_opt (config_step p) svcOrder (t, NewDefaultDynamicConfig)"

end
