(* ===== verification/ConfigInvariant.thy ===== *)
theory ConfigInvariant
  imports Provider
begin

text \<open>
  What building a configuration keeps: the topology but for its errors, the references of the
  configuration, and the guards of its routers under access control. One lemma per step of
  \<open>Provider\<close>, then the two theorems about \<open>BuildConfig\<close>.
\<close>

section \<open>What building keeps\<close>

text \<open>Errors are the only thing that changes in the topology.\<close>

definition clean_svc :: "Service \<Rightarrow> Service" where "clean_svc s = s\<lparr>svc_Errors := []\<rparr>"
definition clean_stt :: "ServiceTrafficTarget \<Rightarrow> ServiceTrafficTarget" where "clean_stt tt = tt\<lparr>stt_Errors := []\<rparr>"
definition clean_ts :: "TrafficSplit \<Rightarrow> TrafficSplit" where "clean_ts ts = ts\<lparr>ts_Errors := []\<rparr>"

definition same_but_errors :: "Topology \<Rightarrow> Topology \<Rightarrow> bool" where
  "same_but_errors t t' \<longleftrightarrow> Pods t' = Pods t
     \<and> (\<forall>k. map_option clean_svc (Services t' k) = map_option clean_svc (Services t k))
     \<and> (\<forall>k. map_option clean_stt (ServiceTrafficTargets t' k) = map_option clean_stt (ServiceTrafficTargets t k))
     \<and> (\<forall>k. map_option clean_ts (TrafficSplits t' k) = map_option clean_ts (TrafficSplits t k))"

lemma same_but_errors_refl [simp]: "same_but_errors t t"
  by (simp add: same_but_errors_def)

lemma clean_add [simp]:
  "clean_svc (Service_AddError e s) = clean_svc s"
  "clean_stt (ServiceTrafficTarget_AddError e tt) = clean_stt tt"
  "clean_ts (TrafficSplit_AddError e ts) = clean_ts ts"
  by (simp_all add: clean_svc_def clean_stt_def clean_ts_def AddError_defs)

lemma map_option_adjust: "(\<And>v. g (f v) = g v) \<Longrightarrow> map_option g (adjust k f m k') = map_option g (m k')"
  by (cases "k' = k"; cases "m k"; simp)

lemma same_but_errors_step [simp]:
  "same_but_errors t u \<Longrightarrow> same_but_errors t (svc_error k e u)"
  "same_but_errors t u \<Longrightarrow> same_but_errors t (stt_error x e u)"
  "same_but_errors t u \<Longrightarrow> same_but_errors t (split_error k e u)"
  by (simp_all add: same_but_errors_def svc_error_def stt_error_def split_error_def map_option_adjust)

lemma same_but_errors_dom:
  assumes "same_but_errors t u"
  shows "Services u k = None \<longleftrightarrow> Services t k = None"
    "ServiceTrafficTargets u x = None \<longleftrightarrow> ServiceTrafficTargets t x = None"
    "TrafficSplits u k = None \<longleftrightarrow> TrafficSplits t k = None"
  using assms unfolding same_but_errors_def by (metis map_option_is_None)+

definition known_stt :: "Topology \<Rightarrow> ServiceTrafficTarget \<Rightarrow> bool" where
  "known_stt t tt \<longleftrightarrow> (\<exists>x tt0. ServiceTrafficTargets t x = Some tt0 \<and> clean_stt tt0 = clean_stt tt)"

definition known_ts :: "Topology \<Rightarrow> TrafficSplit \<Rightarrow> bool" where
  "known_ts t ts \<longleftrightarrow> (\<exists>x ts0. TrafficSplits t x = Some ts0 \<and> clean_ts ts0 = clean_ts ts)"

lemma known_nodes:
  assumes "same_but_errors t u"
  shows "ServiceTrafficTargets u x = Some tt \<Longrightarrow> known_stt t tt"
    "TrafficSplits u k = Some ts \<Longrightarrow> known_ts t ts"
  using assms unfolding same_but_errors_def known_stt_def known_ts_def
  by (metis map_option_eq_Some option.simps(9))+

section \<open>Guarded routers\<close>

text \<open>The keys of middlewares that control access, and what such a middleware lets through: nobody, the
  sources of a traffic target with that key, or the pods allowed through a split with that key.\<close>

definition guard_suffixes :: "string list" where
  "guard_suffixes = [''-whitelist-traffic-target-direct'', ''-whitelist-traffic-target-indirect'',
     ''-whitelist-traffic-split-direct'', ''-whitelist-traffic-split-indirect'']"

definition guard_key :: "string \<Rightarrow> bool" where
  "guard_key m \<longleftrightarrow> m = blockAllMiddlewareKey \<or> list_ex (\<lambda>suf. HasPrefix (rev m) (rev suf)) guard_suffixes"

definition authentic :: "Topology \<Rightarrow> string \<Rightarrow> Middleware \<Rightarrow> bool" where
  "authentic t m mw \<longleftrightarrow> (\<exists>wl. mw_IPWhiteList mw = Some wl \<and>
     ((m = blockAllMiddlewareKey \<and> wl_SourceRange wl = [''255.255.255.255''])
    \<or> (\<exists>x tt. ServiceTrafficTargets t x = Some tt \<and>
         m \<in> {getWhitelistMiddlewareKeyFromTrafficTargetDirect tt, getWhitelistMiddlewareKeyFromTrafficTargetIndirect tt} \<and>
         wl_SourceRange wl = pod_ips t (concat (map src_Pods (stt_Sources tt))))
    \<or> (\<exists>k ts. TrafficSplits t k = Some ts \<and>
         m \<in> {getWhitelistMiddlewareKeyFromTrafficSplitDirect ts, getWhitelistMiddlewareKeyFromTrafficSplitIndirect ts} \<and>
         wl_SourceRange wl = pod_ips t (ts_Incoming ts))))"

lemma guard_key_whitelists [simp]:
  "guard_key (getWhitelistMiddlewareKeyFromTrafficTargetDirect tt)"
  "guard_key (getWhitelistMiddlewareKeyFromTrafficTargetIndirect tt)"
  "guard_key (getWhitelistMiddlewareKeyFromTrafficSplitDirect ts)"
  "guard_key (getWhitelistMiddlewareKeyFromTrafficSplitIndirect ts)"
  "guard_key blockAllMiddlewareKey"
  by (simp_all add: guard_key_def guard_suffixes_def key_defs)

text \<open>The names that the annotations give to middlewares make keys of another kind.\<close>

lemma service_middleware_key_unguarded:
  assumes "n \<in> {''retry'', ''rate-limit'', ''circuit-breaker''}"
  shows "\<not> guard_key (getMiddlewareKey svc n)"
proof -
  have "rev (getMiddlewareKey svc n) = rev n @ CHR ''-'' # rev (svc_Name svc) @ CHR ''-'' # rev (svc_Namespace svc)"
    by (simp add: getMiddlewareKey_def)
  moreover from this have "rev (getMiddlewareKey svc n) \<noteq> rev blockAllMiddlewareKey"
    using assms by (auto simp: blockAllMiddlewareKey_def)
  then have "getMiddlewareKey svc n \<noteq> blockAllMiddlewareKey" by auto
  ultimately show ?thesis using assms by (auto simp: guard_key_def guard_suffixes_def)
qed

lemma authenticI:
  assumes "mw_IPWhiteList mw = Some wl"
  shows "ServiceTrafficTargets t x = Some tt \<Longrightarrow>
      m = getWhitelistMiddlewareKeyFromTrafficTargetDirect tt \<or> m = getWhitelistMiddlewareKeyFromTrafficTargetIndirect tt \<Longrightarrow>
      wl_SourceRange wl = pod_ips t (concat (map src_Pods (stt_Sources tt))) \<Longrightarrow> authentic t m mw"
    "TrafficSplits t k = Some ts \<Longrightarrow>
      m = getWhitelistMiddlewareKeyFromTrafficSplitDirect ts \<or> m = getWhitelistMiddlewareKeyFromTrafficSplitIndirect ts \<Longrightarrow>
      wl_SourceRange wl = pod_ips t (ts_Incoming ts) \<Longrightarrow> authentic t m mw"
  using assms unfolding authentic_def by blast+

lemma clean_stt_fields:
  "clean_stt tt0 = clean_stt tt \<Longrightarrow> stt_Service tt0 = stt_Service tt \<and> stt_Name tt0 = stt_Name tt \<and> stt_Sources tt0 = stt_Sources tt"
  by (cases tt0; cases tt) (simp add: clean_stt_def)

lemma clean_ts_fields:
  "clean_ts ts0 = clean_ts ts \<Longrightarrow> ts_Service ts0 = ts_Service ts \<and> ts_Name ts0 = ts_Name ts \<and> ts_Incoming ts0 = ts_Incoming ts"
  by (cases ts0; cases ts) (simp add: clean_ts_def)

lemma pod_ips_cong: "Pods u = Pods t \<Longrightarrow> pod_ips u ks = pod_ips t ks"
  by (induction ks) (auto split: option.split)

lemma authentic_whitelists:
  assumes "Pods u = Pods t"
  shows "known_stt t tt \<Longrightarrow> authentic t (getWhitelistMiddlewareKeyFromTrafficTargetDirect tt)
           (buildWhitelistMiddlewareFromTrafficTargetDirect u tt)"
    "known_stt t tt \<Longrightarrow> authentic t (getWhitelistMiddlewareKeyFromTrafficTargetIndirect tt)
           (buildWhitelistMiddlewareFromTrafficTargetIndirect u tt)"
    "known_ts t ts \<Longrightarrow> authentic t (getWhitelistMiddlewareKeyFromTrafficSplitDirect ts)
           (buildWhitelistMiddlewareFromTrafficSplitDirect u ts)"
    "known_ts t ts \<Longrightarrow> authentic t (getWhitelistMiddlewareKeyFromTrafficSplitIndirect ts)
           (buildWhitelistMiddlewareFromTrafficSplitIndirect u ts)"
proof -
  note whitelists = buildWhitelistMiddlewareFromTrafficTargetDirect_def buildWhitelistMiddlewareFromTrafficTargetIndirect_def
    buildWhitelistMiddlewareFromTrafficSplitDirect_def buildWhitelistMiddlewareFromTrafficSplitIndirect_def
    with_depth_def whitelist_def pod_ips_cong [OF assms]
  show "authentic t (getWhitelistMiddlewareKeyFromTrafficTargetDirect tt) (buildWhitelistMiddlewareFromTrafficTargetDirect u tt)"
    "authentic t (getWhitelistMiddlewareKeyFromTrafficTargetIndirect tt) (buildWhitelistMiddlewareFromTrafficTargetIndirect u tt)"
    if "known_stt t tt"
  proof -
    from that obtain x tt0 where tt0: "ServiceTrafficTargets t x = Some tt0" "clean_stt tt0 = clean_stt tt"
      unfolding known_stt_def by blast
    note fields = clean_stt_fields [OF tt0(2)]
    have keys: "getWhitelistMiddlewareKeyFromTrafficTargetDirect tt = getWhitelistMiddlewareKeyFromTrafficTargetDirect tt0"
      "getWhitelistMiddlewareKeyFromTrafficTargetIndirect tt = getWhitelistMiddlewareKeyFromTrafficTargetIndirect tt0"
      using fields by (simp_all add: key_defs)
    show "authentic t (getWhitelistMiddlewareKeyFromTrafficTargetDirect tt) (buildWhitelistMiddlewareFromTrafficTargetDirect u tt)"
      "authentic t (getWhitelistMiddlewareKeyFromTrafficTargetIndirect tt) (buildWhitelistMiddlewareFromTrafficTargetIndirect u tt)"
      unfolding keys using fields by (auto intro!: authenticI(1) [OF _ tt0(1)] simp: whitelists)
  qed
  show "authentic t (getWhitelistMiddlewareKeyFromTrafficSplitDirect ts) (buildWhitelistMiddlewareFromTrafficSplitDirect u ts)"
    "authentic t (getWhitelistMiddlewareKeyFromTrafficSplitIndirect ts) (buildWhitelistMiddlewareFromTrafficSplitIndirect u ts)"
    if "known_ts t ts"
  proof -
    from that obtain x ts0 where ts0: "TrafficSplits t x = Some ts0" "clean_ts ts0 = clean_ts ts"
      unfolding known_ts_def by blast
    note fields = clean_ts_fields [OF ts0(2)]
    have keys: "getWhitelistMiddlewareKeyFromTrafficSplitDirect ts = getWhitelistMiddlewareKeyFromTrafficSplitDirect ts0"
      "getWhitelistMiddlewareKeyFromTrafficSplitIndirect ts = getWhitelistMiddlewareKeyFromTrafficSplitIndirect ts0"
      using fields by (simp_all add: key_defs)
    show "authentic t (getWhitelistMiddlewareKeyFromTrafficSplitDirect ts) (buildWhitelistMiddlewareFromTrafficSplitDirect u ts)"
      "authentic t (getWhitelistMiddlewareKeyFromTrafficSplitIndirect ts) (buildWhitelistMiddlewareFromTrafficSplitIndirect u ts)"
      unfolding keys using fields by (auto intro!: authenticI(2) [OF _ ts0(1)] simp: whitelists)
  qed
qed

section \<open>The invariant of a configuration\<close>

abbreviation http_services :: "Configuration \<Rightarrow> string set" where "http_services cfg \<equiv> dom (hc_Services (cf_HTTP cfg))"
abbreviation http_middlewares :: "Configuration \<Rightarrow> string set" where "http_middlewares cfg \<equiv> dom (hc_Middlewares (cf_HTTP cfg))"
abbreviation tcp_services :: "Configuration \<Rightarrow> string set" where "tcp_services cfg \<equiv> dom (tc_Services (tcp_conf cfg))"
abbreviation udp_services :: "Configuration \<Rightarrow> string set" where "udp_services cfg \<equiv> dom (uc_Services (udp_conf cfg))"

text \<open>Routers name services and middlewares that exist, weighted services name services that exist.\<close>

definition closed_map :: "('k \<rightharpoonup> 'v) \<Rightarrow> ('v \<Rightarrow> string set) \<Rightarrow> string set \<Rightarrow> bool" where
  "closed_map m names D \<longleftrightarrow> (\<forall>k v. m k = Some v \<longrightarrow> names v \<subseteq> D)"

lemma closed_map_mono: "closed_map m names D \<Longrightarrow> D \<subseteq> D' \<Longrightarrow> closed_map m names D'"
  unfolding closed_map_def by blast

lemma closed_map_upd: "closed_map m names D \<Longrightarrow> D \<subseteq> D' \<Longrightarrow> names v \<subseteq> D' \<Longrightarrow> closed_map (m(k \<mapsto> v)) names D'"
  unfolding closed_map_def by (auto split: if_splits)

lemma closed_mapD: "closed_map m names D \<Longrightarrow> m k = Some v \<Longrightarrow> names v \<subseteq> D"
  unfolding closed_map_def by blast

fun weighted_names :: "HTTPService \<Rightarrow> string set" where
  "weighted_names (Weighted ws) = fst ` set ws"
| "weighted_names (LoadBalancer a b) = {}"

fun l4_weighted_names :: "L4Service \<Rightarrow> string set" where
  "l4_weighted_names (L4Weighted ws) = fst ` set ws"
| "l4_weighted_names (L4LoadBalancer a) = {}"

definition http_refs_ok :: "Configuration \<Rightarrow> bool" where
  "http_refs_ok cfg \<longleftrightarrow>
     closed_map (hc_Routers (cf_HTTP cfg)) (\<lambda>r. {rt_Service r}) (http_services cfg)
   \<and> closed_map (hc_Routers (cf_HTTP cfg)) (\<lambda>r. set (rt_Middlewares r)) (http_middlewares cfg)
   \<and> closed_map (hc_Services (cf_HTTP cfg)) weighted_names (http_services cfg)
   \<and> blockAllServiceKey \<in> http_services cfg \<and> blockAllMiddlewareKey \<in> http_middlewares cfg"

definition l4_refs_ok :: "Configuration \<Rightarrow> bool" where
  "l4_refs_ok cfg \<longleftrightarrow>
     closed_map (tc_Routers (tcp_conf cfg)) (\<lambda>r. {tr_Service r}) (tcp_services cfg)
   \<and> closed_map (tc_Services (tcp_conf cfg)) l4_weighted_names (tcp_services cfg)
   \<and> closed_map (uc_Routers (udp_conf cfg)) (\<lambda>r. {ur_Service r}) (udp_services cfg)
   \<and> closed_map (uc_Services (udp_conf cfg)) l4_weighted_names (udp_services cfg)"

text \<open>Under access control every HTTP router but the one for readiness has a guarding middleware.\<close>

definition guarded :: "Topology \<Rightarrow> Configuration \<Rightarrow> bool" where
  "guarded t cfg \<longleftrightarrow>
     (\<forall>k r. hc_Routers (cf_HTTP cfg) k = Some r \<longrightarrow> k = ''readiness'' \<or> (\<exists>m\<in>set (rt_Middlewares r). guard_key m))
   \<and> (\<forall>m mw. hc_Middlewares (cf_HTTP cfg) m = Some mw \<longrightarrow> guard_key m \<longrightarrow> authentic t m mw)"

definition conf_ok :: "bool \<Rightarrow> Topology \<Rightarrow> string list \<Rightarrow> Configuration \<Rightarrow> bool" where
  "conf_ok acl t mws cfg \<longleftrightarrow> http_refs_ok cfg \<and> l4_refs_ok cfg \<and> (acl \<longrightarrow> guarded t cfg)
     \<and> set mws \<subseteq> http_middlewares cfg"

lemma put_simps [simp]:
  "cf_HTTP (put_router k r cfg) = (cf_HTTP cfg)\<lparr>hc_Routers := (hc_Routers (cf_HTTP cfg))(k \<mapsto> r)\<rparr>"
  "cf_HTTP (put_service k s cfg) = (cf_HTTP cfg)\<lparr>hc_Services := (hc_Services (cf_HTTP cfg))(k \<mapsto> s)\<rparr>"
  "cf_HTTP (put_middleware k m cfg) = (cf_HTTP cfg)\<lparr>hc_Middlewares := (hc_Middlewares (cf_HTTP cfg))(k \<mapsto> m)\<rparr>"
  "tcp_conf (put_router k r cfg) = tcp_conf cfg" "udp_conf (put_router k r cfg) = udp_conf cfg"
  "tcp_conf (put_service k s cfg) = tcp_conf cfg" "udp_conf (put_service k s cfg) = udp_conf cfg"
  "tcp_conf (put_middleware k m cfg) = tcp_conf cfg" "udp_conf (put_middleware k m cfg) = udp_conf cfg"
  by (simp_all add: put_router_def put_service_def put_middleware_def tcp_conf_def udp_conf_def)

lemma add_simps [simp]:
  "cf_HTTP (addTCPService k s cfg) = cf_HTTP cfg" "cf_HTTP (addTCPRouter k r cfg) = cf_HTTP cfg"
  "cf_HTTP (addUDPService k s cfg) = cf_HTTP cfg" "cf_HTTP (addUDPRouter k u cfg) = cf_HTTP cfg"
  "tcp_conf (addTCPService k s cfg) = (tcp_conf cfg)\<lparr>tc_Services := (tc_Services (tcp_conf cfg))(k \<mapsto> s)\<rparr>"
  "tcp_conf (addTCPRouter k r cfg) = (tcp_conf cfg)\<lparr>tc_Routers := (tc_Routers (tcp_conf cfg))(k \<mapsto> r)\<rparr>"
  "tcp_conf (addUDPService k s cfg) = tcp_conf cfg" "tcp_conf (addUDPRouter k u cfg) = tcp_conf cfg"
  "udp_conf (addUDPService k s cfg) = (udp_conf cfg)\<lparr>uc_Services := (uc_Services (udp_conf cfg))(k \<mapsto> s)\<rparr>"
  "udp_conf (addUDPRouter k u cfg) = (udp_conf cfg)\<lparr>uc_Routers := (uc_Routers (udp_conf cfg))(k \<mapsto> u)\<rparr>"
  "udp_conf (addTCPService k s cfg) = udp_conf cfg" "udp_conf (addTCPRouter k r cfg) = udp_conf cfg"
  by (simp_all add: addTCPService_def addTCPRouter_def addUDPService_def addUDPRouter_def tcp_conf_def udp_conf_def)

lemma conf_ok_service:
  assumes "conf_ok acl t mws cfg" and "weighted_names s \<subseteq> http_services cfg"
  shows "conf_ok acl t mws (put_service k s cfg)"
proof -
  have "http_refs_ok (put_service k s cfg)"
    using assms unfolding conf_ok_def http_refs_ok_def
    by (auto intro!: closed_map_upd elim: closed_map_mono)
  with assms(1) show ?thesis by (simp add: conf_ok_def l4_refs_ok_def guarded_def)
qed

lemma conf_ok_router:
  assumes "conf_ok acl t mws cfg" "rt_Service r \<in> http_services cfg"
    and "set (rt_Middlewares r) \<subseteq> http_middlewares cfg"
    and "acl \<Longrightarrow> \<exists>m\<in>set (rt_Middlewares r). guard_key m"
  shows "conf_ok acl t mws (put_router k r cfg)"
proof -
  have "http_refs_ok (put_router k r cfg)"
    using assms unfolding conf_ok_def http_refs_ok_def
    by (auto intro!: closed_map_upd elim: closed_map_mono)
  moreover have "guarded t (put_router k r cfg)" if acl
    using assms that unfolding conf_ok_def guarded_def by simp
  ultimately show ?thesis using assms(1) by (simp add: conf_ok_def l4_refs_ok_def)
qed

lemma conf_ok_middleware:
  assumes "conf_ok acl t mws cfg" "acl \<Longrightarrow> guard_key m \<Longrightarrow> authentic t m mw"
  shows "conf_ok acl t (m # mws) (put_middleware m mw cfg)"
proof -
  have "http_refs_ok (put_middleware m mw cfg)"
    using assms unfolding conf_ok_def http_refs_ok_def
    by (auto intro!: closed_map_upd elim: closed_map_mono)
  moreover have "guarded t (put_middleware m mw cfg)" if acl
    using assms that unfolding conf_ok_def guarded_def by simp
  ultimately show ?thesis using assms(1) by (auto simp: conf_ok_def l4_refs_ok_def)
qed

lemma conf_ok_weaken: "conf_ok acl t mws cfg \<Longrightarrow> set mws' \<subseteq> set mws \<Longrightarrow> conf_ok acl t mws' cfg"
  by (auto simp: conf_ok_def)

lemma conf_ok_tcp_service:
  assumes "conf_ok acl t mws cfg" and "l4_weighted_names s \<subseteq> tcp_services cfg"
  shows "conf_ok acl t mws (addTCPService k s cfg)"
proof -
  have "l4_refs_ok (addTCPService k s cfg)"
    using assms unfolding conf_ok_def l4_refs_ok_def
    by (auto intro!: closed_map_upd elim: closed_map_mono)
  with assms(1) show ?thesis by (simp add: conf_ok_def http_refs_ok_def guarded_def)
qed

lemma conf_ok_tcp_router:
  assumes "conf_ok acl t mws cfg" "tr_Service r \<in> tcp_services cfg"
  shows "conf_ok acl t mws (addTCPRouter k r cfg)"
proof -
  have "l4_refs_ok (addTCPRouter k r cfg)" using assms unfolding conf_ok_def l4_refs_ok_def
    by (auto intro!: closed_map_upd elim: closed_map_mono)
  with assms(1) show ?thesis by (simp add: conf_ok_def http_refs_ok_def guarded_def)
qed

lemma conf_ok_udp_service:
  assumes "conf_ok acl t mws cfg" and "l4_weighted_names s \<subseteq> udp_services cfg"
  shows "conf_ok acl t mws (addUDPService k s cfg)"
proof -
  have "l4_refs_ok (addUDPService k s cfg)"
    using assms unfolding conf_ok_def l4_refs_ok_def
    by (auto intro!: closed_map_upd elim: closed_map_mono)
  with assms(1) show ?thesis by (simp add: conf_ok_def http_refs_ok_def guarded_def)
qed

lemma conf_ok_udp_router:
  assumes "conf_ok acl t mws cfg" "ur_Service r \<in> udp_services cfg"
  shows "conf_ok acl t mws (addUDPRouter k r cfg)"
proof -
  have "l4_refs_ok (addUDPRouter k r cfg)" using assms unfolding conf_ok_def l4_refs_ok_def
    by (auto intro!: closed_map_upd elim: closed_map_mono)
  with assms(1) show ?thesis by (simp add: conf_ok_def http_refs_ok_def guarded_def)
qed

lemmas conf_ok_writes = conf_ok_service conf_ok_router conf_ok_middleware conf_ok_tcp_service
  conf_ok_tcp_router conf_ok_udp_service conf_ok_udp_router

section \<open>Every step keeps the invariant\<close>

definition state_ok :: "bool \<Rightarrow> Topology \<Rightarrow> string list \<Rightarrow> conf_state \<Rightarrow> bool" where
  "state_ok acl t mws st \<longleftrightarrow> same_but_errors t (fst st) \<and> conf_ok acl t mws (snd st)"

lemma state_ok_pair [simp]: "state_ok acl t mws (u, cfg) \<longleftrightarrow> same_but_errors t u \<and> conf_ok acl t mws cfg"
  by (simp add: state_ok_def)

lemma conf_ok_mws: "conf_ok acl t mws cfg \<Longrightarrow> set mws \<subseteq> http_middlewares cfg"
  by (simp add: conf_ok_def)

lemma state_ok_fold:
  assumes "\<And>x st. state_ok acl t mws st \<Longrightarrow> state_ok acl t mws (f x st)" "state_ok acl t mws st"
  shows "state_ok acl t mws (fold f xs st)"
  using assms by (intro fold_invariant_rule [where P = "state_ok acl t mws"]) simp_all

lemma servers_not_weighted [simp]:
  "weighted_names (buildHTTPServiceFromService u svc scheme sp) = {}"
  "weighted_names (buildHTTPServiceFromTrafficTarget u tt scheme sp) = {}"
  "weighted_names (buildHTTPSplitTrafficBackendService b scheme port) = {}"
  "l4_weighted_names (buildTCPServiceFromService u svc sp) = {}"
  "l4_weighted_names (buildTCPServiceFromTrafficTarget u tt sp) = {}"
  "l4_weighted_names (buildUDPServiceFromService u svc sp) = {}"
  "l4_weighted_names (buildTCPSplitTrafficBackendService b port) = {}"
  "l4_weighted_names (buildUDPSplitTrafficBackendService b port) = {}"
  by (simp_all add: buildHTTPServiceFromService_def buildHTTPServiceFromTrafficTarget_def http_servers_def
      buildHTTPSplitTrafficBackendService_def buildTCPServiceFromService_def buildTCPServiceFromTrafficTarget_def
      buildUDPServiceFromService_def buildTCPSplitTrafficBackendService_def buildUDPSplitTrafficBackendService_def)

lemma router_simps [simp]:
  "rt_Service (buildHTTPRouter rule ep mws key pr) = key" "rt_Middlewares (buildHTTPRouter rule ep mws key pr) = mws"
  "tr_Service (buildTCPRouter rule ep key) = key" "ur_Service (buildUDPRouter ep key) = key"
  by (simp_all add: buildHTTPRouter_def buildTCPRouter_def buildUDPRouter_def)

lemma http_service_port_ok:
  "state_ok False t mws st \<Longrightarrow> state_ok False t mws (http_service_port p svc scheme mws svcKey x st)"
  by (cases st; cases x)
     (auto simp: http_service_port_def Let_def intro!: conf_ok_writes split: sum.split
        dest: conf_ok_mws [THEN subsetD])

lemma tcp_service_port_ok:
  "state_ok acl t mws st \<Longrightarrow> state_ok acl t mws (tcp_service_port p svc svcKey sp st)"
  by (cases st) (auto simp: tcp_service_port_def Let_def intro!: conf_ok_writes split: sum.split)

lemma udp_service_port_ok:
  "state_ok acl t mws st \<Longrightarrow> state_ok acl t mws (udp_service_port p svc svcKey sp st)"
  by (cases st) (auto simp: udp_service_port_def Let_def intro!: conf_ok_writes split: sum.split)

lemma tcp_target_port_ok:
  "state_ok acl t mws st \<Longrightarrow> state_ok acl t mws (tcp_target_port p ttKey tt ttSvc sp st)"
  by (cases st) (auto simp: tcp_target_port_def Let_def intro!: conf_ok_writes split: sum.split)

lemma block_all_port_ok:
  assumes "state_ok acl t mws st"
  shows "state_ok acl t mws (block_all_port p svc x st)"
proof -
  obtain u cfg where st: "st = (u, cfg)" by fastforce
  with assms have ok: "conf_ok acl t mws cfg" by simp
  then have "blockAllServiceKey \<in> http_services cfg" "blockAllMiddlewareKey \<in> http_middlewares cfg"
    unfolding conf_ok_def http_refs_ok_def by blast+
  then have "conf_ok acl t mws (put_router k \<lparr>rt_EntryPoints = ep, rt_Middlewares = [blockAllMiddlewareKey],
            rt_Service = blockAllServiceKey, rt_Rule = rule, rt_Priority = pr\<rparr> cfg)" for k ep rule pr
    using ok by (intro conf_ok_router) simp_all
  with assms st show ?thesis by (cases x) (simp add: block_all_port_def split: sum.split)
qed

lemma conf_ok_guard:
  assumes "conf_ok acl t mws cfg" "acl \<Longrightarrow> guard_key m \<Longrightarrow> authentic t m mw"
  shows "conf_ok acl t mws (put_middleware m mw cfg)"
  using conf_ok_weaken [OF conf_ok_middleware [OF assms], of mws] by auto

lemma mws_dom: "conf_ok acl t mws cfg \<Longrightarrow> x \<in> set mws \<Longrightarrow> \<exists>m. hc_Middlewares (cf_HTTP cfg) x = Some m"
  using conf_ok_mws by blast

lemma http_target_port_ok:
  assumes tt: "known_stt t tt" and key: "k = getWhitelistMiddlewareKeyFromTrafficTargetDirect tt"
    and ok: "state_ok acl t (k # mws) (snd st)"
  shows "state_ok acl t (k # mws) (snd (http_target_port p ttKey tt ttSvc scheme mws k x st))"
proof -
  obtain rule u cfg portID svcPort where st: "st = (rule, u, cfg)" and x: "x = (portID, svcPort)"
    by (metis prod.exhaust)
  from ok st have same: "same_but_errors t u" and cfg: "conf_ok acl t (k # mws) cfg" by simp_all
  from same have pods: "Pods u = Pods t" by (simp add: same_but_errors_def)
  note auth = authentic_whitelists(2) [OF pods tt]
  let ?s = "getServiceKeyFromTrafficTarget tt (sp_Port svcPort)"
  define cfg1 where "cfg1 = put_service ?s (buildHTTPServiceFromTrafficTarget u tt scheme svcPort) cfg"
  have 1: "conf_ok acl t (k # mws) cfg1" unfolding cfg1_def using cfg by (intro conf_ok_writes) simp_all
  have s1: "?s \<in> http_services cfg1" by (simp add: cfg1_def)
  define cfg2 where "cfg2 = (\<lambda>ep. put_router (getRouterKeyFromTrafficTargetDirect tt (sp_Port svcPort))
     (buildHTTPRouter rule ep (addToSliceCopy mws k) ?s priorityTrafficTargetDirect) cfg1)"
  have 2: "conf_ok acl t (k # mws) (cfg2 ep)" for ep
    unfolding cfg2_def using 1 s1 conf_ok_mws [OF 1] key
    by (intro conf_ok_router) (auto simp: addToSliceCopy_def)
  define k' where "k' = getWhitelistMiddlewareKeyFromTrafficTargetIndirect tt"
  define cfg3 where "cfg3 = (\<lambda>ep. put_middleware k' (buildWhitelistMiddlewareFromTrafficTargetIndirect u tt) (cfg2 ep))"
  have 3: "conf_ok acl t (k # mws) (cfg3 ep)" for ep
    unfolding cfg3_def k'_def using 2 auth by (intro conf_ok_guard)
  have dom3: "?s \<in> http_services (cfg3 ep)" "set (addToSliceCopy mws k') \<subseteq> http_middlewares (cfg3 ep)" for ep
    using s1 conf_ok_mws [OF 3, of ep] by (auto simp: cfg3_def cfg2_def addToSliceCopy_def)
  have 4: "conf_ok acl t (k # mws) (put_router (getRouterKeyFromTrafficTargetIndirect tt (sp_Port svcPort))
      (buildHTTPRouter r ep (addToSliceCopy mws k') ?s priorityTrafficTargetIndirect) (cfg3 ep))" for r ep
    using 3 dom3 by (intro conf_ok_router) (auto simp: addToSliceCopy_def k'_def)
  show ?thesis
    using same cfg 2 4
    by (simp add: st x http_target_port_def Let_def cfg1_def cfg2_def cfg3_def k'_def split: sum.split)
qed

lemma buildHTTPServicesAndRoutersForTrafficTarget_ok:
  assumes tt: "known_stt t tt" and ok: "state_ok acl t mws st"
  shows "state_ok acl t mws (buildHTTPServicesAndRoutersForTrafficTarget p tt ttSvc ttKey scheme mws st)"
proof -
  obtain u cfg where st: "st = (u, cfg)" by fastforce
  let ?k = "getWhitelistMiddlewareKeyFromTrafficTargetDirect tt"
  from ok st have same: "same_but_errors t u" and cfg: "conf_ok acl t mws cfg" by simp_all
  from same have pods: "Pods u = Pods t" by (simp add: same_but_errors_def)
  have "conf_ok acl t (?k # mws) (put_middleware ?k (buildWhitelistMiddlewareFromTrafficTargetDirect u tt) cfg)"
    using cfg authentic_whitelists(1) [OF pods tt] by (intro conf_ok_middleware)
  with same have init: "state_ok acl t (?k # mws) (snd (rule, u,
      put_middleware ?k (buildWhitelistMiddlewareFromTrafficTargetDirect u tt) cfg))" for rule :: string by simp
  have "state_ok acl t (?k # mws) (snd (fold (http_target_port p ttKey tt ttSvc scheme mws ?k) xs st'))"
    if "state_ok acl t (?k # mws) (snd st')" for xs st'
    by (rule fold_invariant_rule [where P = "\<lambda>st. state_ok acl t (?k # mws) (snd st)"])
       (use http_target_port_ok [OF tt refl] that in simp_all)
  from this [OF init] have "state_ok acl t (?k # mws)
      (buildHTTPServicesAndRoutersForTrafficTarget p tt ttSvc ttKey scheme mws st)"
    by (simp add: st buildHTTPServicesAndRoutersForTrafficTarget_def Let_def)
  then show ?thesis using conf_ok_weaken [of acl t "?k # mws" _ mws] by (auto simp: state_ok_def)
qed

lemma buildServicesAndRoutersForTrafficTarget_ok:
  assumes "state_ok acl t mws st"
  shows "state_ok acl t mws (fst (buildServicesAndRoutersForTrafficTarget p ttKey scheme tt mws st))"
proof -
  from assms have same: "same_but_errors t (fst st)" by (simp add: state_ok_def)
  show ?thesis
    using assms known_nodes(1) [OF same] buildHTTPServicesAndRoutersForTrafficTarget_ok
    by (auto simp: buildServicesAndRoutersForTrafficTarget_def buildTCPServicesAndRoutersForTrafficTarget_def
        intro!: state_ok_fold tcp_target_port_ok split: option.split)
qed

lemma backends_ok:
  "conf_ok acl t mws cfg \<Longrightarrow> buildServicesForTrafficSplitBackends u ts svcPort scheme bs cfg = (cfg', r) \<Longrightarrow>
     conf_ok acl t mws cfg' \<and> http_services cfg \<subseteq> http_services cfg'
     \<and> (\<forall>svcs. r = Inr svcs \<longrightarrow> fst ` set svcs \<subseteq> http_services cfg')"
proof (induction bs arbitrary: cfg cfg' r)
  case (Cons b bs)
  show ?case
  proof (cases "Services u (tsb_Service b)")
    case None
    with Cons.prems show ?thesis by auto
  next
    case (Some svc)
    let ?k = "getServiceKeyFromTrafficSplitBackend ts (sp_Port svcPort) b"
    let ?cfg = "put_service ?k (buildHTTPSplitTrafficBackendService b scheme (sp_Port svcPort)) cfg"
    obtain cfg2 r2 where rest: "buildServicesForTrafficSplitBackends u ts svcPort scheme bs ?cfg = (cfg2, r2)"
      by fastforce
    have "conf_ok acl t mws ?cfg" using Cons.prems(1) by (intro conf_ok_writes) simp_all
    note ih = Cons.IH [OF this rest]
    from Cons.prems(2) Some rest have res: "cfg' = cfg2" "r = bind_res r2 (\<lambda>rest. Inr ((?k, tsb_Weight b) # rest))"
      by (auto simp: Let_def)
    have sub: "insert ?k (http_services cfg) \<subseteq> http_services cfg2" using ih by (simp del: fun_upd_apply)
    have "fst ` set svcs \<subseteq> http_services cfg2" if "r = Inr svcs" for svcs
    proof -
      from that res obtain rest' where "r2 = Inr rest'" "svcs = (?k, tsb_Weight b) # rest'"
        by (auto simp: bind_res_Inr_iff)
      moreover from this ih have "fst ` set rest' \<subseteq> http_services cfg2" by blast
      ultimately show ?thesis using sub by simp
    qed
    with ih sub res(1) show ?thesis by blast
  qed
qed auto

lemma http_split_port_ok:
  assumes ts: "known_ts t ts" and acl: "acl = pc_ACL (pv_config p)"
    and rtr: "rtr = (if acl then addToSliceCopy mws (getWhitelistMiddlewareKeyFromTrafficSplitDirect ts) else mws)"
    and ok: "state_ok acl t (rtr @ mws) (snd st)"
  shows "state_ok acl t (rtr @ mws) (snd (http_split_port p tsKey scheme ts tsSvc mws rtr x st))"
proof -
  obtain rule u cfg portID svcPort where st: "st = (rule, u, cfg)" and x: "x = (portID, svcPort)"
    by (metis prod.exhaust)
  from ok st have same: "same_but_errors t u" and cfg: "conf_ok acl t (rtr @ mws) cfg" by simp_all
  from same have pods: "Pods u = Pods t" by (simp add: same_but_errors_def)
  obtain cfg1 r where b: "buildServicesForTrafficSplitBackends u ts svcPort scheme (ts_Backends ts) cfg = (cfg1, r)"
    by fastforce
  note loop = backends_ok [OF cfg b]
  then have 1: "conf_ok acl t (rtr @ mws) cfg1" by blast
  let ?s = "getServiceKeyFromTrafficSplit ts (sp_Port svcPort)"
  define cfg2 where "cfg2 = (\<lambda>svcs. put_service ?s (Weighted svcs) cfg1)"
  have 2: "conf_ok acl t (rtr @ mws) (cfg2 svcs)" if "r = Inr svcs" for svcs
    unfolding cfg2_def using 1 loop that by (intro conf_ok_service) simp_all
  have guard: "acl \<Longrightarrow> \<exists>m\<in>set rtr. guard_key m" by (simp add: rtr addToSliceCopy_def)
  define cfg3 where "cfg3 = (\<lambda>svcs ep. put_router (getRouterKeyFromTrafficSplitDirect ts (sp_Port svcPort))
     (buildHTTPRouter rule ep rtr ?s priorityTrafficSplit) (cfg2 svcs))"
  have 3: "conf_ok acl t (rtr @ mws) (cfg3 svcs ep)" if "r = Inr svcs" for svcs ep
    unfolding cfg3_def using 2 [OF that] guard conf_ok_mws [OF 2 [OF that]]
    by (intro conf_ok_router) (simp_all add: cfg2_def)
  define k' where "k' = getWhitelistMiddlewareKeyFromTrafficSplitIndirect ts"
  define cfg4 where "cfg4 = (\<lambda>svcs ep. put_middleware k' (buildWhitelistMiddlewareFromTrafficSplitIndirect u ts) (cfg3 svcs ep))"
  have 4: "conf_ok acl t (rtr @ mws) (cfg4 svcs ep)" if "r = Inr svcs" for svcs ep
    unfolding cfg4_def k'_def using 3 [OF that] authentic_whitelists(4) [OF pods ts] by (intro conf_ok_guard)
  have 5: "conf_ok acl t (rtr @ mws) (put_router (getRouterKeyFromTrafficSplitIndirect ts (sp_Port svcPort))
      (buildHTTPRouter rl ep (addToSliceCopy mws k') ?s priorityTrafficTargetIndirect) (cfg4 svcs ep))"
    if "r = Inr svcs" for svcs ep rl
  proof (rule conf_ok_router [OF 4 [OF that]])
    show "set (rt_Middlewares (buildHTTPRouter rl ep (addToSliceCopy mws k') ?s priorityTrafficTargetIndirect))
        \<subseteq> http_middlewares (cfg4 svcs ep)"
      using conf_ok_mws [OF 4 [OF that], of ep] by (auto simp: addToSliceCopy_def cfg4_def)
  qed (simp_all add: cfg4_def cfg3_def cfg2_def addToSliceCopy_def k'_def)
  show ?thesis
  proof (cases r)
    case (Inl e)
    with same 1 show ?thesis by (simp add: st x http_split_port_def b)
  next
    case (Inr svcs)
    with same 1 3 [OF Inr] 5 [OF Inr] acl show ?thesis
      by (cases acl)
         (simp_all add: st x http_split_port_def Let_def b cfg2_def cfg3_def cfg4_def k'_def split: sum.split)
  qed
qed

lemma buildHTTPServiceAndRoutersForTrafficSplit_ok:
  assumes ts: "known_ts t ts" and ok: "state_ok (pc_ACL (pv_config p)) t mws st"
  shows "state_ok (pc_ACL (pv_config p)) t mws
     (buildHTTPServiceAndRoutersForTrafficSplit p tsKey scheme ts tsSvc mws st)"
proof -
  obtain u cfg where st: "st = (u, cfg)" by fastforce
  let ?acl = "pc_ACL (pv_config p)"
  let ?k = "getWhitelistMiddlewareKeyFromTrafficSplitDirect ts"
  let ?rtr = "if ?acl then addToSliceCopy mws ?k else mws"
  let ?cfg = "if ?acl then put_middleware ?k (buildWhitelistMiddlewareFromTrafficSplitDirect u ts) cfg else cfg"
  from ok st have same: "same_but_errors t u" and cfg: "conf_ok ?acl t mws cfg" by simp_all
  from same have pods: "Pods u = Pods t" by (simp add: same_but_errors_def)
  have "conf_ok ?acl t (?k # mws) (put_middleware ?k (buildWhitelistMiddlewareFromTrafficSplitDirect u ts) cfg)"
    using cfg authentic_whitelists(3) [OF pods ts] by (intro conf_ok_middleware)
  then have "conf_ok ?acl t (?rtr @ mws) ?cfg"
    using cfg by (auto simp: addToSliceCopy_def conf_ok_def)
  with same have init: "state_ok ?acl t (?rtr @ mws) (snd (rule, u, ?cfg))" for rule :: string by simp
  have "state_ok ?acl t (?rtr @ mws) (snd (fold (http_split_port p tsKey scheme ts tsSvc mws ?rtr) xs st'))"
    if "state_ok ?acl t (?rtr @ mws) (snd st')" for xs st'
    by (rule fold_invariant_rule [where P = "\<lambda>st. state_ok ?acl t (?rtr @ mws) (snd st)"])
       (use http_split_port_ok [OF ts refl refl] that in simp_all)
  from this [OF init] have "state_ok ?acl t (?rtr @ mws)
      (buildHTTPServiceAndRoutersForTrafficSplit p tsKey scheme ts tsSvc mws st)"
    by (auto simp: st buildHTTPServiceAndRoutersForTrafficSplit_def Let_def)
  then show ?thesis using conf_ok_weaken [of ?acl t "?rtr @ mws" _ mws] by (auto simp: state_ok_def)
qed


lemma fold_addTCPService_ok:
  "conf_ok acl t mws cfg \<Longrightarrow> (\<And>b. l4_weighted_names (s b) = {}) \<Longrightarrow>
     conf_ok acl t mws (fold (\<lambda>b. addTCPService (k b) (s b)) bs cfg)
   \<and> k ` set bs \<subseteq> tcp_services (fold (\<lambda>b. addTCPService (k b) (s b)) bs cfg)"
proof (induction bs rule: rev_induct)
  case (snoc b bs)
  then have ih: "conf_ok acl t mws (fold (\<lambda>b. addTCPService (k b) (s b)) bs cfg)"
    "k ` set bs \<subseteq> tcp_services (fold (\<lambda>b. addTCPService (k b) (s b)) bs cfg)" by blast+
  have "conf_ok acl t mws (addTCPService (k b) (s b) (fold (\<lambda>b. addTCPService (k b) (s b)) bs cfg))"
    using ih(1) snoc.prems(2) by (intro conf_ok_tcp_service) simp_all
  with ih(2) show ?case by auto
qed simp

lemma fold_addUDPService_ok:
  "conf_ok acl t mws cfg \<Longrightarrow> (\<And>b. l4_weighted_names (s b) = {}) \<Longrightarrow>
     conf_ok acl t mws (fold (\<lambda>b. addUDPService (k b) (s b)) bs cfg)
   \<and> k ` set bs \<subseteq> udp_services (fold (\<lambda>b. addUDPService (k b) (s b)) bs cfg)"
proof (induction bs rule: rev_induct)
  case (snoc b bs)
  then have ih: "conf_ok acl t mws (fold (\<lambda>b. addUDPService (k b) (s b)) bs cfg)"
    "k ` set bs \<subseteq> udp_services (fold (\<lambda>b. addUDPService (k b) (s b)) bs cfg)" by blast+
  have "conf_ok acl t mws (addUDPService (k b) (s b) (fold (\<lambda>b. addUDPService (k b) (s b)) bs cfg))"
    using ih(1) snoc.prems(2) by (intro conf_ok_udp_service) simp_all
  with ih(2) show ?case by auto
qed simp

lemma tcp_split_port_ok:
  assumes "state_ok acl t mws st"
  shows "state_ok acl t mws (tcp_split_port p tsKey ts tsSvc sp st)"
proof -
  obtain u cfg where st: "st = (u, cfg)" by fastforce
  define k where "k = getServiceKeyFromTrafficSplitBackend ts (sp_Port sp)"
  define cfg1 where "cfg1 = fold (\<lambda>backend. addTCPService (k backend)
      (buildTCPSplitTrafficBackendService backend (ios_IntVal (sp_TargetPort sp)))) (ts_Backends ts) cfg"
  from assms st have same: "same_but_errors t u" and cfg: "conf_ok acl t mws cfg" by simp_all
  from fold_addTCPService_ok [OF cfg, of "\<lambda>b. buildTCPSplitTrafficBackendService b (ios_IntVal (sp_TargetPort sp))" k "ts_Backends ts"]
  have 1: "conf_ok acl t mws cfg1" "k ` set (ts_Backends ts) \<subseteq> tcp_services cfg1" by (simp_all add: cfg1_def)
  have 2: "conf_ok acl t mws (addTCPService key (L4Weighted (map (\<lambda>b. (k b, tsb_Weight b)) (ts_Backends ts))) cfg1)" for key
    using 1 by (intro conf_ok_tcp_service) (auto simp: image_comp)
  have "conf_ok acl t mws (addTCPRouter key (buildTCPRouter rule ep key)
      (addTCPService key (L4Weighted (map (\<lambda>b. (k b, tsb_Weight b)) (ts_Backends ts))) cfg1))" for key rule ep
    by (rule conf_ok_tcp_router [OF 2]) simp
  with same cfg show ?thesis
    by (simp add: st tcp_split_port_def Let_def k_def cfg1_def split: sum.split)
qed

lemma udp_split_port_ok:
  assumes "state_ok acl t mws st"
  shows "state_ok acl t mws (udp_split_port p tsKey ts tsSvc sp st)"
proof -
  obtain u cfg where st: "st = (u, cfg)" by fastforce
  define k where "k = getServiceKeyFromTrafficSplitBackend ts (sp_Port sp)"
  define cfg1 where "cfg1 = fold (\<lambda>backend. addUDPService (k backend)
      (buildUDPSplitTrafficBackendService backend (ios_IntVal (sp_TargetPort sp)))) (ts_Backends ts) cfg"
  from assms st have same: "same_but_errors t u" and cfg: "conf_ok acl t mws cfg" by simp_all
  from fold_addUDPService_ok [OF cfg, of "\<lambda>b. buildUDPSplitTrafficBackendService b (ios_IntVal (sp_TargetPort sp))" k "ts_Backends ts"]
  have 1: "conf_ok acl t mws cfg1" "k ` set (ts_Backends ts) \<subseteq> udp_services cfg1" by (simp_all add: cfg1_def)
  have 2: "conf_ok acl t mws (addUDPService key (L4Weighted (map (\<lambda>b. (k b, tsb_Weight b)) (ts_Backends ts))) cfg1)" for key
    using 1 by (intro conf_ok_udp_service) (auto simp: image_comp)
  have "conf_ok acl t mws (addUDPRouter key (buildUDPRouter ep key)
      (addUDPService key (L4Weighted (map (\<lambda>b. (k b, tsb_Weight b)) (ts_Backends ts))) cfg1))" for key ep
    by (rule conf_ok_udp_router [OF 2]) simp
  with same cfg show ?thesis
    by (simp add: st udp_split_port_def Let_def k_def cfg1_def split: sum.split)
qed

lemma buildServiceAndRoutersForTrafficSplit_ok:
  assumes "state_ok (pc_ACL (pv_config p)) t mws st"
  shows "state_ok (pc_ACL (pv_config p)) t mws (fst (buildServiceAndRoutersForTrafficSplit p tsKey scheme tt mws st))"
proof -
  from assms have same: "same_but_errors t (fst st)" by (simp add: state_ok_def)
  show ?thesis
    using assms known_nodes(2) [OF same] buildHTTPServiceAndRoutersForTrafficSplit_ok
    by (auto simp: buildServiceAndRoutersForTrafficSplit_def buildTCPServiceAndRoutersForTrafficSplit_def
        buildUDPServiceAndRoutersForTrafficSplit_def
        intro!: state_ok_fold tcp_split_port_ok udp_split_port_ok split: option.split)
qed

lemma fold_opt_invariant:
  assumes "\<And>x s. x \<in> set xs \<Longrightarrow> P s \<Longrightarrow> \<exists>s'. f x s = Some s' \<and> P s'" "P s"
  shows "\<exists>s'. fold_opt f xs s = Some s' \<and> P s'"
  using assms
proof (induction xs arbitrary: s)
  case (Cons x xs)
  then obtain s1 where "f x s = Some s1" "P s1" by (metis list.set_intros(1))
  with Cons show ?case by auto
qed simp

lemma split_config_step_ok:
  assumes "state_ok (pc_ACL (pv_config p)) t mws st" "TrafficSplits t k \<noteq> None"
  shows "\<exists>st'. split_config_step p scheme tt mws k st = Some st' \<and> state_ok (pc_ACL (pv_config p)) t mws st'"
proof -
  obtain u cfg e where r: "buildServiceAndRoutersForTrafficSplit p k scheme tt mws st = ((u, cfg), e)"
    by (metis prod.exhaust)
  from buildServiceAndRoutersForTrafficSplit_ok [OF assms(1), of k scheme tt] r
  have ok: "same_but_errors t u" "conf_ok (pc_ACL (pv_config p)) t mws cfg" by simp_all
  with same_but_errors_dom(3) [OF ok(1)] assms(2) show ?thesis
    by (cases e) (simp_all add: split_config_step_def r)
qed

lemma target_config_step_ok:
  assumes "state_ok acl t mws st" "ServiceTrafficTargets t x \<noteq> None"
  shows "\<exists>st'. target_config_step p scheme tt mws x st = Some st' \<and> state_ok acl t mws st'"
proof -
  obtain u cfg e where r: "buildServicesAndRoutersForTrafficTarget p x scheme tt mws st = ((u, cfg), e)"
    by (metis prod.exhaust)
  from buildServicesAndRoutersForTrafficTarget_ok [OF assms(1), of p x scheme tt] r
  have ok: "same_but_errors t u" "conf_ok acl t mws cfg" by simp_all
  with same_but_errors_dom(2) [OF ok(1)] assms(2) show ?thesis
    by (cases e) (simp_all add: target_config_step_def r)
qed

text \<open>The middleware builder of the code gives its middlewares one of three names.\<close>

definition valid_builder :: "(annotations \<Rightarrow> ann_error + (string \<times> Middleware) list) \<Rightarrow> bool" where
  "valid_builder build \<longleftrightarrow> (\<forall>anns ms. build anns = Inr ms \<longrightarrow>
     fst ` set ms \<subseteq> {''retry'', ''rate-limit'', ''circuit-breaker''})"

lemma BuildMiddlewares_valid: "valid_builder BuildMiddlewares"
proof -
  have "fst ` set ms' \<subseteq> N"
    if "run_builders bs anns ms = Inr ms'" "fst ` set ms \<subseteq> N"
      "\<And>b m n. b \<in> set bs \<Longrightarrow> b anns = Inr (Some (m, n)) \<Longrightarrow> n \<in> N" for bs anns ms ms' N
    using that
  proof (induction bs arbitrary: ms)
    case (Cons b bs)
    from Cons.prems(1) obtain o1 where b: "b anns = Inr o1" by (cases "b anns") auto
    have valid: "n \<in> N" if "b' \<in> set bs" "b' anns = Inr (Some (m, n))" for b' m n
      using that by (intro Cons.prems(3) [of b']) simp_all
    show ?case
    proof (cases o1)
      case None
      with Cons.prems(1) b have "run_builders bs anns ms = Inr ms'" by simp
      then show ?thesis using Cons.prems(2) by (rule Cons.IH) (rule valid)
    next
      case (Some mn)
      then obtain m n where mn: "o1 = Some (m, n)" by (cases mn) auto
      have "fst ` set (AList.update n m ms) \<subseteq> N"
        using Cons.prems(2) Cons.prems(3) [of b m n] b mn by (simp add: dom_update)
      moreover have "run_builders bs anns (AList.update n m ms) = Inr ms'" using Cons.prems(1) b mn by simp
      ultimately show ?thesis by (intro Cons.IH valid)
    qed
  qed simp
  then show ?thesis
    unfolding valid_builder_def BuildMiddlewares_def
    by (auto simp: builder_defs split: sum.splits if_splits)
qed

lemma service_middlewares_ok:
  assumes valid: "valid_builder (pv_buildServiceMiddleware p)" and ok: "conf_ok acl t [] cfg"
    and res: "buildMiddlewaresForConfigFromService p svc cfg = (cfg', r)"
  shows "conf_ok acl t [] cfg' \<and> (\<forall>keys. r = Inr keys \<longrightarrow> conf_ok acl t keys cfg')"
proof -
  have writes: "conf_ok acl t (map (\<lambda>(n, m). getMiddlewareKey svc n) ms)
      (fold (\<lambda>(n, m). put_middleware (getMiddlewareKey svc n) m) ms cfg)"
    if "fst ` set ms \<subseteq> {''retry'', ''rate-limit'', ''circuit-breaker''}" for ms
    using that
  proof (induction ms rule: rev_induct)
    case (snoc x ms)
    obtain n m where x: "x = (n, m)" by fastforce
    let ?cfg = "fold (\<lambda>(n, m). put_middleware (getMiddlewareKey svc n) m) ms cfg"
    have "conf_ok acl t (map (\<lambda>(n, m). getMiddlewareKey svc n) ms) ?cfg" using snoc by simp
    moreover have "\<not> guard_key (getMiddlewareKey svc n)"
      using snoc.prems x by (intro service_middleware_key_unguarded) auto
    ultimately have "conf_ok acl t (getMiddlewareKey svc n # map (\<lambda>(n, m). getMiddlewareKey svc n) ms)
        (put_middleware (getMiddlewareKey svc n) m ?cfg)"
      by (intro conf_ok_middleware) simp_all
    then have "conf_ok acl t (map (\<lambda>(n, m). getMiddlewareKey svc n) (ms @ [x]))
        (put_middleware (getMiddlewareKey svc n) m ?cfg)"
      by (rule conf_ok_weaken) (simp add: x)
    then show ?case by (simp add: x)
  qed (use ok in simp)
  show ?thesis
  proof (cases "pv_buildServiceMiddleware p (svc_Annotations svc)")
    case (Inl e)
    with ok res show ?thesis by (auto simp: buildMiddlewaresForConfigFromService_def)
  next
    case (Inr ms)
    with valid have "fst ` set ms \<subseteq> {''retry'', ''rate-limit'', ''circuit-breaker''}"
      unfolding valid_builder_def by blast
    then have "fst ` set (ranged (rg_middlewares (pv_ranges p) (Key (svc_Name svc) (svc_Namespace svc))) ms)
        \<subseteq> {''retry'', ''rate-limit'', ''circuit-breaker''}" by simp
    note w = writes [OF this]
    with conf_ok_weaken [OF w, of "[]"] Inr res show ?thesis
      by (auto simp: buildMiddlewaresForConfigFromService_def Let_def)
  qed
qed

lemma buildServicesAndRoutersForService_ok:
  assumes "state_ok False t mws st"
  shows "state_ok False t mws (fst (buildServicesAndRoutersForService p svc scheme tt mws st))"
  using assms
  by (auto simp: buildServicesAndRoutersForService_def Let_def buildServicesAndRoutersForHTTPService_def
      buildServicesAndRoutersForTCPService_def buildServicesAndRoutersForUDPService_def
      intro!: state_ok_fold http_service_port_ok tcp_service_port_ok udp_service_port_ok)

lemma buildACLConfigRoutersAndServices_ok:
  assumes "state_ok acl t mws st" "\<And>x. x \<in> set (svc_TrafficTargets svc) \<Longrightarrow> ServiceTrafficTargets t x \<noteq> None"
  shows "\<exists>st'. buildACLConfigRoutersAndServices p svc scheme tt mws st = Some st' \<and> state_ok acl t mws st'"
proof -
  have "state_ok acl t mws (if tt = ServiceTypeHTTP then buildBlockAllRouters p svc st else st)"
    using assms(1) by (simp add: buildBlockAllRouters_def state_ok_fold block_all_port_ok)
  then show ?thesis unfolding buildACLConfigRoutersAndServices_def
    by (intro fold_opt_invariant target_config_step_ok assms(2))
qed


lemma state_ok_weaken: "state_ok acl t mws st \<Longrightarrow> state_ok acl t [] st"
  using conf_ok_weaken [of acl t mws _ "[]"] by (simp add: state_ok_def)

lemma splits_config_ok:
  assumes "state_ok (pc_ACL (pv_config p)) t mws st" "\<And>k. k \<in> set ks \<Longrightarrow> TrafficSplits t k \<noteq> None"
  shows "\<exists>st'. fold_opt (split_config_step p scheme tt mws) ks st = Some st' \<and> state_ok (pc_ACL (pv_config p)) t [] st'"
  using fold_opt_invariant [of ks "state_ok (pc_ACL (pv_config p)) t mws" "split_config_step p scheme tt mws", OF _ assms(1)]
    split_config_step_ok [OF _ assms(2)] state_ok_weaken by blast

lemma traffic_type_middlewares_ok:
  assumes "valid_builder (pv_buildServiceMiddleware p)" "conf_ok acl t [] cfg"
    and "(if tt = ServiceTypeHTTP then buildMiddlewaresForConfigFromService p svc cfg else (cfg, Inr [])) = (cfg1, r)"
  shows "conf_ok acl t [] cfg1 \<and> (\<forall>keys. r = Inr keys \<longrightarrow> conf_ok acl t keys cfg1)"
  using assms(3) service_middlewares_ok [OF assms(1), of acl t cfg svc cfg1 r] assms(2) by (auto split: if_splits)

text \<open>The routers of a service, with and without access control, and then those of its splits.\<close>

lemma service_routers_ok:
  assumes ok: "state_ok (pc_ACL (pv_config p)) t keys st"
    and known: "\<And>x. x \<in> set (svc_TrafficTargets svc) \<Longrightarrow> ServiceTrafficTargets t x \<noteq> None"
  shows "\<exists>st1 r. (if pc_ACL (pv_config p) then map_option (\<lambda>st. (st, None)) (buildACLConfigRoutersAndServices p svc scheme tt keys st)
      else Some (buildConfigRoutersAndServices p svc scheme tt keys st)) = Some (st1, r)
    \<and> state_ok (pc_ACL (pv_config p)) t keys st1"
proof (cases "pc_ACL (pv_config p)")
  case True
  with buildACLConfigRoutersAndServices_ok [OF ok known, of svc p scheme tt] show ?thesis by auto
next
  case False
  then have "state_ok (pc_ACL (pv_config p)) t keys (fst (buildServicesAndRoutersForService p svc scheme tt keys st))"
    using ok buildServicesAndRoutersForService_ok [of t keys st p svc scheme tt] by simp
  with False show ?thesis by (auto simp: buildConfigRoutersAndServices_def split: prod.splits)
qed

lemma buildConfigForService_ok:
  assumes valid: "valid_builder (pv_buildServiceMiddleware p)"
    and ok: "state_ok (pc_ACL (pv_config p)) t [] st"
    and known: "\<And>x. x \<in> set (svc_TrafficTargets svc) \<Longrightarrow> ServiceTrafficTargets t x \<noteq> None"
      "\<And>k. k \<in> set (svc_TrafficSplits svc) \<Longrightarrow> TrafficSplits t k \<noteq> None"
  shows "\<exists>st' r. buildConfigForService p svc st = Some (st', r) \<and> state_ok (pc_ACL (pv_config p)) t [] st'"
proof (cases "\<exists>tt scheme. GetTrafficType (pc_DefaultTrafficType (pv_config p)) (svc_Annotations svc) = Inr tt
    \<and> GetScheme (svc_Annotations svc) = Inr scheme")
  case False
  then have "\<exists>e. buildConfigForService p svc st = Some (st, Some e)"
    by (auto simp: buildConfigForService_def split: sum.splits)
  with ok show ?thesis by blast
next
  case True
  then obtain tt scheme where tt: "GetTrafficType (pc_DefaultTrafficType (pv_config p)) (svc_Annotations svc) = Inr tt"
    and scheme: "GetScheme (svc_Annotations svc) = Inr scheme" by blast
  let ?acl = "pc_ACL (pv_config p)"
  obtain u cfg where st: "st = (u, cfg)" by fastforce
  obtain cfg1 r1 where m: "(if tt = ServiceTypeHTTP then buildMiddlewaresForConfigFromService p svc cfg
      else (cfg, Inr [])) = (cfg1, r1)" by fastforce
  from ok st have "conf_ok ?acl t [] cfg" by simp
  note ok1 = traffic_type_middlewares_ok [OF valid this m]
  note unf = buildConfigForService_def st fst_conv snd_conv tt scheme sum.case m prod.case
  show ?thesis
  proof (cases r1)
    case (Inl e)
    then have "buildConfigForService p svc st = Some ((u, cfg1), Some e)" unfolding unf by simp
    with ok1 ok st show ?thesis by auto
  next
    case (Inr keys)
    with ok1 ok st have "state_ok ?acl t keys (u, cfg1)" by simp
    from service_routers_ok [OF this known(1), of svc scheme tt] obtain st1 r2 where
      routers: "(if ?acl then map_option (\<lambda>st. (st, None)) (buildACLConfigRoutersAndServices p svc scheme tt keys (u, cfg1))
        else Some (buildConfigRoutersAndServices p svc scheme tt keys (u, cfg1))) = Some (st1, r2)"
      "state_ok ?acl t keys st1" by blast
    have unfold_eq: "buildConfigForService p svc st = (case r2 of Some err \<Rightarrow> Some (st1, Some err)
        | None \<Rightarrow> map_option (\<lambda>st. (st, None)) (fold_opt (split_config_step p scheme tt keys) (svc_TrafficSplits svc) st1))"
      unfolding unf Inr routers(1) by (simp split: option.split)
    from splits_config_ok [OF routers(2) known(2)] obtain st2 where
      "fold_opt (split_config_step p scheme tt keys) (svc_TrafficSplits svc) st1 = Some st2" "state_ok ?acl t [] st2"
      by blast
    with unfold_eq routers(2) state_ok_weaken show ?thesis by (cases r2) auto
  qed
qed

lemma config_step_ok:
  assumes valid: "valid_builder (pv_buildServiceMiddleware p)" and wf: "wf_topology t"
    and ok: "state_ok (pc_ACL (pv_config p)) t [] st"
  shows "\<exists>st'. config_step p k st = Some st' \<and> state_ok (pc_ACL (pv_config p)) t [] st'"
proof (cases "Services (fst st) k")
  case None
  with ok show ?thesis by (simp add: config_step_def)
next
  case (Some svc)
  from ok have "map_option clean_svc (Services t k) = map_option clean_svc (Services (fst st) k)"
    by (simp add: state_ok_def same_but_errors_def)
  with Some obtain s where s: "Services t k = Some s" "clean_svc s = clean_svc svc" by auto
  from s(2) have fields: "svc_TrafficTargets svc = svc_TrafficTargets s" "svc_TrafficSplits svc = svc_TrafficSplits s"
    by (cases s; cases svc; simp add: clean_svc_def)+
  note svc_ok = wf_topologyD(1) [OF wf s(1)]
  have "\<exists>st' r. buildConfigForService p svc st = Some (st', r) \<and> state_ok (pc_ACL (pv_config p)) t [] st'"
    using svc_ok fields by (intro buildConfigForService_ok valid ok) (auto simp: svc_ok_def)
  then obtain u cfg r where "buildConfigForService p svc st = Some ((u, cfg), r)"
    "state_ok (pc_ACL (pv_config p)) t [] (u, cfg)" by (metis prod.exhaust)
  with Some show ?thesis by (cases r) (simp_all add: config_step_def)
qed

lemma default_config_ok: "conf_ok acl t [] NewDefaultDynamicConfig"
proof -
  have "http_refs_ok NewDefaultDynamicConfig"
    by (auto simp: http_refs_ok_def closed_map_def NewDefaultDynamicConfig_def)
  moreover have "l4_refs_ok NewDefaultDynamicConfig"
    by (simp add: l4_refs_ok_def closed_map_def NewDefaultDynamicConfig_def tcp_conf_def udp_conf_def)
  moreover have "guarded t NewDefaultDynamicConfig"
    by (auto simp: guarded_def NewDefaultDynamicConfig_def authentic_def whitelist_def no_middleware_def split: if_splits)
  ultimately show ?thesis by (simp add: conf_ok_def)
qed

lemma BuildConfig_ok:
  assumes "valid_builder (pv_buildServiceMiddleware p)" "wf_topology t"
  shows "\<exists>t' cfg. BuildConfig p order t = Some (t', cfg) \<and> same_but_errors t t'
     \<and> conf_ok (pc_ACL (pv_config p)) t [] cfg"
proof -
  have "\<exists>st. BuildConfig p order t = Some st \<and> state_ok (pc_ACL (pv_config p)) t [] st"
    unfolding BuildConfig_def using default_config_ok
    by (intro fold_opt_invariant config_step_ok [OF assms]) simp_all
  then show ?thesis by (metis prod.exhaust state_ok_pair)
qed

section \<open>The built configuration\<close>

lemma conf_ok_guarded:
  assumes "conf_ok True t mws cfg" "hc_Routers (cf_HTTP cfg) k = Some r" "k \<noteq> ''readiness''"
  shows "\<exists>m\<in>set (rt_Middlewares r). \<exists>mw. hc_Middlewares (cf_HTTP cfg) m = Some mw \<and> guard_key m \<and> authentic t m mw"
proof -
  from assms have "guarded t cfg" "http_refs_ok cfg" by (simp_all add: conf_ok_def)
  then obtain m where m: "m \<in> set (rt_Middlewares r)" "guard_key m"
    using assms(2,3) unfolding guarded_def by blast
  moreover have "set (rt_Middlewares r) \<subseteq> http_middlewares cfg"
    using \<open>http_refs_ok cfg\<close> assms(2) unfolding http_refs_ok_def closed_map_def by blast
  ultimately obtain mw where "hc_Middlewares (cf_HTTP cfg) m = Some mw" by blast
  with m \<open>guarded t cfg\<close> show ?thesis unfolding guarded_def by blast
qed

text \<open>C12: Building the configuration of a well-formed topology never panics, whatever order the services
  are visited in. It changes nothing in the topology but the errors it records there, and the
  configuration is closed: every router names a service and middlewares it defines, and every weighted
  service names services it defines.\<close>

theorem BuildConfig_total_closed:
  assumes "wf_topology t" "pv_buildServiceMiddleware p = BuildMiddlewares"
  shows "\<exists>t' cfg. BuildConfig p svcOrder t = Some (t', cfg) \<and> same_but_errors t t'
     \<and> http_refs_ok cfg \<and> l4_refs_ok cfg"
  using BuildConfig_ok [OF _ assms(1), of p svcOrder] BuildMiddlewares_valid assms(2)
  by (auto simp: conf_ok_def)

text \<open>C2: When access control is on, every HTTP router but the one for readiness has a middleware that
  restricts who may call it, and that middleware is defined and authentic: it lets nobody through, or
  the pods that some traffic target allows as its sources, or the pods computed as allowed through some
  traffic split.\<close>

theorem BuildConfig_access_control:
  assumes "wf_topology t" "pv_buildServiceMiddleware p = BuildMiddlewares" "pc_ACL (pv_config p)"
    and "BuildConfig p svcOrder t = Some (t', cfg)"
    and "hc_Routers (cf_HTTP cfg) k = Some r" "k \<noteq> ''readiness''"
  shows "\<exists>m\<in>set (rt_Middlewares r). \<exists>mw. hc_Middlewares (cf_HTTP cfg) m = Some mw \<and> guard_key m \<and> authentic t m mw"
proof (rule conf_ok_guarded [OF _ assms(5,6)])
  show "conf_ok True t [] cfg"
    using BuildConfig_ok [OF _ assms(1), of p svcOrder] BuildMiddlewares_valid assms(2,3,4) by auto
qed

end
