(* ===== verification/Routing.thy ===== *)
theory Routing
  imports ConfigInvariant
begin

text \<open>
  What the routers and services of a configuration are: for each port of a service, a traffic target or
  a traffic split, the router and the service that building it leaves behind, and which of two routers
  that match the same request answers. An example topology closes the theory.
\<close>

section \<open>What the routers of a service are\<close>

lemma pod_addresses_cong: "Pods u = Pods t \<Longrightarrow> pod_addresses u sp ks = pod_addresses t sp ks"
  by (induction ks) (auto split: option.split prod.split)

lemma error_pods [simp]:
  "Pods (svc_error k e u) = Pods u" "Pods (stt_error x e u) = Pods u" "Pods (split_error k e u) = Pods u"
  by (simp_all add: svc_error_def stt_error_def split_error_def)

lemma fold_enumerate_Cons: "fold f (enumerate n (x # xs)) st = fold f (enumerate (Suc n) xs) (f (n, x) st)"
  by simp

lemma key_port_inj [simp]:
  "getServiceRouterKeyFromService svc p = getServiceRouterKeyFromService svc q \<longleftrightarrow> p = q"
  "getServiceKeyFromTrafficTarget tt p = getServiceKeyFromTrafficTarget tt q \<longleftrightarrow> p = q"
  "getRouterKeyFromTrafficTargetDirect tt p = getRouterKeyFromTrafficTargetDirect tt q \<longleftrightarrow> p = q"
  "getRouterKeyFromTrafficTargetIndirect tt p = getRouterKeyFromTrafficTargetIndirect tt q \<longleftrightarrow> p = q"
  "getServiceKeyFromTrafficSplit ts p = getServiceKeyFromTrafficSplit ts q \<longleftrightarrow> p = q"
  "getRouterKeyFromTrafficSplitDirect ts p = getRouterKeyFromTrafficSplitDirect ts q \<longleftrightarrow> p = q"
  "getRouterKeyFromTrafficSplitIndirect ts p = getRouterKeyFromTrafficSplitIndirect ts q \<longleftrightarrow> p = q"
  by (simp_all add: key_defs itoa32_inj)

lemma direct_not_indirect [simp]:
  "getRouterKeyFromTrafficTargetDirect tt p \<noteq> getRouterKeyFromTrafficTargetIndirect tt q"
  "getRouterKeyFromTrafficTargetIndirect tt q \<noteq> getRouterKeyFromTrafficTargetDirect tt p"
  "getRouterKeyFromTrafficSplitDirect ts p \<noteq> getRouterKeyFromTrafficSplitIndirect ts q"
  "getRouterKeyFromTrafficSplitIndirect ts q \<noteq> getRouterKeyFromTrafficSplitDirect ts p"
  by (auto simp: key_defs dest!: arg_cong [where f = rev])

lemma http_service_port_step:
  assumes "http_service_port p svc scheme mws svcKey (n, sp) (u, cfg) = (u', cfg')"
  shows "Pods u' = Pods u"
    "buildHTTPEntrypoint p n = Inl e \<Longrightarrow> cfg' = cfg"
    "buildHTTPEntrypoint p n = Inr ep \<Longrightarrow>
       hc_Routers (cf_HTTP cfg') = (hc_Routers (cf_HTTP cfg))(getServiceRouterKeyFromService svc (sp_Port sp) \<mapsto>
         buildHTTPRouter (buildHTTPRuleFromService svc) ep mws (getServiceRouterKeyFromService svc (sp_Port sp)) priorityService)
     \<and> hc_Services (cf_HTTP cfg') = (hc_Services (cf_HTTP cfg))(getServiceRouterKeyFromService svc (sp_Port sp) \<mapsto>
         buildHTTPServiceFromService u svc scheme sp)"
  using assms by (auto simp: http_service_port_def Let_def split: sum.splits)

lemma http_service_ports_frame:
  assumes "fold (http_service_port p svc scheme mws svcKey) (enumerate n sps) (u, cfg) = (u', cfg')"
    and "port \<notin> sp_Port ` set sps"
  shows "hc_Routers (cf_HTTP cfg') (getServiceRouterKeyFromService svc port) =
           hc_Routers (cf_HTTP cfg) (getServiceRouterKeyFromService svc port)
     \<and> hc_Services (cf_HTTP cfg') (getServiceRouterKeyFromService svc port) =
           hc_Services (cf_HTTP cfg) (getServiceRouterKeyFromService svc port)"
  using assms
proof (induction sps arbitrary: n u cfg)
  case (Cons sp sps)
  obtain u1 cfg1 where step: "http_service_port p svc scheme mws svcKey (n, sp) (u, cfg) = (u1, cfg1)" by fastforce
  with Cons.prems have "fold (http_service_port p svc scheme mws svcKey) (enumerate (Suc n) sps) (u1, cfg1) = (u', cfg')"
    by simp
  from Cons.IH [OF this] Cons.prems(2) http_service_port_step(2,3) [OF step] show ?case
    by (cases "buildHTTPEntrypoint p n") auto
qed simp

lemma http_service_ports:
  assumes "fold (http_service_port p svc scheme mws svcKey) (enumerate n sps) (u, cfg) = (u', cfg')"
    and "distinct (map sp_Port sps)" "i < length sps" "buildHTTPEntrypoint p (n + i) = Inr ep" "Pods u = Pods t"
  shows "hc_Routers (cf_HTTP cfg') (getServiceRouterKeyFromService svc (sp_Port (sps ! i))) =
      Some (buildHTTPRouter (buildHTTPRuleFromService svc) ep mws
        (getServiceRouterKeyFromService svc (sp_Port (sps ! i))) priorityService)
    \<and> hc_Services (cf_HTTP cfg') (getServiceRouterKeyFromService svc (sp_Port (sps ! i))) =
      Some (buildHTTPServiceFromService t svc scheme (sps ! i))"
  using assms
proof (induction sps arbitrary: n i u cfg)
  case (Cons sp sps)
  obtain u1 cfg1 where step: "http_service_port p svc scheme mws svcKey (n, sp) (u, cfg) = (u1, cfg1)" by fastforce
  with Cons.prems(1) have rest:
    "fold (http_service_port p svc scheme mws svcKey) (enumerate (Suc n) sps) (u1, cfg1) = (u', cfg')" by simp
  show ?case
  proof (cases i)
    case 0
    with Cons.prems(4) have "buildHTTPEntrypoint p n = Inr ep" by simp
    note head = http_service_port_step(3) [OF step this]
    have "sp_Port sp \<notin> sp_Port ` set sps" using Cons.prems(2) by simp
    note frame = http_service_ports_frame [OF rest this]
    have "buildHTTPServiceFromService u svc scheme sp = buildHTTPServiceFromService t svc scheme sp"
      unfolding buildHTTPServiceFromService_def pod_addresses_cong [OF Cons.prems(5)] ..
    with head frame 0 show ?thesis by simp
  next
    case (Suc j)
    have "distinct (map sp_Port sps)" "j < length sps" "buildHTTPEntrypoint p (Suc n + j) = Inr ep" "Pods u1 = Pods t"
      using Cons.prems(2-5) Suc http_service_port_step(1) [OF step] by simp_all
    from Cons.IH [OF rest this] show ?thesis unfolding Suc nth_Cons_Suc .
  qed
qed simp

definition served_by :: "Topology \<Rightarrow> Key list \<Rightarrow> ServicePort \<Rightarrow> string \<Rightarrow> bool" where
  "served_by t podKeys sp address \<longleftrightarrow> (\<exists>k\<in>set podKeys. \<exists>pod port. Pods t k = Some pod
     \<and> ResolveServicePort sp (pod_ContainerPorts pod) = (port, True)
     \<and> address = JoinHostPort (pod_IP pod) (itoa32 port))"

lemma pod_addresses_iff: "a \<in> set (pod_addresses t sp ks) \<longleftrightarrow> served_by t ks sp a"
proof (induction ks)
  case (Cons k ks)
  show ?case
  proof (cases "Pods t k")
    case None
    with Cons show ?thesis by (simp add: served_by_def)
  next
    case (Some pod)
    obtain port ok where "ResolveServicePort sp (pod_ContainerPorts pod) = (port, ok)" by fastforce
    with Some Cons show ?thesis by (cases ok) (simp_all add: served_by_def)
  qed
qed (simp add: served_by_def)

text \<open>Without access control, each port of an HTTP service whose entry point exists gets a router that
  matches the service's host names, listens on the entry point for the port's position, and sends to a
  service whose servers are exactly the addresses of the service's pods at the port they resolve it to.\<close>

theorem http_service_routed:
  assumes "buildServicesAndRoutersForHTTPService p svc scheme mws svcKey (t, cfg) = (t', cfg')"
    and "distinct (map sp_Port (svc_Ports svc))" "i < length (svc_Ports svc)" "buildHTTPEntrypoint p i = Inr ep"
  shows "\<exists>servers. hc_Routers (cf_HTTP cfg') (getServiceRouterKeyFromService svc (sp_Port (svc_Ports svc ! i))) =
      Some (buildHTTPRouter (buildHTTPRuleFromService svc) ep mws
        (getServiceRouterKeyFromService svc (sp_Port (svc_Ports svc ! i))) priorityService)
    \<and> hc_Services (cf_HTTP cfg') (getServiceRouterKeyFromService svc (sp_Port (svc_Ports svc ! i))) =
      Some (LoadBalancer servers True)
    \<and> (\<forall>url. url \<in> set servers \<longleftrightarrow>
        (\<exists>a. url = scheme @ ''://'' @ a \<and> served_by t (svc_Pods svc) (svc_Ports svc ! i) a))"
  using http_service_ports [of p svc scheme mws svcKey 0 "svc_Ports svc" t cfg t' cfg' i ep t] assms
  by (auto simp: buildServicesAndRoutersForHTTPService_def buildHTTPServiceFromService_def http_servers_def
      pod_addresses_iff image_iff)

section \<open>What the routers of a traffic target are\<close>

lemma http_target_port_step:
  assumes "http_target_port p ttKey tt ttSvc scheme mws wl (n, sp) (rule, u, cfg) = (rule', u', cfg')"
  defines "svcKey \<equiv> getServiceKeyFromTrafficTarget tt (sp_Port sp)"
    and "ind \<equiv> buildHTTPRuleFromTrafficTargetIndirect (rg_headers (pv_ranges p) (TargetIndirect ttKey n)) tt ttSvc"
  shows "Pods u' = Pods u"
    "buildHTTPEntrypoint p n = Inl e \<Longrightarrow> rule' = rule \<and> cfg' = cfg"
    "buildHTTPEntrypoint p n = Inr ep \<Longrightarrow> svc_BackendOf ttSvc = [] \<Longrightarrow> rule' = rule
     \<and> hc_Routers (cf_HTTP cfg') = (hc_Routers (cf_HTTP cfg))(getRouterKeyFromTrafficTargetDirect tt (sp_Port sp) \<mapsto>
         buildHTTPRouter rule ep (mws @ [wl]) svcKey priorityTrafficTargetDirect)"
    "buildHTTPEntrypoint p n = Inr ep \<Longrightarrow> svc_BackendOf ttSvc \<noteq> [] \<Longrightarrow> rule' = ind
     \<and> hc_Routers (cf_HTTP cfg') = (hc_Routers (cf_HTTP cfg))
         (getRouterKeyFromTrafficTargetDirect tt (sp_Port sp) \<mapsto>
           buildHTTPRouter rule ep (mws @ [wl]) svcKey priorityTrafficTargetDirect,
          getRouterKeyFromTrafficTargetIndirect tt (sp_Port sp) \<mapsto>
           buildHTTPRouter ind ep (mws @ [getWhitelistMiddlewareKeyFromTrafficTargetIndirect tt]) svcKey
             priorityTrafficTargetIndirect)"
    "buildHTTPEntrypoint p n = Inr ep \<Longrightarrow>
       hc_Services (cf_HTTP cfg') = (hc_Services (cf_HTTP cfg))(svcKey \<mapsto> buildHTTPServiceFromTrafficTarget u tt scheme sp)"
  using assms(1) unfolding svcKey_def ind_def
  by (auto simp: http_target_port_def Let_def addToSliceCopy_def split: sum.splits if_splits)

lemma http_target_ports_frame:
  assumes "fold (http_target_port p ttKey tt ttSvc scheme mws wl) (enumerate n sps) (rule, u, cfg) = (rule', u', cfg')"
    and "port \<notin> sp_Port ` set sps"
  shows "hc_Routers (cf_HTTP cfg') (getRouterKeyFromTrafficTargetDirect tt port) =
           hc_Routers (cf_HTTP cfg) (getRouterKeyFromTrafficTargetDirect tt port)
     \<and> hc_Routers (cf_HTTP cfg') (getRouterKeyFromTrafficTargetIndirect tt port) =
           hc_Routers (cf_HTTP cfg) (getRouterKeyFromTrafficTargetIndirect tt port)
     \<and> hc_Services (cf_HTTP cfg') (getServiceKeyFromTrafficTarget tt port) =
           hc_Services (cf_HTTP cfg) (getServiceKeyFromTrafficTarget tt port)"
  using assms
proof (induction sps arbitrary: n rule u cfg)
  case (Cons sp sps)
  obtain r1 u1 cfg1 where step: "http_target_port p ttKey tt ttSvc scheme mws wl (n, sp) (rule, u, cfg) = (r1, u1, cfg1)"
    by (metis prod.exhaust)
  with Cons.prems have "fold (http_target_port p ttKey tt ttSvc scheme mws wl) (enumerate (Suc n) sps) (r1, u1, cfg1) =
    (rule', u', cfg')" by simp
  note ih = Cons.IH [OF this]
  show ?case
  proof (cases "buildHTTPEntrypoint p n")
    case (Inl e)
    with ih Cons.prems(2) http_target_port_step(2) [OF step] show ?thesis by simp
  next
    case (Inr ep)
    with ih Cons.prems(2) http_target_port_step(3-5) [OF step Inr] show ?thesis
      by (cases "svc_BackendOf ttSvc = []") auto
  qed
qed simp

text \<open>The rule in the direct router of a port: that of the indirect router of some earlier port which has an entry
  point, when there is one, and the direct rule otherwise.\<close>

abbreviation overwritten :: "bool \<Rightarrow> Provider \<Rightarrow> (nat \<Rightarrow> string) \<Rightarrow> nat \<Rightarrow> nat \<Rightarrow> string \<Rightarrow> string \<Rightarrow> bool" where
  "overwritten twice p ind n i direct rule \<equiv>
     (if twice \<and> (\<exists>j<i. \<exists>e. buildHTTPEntrypoint p (n + j) = Inr e) then \<exists>j<i. rule = ind (n + j) else rule = direct)"

lemma overwritten_Suc:
  assumes "overwritten twice p ind (Suc n) j r1 rule"
    and "r1 = (if twice \<and> (\<exists>e. buildHTTPEntrypoint p n = Inr e) then ind n else direct)"
  shows "overwritten twice p ind n (Suc j) direct rule"
proof -
  have ex: "(\<exists>k<Suc j. P (n + k)) \<longleftrightarrow> P n \<or> (\<exists>k<j. P (Suc n + k))" for P by (simp add: Ex_less_Suc2)
  show ?thesis
    using assms ex [of "\<lambda>k. \<exists>e. buildHTTPEntrypoint p k = Inr e"] ex [of "\<lambda>k. rule = ind k"]
    by (auto split: if_splits)
qed

lemma http_target_ports:
  assumes "fold (http_target_port p ttKey tt ttSvc scheme mws wl) (enumerate n sps) (rule, u, cfg) = (rule', u', cfg')"
    and "distinct (map sp_Port sps)" "i < length sps" "buildHTTPEntrypoint p (n + i) = Inr ep" "Pods u = Pods t"
  defines "svcKey \<equiv> getServiceKeyFromTrafficTarget tt (sp_Port (sps ! i))"
    and "ind \<equiv> \<lambda>n. buildHTTPRuleFromTrafficTargetIndirect (rg_headers (pv_ranges p) (TargetIndirect ttKey n)) tt ttSvc"
  shows "(\<exists>direct. overwritten (svc_BackendOf ttSvc \<noteq> []) p ind n i rule direct
      \<and> hc_Routers (cf_HTTP cfg') (getRouterKeyFromTrafficTargetDirect tt (sp_Port (sps ! i))) =
          Some (buildHTTPRouter direct ep (mws @ [wl]) svcKey priorityTrafficTargetDirect))
    \<and> hc_Services (cf_HTTP cfg') svcKey = Some (buildHTTPServiceFromTrafficTarget t tt scheme (sps ! i))
    \<and> (svc_BackendOf ttSvc \<noteq> [] \<longrightarrow>
        hc_Routers (cf_HTTP cfg') (getRouterKeyFromTrafficTargetIndirect tt (sp_Port (sps ! i))) =
        Some (buildHTTPRouter (ind (n + i)) ep (mws @ [getWhitelistMiddlewareKeyFromTrafficTargetIndirect tt]) svcKey
          priorityTrafficTargetIndirect))"
  using assms(1-5) unfolding svcKey_def
proof (induction sps arbitrary: n i rule u cfg)
  case (Cons sp sps)
  obtain r1 u1 cfg1 where step: "http_target_port p ttKey tt ttSvc scheme mws wl (n, sp) (rule, u, cfg) = (r1, u1, cfg1)"
    by (metis prod.exhaust)
  with Cons.prems(1) have rest: "fold (http_target_port p ttKey tt ttSvc scheme mws wl) (enumerate (Suc n) sps)
    (r1, u1, cfg1) = (rule', u', cfg')" by simp
  show ?case
  proof (cases i)
    case 0
    with Cons.prems(4) have ep: "buildHTTPEntrypoint p n = Inr ep" by simp
    have "buildHTTPServiceFromTrafficTarget u tt scheme sp = buildHTTPServiceFromTrafficTarget t tt scheme sp"
      unfolding buildHTTPServiceFromTrafficTarget_def pod_addresses_cong [OF Cons.prems(5)] ..
    moreover have "sp_Port sp \<notin> sp_Port ` set sps" using Cons.prems(2) by simp
    note http_target_ports_frame [OF rest this]
    ultimately show ?thesis using http_target_port_step(3-5) [OF step ep] 0
      by (cases "svc_BackendOf ttSvc = []") (simp_all add: ind_def)
  next
    case (Suc j)
    have r1: "r1 = (if svc_BackendOf ttSvc \<noteq> [] \<and> (\<exists>e. buildHTTPEntrypoint p n = Inr e) then ind n else rule)"
      using http_target_port_step(2-4) [OF step]
      by (cases "buildHTTPEntrypoint p n"; cases "svc_BackendOf ttSvc = []") (auto simp: ind_def)
    have "distinct (map sp_Port sps)" "j < length sps" "buildHTTPEntrypoint p (Suc n + j) = Inr ep" "Pods u1 = Pods t"
      using Cons.prems(2-5) Suc http_target_port_step(1) [OF step] by simp_all
    note ih = Cons.IH [OF rest this]
    then obtain direct where "overwritten (svc_BackendOf ttSvc \<noteq> []) p ind (Suc n) j r1 direct"
      "hc_Routers (cf_HTTP cfg') (getRouterKeyFromTrafficTargetDirect tt (sp_Port (sps ! j))) =
        Some (buildHTTPRouter direct ep (mws @ [wl]) (getServiceKeyFromTrafficTarget tt (sp_Port (sps ! j)))
          priorityTrafficTargetDirect)" by blast
    with overwritten_Suc [OF this(1) r1] ih show ?thesis
      unfolding Suc nth_Cons_Suc add_Suc_right [symmetric] add_Suc by blast
  qed
qed simp

text \<open>C30: Each port of a traffic target's destination whose entry point exists gets a direct router with the
  whitelist of the target's sources, which sends to the destination pods, and, when the service is a
  backend of some split, an indirect router, with the whitelist that looks at the forwarded address and
  a rule that asks for the forwarding header. The entry point is the one for the port's position
  among the destination's ports. For the first port that has an entry point the direct router matches
  without that header; the variable that holds the rule is overwritten, so from then on the direct router
  of a backend asks for the header too.\<close>

theorem http_target_routed:
  assumes "buildHTTPServicesAndRoutersForTrafficTarget p tt ttSvc ttKey scheme mws (t, cfg) = (t', cfg')"
    and "distinct (map sp_Port (dst_Ports (stt_Destination tt)))" "i < length (dst_Ports (stt_Destination tt))"
    and "buildHTTPEntrypoint p i = Inr ep" "sp = dst_Ports (stt_Destination tt) ! i"
    and "ind = (\<lambda>j. buildHTTPRuleFromTrafficTargetIndirect (rg_headers (pv_ranges p) (TargetIndirect ttKey j)) tt ttSvc)"
  shows "(\<exists>direct. (if svc_BackendOf ttSvc \<noteq> [] \<and> (\<exists>j<i. \<exists>e. buildHTTPEntrypoint p j = Inr e)
          then \<exists>j<i. direct = ind j
          else direct = buildHTTPRuleFromTrafficTarget (rg_headers (pv_ranges p) (TargetDirect ttKey)) tt ttSvc)
      \<and> hc_Routers (cf_HTTP cfg') (getRouterKeyFromTrafficTargetDirect tt (sp_Port sp)) =
          Some (buildHTTPRouter direct ep (mws @ [getWhitelistMiddlewareKeyFromTrafficTargetDirect tt])
            (getServiceKeyFromTrafficTarget tt (sp_Port sp)) priorityTrafficTargetDirect))
    \<and> hc_Services (cf_HTTP cfg') (getServiceKeyFromTrafficTarget tt (sp_Port sp)) =
        Some (buildHTTPServiceFromTrafficTarget t tt scheme sp)
    \<and> (svc_BackendOf ttSvc \<noteq> [] \<longrightarrow>
        hc_Routers (cf_HTTP cfg') (getRouterKeyFromTrafficTargetIndirect tt (sp_Port sp)) =
        Some (buildHTTPRouter (ind i) ep
          (mws @ [getWhitelistMiddlewareKeyFromTrafficTargetIndirect tt])
          (getServiceKeyFromTrafficTarget tt (sp_Port sp)) priorityTrafficTargetIndirect))"
proof -
  obtain rule' where "fold (http_target_port p ttKey tt ttSvc scheme mws (getWhitelistMiddlewareKeyFromTrafficTargetDirect tt))
      (enumerate 0 (dst_Ports (stt_Destination tt)))
      (buildHTTPRuleFromTrafficTarget (rg_headers (pv_ranges p) (TargetDirect ttKey)) tt ttSvc, t,
        put_middleware (getWhitelistMiddlewareKeyFromTrafficTargetDirect tt)
          (buildWhitelistMiddlewareFromTrafficTargetDirect t tt) cfg) = (rule', t', cfg')"
    using assms(1) by (auto simp: buildHTTPServicesAndRoutersForTrafficTarget_def Let_def) (metis prod.collapse)
  from http_target_ports [OF this assms(2,3) _ refl] assms(4) show ?thesis
    unfolding assms(5,6) add_0 by (metis (no_types, lifting))
qed

section \<open>What the routers of a traffic split are\<close>

lemma backends_result:
  assumes "\<forall>b\<in>set bs. Services u (tsb_Service b) \<noteq> None"
  shows "snd (buildServicesForTrafficSplitBackends u ts svcPort scheme bs cfg) =
    Inr (map (\<lambda>b. (getServiceKeyFromTrafficSplitBackend ts (sp_Port svcPort) b, tsb_Weight b)) bs)"
  using assms
proof (induction bs arbitrary: cfg)
  case (Cons b bs)
  then obtain svc where svc: "Services u (tsb_Service b) = Some svc" by force
  let ?k = "getServiceKeyFromTrafficSplitBackend ts (sp_Port svcPort) b"
  let ?cfg = "put_service ?k (buildHTTPSplitTrafficBackendService b scheme (sp_Port svcPort)) cfg"
  obtain cfg2 r2 where rest: "buildServicesForTrafficSplitBackends u ts svcPort scheme bs ?cfg = (cfg2, r2)"
    by fastforce
  with Cons.IH [of ?cfg] Cons.prems
  have "r2 = Inr (map (\<lambda>b. (getServiceKeyFromTrafficSplitBackend ts (sp_Port svcPort) b, tsb_Weight b)) bs)" by simp
  with svc rest show ?case by (simp add: Let_def)
qed simp

lemma backends_frame:
  "k \<notin> range (\<lambda>(port, b). getServiceKeyFromTrafficSplitBackend ts port b) \<Longrightarrow>
     buildServicesForTrafficSplitBackends u ts svcPort scheme bs cfg = (cfg', r) \<Longrightarrow>
     hc_Routers (cf_HTTP cfg') = hc_Routers (cf_HTTP cfg)
   \<and> hc_Services (cf_HTTP cfg') k = hc_Services (cf_HTTP cfg) k"
proof (induction bs arbitrary: cfg cfg' r)
  case (Cons b bs)
  show ?case
  proof (cases "Services u (tsb_Service b)")
    case None
    with Cons.prems show ?thesis by simp
  next
    case (Some svc)
    let ?k = "getServiceKeyFromTrafficSplitBackend ts (sp_Port svcPort) b"
    let ?cfg = "put_service ?k (buildHTTPSplitTrafficBackendService b scheme (sp_Port svcPort)) cfg"
    obtain cfg2 r2 where rest: "buildServicesForTrafficSplitBackends u ts svcPort scheme bs ?cfg = (cfg2, r2)"
      by fastforce
    with Cons.prems(2) Some have "cfg' = cfg2" by (simp add: Let_def)
    moreover have "k \<noteq> ?k" using Cons.prems(1) by auto
    ultimately show ?thesis using Cons.IH [OF Cons.prems(1) rest] by simp
  qed
qed simp

lemma split_key_not_backend:
  "getServiceKeyFromTrafficSplit ts p \<notin> range (\<lambda>(port, b). getServiceKeyFromTrafficSplitBackend ts' port b)"
proof
  assume "getServiceKeyFromTrafficSplit ts p \<in> range (\<lambda>(port, b). getServiceKeyFromTrafficSplitBackend ts' port b)"
  then obtain q b where "rev (getServiceKeyFromTrafficSplit ts p) = rev (getServiceKeyFromTrafficSplitBackend ts' q b)" by auto
  then show False by (simp add: key_defs)
qed

lemma http_split_port_step:
  assumes "http_split_port p tsKey scheme ts tsSvc mws rtr (n, sp) (rule, u, cfg) = (rule', u', cfg')"
    and "\<forall>b\<in>set (ts_Backends ts). Services u (tsb_Service b) \<noteq> None"
  defines "svcKey \<equiv> getServiceKeyFromTrafficSplit ts (sp_Port sp)"
    and "ind \<equiv> buildHTTPRuleFromTrafficSplitIndirect (rg_headers (pv_ranges p) (SplitIndirect tsKey n)) ts tsSvc"
    and "twice \<equiv> svc_BackendOf tsSvc \<noteq> [] \<and> pc_ACL (pv_config p)"
  shows "Services u' = Services u"
    "buildHTTPEntrypoint p n = Inl e \<Longrightarrow> rule' = rule \<and> hc_Routers (cf_HTTP cfg') = hc_Routers (cf_HTTP cfg)
     \<and> hc_Services (cf_HTTP cfg') (getServiceKeyFromTrafficSplit ts port) =
         hc_Services (cf_HTTP cfg) (getServiceKeyFromTrafficSplit ts port)"
    "buildHTTPEntrypoint p n = Inr ep \<Longrightarrow> \<not> twice \<Longrightarrow> rule' = rule
     \<and> hc_Routers (cf_HTTP cfg') = (hc_Routers (cf_HTTP cfg))(getRouterKeyFromTrafficSplitDirect ts (sp_Port sp) \<mapsto>
         buildHTTPRouter rule ep rtr svcKey priorityTrafficSplit)"
    "buildHTTPEntrypoint p n = Inr ep \<Longrightarrow> twice \<Longrightarrow> rule' = ind
     \<and> hc_Routers (cf_HTTP cfg') = (hc_Routers (cf_HTTP cfg))
         (getRouterKeyFromTrafficSplitDirect ts (sp_Port sp) \<mapsto> buildHTTPRouter rule ep rtr svcKey priorityTrafficSplit,
          getRouterKeyFromTrafficSplitIndirect ts (sp_Port sp) \<mapsto>
           buildHTTPRouter ind ep (mws @ [getWhitelistMiddlewareKeyFromTrafficSplitIndirect ts]) svcKey
             priorityTrafficTargetIndirect)"
    "buildHTTPEntrypoint p n = Inr ep \<Longrightarrow>
       hc_Services (cf_HTTP cfg') (getServiceKeyFromTrafficSplit ts port) =
         (if port = sp_Port sp then Some (Weighted (map (\<lambda>b.
             (getServiceKeyFromTrafficSplitBackend ts (sp_Port sp) b, tsb_Weight b)) (ts_Backends ts)))
          else hc_Services (cf_HTTP cfg) (getServiceKeyFromTrafficSplit ts port))"
proof -
  obtain cfg1 r where b: "buildServicesForTrafficSplitBackends u ts sp scheme (ts_Backends ts) cfg = (cfg1, r)"
    by fastforce
  have frame: "hc_Routers (cf_HTTP cfg1) = hc_Routers (cf_HTTP cfg)
     \<and> hc_Services (cf_HTTP cfg1) (getServiceKeyFromTrafficSplit ts q) =
         hc_Services (cf_HTTP cfg) (getServiceKeyFromTrafficSplit ts q)" for q
    by (rule backends_frame [OF split_key_not_backend b])
  have "r = Inr (map (\<lambda>b. (getServiceKeyFromTrafficSplitBackend ts (sp_Port sp) b, tsb_Weight b)) (ts_Backends ts))"
    using backends_result [OF assms(2), of ts sp scheme cfg] unfolding b by simp
  note b' = b [unfolded this]
  note def = assms(1) [unfolded http_split_port_def prod.case b' sum.case Let_def addToSliceCopy_def]
  show "Services u' = Services u"
    using def by (auto simp: split_error_def split: sum.splits if_splits)
  show "rule' = rule \<and> hc_Routers (cf_HTTP cfg') = hc_Routers (cf_HTTP cfg)
     \<and> hc_Services (cf_HTTP cfg') (getServiceKeyFromTrafficSplit ts port) =
         hc_Services (cf_HTTP cfg) (getServiceKeyFromTrafficSplit ts port)" if "buildHTTPEntrypoint p n = Inl e"
    using def that frame by simp
  show "rule' = rule \<and> hc_Routers (cf_HTTP cfg') = (hc_Routers (cf_HTTP cfg))(getRouterKeyFromTrafficSplitDirect ts (sp_Port sp) \<mapsto>
         buildHTTPRouter rule ep rtr svcKey priorityTrafficSplit)" if "buildHTTPEntrypoint p n = Inr ep" "\<not> twice"
    using def that frame [of "sp_Port sp"] by (auto simp: twice_def svcKey_def split: if_splits)
  show "rule' = ind
     \<and> hc_Routers (cf_HTTP cfg') = (hc_Routers (cf_HTTP cfg))
         (getRouterKeyFromTrafficSplitDirect ts (sp_Port sp) \<mapsto> buildHTTPRouter rule ep rtr svcKey priorityTrafficSplit,
          getRouterKeyFromTrafficSplitIndirect ts (sp_Port sp) \<mapsto>
           buildHTTPRouter ind ep (mws @ [getWhitelistMiddlewareKeyFromTrafficSplitIndirect ts]) svcKey
             priorityTrafficTargetIndirect)" if "buildHTTPEntrypoint p n = Inr ep" twice
    using def that frame [of "sp_Port sp"] by (auto simp: twice_def svcKey_def ind_def split: if_splits)
  show "hc_Services (cf_HTTP cfg') (getServiceKeyFromTrafficSplit ts port) =
         (if port = sp_Port sp then Some (Weighted (map (\<lambda>b.
             (getServiceKeyFromTrafficSplitBackend ts (sp_Port sp) b, tsb_Weight b)) (ts_Backends ts)))
          else hc_Services (cf_HTTP cfg) (getServiceKeyFromTrafficSplit ts port))"
    if "buildHTTPEntrypoint p n = Inr ep"
    using def that frame [of port] by (auto split: if_splits)
qed

lemma http_split_ports_frame:
  assumes "fold (http_split_port p tsKey scheme ts tsSvc mws rtr) (enumerate n sps) (rule, u, cfg) = (rule', u', cfg')"
    and "port \<notin> sp_Port ` set sps" "\<forall>b\<in>set (ts_Backends ts). Services u (tsb_Service b) \<noteq> None"
  shows "hc_Routers (cf_HTTP cfg') (getRouterKeyFromTrafficSplitDirect ts port) =
           hc_Routers (cf_HTTP cfg) (getRouterKeyFromTrafficSplitDirect ts port)
     \<and> hc_Routers (cf_HTTP cfg') (getRouterKeyFromTrafficSplitIndirect ts port) =
           hc_Routers (cf_HTTP cfg) (getRouterKeyFromTrafficSplitIndirect ts port)
     \<and> hc_Services (cf_HTTP cfg') (getServiceKeyFromTrafficSplit ts port) =
           hc_Services (cf_HTTP cfg) (getServiceKeyFromTrafficSplit ts port)"
  using assms
proof (induction sps arbitrary: n rule u cfg)
  case (Cons sp sps)
  obtain r1 u1 cfg1 where step: "http_split_port p tsKey scheme ts tsSvc mws rtr (n, sp) (rule, u, cfg) = (r1, u1, cfg1)"
    by (metis prod.exhaust)
  with Cons.prems(1) have rest: "fold (http_split_port p tsKey scheme ts tsSvc mws rtr) (enumerate (Suc n) sps) (r1, u1, cfg1) =
    (rule', u', cfg')" by simp
  note st = http_split_port_step [OF step Cons.prems(3)]
  have "port \<notin> sp_Port ` set sps" and ne: "port \<noteq> sp_Port sp" using Cons.prems(2) by auto
  note ih = Cons.IH [OF rest this(1) Cons.prems(3) [folded st(1)]]
  show ?case
  proof (cases "buildHTTPEntrypoint p n")
    case (Inl e)
    with ih st(2) show ?thesis by simp
  next
    case (Inr ep)
    with ih st(3-5) [OF Inr] ne show ?thesis
      by (cases "svc_BackendOf tsSvc \<noteq> [] \<and> pc_ACL (pv_config p)") auto
  qed
qed simp

lemma http_split_ports:
  assumes "fold (http_split_port p tsKey scheme ts tsSvc mws rtr) (enumerate n sps) (rule, u, cfg) = (rule', u', cfg')"
    and "distinct (map sp_Port sps)" "i < length sps" "buildHTTPEntrypoint p (n + i) = Inr ep"
    and "\<forall>b\<in>set (ts_Backends ts). Services u (tsb_Service b) \<noteq> None"
  defines "svcKey \<equiv> getServiceKeyFromTrafficSplit ts (sp_Port (sps ! i))"
    and "ind \<equiv> \<lambda>n. buildHTTPRuleFromTrafficSplitIndirect (rg_headers (pv_ranges p) (SplitIndirect tsKey n)) ts tsSvc"
    and "twice \<equiv> svc_BackendOf tsSvc \<noteq> [] \<and> pc_ACL (pv_config p)"
  shows "(\<exists>direct. overwritten twice p ind n i rule direct
      \<and> hc_Routers (cf_HTTP cfg') (getRouterKeyFromTrafficSplitDirect ts (sp_Port (sps ! i))) =
          Some (buildHTTPRouter direct ep rtr svcKey priorityTrafficSplit))
    \<and> hc_Services (cf_HTTP cfg') svcKey = Some (Weighted (map (\<lambda>b.
        (getServiceKeyFromTrafficSplitBackend ts (sp_Port (sps ! i)) b, tsb_Weight b)) (ts_Backends ts)))
    \<and> (twice \<longrightarrow> hc_Routers (cf_HTTP cfg') (getRouterKeyFromTrafficSplitIndirect ts (sp_Port (sps ! i))) =
        Some (buildHTTPRouter (ind (n + i)) ep (mws @ [getWhitelistMiddlewareKeyFromTrafficSplitIndirect ts]) svcKey
          priorityTrafficTargetIndirect))"
  using assms(1-5) unfolding svcKey_def
proof (induction sps arbitrary: n i rule u cfg)
  case (Cons sp sps)
  obtain r1 u1 cfg1 where step: "http_split_port p tsKey scheme ts tsSvc mws rtr (n, sp) (rule, u, cfg) = (r1, u1, cfg1)"
    by (metis prod.exhaust)
  with Cons.prems(1) have rest: "fold (http_split_port p tsKey scheme ts tsSvc mws rtr) (enumerate (Suc n) sps)
    (r1, u1, cfg1) = (rule', u', cfg')" by simp
  note st = http_split_port_step [OF step Cons.prems(5), folded twice_def]
  note backends = Cons.prems(5) [folded st(1)]
  show ?case
  proof (cases i)
    case 0
    with Cons.prems(4) have ep: "buildHTTPEntrypoint p n = Inr ep" by simp
    have "sp_Port sp \<notin> sp_Port ` set sps" using Cons.prems(2) by simp
    from http_split_ports_frame [OF rest this backends] st(3-5) [OF ep] 0 show ?thesis
      by (cases twice) (simp_all add: ind_def)
  next
    case (Suc j)
    have r1: "r1 = (if twice \<and> (\<exists>e. buildHTTPEntrypoint p n = Inr e) then ind n else rule)"
      using st(2-4) by (cases "buildHTTPEntrypoint p n"; cases twice) (auto simp: ind_def)
    have "distinct (map sp_Port sps)" "j < length sps" "buildHTTPEntrypoint p (Suc n + j) = Inr ep"
      using Cons.prems(2-4) Suc by simp_all
    note ih = Cons.IH [OF rest this backends]
    then obtain direct where "overwritten twice p ind (Suc n) j r1 direct"
      "hc_Routers (cf_HTTP cfg') (getRouterKeyFromTrafficSplitDirect ts (sp_Port (sps ! j))) =
        Some (buildHTTPRouter direct ep rtr (getServiceKeyFromTrafficSplit ts (sp_Port (sps ! j))) priorityTrafficSplit)"
      by blast
    with overwritten_Suc [OF this(1) r1] ih show ?thesis
      unfolding Suc nth_Cons_Suc add_Suc_right [symmetric] add_Suc by blast
  qed
qed simp

text \<open>C31: When all the backends of a traffic split exist, each port of its service whose entry point
  exists gets a weighted service that sends to the backends with their weights, a direct router to it,
  whitelisted under access control, and, when access control is on and the service is itself a backend,
  an indirect router with the whitelist on the forwarded address. This is what the code does, not what it means to do:
  the indirect router gets the priority of the indirect routers of traffic targets and not that of traffic splits,
  though the comment on the priorities has routers of splits always win; and, as for a traffic target, the variable
  that holds the rule is overwritten, so every direct router after the first one asks for the forwarding header.\<close>

theorem http_split_routed:
  assumes "buildHTTPServiceAndRoutersForTrafficSplit p tsKey scheme ts tsSvc mws (t, cfg) = (t', cfg')"
    and "\<forall>b\<in>set (ts_Backends ts). Services t (tsb_Service b) \<noteq> None"
    and "distinct (map sp_Port (svc_Ports tsSvc))" "i < length (svc_Ports tsSvc)"
    and "buildHTTPEntrypoint p i = Inr ep" "sp = svc_Ports tsSvc ! i"
    and "ind = (\<lambda>j. buildHTTPRuleFromTrafficSplitIndirect (rg_headers (pv_ranges p) (SplitIndirect tsKey j)) ts tsSvc)"
  shows "(\<exists>direct. (if (svc_BackendOf tsSvc \<noteq> [] \<and> pc_ACL (pv_config p)) \<and> (\<exists>j<i. \<exists>e. buildHTTPEntrypoint p j = Inr e)
          then \<exists>j<i. direct = ind j
          else direct = buildHTTPRuleFromTrafficSplit (rg_headers (pv_ranges p) (SplitDirect tsKey)) ts tsSvc)
      \<and> hc_Routers (cf_HTTP cfg') (getRouterKeyFromTrafficSplitDirect ts (sp_Port sp)) =
          Some (buildHTTPRouter direct ep
            (if pc_ACL (pv_config p) then mws @ [getWhitelistMiddlewareKeyFromTrafficSplitDirect ts] else mws)
            (getServiceKeyFromTrafficSplit ts (sp_Port sp)) priorityTrafficSplit))
    \<and> hc_Services (cf_HTTP cfg') (getServiceKeyFromTrafficSplit ts (sp_Port sp)) =
        Some (Weighted (map (\<lambda>b. (getServiceKeyFromTrafficSplitBackend ts (sp_Port sp) b, tsb_Weight b)) (ts_Backends ts)))
    \<and> (svc_BackendOf tsSvc \<noteq> [] \<and> pc_ACL (pv_config p) \<longrightarrow>
        hc_Routers (cf_HTTP cfg') (getRouterKeyFromTrafficSplitIndirect ts (sp_Port sp)) =
        Some (buildHTTPRouter (ind i) ep
          (mws @ [getWhitelistMiddlewareKeyFromTrafficSplitIndirect ts])
          (getServiceKeyFromTrafficSplit ts (sp_Port sp)) priorityTrafficTargetIndirect))"
proof -
  let ?rtr = "if pc_ACL (pv_config p) then mws @ [getWhitelistMiddlewareKeyFromTrafficSplitDirect ts] else mws"
  let ?cfg = "if pc_ACL (pv_config p) then put_middleware (getWhitelistMiddlewareKeyFromTrafficSplitDirect ts)
    (buildWhitelistMiddlewareFromTrafficSplitDirect t ts) cfg else cfg"
  obtain rule' where "fold (http_split_port p tsKey scheme ts tsSvc mws ?rtr) (enumerate 0 (svc_Ports tsSvc))
      (buildHTTPRuleFromTrafficSplit (rg_headers (pv_ranges p) (SplitDirect tsKey)) ts tsSvc, t, ?cfg) = (rule', t', cfg')"
    using assms(1)
    by (cases "pc_ACL (pv_config p)")
       (auto simp: buildHTTPServiceAndRoutersForTrafficSplit_def Let_def addToSliceCopy_def, (metis prod.collapse)+)
  from http_split_ports [OF this assms(3,4) _ assms(2)] assms(5) show ?thesis
    unfolding assms(6,7) add_0 by (metis (no_types, lifting))
qed

section \<open>Which router answers\<close>

lemma Count_two_append:
  "s = [] \<or> last s \<noteq> x \<Longrightarrow> Count (s @ u) [x, x] = Count s [x, x] + Count u [x, x]"
proof (induction "length s" arbitrary: s rule: less_induct)
  case less
  show ?case
  proof (cases s)
    case (Cons c cs)
    show ?thesis
    proof (cases "c = x \<and> cs \<noteq> [] \<and> hd cs = x")
      case True
      with less.prems Cons obtain cs' where "s = x # x # cs'" "cs' = [] \<or> last cs' \<noteq> x"
        by (cases cs) (auto split: if_splits)
      with less.hyps [of cs'] show ?thesis by (simp add: Count_Cons)
    next
      case False
      from less.prems Cons have "cs = [] \<or> last cs \<noteq> x" by (auto split: if_splits)
      with less.hyps [of cs] Cons have ih: "Count (cs @ u) [x, x] = Count cs [x, x] + Count u [x, x]" by simp
      from False less.prems Cons have "\<not> HasPrefix (s @ u) [x, x]" "\<not> HasPrefix s [x, x]"
        by (cases cs; auto)+
      with ih Count_Cons [of "[x, x]" c "cs @ u"] Count_Cons [of "[x, x]" c cs] show ?thesis
        unfolding Cons append_Cons by (simp only: if_False not_Cons_self2) simp
    qed
  qed simp
qed

lemma operators_append:
  assumes "s \<noteq> []" "last s \<notin> {CHR ''&'', CHR ''|''}"
  shows "operators (s @ u) = operators s + operators u"
  using assms Count_two_append [of s "CHR ''&''" u] Count_two_append [of s "CHR ''|''" u]
  by (simp add: operators_def)

lemma Count_skip: "c \<noteq> x \<Longrightarrow> Count (c # r) [x, x] = Count r [x, x]"
  by (simp add: Count_Cons)

lemma operators_wrap: "operators (CHR ''('' # r) = operators r"
  by (simp add: operators_def Count_skip)

lemma operators_tail: "operators ('' && '' @ indirectRule) = 1" "operators (CHR '')'' # '' && '' @ indirectRule) = 1"
  by (simp_all add: operators_def indirectRule_def Count_Cons)

lemma service_rule_end: "buildHTTPRuleFromService svc \<noteq> []" "last (buildHTTPRuleFromService svc) = CHR '')''"
  by (simp_all add: buildHTTPRuleFromService_def)

lemma indirect_operators:
  "operators (buildHTTPRuleFromTrafficTargetIndirect cs tt svc) = Suc (operators (buildHTTPRuleFromTrafficTarget cs tt svc))"
  "operators (buildHTTPRuleFromTrafficSplitIndirect cs ts svc) = Suc (operators (buildHTTPRuleFromTrafficSplit cs ts svc))"
proof -
  let ?s = "buildHTTPRuleFromService svc"
  have none: "operators (''('' @ ?s @ '') && '' @ indirectRule) = Suc (operators ?s)"
    using operators_append [of ?s "'') && '' @ indirectRule"] service_rule_end [of svc] operators_tail(2)
    by (simp add: operators_wrap)
  have some: "operators (''('' @ ?s @ '') && ('' @ r @ '') && '' @ indirectRule) =
      Suc (operators (''('' @ ?s @ '') && ('' @ r @ '')''))" for r
    using operators_append [of "''('' @ ?s @ '') && ('' @ r @ '')''" "'' && '' @ indirectRule"] operators_tail(1)
    by simp
  show "operators (buildHTTPRuleFromTrafficTargetIndirect cs tt svc) = Suc (operators (buildHTTPRuleFromTrafficTarget cs tt svc))"
    using none some by (simp add: buildHTTPRuleFromTrafficTargetIndirect_def buildHTTPRuleFromTrafficTarget_def Let_def)
  show "operators (buildHTTPRuleFromTrafficSplitIndirect cs ts svc) = Suc (operators (buildHTTPRuleFromTrafficSplit cs ts svc))"
    using none some by (simp add: buildHTTPRuleFromTrafficSplitIndirect_def buildHTTPRuleFromTrafficSplit_def Let_def)
qed

text \<open>For a request that went through a proxy already, both the direct and the indirect router match.
  The indirect router of a traffic target wins over the direct one, by a whole class and one operator.
  That of a traffic split loses by 999, since it is built in the class of a traffic target's: such a
  request is matched against the whitelist of the direct router.\<close>

theorem indirect_priority:
  "rt_Priority (buildHTTPRouter (buildHTTPRuleFromTrafficTargetIndirect cs tt svc) ep mws key priorityTrafficTargetIndirect) =
     rt_Priority (buildHTTPRouter (buildHTTPRuleFromTrafficTarget cs tt svc) ep' mws' key' priorityTrafficTargetDirect) + 1001
 \<and> rt_Priority (buildHTTPRouter (buildHTTPRuleFromTrafficSplitIndirect cs ts svc) ep mws key priorityTrafficTargetIndirect) =
     rt_Priority (buildHTTPRouter (buildHTTPRuleFromTrafficSplit cs ts svc) ep' mws' key' priorityTrafficSplit) - 999"
  by (simp add: buildHTTPRouter_def getRulePriority_eq indirect_operators)

section \<open>TCP and UDP services\<close>

lemma tcp_service_port_step:
  assumes "tcp_service_port p svc svcKey sp (u, cfg) = (u', cfg')"
  shows "Pods u' = Pods u"
    "buildTCPEntrypoint p svc (sp_Port sp) = Inl e \<Longrightarrow> cfg' = cfg"
    "buildTCPEntrypoint p svc (sp_Port sp) = Inr ep \<Longrightarrow>
       tc_Routers (tcp_conf cfg') = (tc_Routers (tcp_conf cfg))(getServiceRouterKeyFromService svc (sp_Port sp) \<mapsto>
         buildTCPRouter buildTCPRouterRule ep (getServiceRouterKeyFromService svc (sp_Port sp)))
     \<and> tc_Services (tcp_conf cfg') = (tc_Services (tcp_conf cfg))(getServiceRouterKeyFromService svc (sp_Port sp) \<mapsto>
         buildTCPServiceFromService u svc sp)"
  using assms by (auto simp: tcp_service_port_def Let_def split: sum.splits)

lemma tcp_service_ports_frame:
  assumes "fold (tcp_service_port p svc svcKey) sps (u, cfg) = (u', cfg')" "port \<notin> sp_Port ` set sps"
  shows "tc_Routers (tcp_conf cfg') (getServiceRouterKeyFromService svc port) =
           tc_Routers (tcp_conf cfg) (getServiceRouterKeyFromService svc port)
     \<and> tc_Services (tcp_conf cfg') (getServiceRouterKeyFromService svc port) =
           tc_Services (tcp_conf cfg) (getServiceRouterKeyFromService svc port)"
  using assms
proof (induction sps arbitrary: u cfg)
  case (Cons sp sps)
  obtain u1 cfg1 where step: "tcp_service_port p svc svcKey sp (u, cfg) = (u1, cfg1)" by fastforce
  with Cons.prems have "fold (tcp_service_port p svc svcKey) sps (u1, cfg1) = (u', cfg')" by simp
  from Cons.IH [OF this] Cons.prems(2) tcp_service_port_step(2,3) [OF step] show ?case
    by (cases "buildTCPEntrypoint p svc (sp_Port sp)") auto
qed simp

lemma tcp_service_ports:
  assumes "fold (tcp_service_port p svc svcKey) sps (u, cfg) = (u', cfg')"
    and "distinct (map sp_Port sps)" "sp \<in> set sps" "buildTCPEntrypoint p svc (sp_Port sp) = Inr ep" "Pods u = Pods t"
  shows "tc_Routers (tcp_conf cfg') (getServiceRouterKeyFromService svc (sp_Port sp)) =
      Some (buildTCPRouter buildTCPRouterRule ep (getServiceRouterKeyFromService svc (sp_Port sp)))
    \<and> tc_Services (tcp_conf cfg') (getServiceRouterKeyFromService svc (sp_Port sp)) =
      Some (buildTCPServiceFromService t svc sp)"
  using assms
proof (induction sps arbitrary: u cfg)
  case (Cons q sps)
  obtain u1 cfg1 where step: "tcp_service_port p svc svcKey q (u, cfg) = (u1, cfg1)" by fastforce
  with Cons.prems(1) have rest: "fold (tcp_service_port p svc svcKey) sps (u1, cfg1) = (u', cfg')" by simp
  show ?case
  proof (cases "q = sp")
    case True
    then have ep: "buildTCPEntrypoint p svc (sp_Port q) = Inr ep" using Cons.prems(4) by simp
    note head = tcp_service_port_step(3) [OF step ep]
    have "sp_Port sp \<notin> sp_Port ` set sps" using Cons.prems(2) True by simp
    note frame = tcp_service_ports_frame [OF rest this]
    have "buildTCPServiceFromService u svc sp = buildTCPServiceFromService t svc sp"
      unfolding buildTCPServiceFromService_def pod_addresses_cong [OF Cons.prems(5)] ..
    with head frame True show ?thesis by simp
  next
    case False
    have "distinct (map sp_Port sps)" "sp \<in> set sps" "Pods u1 = Pods t"
      using Cons.prems(2,3,5) False tcp_service_port_step(1) [OF step] by simp_all
    from Cons.IH [OF rest this(1,2) Cons.prems(4) this(3)] show ?thesis .
  qed
qed simp

text \<open>Without access control, each port of a TCP service that is mapped to a mesh port gets a router on
  that port's entry point, which sends to exactly the addresses of the service's pods.\<close>

theorem tcp_service_routed:
  assumes "buildServicesAndRoutersForTCPService p svc svcKey (t, cfg) = (t', cfg')"
    and "distinct (map sp_Port (svc_Ports svc))" "sp \<in> set (svc_Ports svc)"
    and "pv_tcpFind p (svc_Namespace svc) (svc_Name svc) (sp_Port sp) = Some meshPort"
  shows "\<exists>servers. tc_Routers (tcp_conf cfg') (getServiceRouterKeyFromService svc (sp_Port sp)) =
      Some (buildTCPRouter ''HostSNI(`*`)'' (''tcp-'' @ itoa32 meshPort) (getServiceRouterKeyFromService svc (sp_Port sp)))
    \<and> tc_Services (tcp_conf cfg') (getServiceRouterKeyFromService svc (sp_Port sp)) = Some (L4LoadBalancer servers)
    \<and> (\<forall>a. a \<in> set servers \<longleftrightarrow> served_by t (svc_Pods svc) sp a)"
proof -
  have "buildTCPEntrypoint p svc (sp_Port sp) = Inr (''tcp-'' @ itoa32 meshPort)"
    using assms(4) by (simp add: buildTCPEntrypoint_def)
  from tcp_service_ports [OF assms(1) [unfolded buildServicesAndRoutersForTCPService_def] assms(2,3) this refl]
  show ?thesis by (simp add: buildTCPServiceFromService_def pod_addresses_iff buildTCPRouterRule_def)
qed

section \<open>An example\<close>

text \<open>A service with two ports and one pod, which is a backend of a split of its own and the destination of
  a traffic target whose source is the pod.\<close>

abbreviation ex_key :: Key where "ex_key \<equiv> Key ''a'' ''n''"
abbreviation ex_stt_key :: STTKey where "ex_stt_key \<equiv> STTKey ex_key (Key ''tt'' ''n'')"

definition ex_port :: "int32 \<Rightarrow> ServicePort" where
  "ex_port port = \<lparr>sp_Name = ''p'', sp_Protocol = ''TCP'', sp_Port = port, sp_TargetPort = FromInt 8080\<rparr>"

definition ex_node :: Service where
  "ex_node = \<lparr>svc_Name = ''a'', svc_Namespace = ''n'', svc_Selector = Map.empty, svc_Annotations = Map.empty,
     svc_Ports = [ex_port 80, ex_port 81], svc_ClusterIP = ''10.0.0.1'', svc_Pods = [Key ''p'' ''n''],
     svc_TrafficTargets = [ex_stt_key], svc_TrafficSplits = [Key ''ts'' ''n''],
     svc_BackendOf = [Key ''ts'' ''n''], svc_Errors = []\<rparr>"

definition ex_stt :: ServiceTrafficTarget where
  "ex_stt = \<lparr>stt_Service = ex_key, stt_Name = ''tt'', stt_Namespace = ''n'',
     stt_Sources = [\<lparr>src_ServiceAccount = ''sa'', src_Namespace = ''n'', src_Pods = [Key ''p'' ''n'']\<rparr>],
     stt_Destination = \<lparr>dst_ServiceAccount = ''sa'', dst_Namespace = ''n'',
       dst_Ports = [ex_port 80, ex_port 81], dst_Pods = [Key ''p'' ''n'']\<rparr>,
     stt_Rules = [], stt_Errors = []\<rparr>"

definition ex_split :: TrafficSplit where
  "ex_split = \<lparr>ts_Name = ''ts'', ts_Namespace = ''n'', ts_Service = ex_key,
     ts_Backends = [\<lparr>tsb_Weight = 1, tsb_Service = ex_key\<rparr>], ts_Rules = [],
     ts_Incoming = [Key ''p'' ''n''], ts_Errors = []\<rparr>"

definition ex_pod_node :: Pod where
  "ex_pod_node = \<lparr>pod_Name = ''p'', pod_Namespace = ''n'', pod_ServiceAccount = ''sa'', pod_OwnerReferences = [],
     pod_ContainerPorts = [], pod_IP = ''10.0.0.2'', pod_SourceOf = [ex_stt_key], pod_DestinationOf = [ex_stt_key]\<rparr>"

definition ex_topology :: Topology where
  "ex_topology = \<lparr>Services = [ex_key \<mapsto> ex_node], Pods = [Key ''p'' ''n'' \<mapsto> ex_pod_node],
     ServiceTrafficTargets = [ex_stt_key \<mapsto> ex_stt], TrafficSplits = [Key ''ts'' ''n'' \<mapsto> ex_split]\<rparr>"

definition ex_provider :: "bool \<Rightarrow> Provider" where
  "ex_provider acl = \<lparr>pv_config = \<lparr>pc_MinHTTPPort = 5000, pc_MaxHTTPPort = 5010, pc_ACL = acl,
       pc_DefaultTrafficType = ''http''\<rparr>,
     pv_tcpFind = (\<lambda>ns n port. Some 10000), pv_udpFind = (\<lambda>ns n port. None),
     pv_buildServiceMiddleware = BuildMiddlewares,
     pv_ranges = as_listed\<rparr>"

lemma ex_topology_wf: "wf_topology ex_topology"
  by (rule wf_topologyI)
     (auto simp: ex_topology_def svc_ok_def pod_ok_def stt_ok_def ts_ok_def backend_ok_def exposes_all_def
       ex_node_def ex_pod_node_def ex_stt_def ex_split_def split: if_splits)

lemma BuildConfig_total_closed_witness:
  "\<exists>t' cfg. BuildConfig (ex_provider True) [ex_key] ex_topology = Some (t', cfg) \<and> same_but_errors ex_topology t'
     \<and> http_refs_ok cfg \<and> l4_refs_ok cfg"
  by (rule BuildConfig_total_closed [OF ex_topology_wf]) (simp add: ex_provider_def)

lemma ex_entrypoints:
  "buildHTTPEntrypoint (ex_provider acl) 0 = Inr (''http-'' @ itoa32 5000)"
  "buildHTTPEntrypoint (ex_provider acl) (Suc 0) = Inr (''http-'' @ itoa32 5001)"
  by (simp_all add: buildHTTPEntrypoint_def ex_provider_def Let_def)

lemma http_service_routed_witness:
  "\<exists>servers. hc_Services (cf_HTTP (snd (buildServicesAndRoutersForHTTPService (ex_provider False) ex_node ''http'' []
      ex_key (ex_topology, NewDefaultDynamicConfig))))
      (getServiceRouterKeyFromService ex_node 81) = Some (LoadBalancer servers True)"
proof -
  obtain t' cfg' where r: "buildServicesAndRoutersForHTTPService (ex_provider False) ex_node ''http'' []
      ex_key (ex_topology, NewDefaultDynamicConfig) = (t', cfg')" by fastforce
  have "distinct (map sp_Port (svc_Ports ex_node))" "Suc 0 < length (svc_Ports ex_node)"
    by (simp_all add: ex_node_def ex_port_def)
  from http_service_routed [OF r this ex_entrypoints(2)] r show ?thesis
    by (auto simp: ex_node_def ex_port_def)
qed

lemma http_target_routed_witness:
  "map_option rt_Rule (hc_Routers (cf_HTTP (snd (buildHTTPServicesAndRoutersForTrafficTarget (ex_provider True) ex_stt
      ex_node ex_stt_key ''http'' [] (ex_topology, NewDefaultDynamicConfig))))
      (getRouterKeyFromTrafficTargetDirect ex_stt 81)) = Some (buildHTTPRuleFromTrafficTargetIndirect (\<lambda>i. []) ex_stt ex_node)"
proof -
  obtain t' cfg' where r: "buildHTTPServicesAndRoutersForTrafficTarget (ex_provider True) ex_stt
      ex_node ex_stt_key ''http'' [] (ex_topology, NewDefaultDynamicConfig) = (t', cfg')" by fastforce
  have 1: "distinct (map sp_Port (dst_Ports (stt_Destination ex_stt)))" "Suc 0 < length (dst_Ports (stt_Destination ex_stt))"
    by (simp_all add: ex_stt_def ex_port_def)
  have "sp_Port (dst_Ports (stt_Destination ex_stt) ! Suc 0) = 81" "svc_BackendOf ex_node \<noteq> []"
    "rg_headers (pv_ranges (ex_provider True)) = (\<lambda>site i. [])"
    by (simp_all add: ex_stt_def ex_port_def ex_node_def ex_provider_def as_listed_def)
  with http_target_routed [OF r 1 ex_entrypoints(2) refl refl] ex_entrypoints(1) [of True] r show ?thesis
    by (simp add: buildHTTPRouter_def)
qed

lemma http_split_routed_witness:
  "map_option rt_Rule (hc_Routers (cf_HTTP (snd (buildHTTPServiceAndRoutersForTrafficSplit (ex_provider True)
      (Key ''ts'' ''n'') ''http'' ex_split ex_node [] (ex_topology, NewDefaultDynamicConfig))))
      (getRouterKeyFromTrafficSplitDirect ex_split 81)) = Some (buildHTTPRuleFromTrafficSplitIndirect (\<lambda>i. []) ex_split ex_node)"
proof -
  obtain t' cfg' where r: "buildHTTPServiceAndRoutersForTrafficSplit (ex_provider True)
      (Key ''ts'' ''n'') ''http'' ex_split ex_node [] (ex_topology, NewDefaultDynamicConfig) = (t', cfg')" by fastforce
  have 1: "\<forall>b\<in>set (ts_Backends ex_split). Services ex_topology (tsb_Service b) \<noteq> None"
    "distinct (map sp_Port (svc_Ports ex_node))" "Suc 0 < length (svc_Ports ex_node)"
    by (simp_all add: ex_node_def ex_port_def ex_split_def ex_topology_def)
  have "sp_Port (svc_Ports ex_node ! Suc 0) = 81" "svc_BackendOf ex_node \<noteq> []" "pc_ACL (pv_config (ex_provider True))"
    "rg_headers (pv_ranges (ex_provider True)) = (\<lambda>site i. [])"
    by (simp_all add: ex_port_def ex_node_def ex_provider_def as_listed_def)
  with http_split_routed [OF r 1 ex_entrypoints(2) refl refl] ex_entrypoints(1) [of True] r show ?thesis
    by (simp add: buildHTTPRouter_def)
qed

lemma tcp_service_routed_witness:
  "\<exists>servers. tc_Services (tcp_conf (snd (buildServicesAndRoutersForTCPService (ex_provider False) ex_node ex_key
      (ex_topology, NewDefaultDynamicConfig)))) (getServiceRouterKeyFromService ex_node 80) = Some (L4LoadBalancer servers)"
proof -
  obtain t' cfg' where r: "buildServicesAndRoutersForTCPService (ex_provider False) ex_node ex_key
      (ex_topology, NewDefaultDynamicConfig) = (t', cfg')" by fastforce
  have 1: "distinct (map sp_Port (svc_Ports ex_node))" "ex_port 80 \<in> set (svc_Ports ex_node)"
    "pv_tcpFind (ex_provider False) (svc_Namespace ex_node) (svc_Name ex_node) (sp_Port (ex_port 80)) = Some 10000"
    by (simp_all add: ex_node_def ex_port_def ex_provider_def)
  from tcp_service_routed [OF r 1] r show ?thesis by (auto simp: ex_port_def)
qed

text \<open>With access control a service that no target names is closed.\<close>

definition closed_node :: Service where
  "closed_node = ex_node\<lparr>svc_Ports := [ex_port 80], svc_TrafficTargets := [], svc_TrafficSplits := [], svc_BackendOf := []\<rparr>"

definition closed_topology :: Topology where
  "closed_topology = \<lparr>Services = [ex_key \<mapsto> closed_node], Pods = [Key ''p'' ''n'' \<mapsto>
       ex_pod_node\<lparr>pod_SourceOf := [], pod_DestinationOf := []\<rparr>],
     ServiceTrafficTargets = Map.empty, TrafficSplits = Map.empty\<rparr>"

lemma closed_topology_wf: "wf_topology closed_topology"
  by (rule wf_topologyI)
     (auto simp: closed_topology_def closed_node_def svc_ok_def pod_ok_def ex_node_def ex_pod_node_def split: if_splits)

lemma no_middlewares: "BuildMiddlewares Map.empty = Inr []"
  by (simp add: BuildMiddlewares_def builder_defs getter_defs)

lemma closed_built:
  "\<exists>cfg r. BuildConfig (ex_provider True) [ex_key] closed_topology = Some (closed_topology, cfg)
     \<and> hc_Routers (cf_HTTP cfg) (getServiceRouterKeyFromService closed_node 80) = Some r"
proof -
  have fields: "svc_Annotations closed_node = Map.empty" "svc_Ports closed_node = [ex_port 80]"
    "svc_TrafficTargets closed_node = []" "svc_TrafficSplits closed_node = []" "sp_Port (ex_port 80) = 80"
    "Services closed_topology ex_key = Some closed_node" "pc_ACL (pv_config (ex_provider True))"
    "pv_buildServiceMiddleware (ex_provider True) = BuildMiddlewares"
    "pc_DefaultTrafficType (pv_config (ex_provider True)) = ''http''"
    by (simp_all add: closed_node_def ex_node_def closed_topology_def ex_port_def ex_provider_def)
  show ?thesis
    by (simp add: Let_def BuildConfig_def config_step_def buildConfigForService_def GetTrafficType_def GetScheme_def fields
        buildMiddlewaresForConfigFromService_def no_middlewares buildACLConfigRoutersAndServices_def
        buildBlockAllRouters_def block_all_port_def ex_entrypoints)
qed

lemma BuildConfig_access_control_witness:
  "\<exists>cfg m mw. BuildConfig (ex_provider True) [ex_key] closed_topology = Some (closed_topology, cfg)
     \<and> hc_Middlewares (cf_HTTP cfg) m = Some mw \<and> authentic closed_topology m mw"
proof -
  obtain cfg r where b: "BuildConfig (ex_provider True) [ex_key] closed_topology = Some (closed_topology, cfg)"
    "hc_Routers (cf_HTTP cfg) (getServiceRouterKeyFromService closed_node 80) = Some r"
    using closed_built by blast
  have p: "pv_buildServiceMiddleware (ex_provider True) = BuildMiddlewares" "pc_ACL (pv_config (ex_provider True))"
    "getServiceRouterKeyFromService closed_node 80 \<noteq> ''readiness''"
    by (simp_all add: ex_provider_def getServiceRouterKeyFromService_def closed_node_def ex_node_def)
  from BuildConfig_access_control [OF closed_topology_wf p(1,2) b p(3)] b(1) show ?thesis by blast
qed

end
