(* ===== verification/Api.thy ===== *)
theory Api
  imports Provider
begin

text \<open>
  \<open>pkg/api/api.go\<close> and \<open>pkg/safe/safe.go\<close>: the state the controller shares and the handlers that serve
  it. A \<open>Safe\<close> is a value behind a lock; its operations are atomic. The router, the pod lister, the
  HTTP client and whether a JSON body can be written are arguments. Headers are not modelled.
\<close>

section \<open>Safe values\<close>

datatype 'a Safe = Safe (Safe_Get: 'a)

definition Safe_New :: "'a \<Rightarrow> 'a Safe" where "Safe_New v = Safe v"

definition Safe_Set :: "'a \<Rightarrow> 'a Safe \<Rightarrow> 'a Safe" where "Safe_Set v s = Safe v"

section \<open>The shared store\<close>

record API =
  api_readiness :: "bool Safe"
  api_configuration :: "Configuration Safe"
  api_topology :: "Topology Safe"
  api_namespace :: string

text \<open>\<open>synced\<close> are the answers of \<open>WaitForCacheSync\<close>; a missing answer is a timeout error.\<close>

definition NewAPI :: "bool list \<Rightarrow> string \<Rightarrow> API option" where
  "NewAPI synced ns =
     (if list_all id synced then
        Some \<lparr>api_readiness = Safe_New False, api_configuration = Safe_New NewDefaultDynamicConfig,
          api_topology = Safe_New NewTopology, api_namespace = ns\<rparr>
      else None)"

definition SetReadiness :: "bool \<Rightarrow> API \<Rightarrow> API" where
  "SetReadiness isReady a = a\<lparr>api_readiness := Safe_Set isReady (api_readiness a)\<rparr>"

definition SetConfig :: "Configuration \<Rightarrow> API \<Rightarrow> API" where
  "SetConfig cfg a = a\<lparr>api_configuration := Safe_Set cfg (api_configuration a)\<rparr>"

definition SetTopology :: "Topology \<Rightarrow> API \<Rightarrow> API" where
  "SetTopology topo a = a\<lparr>api_topology := Safe_Set topo (api_topology a)\<rparr>"

lemma Safe_Get_simps [simp]: "Safe_Get (Safe_New v) = v" "Safe_Get (Safe_Set v s) = v"
  by (simp_all add: Safe_New_def Safe_Set_def)

section \<open>The contract of the shared store\<close>

text \<open>\<open>SharedStore\<close> of \<open>controller.go\<close>: the controller writes, the handlers read; a write shows in what
  it is about and in nothing else.\<close>

locale shared_store =
  fixes set_config :: "'c \<Rightarrow> 's \<Rightarrow> 's"
    and set_topology :: "'t \<Rightarrow> 's \<Rightarrow> 's"
    and set_readiness :: "bool \<Rightarrow> 's \<Rightarrow> 's"
    and get_config :: "'s \<Rightarrow> 'c"
    and get_topology :: "'s \<Rightarrow> 't"
    and get_readiness :: "'s \<Rightarrow> bool"
  assumes config_laws: "get_config (set_config c s) = c" "get_topology (set_config c s) = get_topology s"
      "get_readiness (set_config c s) = get_readiness s"
    and topology_laws: "get_topology (set_topology t s) = t" "get_config (set_topology t s) = get_config s"
      "get_readiness (set_topology t s) = get_readiness s"
    and readiness_laws: "get_readiness (set_readiness b s) = b" "get_config (set_readiness b s) = get_config s"
      "get_topology (set_readiness b s) = get_topology s"
begin

lemmas laws = config_laws topology_laws readiness_laws

text \<open>What the worker publishes is what is read, topology and configuration together, and publishing
  does not touch the readiness.\<close>

lemma published:
  "get_config (set_config c (set_topology t s)) = c" "get_topology (set_config c (set_topology t s)) = t"
  "get_readiness (set_config c (set_topology t s)) = get_readiness s"
  by (simp_all add: laws)

end

interpretation store: shared_store SetConfig SetTopology SetReadiness
  "\<lambda>a. Safe_Get (api_configuration a)" "\<lambda>a. Safe_Get (api_topology a)" "\<lambda>a. Safe_Get (api_readiness a)"
  by unfold_locales (simp_all add: SetConfig_def SetTopology_def SetReadiness_def)

section \<open>Handlers\<close>

record podInfo =
  pi_Name :: string
  pi_IP :: string
  pi_Ready :: bool

record MeshPod =
  mp_Name :: string
  mp_PodIP :: string
  mp_ContainerReady :: "bool list"

datatype body = EmptyBody | ConfigBody Configuration | TopologyBody Topology | ReadyBody bool | NodesBody "podInfo list" | RawBody string

type_synonym response = "nat \<times> body"

abbreviation StatusOK :: nat where "StatusOK \<equiv> 200"
abbreviation StatusNotFound :: nat where "StatusNotFound \<equiv> 404"
abbreviation StatusInternalServerError :: nat where "StatusInternalServerError \<equiv> 500"
abbreviation StatusBadGateway :: nat where "StatusBadGateway \<equiv> 502"

text \<open>\<open>encodes\<close> tells whether the encoder writes a body.\<close>

definition respond :: "(body \<Rightarrow> bool) \<Rightarrow> body \<Rightarrow> response" where
  "respond encodes b = (if encodes b then (StatusOK, b) else (StatusInternalServerError, EmptyBody))"

definition getCurrentConfiguration :: "(body \<Rightarrow> bool) \<Rightarrow> API \<Rightarrow> response" where
  "getCurrentConfiguration encodes a = respond encodes (ConfigBody (Safe_Get (api_configuration a)))"

definition getCurrentTopology :: "(body \<Rightarrow> bool) \<Rightarrow> API \<Rightarrow> response" where
  "getCurrentTopology encodes a = respond encodes (TopologyBody (Safe_Get (api_topology a)))"

definition getReadiness :: "(body \<Rightarrow> bool) \<Rightarrow> API \<Rightarrow> response" where
  "getReadiness encodes a =
     (let isReady = Safe_Get (api_readiness a) in
      if \<not> isReady then (StatusInternalServerError, EmptyBody) else respond encodes (ReadyBody isReady))"

fun all_ready :: "bool list \<Rightarrow> bool" where
  "all_ready [] = True"
| "all_ready (ready # statuses) = (if \<not> ready then False else all_ready statuses)"

definition getMeshNodes :: "(body \<Rightarrow> bool) \<Rightarrow> MeshPod list option \<Rightarrow> response" where
  "getMeshNodes encodes podList =
     (case podList of
        None \<Rightarrow> (StatusInternalServerError, EmptyBody)
      | Some pods \<Rightarrow> respond encodes (NodesBody (map (\<lambda>pod.
          \<lparr>pi_Name = mp_Name pod, pi_IP = mp_PodIP pod, pi_Ready = all_ready (mp_ContainerReady pod)\<rparr>) pods)))"

datatype pod_lookup = PodFound MeshPod | PodNotFound | PodError

text \<open>\<open>http_get\<close> is \<open>http.Get\<close> and reading the body: \<open>None\<close> when either fails.\<close>

definition getMeshNodeConfiguration ::
  "(body \<Rightarrow> bool) \<Rightarrow> (string \<Rightarrow> string \<Rightarrow> pod_lookup) \<Rightarrow> (string \<Rightarrow> string option) \<Rightarrow> API \<Rightarrow> string \<Rightarrow> response" where
  "getMeshNodeConfiguration writes lister http_get a node =
     (case lister (api_namespace a) node of
        PodNotFound \<Rightarrow> (StatusNotFound, EmptyBody)
      | PodError \<Rightarrow> (StatusInternalServerError, EmptyBody)
      | PodFound pod \<Rightarrow>
          (case http_get (''http://'' @ mp_PodIP pod @ '':8080/api/rawdata'') of
             None \<Rightarrow> (StatusBadGateway, EmptyBody)
           | Some content \<Rightarrow> respond writes (RawBody content)))"

lemma all_ready_iff: "all_ready statuses \<longleftrightarrow> (\<forall>ready\<in>set statuses. ready)"
  by (induction statuses) auto

text \<open>The status endpoint calls a pod ready exactly when all of its containers are.\<close>

lemma getMeshNodes_ready:
  "getMeshNodes encodes (Some pods) = respond encodes (NodesBody (map (\<lambda>pod. \<lparr>pi_Name = mp_Name pod,
      pi_IP = mp_PodIP pod, pi_Ready = (\<forall>ready\<in>set (mp_ContainerReady pod). ready)\<rparr>) pods))"
  by (simp add: getMeshNodes_def all_ready_iff)

section \<open>The pods of the mesh\<close>

text \<open>\<open>NewAPI\<close> starts the informer behind the pod lister with the \<open>Done\<close> channel of a context that it cancels
  when it returns. An informer follows the cluster until its channel is closed.\<close>

record PodInformer =
  in_cache :: "MeshPod list"
  in_stopped :: bool

definition NewAPI_informer :: "MeshPod list \<Rightarrow> PodInformer" where
  "NewAPI_informer pods = (let started = \<lparr>in_cache = pods, in_stopped = False\<rparr> in started\<lparr>in_stopped := True\<rparr>)"

definition follows :: "PodInformer \<Rightarrow> MeshPod list \<Rightarrow> PodInformer" where
  "follows i pods = (if in_stopped i then i else i\<lparr>in_cache := pods\<rparr>)"

text \<open>So the status endpoint answers with the pods there were when the API was made, however they change.\<close>

lemma mesh_nodes_frozen:
  "getMeshNodes encodes (Some (in_cache (foldl follows (NewAPI_informer pods) changes))) = getMeshNodes encodes (Some pods)"
proof -
  have "foldl follows i changes = i" if "in_stopped i" for i
    using that by (induction changes) (simp_all add: follows_def)
  then show ?thesis by (simp add: NewAPI_informer_def)
qed

end
