(* ===== verification/Controller.thy ===== *)
theory Controller
  imports ResourceFilter Build ShadowService ConfigInvariant Api
begin

text \<open>
  \<open>pkg/controller/controller.go\<close> and \<open>handler.go\<close>: the controller's state, the handlers of cluster
  events, and the worker that takes keys from the work queue, keeps the shadow service in sync, builds
  topology and configuration and publishes them. The informers, the listers and the API server are
  answers collected in an environment; the work queue belongs to client-go, so the calls made to it are
  part of a step's result. \<open>None\<close> is a step that panics or does not return.
\<close>

section \<open>The controller\<close>

record ControllerConfig =
  ACLEnabled :: bool
  DefaultMode :: string
  cc_Namespace :: string
  cc_WatchNamespaces :: "string list"
  cc_IgnoreNamespaces :: "string list"
  cc_MinHTTPPort :: int32
  cc_MaxHTTPPort :: int32
  cc_MinTCPPort :: int32
  cc_MaxTCPPort :: int32
  cc_MinUDPPort :: int32
  cc_MaxUDPPort :: int32

record Controller =
  ct_stopped :: bool
  ct_cfg :: ControllerConfig
  ct_manager :: ShadowServiceManager
  ct_resourceFilter :: ResourceFilter
  ct_store :: API

text \<open>The ports of \<open>cmd/mesh/mesh.go\<close>: 32-bit sums.\<close>

definition getMaxPort :: "int32 \<Rightarrow> int32 \<Rightarrow> int32" where
  "getMaxPort lo limit = lo + limit - 1"

definition mesh_config ::
  "bool \<Rightarrow> bool \<Rightarrow> string \<Rightarrow> string \<Rightarrow> string list \<Rightarrow> string list \<Rightarrow> int32 \<Rightarrow> int32 \<Rightarrow> int32 \<Rightarrow> ControllerConfig" where
  "mesh_config acl smi defaultMode ns watch ignore limitHTTP limitTCP limitUDP =
     \<lparr>ACLEnabled = acl \<or> smi, DefaultMode = defaultMode, cc_Namespace = ns, cc_WatchNamespaces = watch,
      cc_IgnoreNamespaces = ignore,
      cc_MinHTTPPort = 5000, cc_MaxHTTPPort = getMaxPort 5000 limitHTTP,
      cc_MinTCPPort = 10000, cc_MaxTCPPort = getMaxPort 10000 limitTCP,
      cc_MinUDPPort = 15000, cc_MaxUDPPort = getMaxPort 15000 limitUDP\<rparr>"

definition NewShadowServiceManager ::
  "string \<Rightarrow> PortMapping \<Rightarrow> PortMapping \<Rightarrow> string \<Rightarrow> int32 \<Rightarrow> int32 \<Rightarrow> ShadowServiceManager" where
  "NewShadowServiceManager ns tcp udp trafficType mn mx =
     \<lparr>sm_namespace = ns, tcpStateTable = tcp, udpStateTable = udp, defaultTrafficType = trafficType,
      minHTTPPort = mn, maxHTTPPort = mx\<rparr>"

definition controller_filter :: "ControllerConfig \<Rightarrow> ResourceFilter" where
  "controller_filter cfg = NewResourceFilter
     [WatchNamespaces (cc_WatchNamespaces cfg), IgnoreNamespaces (cc_IgnoreNamespaces cfg),
      IgnoreNamespaces [''kube-system''], IgnoreService ''default'' ''kubernetes'', IgnoreApps [''maesh'', ''jaeger'']]"

definition NewMeshController :: "ControllerConfig \<Rightarrow> API \<Rightarrow> Controller" where
  "NewMeshController cfg store =
     \<lparr>ct_stopped = False, ct_cfg = cfg,
      ct_manager = NewShadowServiceManager (cc_Namespace cfg)
        (NewPortMapping (cc_Namespace cfg) (cc_MinTCPPort cfg) (cc_MaxTCPPort cfg))
        (NewPortMapping (cc_Namespace cfg) (cc_MinUDPPort cfg) (cc_MaxUDPPort cfg))
        (DefaultMode cfg) (cc_MinHTTPPort cfg) (cc_MaxHTTPPort cfg),
      ct_resourceFilter = controller_filter cfg, ct_store = store\<rparr>"

text \<open>The provider holds the same tables as the shadow service manager, by reference. \<open>choices\<close> are the orders
  of its next build.\<close>

definition provider_of :: "ranges \<Rightarrow> Controller \<Rightarrow> Provider" where
  "provider_of choices c =
     \<lparr>pv_config = \<lparr>pc_MinHTTPPort = cc_MinHTTPPort (ct_cfg c), pc_MaxHTTPPort = cc_MaxHTTPPort (ct_cfg c),
        pc_ACL = ACLEnabled (ct_cfg c), pc_DefaultTrafficType = DefaultMode (ct_cfg c)\<rparr>,
      pv_tcpFind = Find (tcpStateTable (ct_manager c)), pv_udpFind = Find (udpStateTable (ct_manager c)),
      pv_buildServiceMiddleware = BuildMiddlewares, pv_ranges = choices\<rparr>"

section \<open>Starting and stopping\<close>

datatype start_error = EStartInformers | ELoadTCP mesh_error | ELoadUDP mesh_error

text \<open>\<open>all_synced\<close> is one range over the answers of \<open>WaitForCacheSync\<close>.\<close>

fun all_synced :: "bool list \<Rightarrow> bool" where
  "all_synced [] = True"
| "all_synced (ok # oks) = (if \<not> ok then False else all_synced oks)"

record informers =
  if_kubernetes :: "bool list"
  if_split :: "bool list"
  if_specs :: "bool list"
  if_access :: "bool list"

definition startBaseInformers :: "informers \<Rightarrow> bool" where
  "startBaseInformers i =
     (if \<not> all_synced (if_kubernetes i) then False
      else if \<not> all_synced (if_split i) then False
      else all_synced (if_specs i))"

definition startACLInformers :: "informers \<Rightarrow> bool" where
  "startACLInformers i = all_synced (if_access i)"

definition startInformers :: "informers \<Rightarrow> Controller \<Rightarrow> bool" where
  "startInformers i c =
     (if \<not> startBaseInformers i then False
      else if ACLEnabled (ct_cfg c) then startACLInformers i else True)"

text \<open>The two listings of shadow services may differ; \<open>None\<close> is an error of the lister.\<close>

definition loadPortMappersState ::
  "KService list option \<Rightarrow> KService list option \<Rightarrow> Controller \<Rightarrow> Controller \<times> start_error option" where
  "loadPortMappersState tcpShadows udpShadows c =
     (let m = ct_manager c; (tcp, tcpErr) = LoadState tcpShadows (tcpStateTable m);
          c1 = c\<lparr>ct_manager := m\<lparr>tcpStateTable := tcp\<rparr>\<rparr>
      in case tcpErr of
           Some err \<Rightarrow> (c1, Some (ELoadTCP err))
         | None \<Rightarrow>
             (let (udp, udpErr) = LoadState udpShadows (udpStateTable m)
              in (c1\<lparr>ct_manager := (ct_manager c1)\<lparr>udpStateTable := udp\<rparr>\<rparr>, map_option ELoadUDP udpErr)))"

text \<open>\<open>Run\<close> up to the start of the worker.\<close>

definition Run_start ::
  "informers \<Rightarrow> KService list option \<Rightarrow> KService list option \<Rightarrow> Controller \<Rightarrow> Controller \<times> start_error option" where
  "Run_start i tcpShadows udpShadows c =
     (if \<not> startInformers i c then (c, Some EStartInformers)
      else case loadPortMappersState tcpShadows udpShadows c of
        (c1, Some err) \<Rightarrow> (c1, Some err)
      | (c1, None) \<Rightarrow> (c1\<lparr>ct_store := SetReadiness True (ct_store c1)\<rparr>, None))"

definition Shutdown :: "Controller \<Rightarrow> Controller" where
  "Shutdown c = (if ct_stopped c then c else c\<lparr>ct_stopped := True\<rparr>)"

section \<open>The work queue and the event handlers\<close>

datatype queue_call = QAdd string | QAddRateLimited string | QForget string | QDone string

definition configRefreshKey :: string where "configRefreshKey = ''refresh''"

definition maxRetries :: nat where "maxRetries = 12"

text \<open>\<open>keyFunc\<close> is \<open>cache.MetaNamespaceKeyFunc\<close>.\<close>

definition enqueueWork :: "(ObjectMeta \<Rightarrow> string option) \<Rightarrow> Object \<Rightarrow> queue_call list" where
  "enqueueWork keyFunc obj =
     (case obj of
        ServiceObj svc \<Rightarrow> (case keyFunc (ks_meta svc) of None \<Rightarrow> [] | Some key \<Rightarrow> [QAdd key])
      | _ \<Rightarrow> [QAdd configRefreshKey])"

definition OnAdd :: "(ObjectMeta \<Rightarrow> string option) \<Rightarrow> Object \<Rightarrow> queue_call list" where
  "OnAdd keyFunc obj = enqueueWork keyFunc obj"

definition OnUpdate :: "(ObjectMeta \<Rightarrow> string option) \<Rightarrow> Object \<Rightarrow> Object \<Rightarrow> queue_call list" where
  "OnUpdate keyFunc oldObj newObj =
     (case (Accessor oldObj, Accessor newObj) of
        (Some oldMeta, Some newMeta) \<Rightarrow>
          if om_ResourceVersion oldMeta = om_ResourceVersion newMeta then [] else enqueueWork keyFunc newObj
      | _ \<Rightarrow> enqueueWork keyFunc newObj)"

definition OnDelete :: "(ObjectMeta \<Rightarrow> string option) \<Rightarrow> Object \<Rightarrow> queue_call list" where
  "OnDelete keyFunc obj = enqueueWork keyFunc obj"

definition isWatchedResource :: "Controller \<Rightarrow> Object \<Rightarrow> bool" where
  "isWatchedResource c obj = (\<not> IsIgnored (ct_resourceFilter c) obj)"

section \<open>The worker\<close>

datatype sync_error = EInvalidKey string | EGetService | ESync mesh_error | EApiServer

text \<open>
  What the worker meets outside while it works on one key: \<open>cache.SplitMetaNamespaceKey\<close>, the service
  lister, the server version check, the answers of the API server, what the topology builder lists, and the
  orders of the map iterations of the builder and the provider. \<open>env_fuel\<close> bounds the recursion of the builder.
\<close>

record env =
  env_splitKey :: "string \<Rightarrow> (string \<times> string) option"
  env_services :: "string \<Rightarrow> string \<Rightarrow> lookup"
  env_topologyKeys :: bool
  env_accepts :: "api_call \<Rightarrow> bool"
  env_cluster :: cluster
  env_schedule :: schedule
  env_order :: "Key list"
  env_ranges :: ranges
  env_fuel :: nat

text \<open>The second component is the call made to the API server, if any.\<close>

definition syncShadowService ::
  "env \<Rightarrow> string \<Rightarrow> Controller \<Rightarrow> (Controller \<times> api_call option \<times> sync_error option) option" where
  "syncShadowService e key c =
     (case env_splitKey e key of
        None \<Rightarrow> Some (c, None, Some (EInvalidKey key))
      | Some (ns, n) \<Rightarrow>
          (let m = ct_manager c; shadow = env_services e (sm_namespace m) (shadow_name m ns n) in
           case env_services e ns n of
             NotFound \<Rightarrow>
               (case Delete_shadow shadow ns n m of
                  (m', Inl err) \<Rightarrow> Some (c\<lparr>ct_manager := m'\<rparr>, None, Some (ESync err))
                | (m', Inr None) \<Rightarrow> Some (c\<lparr>ct_manager := m'\<rparr>, None, None)
                | (m', Inr (Some call)) \<Rightarrow>
                    Some (c\<lparr>ct_manager := m'\<rparr>, Some call, if env_accepts e call then None else Some EApiServer))
           | LookupError \<Rightarrow> Some (c, None, Some EGetService)
           | Found svc \<Rightarrow>
               map_option (\<lambda>(m', r). case r of
                   Inl err \<Rightarrow> (c\<lparr>ct_manager := m'\<rparr>, None, Some (ESync err))
                 | Inr call \<Rightarrow>
                     (c\<lparr>ct_manager := m'\<rparr>, Some call, if env_accepts e call then None else Some EApiServer))
                 (CreateOrUpdate shadow (env_topologyKeys e) svc m)))"

definition handleErr :: "nat \<Rightarrow> string \<Rightarrow> queue_call list" where
  "handleErr numRequeues key =
     (if numRequeues < maxRetries then [QAddRateLimited key] else [QForget key])"

text \<open>\<open>numRequeues\<close> is what \<open>NumRequeues(key)\<close> answers.\<close>

definition buildAndStore :: "env \<Rightarrow> nat \<Rightarrow> string \<Rightarrow> Controller \<Rightarrow> (Controller \<times> queue_call list) option" where
  "buildAndStore e numRequeues key c =
     (case Build_topology (env_fuel e) (env_schedule e) (env_cluster e) (ct_resourceFilter c) of
        None \<Rightarrow> None
      | Some (Inl err) \<Rightarrow> Some (c, handleErr numRequeues key)
      | Some (Inr topo) \<Rightarrow>
          map_option (\<lambda>(topo', conf).
              (c\<lparr>ct_store := SetConfig conf (SetTopology topo' (ct_store c))\<rparr>, [QForget key]))
            (BuildConfig (provider_of (env_ranges e) c) (env_order e) topo))"

definition processNextWorkItem :: "env \<Rightarrow> nat \<Rightarrow> string \<Rightarrow> Controller \<Rightarrow> (Controller \<times> queue_call list) option" where
  "processNextWorkItem e numRequeues key c =
     map_option (\<lambda>(c', calls). (c', calls @ [QDone key]))
       (if key \<noteq> configRefreshKey then
          (case syncShadowService e key c of
             None \<Rightarrow> None
           | Some (c1, _, Some err) \<Rightarrow> Some (c1, handleErr numRequeues key)
           | Some (c1, _, None) \<Rightarrow> buildAndStore e numRequeues key c1)
        else buildAndStore e numRequeues key c)"

section \<open>Runs\<close>

text \<open>
  A run interleaves watched events and work; the worker is given a key that was added before.
  \<open>numRequeues\<close> maps the calls made so far to what \<open>NumRequeues\<close> answers for a key, \<open>valid\<close> tells which
  environments the worker may meet.
\<close>

definition queued :: "queue_call list \<Rightarrow> string \<Rightarrow> bool" where
  "queued calls key \<longleftrightarrow> QAdd key \<in> set calls \<or> QAddRateLimited key \<in> set calls"

inductive run ::
  "(queue_call list \<Rightarrow> string \<Rightarrow> nat) \<Rightarrow> (ObjectMeta \<Rightarrow> string option) \<Rightarrow> (env \<Rightarrow> bool) \<Rightarrow>
     Controller \<Rightarrow> Controller \<Rightarrow> queue_call list \<Rightarrow> bool"
  for numRequeues :: "queue_call list \<Rightarrow> string \<Rightarrow> nat" and keyFunc :: "ObjectMeta \<Rightarrow> string option"
    and valid :: "env \<Rightarrow> bool" and c0 :: Controller
where
  start: "run numRequeues keyFunc valid c0 c0 []"
| event: "run numRequeues keyFunc valid c0 c calls \<Longrightarrow> isWatchedResource c obj \<Longrightarrow>
     new \<in> {OnAdd keyFunc obj, OnUpdate keyFunc old obj, OnDelete keyFunc obj} \<Longrightarrow>
     run numRequeues keyFunc valid c0 c (calls @ new)"
| work: "run numRequeues keyFunc valid c0 c calls \<Longrightarrow> valid e \<Longrightarrow> queued calls key \<Longrightarrow>
     processNextWorkItem e (numRequeues calls key) key c = Some (c', new) \<Longrightarrow>
     run numRequeues keyFunc valid c0 c' (calls @ new)"

end
