(* ===== verification/ControllerInvariant.thy ===== *)
theory ControllerInvariant
  imports Controller
begin

text \<open>
  What holds of every running controller: an item of work always ends, the published configuration is
  sound, mesh ports are not stolen, retries are bounded, the mesh does not react to its own writes, and
  readiness means that the start succeeded. The last section is a small installation for the witnesses.
\<close>

section \<open>What the manager keeps\<close>

definition port_range :: "PortMapping \<Rightarrow> int32 \<times> int32" where
  "port_range p = (minPort p, maxPort p)"

definition manager_config :: "ShadowServiceManager \<Rightarrow> (string \<times> string) \<times> (int32 \<times> int32) \<times> (int32 \<times> int32) \<times> int32 \<times> int32" where
  "manager_config s = ((sm_namespace s, defaultTrafficType s), (minHTTPPort s, maxHTTPPort s),
     port_range (tcpStateTable s), port_range (udpStateTable s))"

lemma port_range_keeps:
  "Add p ns n port = Some (p', r) \<Longrightarrow> port_range p' = port_range p"
  "port_range (fst (Remove p ns n port)) = port_range p"
  by (auto simp: Add_def Remove_def port_range_def split: option.splits)

lemma getMappedPort_range:
  "getMappedPort Find Add p n ns port = Some (p', r) \<Longrightarrow> port_range p' = port_range p"
  by (auto simp: getMappedPort_def port_range_keeps split: option.splits)

lemma getTargetPort_config:
  "getTargetPort s tt i n ns port = Some (s', r) \<Longrightarrow> manager_config s' = manager_config s"
  by (auto simp: getTargetPort_def manager_config_def getMappedPort_range split: if_splits)

lemma shadow_ports_config:
  "shadow_ports s tt i n ns sps = Some (s', ports) \<Longrightarrow> manager_config s' = manager_config s"
proof (induction sps arbitrary: s i ports)
  case (Cons sp sps)
  from Cons.prems show ?case
    by (auto split: if_splits option.splits sum.splits simp: Cons.IH getTargetPort_config)
qed simp

abbreviation distinct_ports :: "KService \<Rightarrow> bool" where
  "distinct_ports svc \<equiv> distinct (map (\<lambda>sp. (sp_Port sp, sp_Protocol sp)) (ks_Ports svc))"

lemma remove_config:
  "manager_config (fold (removeServicePortMapping ns n) sps s) = manager_config s"
  by (rule fold_invariant_rule) (simp_all add: removeServicePortMapping_def manager_config_def port_range_keeps)

lemma remove_many_keeps:
  "manager_ok s \<Longrightarrow> manager_ok (fold (removeServicePortMapping ns n) sps s)
     \<and> manager_config (fold (removeServicePortMapping ns n) sps s) = manager_config s"
  using remove_many [of s ns n sps] remove_config by simp

lemma getShadowServicePorts_keeps:
  assumes "manager_ok s" "distinct_ports svc"
  shows "\<exists>s' r. getShadowServicePorts s svc = Some (s', r) \<and> manager_ok s' \<and> manager_config s' = manager_config s"
proof (cases "GetTrafficType (defaultTrafficType s) (om_Annotations (ks_meta svc))")
  case (Inl e)
  with assms show ?thesis by (simp add: getShadowServicePorts_def)
next
  case (Inr tt)
  have "\<exists>s' ports. shadow_ports s tt 0 (om_Name (ks_meta svc)) (om_Namespace (ks_meta svc)) (ks_Ports svc) =
      Some (s', ports) \<and> manager_ok s'"
  proof (cases "tt = ServiceTypeTCP \<or> tt = ServiceTypeUDP")
    case True
    from shadow_ports_mapped [OF assms(1) True assms(2)] show ?thesis by blast
  next
    case False
    then have "tt \<noteq> ServiceTypeTCP" "tt \<noteq> ServiceTypeUDP" by simp_all
    from shadow_ports_other [OF this] assms(1) show ?thesis by blast
  qed
  with Inr show ?thesis by (auto simp: getShadowServicePorts_def dest: shadow_ports_config)
qed

lemma CreateOrUpdate_keeps:
  assumes "manager_ok s" "distinct_ports svc"
  shows "\<exists>s' r. CreateOrUpdate l tk svc s = Some (s', r) \<and> manager_ok s' \<and> manager_config s' = manager_config s"
proof -
  have unused: "manager_ok (removeUnusedPortMappings shadow svc s)
      \<and> manager_config (removeUnusedPortMappings shadow svc s) = manager_config s" for shadow
    using remove_many_keeps [OF assms(1)] assms(1) by (simp add: removeUnusedPortMappings_def split: option.split)
  have ports: "\<exists>s' r. getShadowServicePorts (removeUnusedPortMappings shadow svc s) svc = Some (s', r)
      \<and> manager_ok s' \<and> manager_config s' = manager_config s" for shadow
    using getShadowServicePorts_keeps [OF conjunct1 [OF unused] assms(2), of shadow] unused [of shadow] by simp
  have clean: "manager_ok (cleanupPortMappings ns n olds news s')
      \<and> manager_config (cleanupPortMappings ns n olds news s') = manager_config s'" if "manager_ok s'" for ns n olds news s'
    unfolding cleanupPortMappings_def using that by (rule remove_many_keeps)
  show ?thesis
  proof (cases l)
    case (Found shadow)
    from ports [of "Some shadow"] obtain s' r where
      "getShadowServicePorts (removeUnusedPortMappings (Some shadow) svc s) svc = Some (s', r)"
      "manager_ok s'" "manager_config s' = manager_config s" by blast
    with Found clean show ?thesis by (cases r) (simp_all add: CreateOrUpdate_def Let_def)
  next
    case NotFound
    from ports [of None] obtain s' r where
      "getShadowServicePorts (removeUnusedPortMappings None svc s) svc = Some (s', r)"
      "manager_ok s'" "manager_config s' = manager_config s" by blast
    with NotFound show ?thesis by (cases r) (simp_all add: CreateOrUpdate_def Let_def)
  next
    case LookupError
    with assms(1) show ?thesis by (simp add: CreateOrUpdate_def)
  qed
qed

lemma Delete_shadow_keeps:
  "manager_ok s \<Longrightarrow> manager_ok (fst (Delete_shadow l ns n s))
     \<and> manager_config (fst (Delete_shadow l ns n s)) = manager_config s"
  using remove_many_keeps [of s ns n] by (simp add: Delete_shadow_def split: lookup.split)

section \<open>One item of work\<close>

text \<open>What the API server guarantees of services and how the iteration orders fit the cluster.\<close>

definition env_ok :: "ResourceFilter \<Rightarrow> env \<Rightarrow> bool" where
  "env_ok flt e \<longleftrightarrow> (\<forall>ns n svc. env_services e ns n = Found svc \<longrightarrow> distinct_ports svc)
     \<and> (\<forall>res. loadResources (env_cluster e) flt = Inr res \<longrightarrow> valid_schedule res (env_schedule e))
     \<and> length (sch_TrafficSplits (env_schedule e)) < env_fuel e"

text \<open>A published pair: a configuration built from a well-formed topology, which is the published one up to
  the errors recorded in it.\<close>

definition published_ok :: "bool \<Rightarrow> API \<Rightarrow> bool" where
  "published_ok acl a \<longleftrightarrow> (\<exists>t. wf_topology t \<and> same_but_errors t (Safe_Get (api_topology a))
     \<and> conf_ok acl t [] (Safe_Get (api_configuration a)))"

definition controller_ok :: "Controller \<Rightarrow> Controller \<Rightarrow> bool" where
  "controller_ok c0 c \<longleftrightarrow> manager_ok (ct_manager c) \<and> manager_config (ct_manager c) = manager_config (ct_manager c0)
     \<and> ct_cfg c = ct_cfg c0 \<and> ct_resourceFilter c = ct_resourceFilter c0
     \<and> Safe_Get (api_readiness (ct_store c)) = Safe_Get (api_readiness (ct_store c0))"

lemma controller_okD:
  assumes "controller_ok c0 c"
  shows "manager_ok (ct_manager c)" "ct_resourceFilter c = ct_resourceFilter c0" "ct_cfg c = ct_cfg c0"
  using assms by (simp_all add: controller_ok_def)

lemma sync_keeps:
  assumes "controller_ok c0 c" "env_ok flt e"
  shows "\<exists>c' call err. syncShadowService e key c = Some (c', call, err) \<and> controller_ok c0 c' \<and> ct_store c' = ct_store c"
proof (cases "env_splitKey e key")
  case None
  with assms(1) show ?thesis by (simp add: syncShadowService_def)
next
  case (Some nsn)
  obtain ns n where nsn: "nsn = (ns, n)" by fastforce
  let ?m = "ct_manager c"
  have ok: "manager_ok ?m" using assms(1) by (rule controller_okD)
  have put: "controller_ok c0 (c\<lparr>ct_manager := m\<rparr>)" if "manager_ok m" "manager_config m = manager_config ?m" for m
    using assms(1) that by (simp add: controller_ok_def)
  let ?shadow = "env_services e (sm_namespace ?m) (shadow_name ?m ns n)"
  show ?thesis
  proof (cases "env_services e ns n")
    case (Found svc)
    with assms(2) have "distinct_ports svc" by (auto simp: env_ok_def)
    from CreateOrUpdate_keeps [OF ok this, of ?shadow "env_topologyKeys e"] obtain m r where
      "CreateOrUpdate ?shadow (env_topologyKeys e) svc ?m = Some (m, r)" "manager_ok m"
      "manager_config m = manager_config ?m" by blast
    with Some nsn Found put show ?thesis by (cases r) (simp_all add: syncShadowService_def Let_def)
  next
    case NotFound
    obtain m r where del: "Delete_shadow ?shadow ns n ?m = (m, r)" by fastforce
    with Delete_shadow_keeps [OF ok, of ?shadow ns n] put have "controller_ok c0 (c\<lparr>ct_manager := m\<rparr>)" by simp
    with Some nsn NotFound del show ?thesis
      by (cases r; cases "projr r") (simp_all add: syncShadowService_def Let_def)
  next
    case LookupError
    with Some nsn assms(1) show ?thesis by (simp add: syncShadowService_def Let_def)
  qed
qed

lemma provider_of_simps [simp]:
  "pv_buildServiceMiddleware (provider_of choices c) = BuildMiddlewares"
  "pc_ACL (pv_config (provider_of choices c)) = ACLEnabled (ct_cfg c)"
  by (simp_all add: provider_of_def)

text \<open>A build either fails, and the store stays, or publishes.\<close>

lemma buildAndStore_ok:
  assumes "controller_ok c0 c" "env_ok (ct_resourceFilter c0) e"
  shows "\<exists>c'. controller_ok c0 c' \<and>
    (buildAndStore e n key c = Some (c', handleErr n key) \<and> c' = c \<or>
     buildAndStore e n key c = Some (c', [QForget key]) \<and> published_ok (ACLEnabled (ct_cfg c0)) (ct_store c'))"
proof -
  note flt = controller_okD(2) [OF assms(1)]
  have valid: "\<And>res. loadResources (env_cluster e) (ct_resourceFilter c) = Inr res \<Longrightarrow> valid_schedule res (env_schedule e)"
    and fuel: "length (sch_TrafficSplits (env_schedule e)) < env_fuel e"
    using assms(2) flt by (simp_all add: env_ok_def)
  note build = Build_total [of "env_cluster e" "ct_resourceFilter c", OF valid fuel]
  show ?thesis
  proof (cases "loadResources (env_cluster e) (ct_resourceFilter c)")
    case (Inl err)
    with build assms(1) show ?thesis by (intro exI [of _ c]) (simp add: buildAndStore_def)
  next
    case (Inr res)
    with build obtain t where t: "Build_topology (env_fuel e) (env_schedule e) (env_cluster e) (ct_resourceFilter c) =
        Some (Inr t)" "wf_topology t" by auto
    from BuildConfig_ok [OF _ t(2), of "provider_of (env_ranges e) c" "env_order e"] BuildMiddlewares_valid obtain t' cfg where
      cfg: "BuildConfig (provider_of (env_ranges e) c) (env_order e) t = Some (t', cfg)" "same_but_errors t t'"
      "conf_ok (ACLEnabled (ct_cfg c)) t [] cfg" by auto
    let ?c = "c\<lparr>ct_store := SetConfig cfg (SetTopology t' (ct_store c))\<rparr>"
    have "buildAndStore e n key c = Some (?c, [QForget key])" using t cfg by (simp add: buildAndStore_def)
    moreover have "published_ok (ACLEnabled (ct_cfg c0)) (ct_store ?c)"
      using t cfg controller_okD(3) [OF assms(1)] by (auto simp: published_ok_def store.published)
    moreover have "controller_ok c0 ?c" using assms(1) by (simp add: controller_ok_def store.published)
    ultimately show ?thesis by blast
  qed
qed

lemma process_ok:
  assumes "controller_ok c0 c" "env_ok (ct_resourceFilter c0) e"
  shows "\<exists>c'. controller_ok c0 c' \<and>
    (processNextWorkItem e n key c = Some (c', handleErr n key @ [QDone key]) \<and> ct_store c' = ct_store c \<or>
     processNextWorkItem e n key c = Some (c', [QForget key, QDone key])
       \<and> published_ok (ACLEnabled (ct_cfg c0)) (ct_store c'))"
proof -
  have built: "\<exists>c'. controller_ok c0 c' \<and>
    (map_option (\<lambda>(c', calls). (c', calls @ [QDone key])) (buildAndStore e n key d) =
        Some (c', handleErr n key @ [QDone key]) \<and> ct_store c' = ct_store d \<or>
     map_option (\<lambda>(c', calls). (c', calls @ [QDone key])) (buildAndStore e n key d) =
        Some (c', [QForget key, QDone key]) \<and> published_ok (ACLEnabled (ct_cfg c0)) (ct_store c'))"
    if "controller_ok c0 d" for d
    using buildAndStore_ok [OF that assms(2), of n key] by auto
  show ?thesis
  proof (cases "key = configRefreshKey")
    case True
    with built [OF assms(1)] show ?thesis by (simp add: processNextWorkItem_def)
  next
    case False
    from sync_keeps [OF assms, of key] obtain d call err where
      sync: "syncShadowService e key c = Some (d, call, err)" "controller_ok c0 d" "ct_store d = ct_store c" by blast
    show ?thesis
    proof (cases err)
      case None
      with built [OF sync(2)] sync False show ?thesis by (simp add: processNextWorkItem_def)
    next
      case (Some er)
      with sync False show ?thesis by (auto simp: processNextWorkItem_def)
    qed
  qed
qed

section \<open>Reachable controllers\<close>

lemma run_ok:
  assumes "run numRequeues keyFunc (env_ok (ct_resourceFilter c0)) c0 c calls" "manager_ok (ct_manager c0)"
  shows "controller_ok c0 c"
  using assms(1)
proof induction
  case start
  with assms(2) show ?case by (simp add: controller_ok_def)
next
  case (work c calls e key c' new)
  from process_ok [OF work.IH work.hyps(2), of "numRequeues calls key" key] work.hyps(4) show ?case by auto
qed

lemma run_published:
  assumes "run numRequeues keyFunc (env_ok (ct_resourceFilter c0)) c0 c calls" "manager_ok (ct_manager c0)"
    and "published_ok (ACLEnabled (ct_cfg c0)) (ct_store c0)"
  shows "published_ok (ACLEnabled (ct_cfg c0)) (ct_store c)"
  using assms(1)
proof induction
  case start
  with assms(3) show ?case by simp
next
  case (work c calls e key c' new)
  from process_ok [OF run_ok [OF work.hyps(1) assms(2)] work.hyps(2), of "numRequeues calls key" key] work.hyps(4) work.IH
  show ?case by auto
qed

section \<open>Starting\<close>

text \<open>The ranges leave no mesh port to two uses, and no counter can wrap.\<close>

definition ranges_ok :: "ControllerConfig \<Rightarrow> bool" where
  "ranges_ok cfg \<longleftrightarrow> sint (cc_MaxHTTPPort cfg) < sint (cc_MinTCPPort cfg)
     \<and> sint (cc_MaxHTTPPort cfg) < sint (cc_MinUDPPort cfg)
     \<and> sint (cc_MaxTCPPort cfg) < 2 ^ 31 - 1 \<and> sint (cc_MaxUDPPort cfg) < 2 ^ 31 - 1"

text \<open>The shadow services of an earlier run give no mesh port to two service ports and no service port two
  mesh ports.\<close>

definition unambiguous :: "PortMapping \<Rightarrow> KService list \<Rightarrow> bool" where
  "unambiguous p svcs \<longleftrightarrow> single_valued (set (listed_ports p svcs)) \<and> single_valued ((set (listed_ports p svcs))\<inverse>)"

definition fresh_tcp :: "ControllerConfig \<Rightarrow> PortMapping" where
  "fresh_tcp cfg = NewPortMapping (cc_Namespace cfg) (cc_MinTCPPort cfg) (cc_MaxTCPPort cfg)"

definition fresh_udp :: "ControllerConfig \<Rightarrow> PortMapping" where
  "fresh_udp cfg = NewPortMapping (cc_Namespace cfg) (cc_MinUDPPort cfg) (cc_MaxUDPPort cfg)"

lemma NewPortMapping_simps [simp]:
  "minPort (NewPortMapping ns mn mx) = mn" "maxPort (NewPortMapping ns mn mx) = mx"
  "pm_table (NewPortMapping ns mn mx) = []" "pm_namespace (NewPortMapping ns mn mx) = ns"
  by (simp_all add: NewPortMapping_def)

lemma LoadState_min: "minPort (fst (LoadState svcs p)) = minPort p"
  by (cases svcs) (simp_all add: LoadState_def fold_load_service put_all_simps)

lemma load_tables:
  assumes "ranges_ok cfg" "unambiguous (fresh_tcp cfg) tcp" "unambiguous (fresh_udp cfg) udp"
    and "loadPortMappersState (Some tcp) (Some udp) (NewMeshController cfg store) = (c, r)"
  shows "r = None \<and> manager_ok (ct_manager c)
     \<and> ct_manager c = (ct_manager (NewMeshController cfg store))
          \<lparr>tcpStateTable := fst (LoadState (Some tcp) (fresh_tcp cfg)), udpStateTable := fst (LoadState (Some udp) (fresh_udp cfg))\<rparr>
     \<and> ct_cfg c = cfg \<and> ct_resourceFilter c = controller_filter cfg \<and> ct_store c = store"
proof -
  obtain t where t: "LoadState (Some tcp) (fresh_tcp cfg) = (t, None)" by (simp add: LoadState_def)
  obtain u where u: "LoadState (Some udp) (fresh_udp cfg) = (u, None)" by (simp add: LoadState_def)
  have "mapping_ok t" using LoadState_listed [of "fresh_tcp cfg" tcp] assms(1,2) t
    by (simp add: ranges_ok_def unambiguous_def fresh_tcp_def)
  moreover have "mapping_ok u" using LoadState_listed [of "fresh_udp cfg" udp] assms(1,3) u
    by (simp add: ranges_ok_def unambiguous_def fresh_udp_def)
  moreover have "minPort t = cc_MinTCPPort cfg" "minPort u = cc_MinUDPPort cfg"
    using LoadState_min [of "Some tcp" "fresh_tcp cfg"] LoadState_min [of "Some udp" "fresh_udp cfg"] t u
    by (simp_all add: fresh_tcp_def fresh_udp_def)
  ultimately show ?thesis using assms(1,4) t u
    by (auto simp: loadPortMappersState_def NewMeshController_def NewShadowServiceManager_def Let_def
        fresh_tcp_def fresh_udp_def manager_ok_def ranges_ok_def)
qed

text \<open>A controller that has started: API and controller are new, informers and tables were loaded.\<close>

definition booted :: "ControllerConfig \<Rightarrow> KService list \<Rightarrow> Controller \<Rightarrow> bool" where
  "booted cfg shadows c \<longleftrightarrow> (\<exists>synced i ns store. NewAPI synced ns = Some store
     \<and> Run_start i (Some shadows) (Some shadows) (NewMeshController cfg store) = (c, None))"

lemma default_published: "NewAPI synced ns = Some store \<Longrightarrow> published_ok acl store"
  using wf_NewTopology default_config_ok [of acl NewTopology]
  by (auto simp: NewAPI_def published_ok_def split: if_splits intro!: exI [of _ NewTopology])

lemma booted_ok:
  assumes "booted cfg shadows c" "ranges_ok cfg" "unambiguous (fresh_tcp cfg) shadows" "unambiguous (fresh_udp cfg) shadows"
  shows "manager_ok (ct_manager c)" "published_ok acl (ct_store c)" "ct_cfg c = cfg"
    "ct_resourceFilter c = controller_filter cfg" "Safe_Get (api_readiness (ct_store c))"
    "maxHTTPPort (ct_manager c) = cc_MaxHTTPPort cfg" "minHTTPPort (ct_manager c) = cc_MinHTTPPort cfg"
proof -
  from assms(1) obtain synced i ns store where new: "NewAPI synced ns = Some store"
    and start: "Run_start i (Some shadows) (Some shadows) (NewMeshController cfg store) = (c, None)"
    unfolding booted_def by blast
  obtain d r where load: "loadPortMappersState (Some shadows) (Some shadows) (NewMeshController cfg store) = (d, r)"
    by fastforce
  note d = load_tables [OF assms(2-4) load]
  then have r: "r = None" and store: "ct_store d = store" and cfg: "ct_cfg d = cfg"
      "ct_resourceFilter d = controller_filter cfg" and ok: "manager_ok (ct_manager d)" by blast+
  from start load r store have c: "c = d\<lparr>ct_store := SetReadiness True store\<rparr>"
    by (auto simp: Run_start_def split: if_splits)
  show "manager_ok (ct_manager c)" "ct_cfg c = cfg" "ct_resourceFilter c = controller_filter cfg"
    "Safe_Get (api_readiness (ct_store c))" using ok cfg by (simp_all add: c store.laws)
  show "published_ok acl (ct_store c)"
    using default_published [OF new, of acl] c by (simp add: published_ok_def store.laws)
  show "maxHTTPPort (ct_manager c) = cc_MaxHTTPPort cfg" "minHTTPPort (ct_manager c) = cc_MinHTTPPort cfg"
    using c d by (simp_all add: NewMeshController_def NewShadowServiceManager_def)
qed

lemma booted_config:
  assumes "booted cfg shadows c" "ranges_ok cfg" "unambiguous (fresh_tcp cfg) shadows" "unambiguous (fresh_udp cfg) shadows"
  shows "defaultTrafficType (ct_manager c) = DefaultMode cfg" "sm_namespace (ct_manager c) = cc_Namespace cfg"
proof -
  from assms(1) obtain synced i ns store where
    start: "Run_start i (Some shadows) (Some shadows) (NewMeshController cfg store) = (c, None)" unfolding booted_def by blast
  obtain d r where load: "loadPortMappersState (Some shadows) (Some shadows) (NewMeshController cfg store) = (d, r)" by fastforce
  note d = load_tables [OF assms(2-4) load]
  with start load have "ct_manager c = ct_manager d" by (auto simp: Run_start_def split: if_splits)
  with d show "defaultTrafficType (ct_manager c) = DefaultMode cfg" "sm_namespace (ct_manager c) = cc_Namespace cfg"
    by (simp_all add: NewMeshController_def NewShadowServiceManager_def)
qed

section \<open>What an item of work does to the port tables\<close>

lemma mapped_inject:
  assumes "manager_ok s" "mapped s proto ns n port = Some t" "mapped s proto ns' n' port' = Some t"
  shows "ns' = ns \<and> n' = n \<and> port' = port"
  using assms pm.find_inject [of "tcpStateTable s"] pm.find_inject [of "udpStateTable s"]
  by (auto simp: manager_ok_def mapped_def split: if_splits)

text \<open>A mapping of the service itself is kept or goes away; the others stay.\<close>

definition keeps_or_frees :: "ShadowServiceManager \<Rightarrow> ShadowServiceManager \<Rightarrow> string \<Rightarrow> string \<Rightarrow> bool" where
  "keeps_or_frees s s' ns n \<longleftrightarrow> (\<forall>proto ns' n' port.
     ((ns', n') \<noteq> (ns, n) \<longrightarrow> mapped s' proto ns' n' port = mapped s proto ns' n' port)
   \<and> (\<forall>t. mapped s proto ns' n' port = Some t \<longrightarrow> mapped s' proto ns' n' port \<in> {Some t, None}))"

lemma keeps_or_frees_refl: "keeps_or_frees s s ns n"
  by (simp add: keeps_or_frees_def)

lemma removals_keep_or_free:
  assumes "manager_ok s"
  shows "keeps_or_frees s (fold (removeServicePortMapping ns n) sps s) ns n"
  using remove_many [OF assms, where ns = ns and n = n and sps = sps] by (auto simp: keeps_or_frees_def)

lemma chain_keeps_or_frees:
  assumes "update_chain s s0 s1 s2 tt ns n olds sps ports"
  shows "keeps_or_frees s s2 ns n"
proof -
  note ch = update_chainD [OF assms]
  have other: "mapped s2 proto ns' n' port = mapped s proto ns' n' port" if "(ns', n') \<noteq> (ns, n)" for proto ns' n' port
  proof -
    have "mapped s2 proto ns' n' port = mapped s1 proto ns' n' port" using that by (subst ch(10)) auto
    also have "\<dots> = mapped s0 proto ns' n' port" using that by (intro ch(6)) auto
    also have "\<dots> = mapped s proto ns' n' port" using that by (subst ch(5)) auto
    finally show ?thesis .
  qed
  have own: "mapped s1 proto ns n port \<in> {Some t, None}" if m: "mapped s proto ns n port = Some t" for proto port t
  proof (cases "mapped s0 proto ns n port")
    case None
    with m ch(5) [of proto ns n port] obtain sp where "\<not> containsPort sps sp" "removes s sp proto port" by (auto split: if_splits)
    then have "\<not> (\<exists>sp\<in>set sps. sp_Protocol sp = proto \<and> sp_Port sp = port)" by (auto simp: containsPort_iff removes_def)
    with None ch(6) show ?thesis by auto
  next
    case (Some t')
    with m ch(5) [of proto ns n port] have "t' = t" by (auto split: if_splits)
    with Some ch(6) [of proto ns n port] ch(7) show ?thesis by (cases "proto = proto_of tt") auto
  qed
  have "mapped s2 proto ns n port \<in> {Some t, None}" if "mapped s proto ns n port = Some t" for proto port t
    using own [OF that] ch(10) [of proto ns n port] by auto
  with other show ?thesis unfolding keeps_or_frees_def by (metis insertI1 prod.inject)
qed

lemma update_keeps_or_frees:
  assumes ok: "manager_ok s" and dist: "distinct_ports svc" and cu: "CreateOrUpdate l tk svc s = Some (s', r)"
  shows "keeps_or_frees s s' (om_Namespace (ks_meta svc)) (om_Name (ks_meta svc))"
proof (cases "l = LookupError")
  case True
  with cu show ?thesis by (simp add: CreateOrUpdate_def Let_def keeps_or_frees_refl)
next
  case False
  let ?ns = "om_Namespace (ks_meta svc)" and ?n = "om_Name (ks_meta svc)"
  show ?thesis
  proof (cases "GetTrafficType (defaultTrafficType s) (om_Annotations (ks_meta svc))")
    case (Inl e)
    let ?shadow = "case l of Found shadow \<Rightarrow> Some shadow | _ \<Rightarrow> None"
    have "removeUnusedPortMappings ?shadow svc s =
        fold (removeServicePortMapping ?ns ?n) (filter (\<lambda>sp. \<not> containsPort (ks_Ports svc) sp) (known_ports l)) s"
      by (simp add: removeUnusedPortMappings_def known_ports_def split: lookup.split)
    moreover from this remove_many [OF ok] Inl
    have "getShadowServicePorts (removeUnusedPortMappings ?shadow svc s) svc =
        Some (removeUnusedPortMappings ?shadow svc s, Inl (EShadowTrafficType ?n))"
      by (simp add: getShadowServicePorts_def)
    with cu False have "s' = removeUnusedPortMappings ?shadow svc s"
      by (cases l) (simp_all add: CreateOrUpdate_def Let_def)
    ultimately show ?thesis using removals_keep_or_free [OF ok] by simp
  next
    case (Inr tt)
    from CreateOrUpdate_eq [OF False dist ok Inr, of tk] cu obtain s1 ports where
      "shadow_ports (fold (removeServicePortMapping ?ns ?n) (filter (\<lambda>sp. \<not> containsPort (ks_Ports svc) sp) (known_ports l)) s)
        tt 0 ?n ?ns (ks_Ports svc) = Some (s1, ports)" "s' = cleanupPortMappings ?ns ?n (known_ports l) ports s1" by auto
    with chain_keeps_or_frees [OF update_chainI [OF ok dist this(1)]] show ?thesis by simp
  qed
qed

lemma sync_keeps_or_frees:
  assumes ok: "manager_ok (ct_manager c)" and e: "env_ok flt e"
    and nm: "\<forall>ns n svc. env_services e ns n = Found svc \<longrightarrow> om_Namespace (ks_meta svc) = ns \<and> om_Name (ks_meta svc) = n"
    and sync: "syncShadowService e key c = Some (c', call, err)"
  shows "ct_manager c' = ct_manager c \<or> (\<exists>ns n. env_splitKey e key = Some (ns, n) \<and> keeps_or_frees (ct_manager c) (ct_manager c') ns n)"
proof (cases "env_splitKey e key")
  case None
  with sync show ?thesis by (simp add: syncShadowService_def)
next
  case (Some nsn)
  obtain ns n where nsn: "nsn = (ns, n)" by fastforce
  let ?m = "ct_manager c"
  let ?shadow = "env_services e (sm_namespace ?m) (shadow_name ?m ns n)"
  show ?thesis
  proof (cases "env_services e ns n")
    case (Found svc)
    with e nm have svc: "distinct_ports svc" "om_Namespace (ks_meta svc) = ns" "om_Name (ks_meta svc) = n"
      by (auto simp: env_ok_def)
    from CreateOrUpdate_keeps [OF ok svc(1)] obtain m r where
      cu: "CreateOrUpdate ?shadow (env_topologyKeys e) svc ?m = Some (m, r)" by blast
    with sync Some nsn Found have "ct_manager c' = m" by (cases r) (auto simp: syncShadowService_def Let_def)
    with update_keeps_or_frees [OF ok svc(1) cu] svc Some nsn show ?thesis by auto
  next
    case NotFound
    obtain m r where del: "Delete_shadow ?shadow ns n ?m = (m, r)" by fastforce
    with sync Some nsn NotFound have "ct_manager c' = m"
      by (auto simp: syncShadowService_def Let_def split: sum.splits option.splits)
    moreover from del have "m = ?m \<or> (\<exists>sps. m = fold (removeServicePortMapping ns n) sps ?m)"
      by (auto simp: Delete_shadow_def split: lookup.splits)
    ultimately show ?thesis using removals_keep_or_free [OF ok] Some nsn by auto
  next
    case LookupError
    with sync Some nsn show ?thesis by (simp add: syncShadowService_def Let_def)
  qed
qed

lemma build_keeps_manager: "buildAndStore e r key c = Some (c', calls) \<Longrightarrow> ct_manager c' = ct_manager c"
  by (auto simp: buildAndStore_def split: option.splits sum.splits)

lemma work_mapped:
  assumes ok: "manager_ok (ct_manager c)" and e: "env_ok flt e"
    and nm: "\<forall>ns n svc. env_services e ns n = Found svc \<longrightarrow> om_Namespace (ks_meta svc) = ns \<and> om_Name (ks_meta svc) = n"
    and work: "processNextWorkItem e r key c = Some (c', new)"
  shows "env_splitKey e key \<noteq> Some (ns, n) \<Longrightarrow> mapped (ct_manager c') proto ns n port = mapped (ct_manager c) proto ns n port"
    and "mapped (ct_manager c) proto ns n port = Some t \<Longrightarrow> mapped (ct_manager c') proto ns n port \<in> {Some t, None}"
proof -
  have "ct_manager c' = ct_manager c \<or> (\<exists>ns n. env_splitKey e key = Some (ns, n) \<and> keeps_or_frees (ct_manager c) (ct_manager c') ns n)"
  proof (cases "key = configRefreshKey")
    case True
    with work show ?thesis by (auto simp: processNextWorkItem_def dest: build_keeps_manager)
  next
    case False
    with work obtain c1 call err where sync: "syncShadowService e key c = Some (c1, call, err)"
      by (auto simp: processNextWorkItem_def split: option.splits)
    with work False have "ct_manager c' = ct_manager c1"
      by (cases err) (auto simp: processNextWorkItem_def dest: build_keeps_manager)
    with sync_keeps_or_frees [OF ok e nm sync] show ?thesis by simp
  qed
  then show "env_splitKey e key \<noteq> Some (ns, n) \<Longrightarrow> mapped (ct_manager c') proto ns n port = mapped (ct_manager c) proto ns n port"
    and "mapped (ct_manager c) proto ns n port = Some t \<Longrightarrow> mapped (ct_manager c') proto ns n port \<in> {Some t, None}"
    unfolding keeps_or_frees_def by (metis insertI1, metis insertI1)
qed

section \<open>What the running controller guarantees\<close>

text \<open>C11: Whatever has happened since the start, an item of work always comes to an end, and exactly one
  call about its key precedes \<open>Done\<close>: \<open>Forget\<close> when a new topology and configuration were published,
  otherwise nothing is published and the key is queued again until it has been retried twelve times.\<close>

theorem work_ends:
  assumes "booted cfg shadows c0" "ranges_ok cfg" "unambiguous (fresh_tcp cfg) shadows" "unambiguous (fresh_udp cfg) shadows"
    and "run numRequeues keyFunc (env_ok (controller_filter cfg)) c0 c calls" "env_ok (controller_filter cfg) e"
  shows "\<exists>c' call. processNextWorkItem e n key c = Some (c', [call, QDone key]) \<and>
     (call = QForget key \<and> published_ok (ACLEnabled cfg) (ct_store c')
      \<or> call = (if n < 12 then QAddRateLimited key else QForget key) \<and> ct_store c' = ct_store c)"
proof -
  note boot = booted_ok [OF assms(1-4)]
  have "run numRequeues keyFunc (env_ok (ct_resourceFilter c0)) c0 c calls" using assms(5) boot by simp
  from run_ok [OF this boot(1)] have "controller_ok c0 c" .
  from process_ok [OF this, of e n key] assms(6) boot(3,4) show ?thesis
    by (auto simp: handleErr_def maxRetries_def)
qed

text \<open>C8: Whatever the API serves as the current configuration is sound: it was built from a well-formed
  topology that the API serves too, up to the errors recorded in it, no router or weighted service of it
  names something undefined, and under access control every HTTP router but the one for readiness is
  restricted to callers that the topology allows.\<close>

theorem served_configuration_safe:
  assumes "booted cfg shadows c0" "ranges_ok cfg" "unambiguous (fresh_tcp cfg) shadows" "unambiguous (fresh_udp cfg) shadows"
    and "run numRequeues keyFunc (env_ok (controller_filter cfg)) c0 c calls"
    and "getCurrentConfiguration encodes (ct_store c) = (StatusOK, ConfigBody conf)"
    and "getCurrentTopology encodes (ct_store c) = (StatusOK, TopologyBody topo)"
  shows "\<exists>t. wf_topology t \<and> same_but_errors t topo \<and> http_refs_ok conf \<and> l4_refs_ok conf
     \<and> (ACLEnabled cfg \<longrightarrow> guarded t conf)"
proof -
  note boot = booted_ok [OF assms(1-4)]
  have "run numRequeues keyFunc (env_ok (ct_resourceFilter c0)) c0 c calls" using assms(5) boot by simp
  from run_published [OF this boot(1,2)] boot(3) have "published_ok (ACLEnabled cfg) (ct_store c)" by simp
  with assms(6,7) show ?thesis
    by (auto simp: published_ok_def conf_ok_def getCurrentConfiguration_def getCurrentTopology_def respond_def
        split: if_splits)
qed

text \<open>C18: Mesh ports are not lost or stolen. As long as the HTTP range ends below the TCP range (at most 5000 HTTP
  ports), working on a key in a reachable state changes no mapping of any service but the key's own; a service
  port of that one keeps its mesh port or loses it, and gets no other in its place; the mesh port lies above
  the HTTP ports, and no other service gets it within the step. The service lister answers with objects of the
  name asked for.\<close>

theorem mesh_ports_stable:
  assumes "booted cfg shadows c0" "ranges_ok cfg" "unambiguous (fresh_tcp cfg) shadows" "unambiguous (fresh_udp cfg) shadows"
    and "run numRequeues keyFunc (env_ok (controller_filter cfg)) c0 c calls" "env_ok (controller_filter cfg) e"
    and "\<forall>ns n svc. env_services e ns n = Found svc \<longrightarrow> om_Namespace (ks_meta svc) = ns \<and> om_Name (ks_meta svc) = n"
    and "processNextWorkItem e r key c = Some (c', new)"
  shows "(env_splitKey e key \<noteq> Some (ns, n) \<longrightarrow> mapped (ct_manager c') proto ns n port = mapped (ct_manager c) proto ns n port)
     \<and> (\<forall>t. mapped (ct_manager c) proto ns n port = Some t \<longrightarrow> mapped (ct_manager c') proto ns n port \<in> {Some t, None}
         \<and> sint (cc_MaxHTTPPort cfg) < sint t
         \<and> (\<forall>ns' n' port'. mapped (ct_manager c') proto ns' n' port' = Some t \<longrightarrow> ns' = ns \<and> n' = n))"
proof -
  let ?m = "ct_manager c" and ?m' = "ct_manager c'"
  note boot = booted_ok [OF assms(1-4)]
  have "run numRequeues keyFunc (env_ok (ct_resourceFilter c0)) c0 c calls" using assms(5) boot by simp
  from run_ok [OF this boot(1)] have cok: "controller_ok c0 c" .
  with boot have ok: "manager_ok ?m" and max: "maxHTTPPort ?m = cc_MaxHTTPPort cfg"
    by (simp_all add: controller_ok_def manager_config_def)
  from process_ok [OF cok, of e r key] assms(6,8) boot(4) have ok': "manager_ok ?m'"
    by (auto dest: controller_okD(1))
  note step = work_mapped [OF ok assms(6-8)]
  have holder: "ns' = ns \<and> n' = n" if "mapped ?m proto ns n port = Some t" "mapped ?m' proto ns' n' port' = Some t" for t ns' n' port'
  proof (cases "mapped ?m' proto ns n port = Some t")
    case True
    with mapped_inject [OF ok' _ that(2)] show ?thesis by blast
  next
    case False
    with that(1) step(1) [of ns n proto port] have key: "env_splitKey e key = Some (ns, n)" by auto
    show ?thesis
    proof (rule ccontr)
      assume other: "\<not> (ns' = ns \<and> n' = n)"
      with key step(1) [of ns' n' proto port'] that(2) have "mapped ?m proto ns' n' port' = Some t" by auto
      from mapped_inject [OF ok that(1) this] other show False by blast
    qed
  qed
  with step mapped_above [OF ok] max show ?thesis by (metis insert_iff)
qed

section \<open>Retries\<close>

text \<open>What client-go documents of the rate limiter: \<open>NumRequeues\<close> counts \<open>AddRateLimited\<close> since the last
  \<open>Forget\<close> of a key.\<close>

definition counts_requeues :: "(queue_call list \<Rightarrow> string \<Rightarrow> nat) \<Rightarrow> bool" where
  "counts_requeues numRequeues \<longleftrightarrow> (\<forall>k. numRequeues [] k = 0) \<and>
     (\<forall>calls call k. numRequeues (calls @ [call]) k =
        (if call = QAddRateLimited k then Suc (numRequeues calls k)
         else if call = QForget k then 0 else numRequeues calls k))"

lemma counts_requeuesD:
  assumes "counts_requeues numRequeues"
  shows "numRequeues [] k = 0" "numRequeues (calls @ [QAdd x]) k = numRequeues calls k"
    "numRequeues (calls @ [QDone x]) k = numRequeues calls k"
    "numRequeues (calls @ [QAddRateLimited x]) k = (if x = k then Suc (numRequeues calls k) else numRequeues calls k)"
    "numRequeues (calls @ [QForget x]) k = (if x = k then 0 else numRequeues calls k)"
  using assms by (simp_all add: counts_requeues_def)

lemma event_calls:
  assumes "new \<in> {OnAdd keyFunc obj, OnUpdate keyFunc old obj, OnDelete keyFunc obj}"
  shows "new = [] \<or> (\<exists>k. new = [QAdd k] \<and> (k = configRefreshKey \<or> (\<exists>svc. obj = ServiceObj svc \<and> keyFunc (ks_meta svc) = Some k)))"
proof -
  have enq: "enqueueWork keyFunc obj = [] \<or> (\<exists>k. enqueueWork keyFunc obj = [QAdd k] \<and>
      (k = configRefreshKey \<or> (\<exists>svc. obj = ServiceObj svc \<and> keyFunc (ks_meta svc) = Some k)))"
    by (cases obj) (auto simp: enqueueWork_def split: option.split)
  from assms have "new = [] \<or> new = enqueueWork keyFunc obj"
    by (auto simp: OnAdd_def OnUpdate_def OnDelete_def split: option.splits if_splits)
  with enq show ?thesis by auto
qed

lemma work_calls:
  assumes "processNextWorkItem e n key c = Some (c', new)"
  shows "new = [QForget key, QDone key] \<or> new = [QAddRateLimited key, QDone key] \<and> n < maxRetries"
proof -
  have built: "calls = [QForget k] \<or> calls = [QAddRateLimited k] \<and> n < maxRetries"
    if "buildAndStore e n k d = Some (d', calls)" for d d' calls k
    using that by (auto simp: buildAndStore_def handleErr_def split: option.splits sum.splits if_splits)
  from assms show ?thesis
    by (auto simp: processNextWorkItem_def handleErr_def split: if_splits option.splits prod.splits dest!: built)
qed

text \<open>C25: No key is retried more than twelve times in a row, however events and work interleave.\<close>

theorem retries_bounded:
  assumes "counts_requeues numRequeues" "run numRequeues keyFunc valid c0 c calls"
  shows "numRequeues calls key \<le> 12"
  using assms(2)
proof (induction arbitrary: key)
  case start
  then show ?case by (simp add: counts_requeuesD [OF assms(1)])
next
  case (event c calls obj new old)
  from event_calls [OF event.hyps(3)] event.IH show ?case
    by (auto simp: counts_requeuesD [OF assms(1)])
next
  case (work c calls e k c' new)
  have "numRequeues (calls @ [call, QDone k]) j = numRequeues (calls @ [call]) j" for call j
    using counts_requeuesD(3) [OF assms(1), of "calls @ [call]" k j] by simp
  with work_calls [OF work.hyps(4)] work.IH [of key] work.IH [of k] show ?case
    by (auto simp: counts_requeuesD [OF assms(1)] maxRetries_def Suc_le_eq)
qed

lemma all_synced_iff: "all_synced oks \<longleftrightarrow> False \<notin> set oks"
  by (induction oks) auto

lemma startInformers_iff:
  "startInformers i c \<longleftrightarrow> False \<notin> set (if_kubernetes i @ if_split i @ if_specs i)
     \<and> (ACLEnabled (ct_cfg c) \<longrightarrow> False \<notin> set (if_access i))"
  by (simp add: startInformers_def startBaseInformers_def startACLInformers_def all_synced_iff ball_Un)

lemma loadPortMappersState_store:
  "loadPortMappersState tcp udp c = (d, r) \<Longrightarrow> ct_store d = ct_store c \<and> (r = None \<longleftrightarrow> tcp \<noteq> None \<and> udp \<noteq> None)"
  by (cases tcp; cases udp) (auto simp: loadPortMappersState_def Let_def LoadState_def)

text \<open>C26: A new controller becomes ready exactly when its start succeeds, which is when every cache it
  needs has synced, those of access control only if that is enabled, and both listings of shadow services
  were answered. A failed start leaves the shared store as it was.\<close>

theorem ready_iff_started:
  assumes "NewAPI synced ns = Some store"
    and "Run_start i tcp udp (NewMeshController cfg store) = (c, r)"
  shows "(getReadiness (\<lambda>b. True) (ct_store c) = (StatusOK, ReadyBody True) \<longleftrightarrow> r = None)
     \<and> (r = None \<longleftrightarrow> False \<notin> set (if_kubernetes i @ if_split i @ if_specs i)
          \<and> (ACLEnabled cfg \<longrightarrow> False \<notin> set (if_access i)) \<and> tcp \<noteq> None \<and> udp \<noteq> None)
     \<and> (r \<noteq> None \<longrightarrow> ct_store c = store)"
proof -
  have new: "\<not> Safe_Get (api_readiness store)" using assms(1) by (auto simp: NewAPI_def split: if_splits)
  have cfg: "ct_cfg (NewMeshController cfg store) = cfg" "ct_store (NewMeshController cfg store) = store"
    by (simp_all add: NewMeshController_def)
  have yes: "getReadiness (\<lambda>b. True) (SetReadiness True a) = (StatusOK, ReadyBody True)" for a
    by (simp add: getReadiness_def respond_def store.laws)
  have no: "getReadiness (\<lambda>b. True) store \<noteq> (StatusOK, ReadyBody True)"
    using new by (simp add: getReadiness_def)
  show ?thesis
  proof (cases "startInformers i (NewMeshController cfg store)")
    case False
    with assms(2) have "c = NewMeshController cfg store" "r = Some EStartInformers" by (simp_all add: Run_start_def)
    with False no show ?thesis unfolding startInformers_iff cfg by (auto simp: cfg)
  next
    case True
    obtain d s where load: "loadPortMappersState tcp udp (NewMeshController cfg store) = (d, s)" by fastforce
    note loaded = loadPortMappersState_store [OF load, unfolded cfg]
    from True load assms(2) have "r = s" "ct_store c = (if s = None then SetReadiness True (ct_store d) else ct_store d)"
      by (auto simp: Run_start_def split: option.splits)
    with loaded yes no True show ?thesis unfolding startInformers_iff cfg by (cases s) simp_all
  qed
qed

text \<open>Readiness, once reached, is never lost.\<close>

lemma run_ready:
  assumes "run numRequeues keyFunc (env_ok (ct_resourceFilter c0)) c0 c calls" "manager_ok (ct_manager c0)"
  shows "Safe_Get (api_readiness (ct_store c)) = Safe_Get (api_readiness (ct_store c0))"
  using run_ok [OF assms] by (simp add: controller_ok_def)

section \<open>The mesh does not react to its own writes\<close>

lemma controller_filter_apps: "''maesh'' \<in> set (ignoredApps (controller_filter cfg))"
  by (simp add: controller_filter_def NewResourceFilter_def option_defs)

text \<open>C27: The events that the manager's own writes cause are filtered out, so keeping shadow services in
  sync never queues work: the shadow service it creates, and the one it updates if that carries the label
  it was created with, are not watched, and both keep that label.\<close>

theorem own_writes_ignored:
  assumes "CreateOrUpdate l topologyKeys svc m = Some (m', Inr call)" "call \<in> {CreateService w, UpdateService w}"
    and "\<And>shadow. l = Found shadow \<Longrightarrow> om_Labels (ks_meta shadow) ''app'' = Some ''maesh''"
    and "ct_resourceFilter c = controller_filter cfg"
  shows "\<not> isWatchedResource c (ServiceObj w) \<and> om_Labels (ks_meta w) ''app'' = Some ''maesh''"
proof -
  have "om_Labels (ks_meta w) ''app'' = Some ''maesh''"
    using assms(1-3) by (auto simp: CreateOrUpdate_def Let_def newShadowService_def
        split: lookup.splits option.splits sum.splits)
  then have "IsIgnored (controller_filter cfg) (ServiceObj w)"
    using controller_filter_apps by (simp add: IsIgnored_service_iff str_get_def)
  with assms(4) \<open>om_Labels (ks_meta w) ''app'' = Some ''maesh''\<close> show ?thesis by (simp add: isWatchedResource_def)
qed

section \<open>The ranges of the command line\<close>

lemma sint_add_const:
  fixes k l :: int32
  assumes "- (2 ^ 31) \<le> sint k + sint l" "sint k + sint l < 2 ^ 31"
  shows "sint (k + l) = sint k + sint l"
  using assms by (simp add: sint_word_ariths signed_take_bit_int_eq_self)

lemma sint_getMaxPort:
  assumes "0 \<le> sint lo" "0 \<le> sint limit" "sint lo + sint limit < 2 ^ 31"
  shows "sint (getMaxPort lo limit) = sint lo + sint limit - 1"
proof -
  have sum: "sint (lo + limit) = sint lo + sint limit" using assms by (intro sint_add_const) auto
  have "lo + limit - 1 = (lo + limit) + (- 1)" by simp
  also have "sint \<dots> = sint (lo + limit) + sint (- 1 :: int32)"
    using sum assms by (intro sint_add_const) simp_all
  finally show ?thesis using sum by (simp add: getMaxPort_def)
qed

text \<open>C28: The limits of the command line are not checked, and they decide whether the ports are apart: for
  limits small enough that no sum overflows, the ranges are as the controller needs them exactly when at
  most 5000 HTTP ports are asked for, and the TCP and the UDP ports are apart exactly when at most 5000
  TCP ports are.\<close>

theorem mesh_config_ranges:
  assumes "0 \<le> sint limitHTTP" "sint limitHTTP < 2 ^ 31 - 5000"
    and "0 \<le> sint limitTCP" "sint limitTCP < 2 ^ 31 - 10000"
    and "0 \<le> sint limitUDP" "sint limitUDP < 2 ^ 31 - 15000"
    and "cfg = mesh_config acl smi defaultMode ns watch ignore limitHTTP limitTCP limitUDP"
  shows "(ranges_ok cfg \<longleftrightarrow> sint limitHTTP \<le> 5000)
     \<and> (sint (cc_MaxTCPPort cfg) < sint (cc_MinUDPPort cfg) \<longleftrightarrow> sint limitTCP \<le> 5000)"
proof -
  have "sint (getMaxPort 5000 limitHTTP) = 4999 + sint limitHTTP"
    "sint (getMaxPort 10000 limitTCP) = 9999 + sint limitTCP"
    "sint (getMaxPort 15000 limitUDP) = 14999 + sint limitUDP"
    using sint_getMaxPort [of 5000 limitHTTP] sint_getMaxPort [of 10000 limitTCP] sint_getMaxPort [of 15000 limitUDP] assms
    by simp_all
  with assms show ?thesis by (auto simp: mesh_config_def ranges_ok_def)
qed

section \<open>A small installation\<close>

definition ex_cfg :: ControllerConfig where
  "ex_cfg = mesh_config True False ''http'' ''mesh'' [] [] 10 25 25"

definition ex_synced :: informers where
  "ex_synced = \<lparr>if_kubernetes = [True, True], if_split = [True], if_specs = [True], if_access = [True]\<rparr>"

definition ex_api :: API where
  "ex_api = \<lparr>api_readiness = Safe_New False, api_configuration = Safe_New NewDefaultDynamicConfig,
     api_topology = Safe_New NewTopology, api_namespace = ''maesh''\<rparr>"

definition ex_start :: Controller where
  "ex_start = fst (Run_start ex_synced (Some [ex_shadow]) (Some [ex_shadow]) (NewMeshController ex_cfg ex_api))"

text \<open>The worker meets the mesh of one service with a traffic target.\<close>

definition ex_env :: env where
  "ex_env = \<lparr>env_splitKey = (\<lambda>key. if key = ''ns/svc'' then Some (''ns'', ''svc'') else None),
     env_services = (\<lambda>ns n. if ns = ''ns'' \<and> n = ''svc'' then Found ex_service else NotFound),
     env_topologyKeys = True, env_accepts = (\<lambda>call. True), env_cluster = ex_mesh, env_schedule = ex_schedule,
     env_order = [Key ''svc'' ''ns''], env_ranges = as_listed, env_fuel = 1\<rparr>"

lemma ex_new_api: "NewAPI [True] ''maesh'' = Some ex_api"
  by (simp add: NewAPI_def ex_api_def)

lemma ex_cfg_simps:
  "cc_MinHTTPPort ex_cfg = 5000" "cc_MaxHTTPPort ex_cfg = 5009" "cc_MinTCPPort ex_cfg = 10000"
  "cc_MaxTCPPort ex_cfg = 10024" "cc_MinUDPPort ex_cfg = 15000" "cc_MaxUDPPort ex_cfg = 15024"
  "ACLEnabled ex_cfg" "cc_Namespace ex_cfg = ''mesh''" "DefaultMode ex_cfg = ''http''"
  by (simp_all add: ex_cfg_def mesh_config_def getMaxPort_def)

lemma ex_ranges: "ranges_ok ex_cfg"
  by (simp add: ranges_ok_def ex_cfg_simps)

lemma ex_unambiguous: "unambiguous (fresh_tcp ex_cfg) [ex_shadow]" "unambiguous (fresh_udp ex_cfg) [ex_shadow]"
  by (simp_all add: unambiguous_def ex_listed fresh_tcp_def fresh_udp_def ex_cfg_simps single_valued_def in_ports_def)

lemma ex_booted: "booted ex_cfg [ex_shadow] (fst (Run_start ex_synced (Some [ex_shadow]) (Some [ex_shadow]) (NewMeshController ex_cfg ex_api)))"
proof -
  have "startInformers ex_synced c" for c by (simp add: startInformers_iff ex_synced_def)
  then have "snd (Run_start ex_synced (Some [ex_shadow]) (Some [ex_shadow]) (NewMeshController ex_cfg ex_api)) = None"
    by (simp add: Run_start_def loadPortMappersState_def LoadState_def Let_def)
  then show ?thesis unfolding booted_def using ex_new_api by (metis prod.collapse)
qed

lemma ex_filter: "om_Namespace m = ''ns'' \<Longrightarrow> om_Labels m = Map.empty \<Longrightarrow> \<not> IsIgnored (controller_filter ex_cfg) (MetaObj m)"
  "\<not> IsIgnored (controller_filter ex_cfg) (ServiceObj ex_service)"
  by (simp_all add: IsIgnored_meta_iff IsIgnored_service_iff controller_filter_def NewResourceFilter_def option_defs
      ex_cfg_def mesh_config_def str_get_def ex_service_def ex_meta_def)

lemma ex_env_ok: "env_ok (controller_filter ex_cfg) ex_env"
proof -
  have "valid_schedule res ex_schedule" if "loadResources ex_mesh (controller_filter ex_cfg) = Inr res" for res
    using ex_mesh_valid [OF ex_filter(2,1) that] .
  then show ?thesis by (simp add: env_ok_def ex_env_def ex_service_def ex_schedule_def)
qed

definition ex_key :: "ObjectMeta \<Rightarrow> string option" where
  "ex_key m = Some (om_Namespace m @ ''/'' @ om_Name m)"

text \<open>A limiter that counts as documented.\<close>

definition ex_requeues :: "queue_call list \<Rightarrow> string \<Rightarrow> nat" where
  "ex_requeues calls k = fold (\<lambda>call n. if call = QAddRateLimited k then Suc n else if call = QForget k then 0 else n) calls 0"

lemma ex_requeues_counts: "counts_requeues ex_requeues"
  by (simp add: counts_requeues_def ex_requeues_def)

lemma ex_run:
  assumes "booted ex_cfg [ex_shadow] c0"
  shows "run ex_requeues ex_key (env_ok (controller_filter ex_cfg)) c0 c0 [QAdd ''ns/svc'']"
proof -
  have "isWatchedResource c0 (ServiceObj ex_service)"
    using booted_ok(4) [OF assms ex_ranges ex_unambiguous] ex_filter(2) by (simp add: isWatchedResource_def)
  from run.event [OF run.start this, where new = "[QAdd ''ns/svc'']"] show ?thesis
    by (simp add: OnAdd_def enqueueWork_def ex_key_def ex_service_def ex_meta_def)
qed

lemma work_ends_witness:
  "\<exists>c0 c'. booted ex_cfg [ex_shadow] c0 \<and> processNextWorkItem ex_env 0 ''ns/svc'' c0 = Some (c', [QForget ''ns/svc'', QDone ''ns/svc''])
     \<or> booted ex_cfg [ex_shadow] c0 \<and> processNextWorkItem ex_env 0 ''ns/svc'' c0 = Some (c', [QAddRateLimited ''ns/svc'', QDone ''ns/svc''])"
  using work_ends [OF ex_booted ex_ranges ex_unambiguous ex_run [OF ex_booted] ex_env_ok, of 0 "''ns/svc''"] ex_booted
  by auto

lemma served_configuration_safe_witness:
  "\<exists>c0. booted ex_cfg [ex_shadow] c0 \<and> http_refs_ok (Safe_Get (api_configuration (ct_store c0)))"
proof -
  let ?c0 = "fst (Run_start ex_synced (Some [ex_shadow]) (Some [ex_shadow]) (NewMeshController ex_cfg ex_api))"
  have "getCurrentConfiguration (\<lambda>b. True) (ct_store ?c0) = (StatusOK, ConfigBody (Safe_Get (api_configuration (ct_store ?c0))))"
    "getCurrentTopology (\<lambda>b. True) (ct_store ?c0) = (StatusOK, TopologyBody (Safe_Get (api_topology (ct_store ?c0))))"
    by (simp_all add: getCurrentConfiguration_def getCurrentTopology_def respond_def)
  from served_configuration_safe [OF ex_booted ex_ranges ex_unambiguous ex_run [OF ex_booted] this] ex_booted
  show ?thesis by blast
qed

lemma ex_start_mapped:
  "mapped (ct_manager (fst (Run_start ex_synced (Some [ex_shadow]) (Some [ex_shadow]) (NewMeshController ex_cfg ex_api))))
     ProtocolTCP ''ns'' ''a'' 80 = Some 10000"
proof -
  obtain d r where load: "loadPortMappersState (Some [ex_shadow]) (Some [ex_shadow]) (NewMeshController ex_cfg ex_api) = (d, r)"
    by fastforce
  note d = load_tables [OF ex_ranges ex_unambiguous load]
  have "pm_table (fresh_tcp ex_cfg) = []" "sint (maxPort (fresh_tcp ex_cfg)) < 2 ^ 31 - 1"
    by (simp_all add: fresh_tcp_def ex_cfg_simps)
  note t = LoadState_listed [OF this ex_unambiguous(1) [unfolded unambiguous_def, THEN conjunct1]
      ex_unambiguous(1) [unfolded unambiguous_def, THEN conjunct2]]
  then have "distinct (map snd (pm_table (fst (LoadState (Some [ex_shadow]) (fresh_tcp ex_cfg)))))" by (simp add: mapping_ok_def)
  from Find_Some_iff [OF this, of "''ns''" "''a''" 80 10000] t
  have "Find (fst (LoadState (Some [ex_shadow]) (fresh_tcp ex_cfg))) ''ns'' ''a'' 80 = Some 10000"
    by (simp add: ex_listed fresh_tcp_def ex_cfg_simps in_ports_def)
  moreover have "startInformers ex_synced c" for c by (simp add: startInformers_iff ex_synced_def)
  ultimately show ?thesis using d load by (simp add: Run_start_def mapped_def)
qed

lemma mesh_ports_stable_witness:
  "\<exists>c0 c'. booted ex_cfg [ex_shadow] c0 \<and> mapped (ct_manager c0) ProtocolTCP ''ns'' ''a'' 80 = Some 10000
     \<and> (\<exists>new. processNextWorkItem ex_env 0 ''ns/svc'' c0 = Some (c', new))
     \<and> mapped (ct_manager c') ProtocolTCP ''ns'' ''a'' 80 = Some 10000"
proof -
  let ?c0 = "fst (Run_start ex_synced (Some [ex_shadow]) (Some [ex_shadow]) (NewMeshController ex_cfg ex_api))"
  note boot = booted_ok [OF ex_booted ex_ranges ex_unambiguous]
  have "controller_ok ?c0 ?c0" using boot(1) by (simp add: controller_ok_def)
  from process_ok [OF this, of ex_env 0 "''ns/svc''"] ex_env_ok boot(4)
  obtain c' new where work: "processNextWorkItem ex_env 0 ''ns/svc'' ?c0 = Some (c', new)" by auto
  have named: "\<forall>ns n svc. env_services ex_env ns n = Found svc \<longrightarrow> om_Namespace (ks_meta svc) = ns \<and> om_Name (ks_meta svc) = n"
    by (simp add: ex_env_def ex_service_def ex_meta_def)
  have "env_splitKey ex_env ''ns/svc'' \<noteq> Some (''ns'', ''a'')" by (simp add: ex_env_def)
  with mesh_ports_stable [OF ex_booted ex_ranges ex_unambiguous ex_run [OF ex_booted] ex_env_ok named work]
  have "mapped (ct_manager c') ProtocolTCP ''ns'' ''a'' 80 = mapped (ct_manager ?c0) ProtocolTCP ''ns'' ''a'' 80" by blast
  with ex_start_mapped ex_booted work show ?thesis by auto
qed

lemma retries_bounded_witness: "ex_requeues [QAdd ''ns/svc''] ''ns/svc'' \<le> 12"
  using retries_bounded [OF ex_requeues_counts ex_run [OF ex_booted]] .

lemma ready_iff_started_witness:
  "getReadiness (\<lambda>b. True) (ct_store (fst (Run_start ex_synced (Some [ex_shadow]) (Some [ex_shadow]) (NewMeshController ex_cfg ex_api)))) = (StatusOK, ReadyBody True)"
proof -
  obtain c r where c: "Run_start ex_synced (Some [ex_shadow]) (Some [ex_shadow]) (NewMeshController ex_cfg ex_api) = (c, r)" by fastforce
  from ready_iff_started [OF ex_new_api c] have "getReadiness (\<lambda>b. True) (ct_store c) = (StatusOK, ReadyBody True)"
    by (simp add: ex_synced_def)
  then show ?thesis by (simp add: c)
qed

lemma mesh_config_ranges_witness:
  "ranges_ok (mesh_config False False ''http'' ''maesh'' [] [] 5000 25 25)
   \<and> \<not> ranges_ok (mesh_config False False ''http'' ''maesh'' [] [] 5001 25 25)"
  using mesh_config_ranges [OF _ _ _ _ _ _ refl, of 5000 25 25] mesh_config_ranges [OF _ _ _ _ _ _ refl, of 5001 25 25] by simp

lemma own_writes_ignored_witness:
  "\<exists>m' w. CreateOrUpdate NotFound True ex_service (ct_manager (NewMeshController ex_cfg ex_api)) = Some (m', Inr (CreateService w))
     \<and> \<not> isWatchedResource (NewMeshController ex_cfg ex_api) (ServiceObj w)"
proof -
  let ?c = "NewMeshController ex_cfg ex_api"
  obtain m' w where cu: "CreateOrUpdate NotFound True ex_service (ct_manager ?c) = Some (m', Inr (CreateService w))"
    by (simp add: CreateOrUpdate_def Let_def removeUnusedPortMappings_def getShadowServicePorts_def ex_service_def ex_meta_def
        NewMeshController_def NewShadowServiceManager_def GetTrafficType_def ex_cfg_simps)
  have "ct_resourceFilter ?c = controller_filter ex_cfg" by (simp add: NewMeshController_def)
  from own_writes_ignored [OF cu _ _ this, of w] cu show ?thesis by auto
qed

end
