(* ===== verification/Lifetime.thy ===== *)
theory Lifetime
  imports ControllerInvariant
begin

text \<open>
  The life of an installation: the port tables of the manager and the shadow services in the cluster stay
  in step while services are synced, and a restart recovers the tables.
\<close>

section \<open>The cluster and the tables\<close>

text \<open>The shadow services of the mesh namespace, by name, and what the API server makes of the calls.\<close>

type_synonym shadows = "string \<rightharpoonup> KService"

fun applied :: "api_call \<Rightarrow> shadows \<Rightarrow> shadows" where
  "applied (CreateService svc) sh = sh(om_Name (ks_meta svc) \<mapsto> svc)"
| "applied (UpdateService svc) sh = sh(om_Name (ks_meta svc) \<mapsto> svc)"
| "applied (DeleteService ns n) sh = sh(n := None)"

definition shadow_lookup :: "shadows \<Rightarrow> string \<Rightarrow> lookup" where
  "shadow_lookup sh n = (case sh n of Some svc \<Rightarrow> Found svc | None \<Rightarrow> NotFound)"

text \<open>A namespace whose shadow service names can be read back.\<close>

definition plain_namespace :: "string \<Rightarrow> bool" where
  "plain_namespace ns \<longleftrightarrow> \<not> Contains (''-'' @ ns) shadow_marker"

text \<open>The lister of services shows every write at once and finds services under their names, and the API server
  accepts every call. The first and the last are idealisations that client-go and the API server do not promise: a
  cache follows the cluster with a delay, and a write can be refused. What the code does after a refused write is the
  last section.\<close>

definition faithful :: "ShadowServiceManager \<Rightarrow> shadows \<Rightarrow> env \<Rightarrow> bool" where
  "faithful m sh e \<longleftrightarrow> (\<forall>ns n. env_services e (sm_namespace m) (shadow_name m ns n) = shadow_lookup sh (shadow_name m ns n))
     \<and> (\<forall>call. env_accepts e call)
     \<and> (\<forall>key ns n. env_splitKey e key = Some (ns, n) \<longrightarrow> plain_namespace ns)
     \<and> (\<forall>ns n svc. env_services e ns n = Found svc \<longrightarrow> om_Namespace (ks_meta svc) = ns \<and> om_Name (ks_meta svc) = n
          \<and> distinct_ports svc)"

text \<open>
  The life of a mesh installation: a controller on an empty cluster, services synced in any order, and
  restarts, at which a new controller reads its tables back from the shadow services the cluster lists, in
  whatever order. A sync that fails before it touches the tables changes nothing and needs no rule; one
  whose traffic type is unknown or whose write the API server refuses is left out, since the tables are
  then ahead of the cluster.
\<close>

inductive lifetime :: "ControllerConfig \<Rightarrow> Controller \<Rightarrow> shadows \<Rightarrow> bool" for cfg :: ControllerConfig
where
  new: "lifetime cfg (NewMeshController cfg store) Map.empty"
| sync: "lifetime cfg c sh \<Longrightarrow> faithful (ct_manager c) sh e \<Longrightarrow>
     syncShadowService e key c = Some (c', call, None) \<Longrightarrow>
     lifetime cfg c' (case call of None \<Rightarrow> sh | Some a \<Rightarrow> applied a sh)"
| restart: "lifetime cfg c sh \<Longrightarrow> set tcp = ran sh \<Longrightarrow> set udp = ran sh \<Longrightarrow>
     loadPortMappersState (Some tcp) (Some udp) (NewMeshController cfg store) = (c', None) \<Longrightarrow>
     lifetime cfg c' sh"

text \<open>Every service has the mappings its shadow service lists, and every shadow service is named after a
  service.\<close>

definition in_step :: "ShadowServiceManager \<Rightarrow> shadows \<Rightarrow> bool" where
  "in_step m sh \<longleftrightarrow>
     (\<forall>ns n. plain_namespace ns \<longrightarrow> accurate m ns n (known_ports (shadow_lookup sh (shadow_name m ns n))))
   \<and> (\<forall>proto ns n port t. mapped m proto ns n port = Some t \<longrightarrow> plain_namespace ns)
   \<and> (\<forall>k svc. sh k = Some svc \<longrightarrow> om_Name (ks_meta svc) = k \<and> (\<exists>ns n. plain_namespace ns \<and> k = shadow_name m ns n)
        \<and> (\<forall>sp\<in>set (ks_Ports svc). sp_Protocol sp \<in> {ProtocolTCP, ProtocolUDP}))"

lemma in_stepD:
  assumes "in_step m sh"
  shows "plain_namespace ns \<Longrightarrow> accurate m ns n (known_ports (shadow_lookup sh (shadow_name m ns n)))"
    "mapped m proto ns n port = Some t \<Longrightarrow> plain_namespace ns"
    "sh k = Some svc \<Longrightarrow> om_Name (ks_meta svc) = k \<and> (\<exists>ns n. plain_namespace ns \<and> k = shadow_name m ns n)
       \<and> (\<forall>sp\<in>set (ks_Ports svc). sp_Protocol sp \<in> {ProtocolTCP, ProtocolUDP})"
  using assms unfolding in_step_def by blast+

lemma shadow_name_inject:
  assumes "plain_namespace ns" "plain_namespace ns'" "shadow_name m ns n = shadow_name m ns' n'"
  shows "ns' = ns \<and> n' = n"
proof -
  let ?p = "NewPortMapping (sm_namespace m) 0 0"
  have parse: "parseServiceNamespaceAndName ?p (shadow_name m a b) = Inr (a, b)" if "plain_namespace a" for a b
    using that parse_shadow_name [of ?p a b] by (simp add: plain_namespace_def shadow_name_def)
  from parse [OF assms(1), of n] parse [OF assms(2), of n'] have "Inr (ns, n) = (Inr (ns', n') :: mesh_error + _)"
    unfolding assms(3) by (rule trans [OF sym])
  then show ?thesis by simp
qed

lemma accurate_cong:
  assumes "maxHTTPPort m' = maxHTTPPort m" "\<And>proto port. mapped m' proto ns n port = mapped m proto ns n port"
  shows "accurate m' ns n ports = accurate m ns n ports"
  using assms by (simp add: accurate_def lists_port_def)

lemma shadow_ports_protocol:
  "shadow_ports s tt i n ns sps = Some (s', ports) \<Longrightarrow> sp \<in> set ports \<Longrightarrow> sp_Protocol sp \<in> {ProtocolTCP, ProtocolUDP}"
proof (induction sps arbitrary: s i ports)
  case (Cons a sps)
  then show ?case
    by (auto simp: isPortSuitable_def split: if_splits option.splits sum.splits)
qed simp

text \<open>The frame: a call about one service whose shadow service becomes \<open>new\<close> keeps everything in step.\<close>

lemma in_step_update:
  assumes "in_step m sh" "plain_namespace ns" "manager_config m' = manager_config m"
    and frame: "\<And>proto ns' n' port. (ns', n') \<noteq> (ns, n) \<Longrightarrow> mapped m' proto ns' n' port = mapped m proto ns' n' port"
    and acc: "accurate m' ns n (case new of None \<Rightarrow> [] | Some svc \<Rightarrow> ks_Ports svc)"
    and new: "\<And>svc. new = Some svc \<Longrightarrow> om_Name (ks_meta svc) = shadow_name m ns n
       \<and> (\<forall>sp\<in>set (ks_Ports svc). sp_Protocol sp \<in> {ProtocolTCP, ProtocolUDP})"
  shows "in_step m' (sh(shadow_name m ns n := new))"
proof -
  let ?sh = "sh(shadow_name m ns n := new)"
  from assms(3) have cfg: "maxHTTPPort m' = maxHTTPPort m" "shadow_name m' = shadow_name m"
    by (simp_all add: manager_config_def shadow_name_def fun_eq_iff)
  have "accurate m' ns' n' (known_ports (shadow_lookup ?sh (shadow_name m' ns' n')))" if "plain_namespace ns'" for ns' n'
  proof (cases "(ns', n') = (ns, n)")
    case True
    with acc show ?thesis by (auto simp: cfg shadow_lookup_def known_ports_def split: option.splits)
  next
    case False
    then have "shadow_name m ns' n' \<noteq> shadow_name m ns n"
      using shadow_name_inject [OF assms(2) that, of m n n'] by auto
    then have "shadow_lookup ?sh (shadow_name m ns' n') = shadow_lookup sh (shadow_name m ns' n')"
      by (simp add: shadow_lookup_def)
    moreover have "accurate m' ns' n' ports = accurate m ns' n' ports" for ports
      using False by (intro accurate_cong cfg frame)
    ultimately show ?thesis using assms(1) that by (simp add: in_step_def cfg)
  qed
  moreover have "plain_namespace ns'" if "mapped m' proto ns' n' port = Some t" for proto ns' n' port t
  proof (cases "(ns', n') = (ns, n)")
    case False
    then have "mapped m' proto ns' n' port = mapped m proto ns' n' port" by (rule frame)
    with that in_stepD(2) [OF assms(1)] show ?thesis by simp
  qed (use assms(2) in simp)
  moreover have "om_Name (ks_meta svc) = k \<and> (\<exists>ns n. plain_namespace ns \<and> k = shadow_name m' ns n)
      \<and> (\<forall>sp\<in>set (ks_Ports svc). sp_Protocol sp \<in> {ProtocolTCP, ProtocolUDP})" if "?sh k = Some svc" for k svc
  proof (cases "k = shadow_name m ns n")
    case True
    with that new assms(2) show ?thesis by (auto simp: cfg)
  next
    case False
    with that assms(1) show ?thesis by (simp add: in_step_def cfg)
  qed
  ultimately show ?thesis unfolding in_step_def by blast
qed

lemma applied_call:
  assumes "CreateOrUpdate (shadow_lookup sh k) tk svc m = Some (m', Inr call)"
    and "k = shadow_name m (om_Namespace (ks_meta svc)) (om_Name (ks_meta svc))"
    and "\<And>shadow. sh k = Some shadow \<Longrightarrow> om_Name (ks_meta shadow) = k"
  shows "\<exists>w. applied call sh = sh(k \<mapsto> w) \<and> om_Name (ks_meta w) = k \<and> ks_Ports w = call_ports call
     \<and> (\<forall>sp\<in>set (ks_Ports w). sp_Protocol sp \<in> {ProtocolTCP, ProtocolUDP})"
proof -
  have ports: "\<forall>sp\<in>set ports. sp_Protocol sp \<in> {ProtocolTCP, ProtocolUDP}"
    if "getShadowServicePorts s svc = Some (s', Inr ports)" for s s' ports
    using that shadow_ports_protocol by (auto simp: getShadowServicePorts_def split: sum.splits)
  show ?thesis
  proof (cases "sh k")
    case None
    with assms(1,2) obtain s' ports where "getShadowServicePorts (removeUnusedPortMappings None svc m) svc = Some (s', Inr ports)"
      "call = CreateService (newShadowService m k ports tk)"
      by (auto simp: CreateOrUpdate_def shadow_lookup_def Let_def split: option.splits sum.splits)
    with ports show ?thesis
      by (intro exI [of _ "newShadowService m k ports tk"]) (auto simp: newShadowService_def call_ports_def)
  next
    case (Some shadow)
    with assms(1,2) obtain s' ports where "getShadowServicePorts (removeUnusedPortMappings (Some shadow) svc m) svc = Some (s', Inr ports)"
      "call = UpdateService (shadow\<lparr>ks_Ports := ports, ks_TopologyKeys := ks_TopologyKeys (newShadowService m k ports tk)\<rparr>)"
      by (auto simp: CreateOrUpdate_def shadow_lookup_def Let_def newShadowService_def split: option.splits sum.splits)
    with ports assms(3) [OF Some] show ?thesis
      by (intro exI [of _ "shadow\<lparr>ks_Ports := ports, ks_TopologyKeys := ks_TopologyKeys (newShadowService m k ports tk)\<rparr>"])
        (auto simp: call_ports_def)
  qed
qed

lemma CreateOrUpdate_type:
  assumes "CreateOrUpdate l tk svc m = Some (m', Inr call)" "manager_ok m"
  shows "\<exists>tt. GetTrafficType (defaultTrafficType m) (om_Annotations (ks_meta svc)) = Inr tt"
proof -
  have "defaultTrafficType (removeUnusedPortMappings shadow svc m) = defaultTrafficType m" for shadow
    using remove_many [OF assms(2)] by (simp add: removeUnusedPortMappings_def split: option.split)
  with assms(1) show ?thesis
    by (cases "GetTrafficType (defaultTrafficType m) (om_Annotations (ks_meta svc))")
       (auto simp: CreateOrUpdate_def Let_def getShadowServicePorts_def split: lookup.splits option.splits)
qed

lemma write_in_step:
  assumes step: "in_step m sh" and ok: "manager_ok m" and dist: "distinct_ports svc"
    and nm: "plain_namespace (om_Namespace (ks_meta svc))"
    and cu: "CreateOrUpdate (shadow_lookup sh (shadow_name m (om_Namespace (ks_meta svc)) (om_Name (ks_meta svc)))) tk svc m =
      Some (m', Inr call)"
  shows "in_step m' (applied call sh)"
proof -
  let ?ns = "om_Namespace (ks_meta svc)" and ?n = "om_Name (ks_meta svc)"
  let ?k = "shadow_name m ?ns ?n"
  have found: "shadow_lookup sh ?k \<noteq> LookupError" by (simp add: shadow_lookup_def split: option.split)
  obtain tt where tt: "GetTrafficType (defaultTrafficType m) (om_Annotations (ks_meta svc)) = Inr tt"
    using CreateOrUpdate_type [OF cu ok] by blast
  from CreateOrUpdate_keeps_accurate [OF ok found in_stepD(1) [OF step nm] dist tt, of tk] cu
  have acc: "accurate m' ?ns ?n (call_ports call)"
    and frame: "\<And>proto ns n port. (ns, n) \<noteq> (?ns, ?n) \<Longrightarrow> mapped m' proto ns n port = mapped m proto ns n port"
    by auto
  have cfg: "manager_config m' = manager_config m" using CreateOrUpdate_keeps [OF ok dist, of "shadow_lookup sh ?k" tk] cu by auto
  have "sh ?k = Some shadow \<Longrightarrow> om_Name (ks_meta shadow) = ?k" for shadow using in_stepD(3) [OF step] by blast
  from applied_call [OF cu refl this] obtain w where
    w: "applied call sh = sh(?k := Some w)" "om_Name (ks_meta w) = ?k" "ks_Ports w = call_ports call"
    "\<forall>sp\<in>set (ks_Ports w). sp_Protocol sp \<in> {ProtocolTCP, ProtocolUDP}" by blast
  have "in_step m' (sh(?k := Some w))"
  proof (rule in_step_update [OF step nm cfg frame])
    show "accurate m' ?ns ?n (case Some w of None \<Rightarrow> [] | Some svc \<Rightarrow> ks_Ports svc)" using acc w(3) by simp
  qed (use w in simp_all)
  with w(1) show ?thesis by simp
qed

lemma delete_in_step:
  assumes step: "in_step m sh" and ok: "manager_ok m" and nm: "plain_namespace ns"
    and del: "Delete_shadow (shadow_lookup sh (shadow_name m ns n)) ns n m = (m', Inr call)"
  shows "in_step m' (case call of None \<Rightarrow> sh | Some a \<Rightarrow> applied a sh)"
proof -
  let ?k = "shadow_name m ns n"
  have found: "shadow_lookup sh ?k \<noteq> LookupError" by (simp add: shadow_lookup_def split: option.split)
  from Delete_clears [OF ok in_stepD(1) [OF step nm] found] del
  have acc: "accurate m' ns n []"
    and frame: "\<And>proto ns' n' port. (ns', n') \<noteq> (ns, n) \<Longrightarrow> mapped m' proto ns' n' port = mapped m proto ns' n' port"
    and call: "call = (case shadow_lookup sh ?k of Found _ \<Rightarrow> Some (DeleteService (sm_namespace m) ?k) | _ \<Rightarrow> None)"
    by auto
  have cfg: "manager_config m' = manager_config m" using Delete_shadow_keeps [OF ok, of "shadow_lookup sh ?k" ns n] del by simp
  have "in_step m' (sh(?k := None))"
    by (rule in_step_update [OF step nm cfg frame]) (use acc in simp_all)
  moreover have "(case call of None \<Rightarrow> sh | Some a \<Rightarrow> applied a sh) = sh(?k := None)"
    unfolding call by (cases "sh ?k") (auto simp: shadow_lookup_def)
  ultimately show ?thesis by simp
qed

lemma sync_in_step:
  assumes step: "in_step (ct_manager c) sh" and ok: "manager_ok (ct_manager c)"
    and e: "faithful (ct_manager c) sh e" and sync: "syncShadowService e key c = Some (c', call, None)"
  shows "in_step (ct_manager c') (case call of None \<Rightarrow> sh | Some a \<Rightarrow> applied a sh) \<and> manager_ok (ct_manager c')
     \<and> manager_config (ct_manager c') = manager_config (ct_manager c)"
proof -
  let ?m = "ct_manager c"
  from sync obtain ns n where key: "env_splitKey e key = Some (ns, n)"
    by (auto simp: syncShadowService_def split: option.splits)
  with e have nm: "plain_namespace ns" unfolding faithful_def by blast
  have look: "env_services e (sm_namespace ?m) (shadow_name ?m ns n) = shadow_lookup sh (shadow_name ?m ns n)"
    using e by (simp add: faithful_def)
  show ?thesis
  proof (cases "env_services e ns n")
    case (Found svc)
    with e have svc: "om_Namespace (ks_meta svc) = ns" "om_Name (ks_meta svc) = n" "distinct_ports svc"
      unfolding faithful_def by blast+
    from CreateOrUpdate_keeps [OF ok svc(3)] obtain m' r where
      raw: "CreateOrUpdate (shadow_lookup sh (shadow_name ?m ns n)) (env_topologyKeys e) svc ?m = Some (m', r)"
      and keeps: "manager_ok m'" "manager_config m' = manager_config ?m" by blast
    with sync key Found look obtain a where r: "r = Inr a" and c': "ct_manager c' = m'" "call = Some a"
      by (cases r) (auto simp: syncShadowService_def Let_def)
    note cu = raw [unfolded r]
    from write_in_step [OF step ok svc(3), unfolded svc(1,2), OF nm cu] keeps c' show ?thesis by simp
  next
    case NotFound
    with sync key look obtain m' where
      del: "Delete_shadow (shadow_lookup sh (shadow_name ?m ns n)) ns n ?m = (m', Inr call)" and c': "ct_manager c' = m'"
      by (auto simp: syncShadowService_def Let_def split: prod.splits sum.splits option.splits if_splits)
    from delete_in_step [OF step ok nm del] Delete_shadow_keeps [OF ok, of "shadow_lookup sh (shadow_name ?m ns n)" ns n] del c'
    show ?thesis by simp
  qed (use sync key in \<open>simp add: syncShadowService_def Let_def\<close>)
qed

section \<open>Restarts\<close>

lemma listed_shadows:
  assumes step: "in_step m sh" and p: "pm_namespace p = sm_namespace m" "set svcs = ran sh"
    and range: "\<And>ns n port t. mapped m proto ns n port = Some t \<Longrightarrow> in_ports p t"
    and sep: "\<And>proto' ns n port t. mapped m proto' ns n port = Some t \<Longrightarrow> in_ports p t \<Longrightarrow> proto' = proto"
    and above: "\<And>t. in_ports p t \<Longrightarrow> sint (maxHTTPPort m) < sint t"
  shows "(t, \<lparr>pm_Namespace = ns, pm_Name = n, pm_Port = port\<rparr>) \<in> set (listed_ports p svcs) \<longleftrightarrow>
    mapped m proto ns n port = Some t"
proof -
  have parse: "parseServiceNamespaceAndName p (shadow_name m a b) = Inr (a, b)" if "plain_namespace a" for a b
    using that parse_shadow_name [of p a b] p(1) by (simp add: plain_namespace_def shadow_name_def)
  show ?thesis
  proof
    assume "(t, \<lparr>pm_Namespace = ns, pm_Name = n, pm_Port = port\<rparr>) \<in> set (listed_ports p svcs)"
    then obtain svc sp where svc: "svc \<in> ran sh" "parseServiceNamespaceAndName p (om_Name (ks_meta svc)) = Inr (ns, n)"
      and sp: "sp \<in> set (ks_Ports svc)" "in_ports p t" "ios_IntVal (sp_TargetPort sp) = t" "sp_Port sp = port"
      unfolding listed_ports_def p(2) [symmetric] by (auto split: sum.splits)
    from svc(1) obtain k where k: "sh k = Some svc" by (auto simp: ran_def)
    from in_stepD(3) [OF step k] obtain a b where ab: "om_Name (ks_meta svc) = k" "plain_namespace a" "k = shadow_name m a b"
      "sp_Protocol sp \<in> {ProtocolTCP, ProtocolUDP}" using sp(1) by blast
    with parse [OF ab(2), of b] svc(2) have eq: "a = ns" "b = n" by simp_all
    from in_stepD(1) [OF step ab(2), of b] ab(3) k have acc: "accurate m ns n (ks_Ports svc)"
      by (simp add: shadow_lookup_def known_ports_def eq)
    with sp(1,3) have "sp_TargetPort sp = FromInt t" by (auto simp: accurate_def)
    with sp above ab(4) have "lists_port m (ks_Ports svc) (sp_Protocol sp) port t" by (auto simp: lists_port_def)
    with acc have "mapped m (sp_Protocol sp) ns n port = Some t" by (simp add: accurate_def)
    with sep [OF this sp(2)] show "mapped m proto ns n port = Some t" by simp
  next
    assume m: "mapped m proto ns n port = Some t"
    with in_stepD(2) [OF step] have nm: "plain_namespace ns" by blast
    from in_stepD(1) [OF step nm] m have
      "lists_port m (known_ports (shadow_lookup sh (shadow_name m ns n))) proto port t" by (simp add: accurate_def)
    then obtain sp where sp: "sp \<in> set (known_ports (shadow_lookup sh (shadow_name m ns n)))" "sp_Port sp = port"
      "sp_TargetPort sp = FromInt t" unfolding lists_port_def by blast
    then obtain svc where svc: "sh (shadow_name m ns n) = Some svc" "sp \<in> set (ks_Ports svc)"
      by (auto simp: shadow_lookup_def known_ports_def split: option.splits)
    with in_stepD(3) [OF step svc(1)] p(2) have "svc \<in> set svcs" "om_Name (ks_meta svc) = shadow_name m ns n"
      by (auto intro: ranI)
    moreover have "in_ports p (ios_IntVal (sp_TargetPort sp))" using range [OF m] sp(3) by simp
    ultimately show "(t, \<lparr>pm_Namespace = ns, pm_Name = n, pm_Port = port\<rparr>) \<in> set (listed_ports p svcs)"
      using svc(2) sp parse [OF nm, of n] unfolding listed_ports_def
      by (auto simp: FromInt_def intro!: bexI [of _ svc] image_eqI [of _ _ sp])
  qed
qed

text \<open>A listing that repeats a table is unambiguous, and loading it gives the table back.\<close>

lemma reload_table:
  assumes "mapping_ok q" "pm_table p = []" "port_range p = port_range q"
    and listed: "\<And>t ns n port. (t, \<lparr>pm_Namespace = ns, pm_Name = n, pm_Port = port\<rparr>) \<in> set (listed_ports p svcs) \<longleftrightarrow>
      Find q ns n port = Some t"
  shows "unambiguous p svcs \<and> Find (fst (LoadState (Some svcs) p)) ns n port = Find q ns n port"
proof -
  have listed': "(t, v) \<in> set (listed_ports p svcs) \<longleftrightarrow> Find q (pm_Namespace v) (pm_Name v) (pm_Port v) = Some t" for t v
    using listed [of t "pm_Namespace v" "pm_Name v" "pm_Port v"] by (cases v) simp
  have un: "unambiguous p svcs"
    unfolding unambiguous_def single_valued_def converse_iff listed'
    using pm.find_inject [OF assms(1)] by (auto intro: servicePort.equality)
  from assms(1,3) have mx: "sint (maxPort p) < 2 ^ 31 - 1" by (simp add: mapping_ok_def port_range_def)
  note load = LoadState_listed [OF assms(2) mx un [unfolded unambiguous_def, THEN conjunct1] un [unfolded unambiguous_def, THEN conjunct2]]
  then have "distinct (map snd (pm_table (fst (LoadState (Some svcs) p))))" by (simp add: mapping_ok_def)
  from Find_Some_iff [OF this] load listed
  have "Find (fst (LoadState (Some svcs) p)) ns n port = Some t \<longleftrightarrow> Find q ns n port = Some t" for t by simp
  with un show ?thesis by (metis option.exhaust)
qed

lemma LoadState_range: "minPort (fst (LoadState svcs p)) = minPort p \<and> maxPort (fst (LoadState svcs p)) = maxPort p"
  by (cases svcs) (simp_all add: LoadState_def fold_load_service put_all_simps)

text \<open>The configuration of the manager of a new controller.\<close>

definition config_of :: "ControllerConfig \<Rightarrow> (string \<times> string) \<times> (int32 \<times> int32) \<times> (int32 \<times> int32) \<times> int32 \<times> int32" where
  "config_of cfg = ((cc_Namespace cfg, DefaultMode cfg), (cc_MinHTTPPort cfg, cc_MaxHTTPPort cfg),
     (cc_MinTCPPort cfg, cc_MaxTCPPort cfg), (cc_MinUDPPort cfg, cc_MaxUDPPort cfg))"

definition ranges_apart :: "ControllerConfig \<Rightarrow> bool" where
  "ranges_apart cfg \<longleftrightarrow> ranges_ok cfg \<and> sint (cc_MaxTCPPort cfg) < sint (cc_MinUDPPort cfg)"

lemma reload_one:
  assumes step: "in_step m sh" and q: "mapping_ok q" and find: "\<And>ns n port. mapped m proto ns n port = Find q ns n port"
    and p: "pm_table p = []" "port_range p = port_range q" "pm_namespace p = sm_namespace m" "set svcs = ran sh"
    and sep: "\<And>proto' ns n port t. mapped m proto' ns n port = Some t \<Longrightarrow> in_ports p t \<Longrightarrow> proto' = proto"
    and above: "sint (maxHTTPPort m) < sint (minPort p)"
  shows "unambiguous p svcs \<and> (\<forall>ns n port. Find (fst (LoadState (Some svcs) p)) ns n port = Find q ns n port)"
proof -
  have range: "in_ports p t" if "mapped m proto ns n port = Some t" for ns n port t
    using pm.find_range [OF q] that p(2) find by (simp add: in_ports_def port_range_def)
  have ab: "in_ports p t \<Longrightarrow> sint (maxHTTPPort m) < sint t" for t using above by (simp add: in_ports_def)
  have "(t, \<lparr>pm_Namespace = ns, pm_Name = n, pm_Port = port\<rparr>) \<in> set (listed_ports p svcs) \<longleftrightarrow>
      Find q ns n port = Some t" for t ns n port
    unfolding find [symmetric] by (rule listed_shadows [OF step p(3,4)], erule range, erule (1) sep, erule ab)
  with reload_table [OF q p(1,2)] show ?thesis by blast
qed

lemma reload_manager:
  assumes ra: "ranges_apart cfg" and ok: "manager_ok m" and cfg: "manager_config m = config_of cfg"
    and step: "in_step m sh" and svcs: "set tcp = ran sh" "set udp = ran sh"
    and load: "loadPortMappersState (Some tcp) (Some udp) (NewMeshController cfg store) = (c, r)"
  shows "r = None \<and> manager_ok (ct_manager c) \<and> manager_config (ct_manager c) = config_of cfg
     \<and> (\<forall>proto ns n port. mapped (ct_manager c) proto ns n port = mapped m proto ns n port)"
proof -
  let ?p = "fresh_tcp cfg" and ?q = "fresh_udp cfg"
  note fresh = fresh_tcp_def fresh_udp_def
  from ok have t: "mapping_ok (tcpStateTable m)" and u: "mapping_ok (udpStateTable m)" by (simp_all add: manager_ok_def)
  from cfg have ns: "pm_namespace ?p = sm_namespace m" "pm_namespace ?q = sm_namespace m" "maxHTTPPort m = cc_MaxHTTPPort cfg"
    and rt: "port_range ?p = port_range (tcpStateTable m)" and ru: "port_range ?q = port_range (udpStateTable m)"
    by (simp_all add: manager_config_def config_of_def fresh port_range_def)
  have above: "sint (maxHTTPPort m) < sint (minPort ?p)" "sint (maxHTTPPort m) < sint (minPort ?q)"
    using ra ns(3) by (simp_all add: ranges_apart_def ranges_ok_def fresh)
  have apart: "\<not> (in_ports ?p i \<and> in_ports ?q i)" for i
    using ra by (auto simp: ranges_apart_def in_ports_def fresh)
  have rng: "in_ports ?p i" if "Find (tcpStateTable m) ns n port = Some i" for ns n port i
    using pm.find_range [OF t that] rt by (simp add: in_ports_def port_range_def)
  have rng': "in_ports ?q i" if "Find (udpStateTable m) ns n port = Some i" for ns n port i
    using pm.find_range [OF u that] ru by (simp add: in_ports_def port_range_def)
  have "proto' = ProtocolTCP" if "mapped m proto' ns n port = Some i" "in_ports ?p i" for proto' ns n port i
    using that rng' [of ns n port i] apart [of i] by (auto simp: mapped_def split: if_splits)
  from reload_one [OF step t _ _ rt ns(1) svcs(1) this above(1)]
  have tt: "unambiguous ?p tcp" "Find (fst (LoadState (Some tcp) ?p)) ns n port = Find (tcpStateTable m) ns n port" for ns n port
    by (simp_all add: fresh mapped_def)
  have "proto' = ProtocolUDP" if "mapped m proto' ns n port = Some i" "in_ports ?q i" for proto' ns n port i
    using that rng [of ns n port i] apart [of i] by (auto simp: mapped_def split: if_splits)
  from reload_one [OF step u _ _ ru ns(2) svcs(2) this above(2)]
  have uu: "unambiguous ?q udp" "Find (fst (LoadState (Some udp) ?q)) ns n port = Find (udpStateTable m) ns n port" for ns n port
    by (simp_all add: fresh mapped_def)
  note loaded = load_tables [OF ra [unfolded ranges_apart_def, THEN conjunct1] tt(1) uu(1) load]
  have "manager_config (ct_manager c) = config_of cfg"
    using loaded by (simp add: manager_config_def config_of_def NewMeshController_def NewShadowServiceManager_def
        LoadState_range fresh port_range_def)
  moreover have "mapped (ct_manager c) proto ns n port = mapped m proto ns n port" for proto ns n port
    using loaded tt(2) uu(2) by (simp add: mapped_def)
  ultimately show ?thesis using loaded by blast
qed

section \<open>The life of an installation\<close>

lemma new_manager:
  assumes "ranges_ok cfg"
  shows "manager_ok (ct_manager (NewMeshController cfg store)) \<and> manager_config (ct_manager (NewMeshController cfg store)) = config_of cfg
     \<and> mapped (ct_manager (NewMeshController cfg store)) proto ns n port = None"
  using assms by (simp add: NewMeshController_def NewShadowServiceManager_def manager_ok_def mapping_ok_def ranges_ok_def
      mapped_def Find_def manager_config_def config_of_def port_range_def)

lemma lifetime_ok:
  assumes "lifetime cfg c sh" "ranges_apart cfg"
  shows "manager_ok (ct_manager c) \<and> manager_config (ct_manager c) = config_of cfg \<and> in_step (ct_manager c) sh"
  using assms(1)
proof induction
  case (new store)
  have "ranges_ok cfg" using assms(2) by (simp add: ranges_apart_def)
  note m = new_manager [OF this, of store]
  then have "in_step (ct_manager (NewMeshController cfg store)) Map.empty"
    by (simp add: in_step_def accurate_def lists_port_def shadow_lookup_def known_ports_def)
  with m show ?case by blast
next
  case (sync c sh e key c' call)
  with sync_in_step [of c sh e key c' call] show ?case by simp
next
  case (restart c sh tcp udp store c')
  then have keeps: "manager_ok (ct_manager c')" "manager_config (ct_manager c') = config_of cfg"
    "mapped (ct_manager c') proto ns n port = mapped (ct_manager c) proto ns n port" for proto ns n port
    using reload_manager [OF assms(2), of "ct_manager c" sh tcp udp store c' None] by blast+
  with restart.IH have cfg: "maxHTTPPort (ct_manager c') = maxHTTPPort (ct_manager c)"
    "shadow_name (ct_manager c') = shadow_name (ct_manager c)"
    by (simp_all add: manager_config_def config_of_def shadow_name_def fun_eq_iff)
  then have "accurate (ct_manager c') ns n ports = accurate (ct_manager c) ns n ports" for ns n ports
    by (intro accurate_cong keeps)
  with restart.IH keeps cfg show ?case by (simp add: in_step_def)
qed



section \<open>When the API server refuses an update\<close>

lemma shadow_ports_subset:
  "shadow_ports s tt i n ns sps = Some (s', ports) \<Longrightarrow> sp \<in> set ports \<Longrightarrow>
     \<exists>q\<in>set sps. sp_Port q = sp_Port sp \<and> sp_Protocol q = sp_Protocol sp"
proof (induction sps arbitrary: s i ports)
  case (Cons q sps)
  from Cons.prems show ?case
    by (auto split: if_splits option.splits sum.splits simp del: split_paired_Ex dest!: Cons.IH)
qed simp

text \<open>C36: The tables are changed before the API server is asked. When it refuses the update of a shadow service
  from which a port goes away, the mapping of that port is gone although the shadow service, which stays as it
  was, goes on sending the port's traffic to the mesh port, which is free for another service now.\<close>

theorem refused_update_diverges:
  assumes "lifetime cfg c sh" "ranges_apart cfg" "plain_namespace ns" "proto \<in> {ProtocolTCP, ProtocolUDP}"
    and "env_splitKey e key = Some (ns, n)" "env_services e ns n = Found svc" "om_Namespace (ks_meta svc) = ns"
      "om_Name (ks_meta svc) = n" "distinct_ports svc" "GetTrafficType (DefaultMode cfg) (om_Annotations (ks_meta svc)) = Inr tt"
    and "sh (getShadowServiceName (cc_Namespace cfg) ns n) = Some shadow"
      "env_services e (cc_Namespace cfg) (getShadowServiceName (cc_Namespace cfg) ns n) = Found shadow"
    and "\<And>call. \<not> env_accepts e call" "mapped (ct_manager c) proto ns n port = Some t"
    and "\<And>sp. sp \<in> set (ks_Ports svc) \<Longrightarrow> (sp_Port sp, sp_Protocol sp) \<noteq> (port, proto)"
  shows "\<exists>c' call. syncShadowService e key c = Some (c', Some call, Some EApiServer)
     \<and> mapped (ct_manager c') proto ns n port = None
     \<and> (\<exists>sp\<in>set (ks_Ports shadow). sp_Protocol sp = proto \<and> sp_Port sp = port \<and> sp_TargetPort sp = FromInt t)"
proof -
  let ?m = "ct_manager c"
  from lifetime_ok [OF assms(1,2)] have ok: "manager_ok ?m" and step: "in_step ?m sh"
    and cfg: "sm_namespace ?m = cc_Namespace cfg" "defaultTrafficType ?m = DefaultMode cfg"
    by (simp_all add: manager_config_def config_of_def)
  have look: "env_services e (sm_namespace ?m) (shadow_name ?m ns n) = Found shadow" using assms(12) cfg by (simp add: shadow_name_def)
  have acc: "accurate ?m ns n (known_ports (Found shadow))"
    using in_stepD(1) [OF step assms(3), of n] assms(11) cfg by (simp add: shadow_name_def shadow_lookup_def)
  from CreateOrUpdate_eq [of "Found shadow" svc ?m tt "env_topologyKeys e"] ok assms(7-10) cfg obtain s1 call
    where "shadow_ports (fold (removeServicePortMapping ns n)
        (filter (\<lambda>sp. \<not> containsPort (ks_Ports svc) sp) (known_ports (Found shadow))) ?m) tt 0 n ns (ks_Ports svc) = Some (s1, call_ports call)"
      "\<exists>m'. CreateOrUpdate (Found shadow) (env_topologyKeys e) svc ?m = Some (m', Inr call)" by auto
  with CreateOrUpdate_keeps_accurate [of ?m "Found shadow" svc tt "env_topologyKeys e"] ok acc assms(7-10) cfg obtain m'
    where cu: "CreateOrUpdate (Found shadow) (env_topologyKeys e) svc ?m = Some (m', Inr call)"
      "accurate m' ns n (call_ports call)"
    and ports: "\<And>sp. sp \<in> set (call_ports call) \<Longrightarrow> \<exists>q\<in>set (ks_Ports svc). sp_Port q = sp_Port sp \<and> sp_Protocol q = sp_Protocol sp"
    using shadow_ports_subset by fastforce
  have "mapped m' proto ns n port = None"
  proof (rule ccontr)
    assume "mapped m' proto ns n port \<noteq> None"
    with cu(2) obtain u where "lists_port m' (call_ports call) proto port u" by (auto simp: accurate_def)
    with ports assms(15) show False by (fastforce simp: lists_port_def)
  qed
  moreover have "lists_port ?m (ks_Ports shadow) proto port t" using acc assms(14) by (simp add: accurate_def known_ports_def)
  moreover have "syncShadowService e key c = Some (c\<lparr>ct_manager := m'\<rparr>, Some call, Some EApiServer)"
    using assms(5,6,13) look cu(1) by (simp add: syncShadowService_def Let_def)
  ultimately show ?thesis unfolding lists_port_def
    by (intro exI [of _ "c\<lparr>ct_manager := m'\<rparr>"] exI [of _ call]) auto
qed

section \<open>A small life\<close>

definition ex_tcp_cfg :: ControllerConfig where
  "ex_tcp_cfg = ex_cfg\<lparr>DefaultMode := ''tcp''\<rparr>"

definition ex_sync_env :: env where
  "ex_sync_env = ex_env\<lparr>env_splitKey := (\<lambda>key. if key = ''ns/a'' then Some (''ns'', ''a'') else None),
     env_services := (\<lambda>ns n. if ns = ''ns'' \<and> n = ''a'' then Found ex_tcp_service else NotFound)\<rparr>"

definition ex_shadow_a :: KService where
  "ex_shadow_a = newShadowService (ct_manager (NewMeshController ex_tcp_cfg ex_api)) ''mesh-a-6d61657368-ns''
     [\<lparr>sp_Name = ''web'', sp_Protocol = ''TCP'', sp_Port = 8080, sp_TargetPort = FromInt 10000\<rparr>] True"

lemma ex_ranges_apart: "ranges_apart ex_tcp_cfg"
  by (simp add: ranges_apart_def ranges_ok_def ex_tcp_cfg_def ex_cfg_simps)

lemma ex_plain_namespace: "plain_namespace ''ns''"
  by (simp add: plain_namespace_def Contains_def shadow_marker_def)

text \<open>Syncing the first service maps its port and creates its shadow service.\<close>

lemma ex_sync:
  "\<exists>c. syncShadowService ex_sync_env ''ns/a'' (NewMeshController ex_tcp_cfg ex_api) = Some (c, Some (CreateService ex_shadow_a), None)
     \<and> mapped (ct_manager c) ProtocolTCP ''ns'' ''a'' 8080 = Some 10000"
proof -
  have "next_port [] 10024 10000 = Some (Some 10000)" by (subst next_port.simps) simp
  then show ?thesis
    by (simp add: syncShadowService_def Let_def ex_sync_env_def ex_env_def CreateOrUpdate_def removeUnusedPortMappings_def
        getShadowServicePorts_def ex_tcp_service_def NewMeshController_def NewShadowServiceManager_def GetTrafficType_def
        ex_cfg_simps ex_tcp_cfg_def isPortSuitable_def getTargetPort_def getMappedPort_def Find_def Add_def mapped_def
        ex_shadow_a_def shadow_name_def getShadowServiceName_def shadow_marker_def newShadowService_def)
qed

lemma ex_faithful: "faithful (ct_manager (NewMeshController ex_tcp_cfg ex_api)) Map.empty ex_sync_env"
  using ex_plain_namespace
  by (auto simp: faithful_def ex_sync_env_def ex_env_def ex_tcp_service_def shadow_lookup_def NewMeshController_def
      NewShadowServiceManager_def ex_tcp_cfg_def ex_cfg_simps shadow_name_def getShadowServiceName_def split: if_splits)

lemma ex_lifetime:
  "\<exists>c. lifetime ex_tcp_cfg c [''mesh-a-6d61657368-ns'' \<mapsto> ex_shadow_a] \<and> mapped (ct_manager c) ProtocolTCP ''ns'' ''a'' 8080 = Some 10000"
proof -
  obtain c where c: "syncShadowService ex_sync_env ''ns/a'' (NewMeshController ex_tcp_cfg ex_api) = Some (c, Some (CreateService ex_shadow_a), None)"
    "mapped (ct_manager c) ProtocolTCP ''ns'' ''a'' 8080 = Some 10000" using ex_sync by blast
  from lifetime.sync [OF lifetime.new ex_faithful c(1)] c(2) show ?thesis
    by (auto simp: ex_shadow_a_def newShadowService_def)
qed



text \<open>The service's only port changes from 8080 to 9090 while the API server is refusing writes.\<close>

definition ex_moved_service :: KService where
  "ex_moved_service = ex_tcp_service\<lparr>ks_Ports :=
     [\<lparr>sp_Name = ''web'', sp_Protocol = ''TCP'', sp_Port = 9090, sp_TargetPort = FromInt 80\<rparr>]\<rparr>"

definition ex_refusing_env :: env where
  "ex_refusing_env = ex_sync_env\<lparr>env_accepts := (\<lambda>call. False),
     env_services := (\<lambda>ns n. if ns = ''ns'' \<and> n = ''a'' then Found ex_moved_service
       else if ns = ''mesh'' \<and> n = ''mesh-a-6d61657368-ns'' then Found ex_shadow_a else NotFound)\<rparr>"

lemma ex_refusing:
  "env_splitKey ex_refusing_env ''ns/a'' = Some (''ns'', ''a'')"
  "env_services ex_refusing_env ''ns'' ''a'' = Found ex_moved_service"
  "env_services ex_refusing_env ''mesh'' ''mesh-a-6d61657368-ns'' = Found ex_shadow_a"
  "om_Namespace (ks_meta ex_moved_service) = ''ns''" "om_Name (ks_meta ex_moved_service) = ''a''"
  "distinct_ports ex_moved_service" "\<not> env_accepts ex_refusing_env call"
  "GetTrafficType (DefaultMode ex_tcp_cfg) (om_Annotations (ks_meta ex_moved_service)) = Inr ''tcp''"
  "sp \<in> set (ks_Ports ex_moved_service) \<Longrightarrow> (sp_Port sp, sp_Protocol sp) \<noteq> (8080, ProtocolTCP)"
  by (auto simp: ex_refusing_env_def ex_sync_env_def ex_moved_service_def ex_tcp_service_def ex_tcp_cfg_def GetTrafficType_def)

lemma refused_update_diverges_witness:
  "\<exists>c c' call. lifetime ex_tcp_cfg c [''mesh-a-6d61657368-ns'' \<mapsto> ex_shadow_a]
     \<and> syncShadowService ex_refusing_env ''ns/a'' c = Some (c', Some call, Some EApiServer)
     \<and> mapped (ct_manager c') ProtocolTCP ''ns'' ''a'' 8080 = None"
proof -
  obtain c where c: "lifetime ex_tcp_cfg c [''mesh-a-6d61657368-ns'' \<mapsto> ex_shadow_a]"
    "mapped (ct_manager c) ProtocolTCP ''ns'' ''a'' 8080 = Some 10000" using ex_lifetime by blast
  have name: "getShadowServiceName (cc_Namespace ex_tcp_cfg) ''ns'' ''a'' = ''mesh-a-6d61657368-ns''" "cc_Namespace ex_tcp_cfg = ''mesh''"
    by (simp_all add: getShadowServiceName_def ex_tcp_cfg_def ex_cfg_simps shadow_marker_def)
  from refused_update_diverges [OF c(1) ex_ranges_apart ex_plain_namespace _ ex_refusing(1,2,4,5,6,8) _ _ ex_refusing(7) c(2) ex_refusing(9),
      of ex_shadow_a] ex_refusing(3) name c(1)
  show ?thesis by fastforce
qed

end
