(* ===== verification/Corefile.thy ===== *)
theory Corefile
  imports GoStrings
begin

text \<open>
  The text part of \<open>pkg/dns/dns.go\<close>: finding, adding and removing the stub domain block of the mesh in a
  CoreDNS configuration. Slicing past the start of the block panics: that is the result \<open>None\<close>.
\<close>

section \<open>The code\<close>

abbreviation newline :: char where "newline \<equiv> CHR 0x0A"
abbreviation backslash :: char where "backslash \<equiv> CHR 0x5C"

definition traefikMeshBlockHeader :: string where
  "traefikMeshBlockHeader = ''#### Begin Traefik Mesh Block''"

definition traefikMeshBlockTrailer :: string where
  "traefikMeshBlockTrailer = ''#### End Traefik Mesh Block''"

definition getStubDomain :: "string \<Rightarrow> string \<Rightarrow> string \<Rightarrow> string option" where
  "getStubDomain config blockHeader blockTrailer =
     (case (Index config blockHeader, Index config blockTrailer) of
        (Some start, Some end_) \<Rightarrow>
          if start \<le> end_ + length blockTrailer
          then Some (take (end_ + length blockTrailer - start) (drop start config)) else None
      | _ \<Rightarrow> Some [])"

definition removeStubDomain :: "string \<Rightarrow> string \<Rightarrow> string \<Rightarrow> string" where
  "removeStubDomain config blockHeader blockTrailer =
     (if \<not> Contains config blockHeader then config
      else
        let preData = hd (SplitN2 config (blockHeader @ [newline]));
            splitData = SplitN2 config (blockTrailer @ [newline]);
            postData = (if 1 < length splitData then splitData ! 1 else [])
        in preData @ postData)"

text \<open>The format of the stub domain, line by line.\<close>

definition stub_lines :: "string \<Rightarrow> string \<Rightarrow> string \<Rightarrow> string list" where
  "stub_lines clusterDomain ns upstream =
    [''traefik.mesh:53 {'',
     ''    errors'',
     ''    rewrite continue {'',
     ''        name regex ([a-zA-Z0-9-_]*)'' @ [backslash] @ ''.([a-zv0-9-_]*)'' @ [backslash] @ ''.traefik''
        @ [backslash] @ ''.mesh '' @ ns @ ''-{1}-6d61657368-{2}.'' @ ns @ ''.svc.'' @ clusterDomain,
     ''        answer name '' @ ns @ ''-([a-zA-Z0-9-_]*)-6d61657368-([a-zA-Z0-9-_]*)'' @ [backslash] @ ''.'' @ ns
        @ [backslash] @ ''.svc'' @ [backslash] @ ''.'' @ ReplaceAllChar clusterDomain (CHR ''.'') [backslash, CHR ''.'']
        @ '' {1}.{2}.traefik.mesh'',
     ''    }'',
     ''    kubernetes '' @ clusterDomain @ '' in-addr.arpa ip6.arpa {'',
     ''        pods insecure'',
     ''        '' @ upstream,
     ''        fallthrough in-addr.arpa ip6.arpa'',
     ''    }'',
     ''    forward . /etc/resolv.conf'',
     ''    cache 30'',
     ''    loop'',
     ''    reload'',
     ''    loadbalance'',
     ''}'']"

definition stubDomain :: "string \<Rightarrow> string \<Rightarrow> string \<Rightarrow> string \<Rightarrow> bool \<Rightarrow> string" where
  "stubDomain blockHeader blockTrailer clusterDomain ns below17 =
     Join (blockHeader # stub_lines clusterDomain ns (if below17 then ''upstream'' else []) @ [blockTrailer]) [newline]"

text \<open>\<open>below17\<close> is the result of \<open>coreDNSVersion.LessThan(versionCoreDNS17)\<close>.\<close>

definition addStubDomain ::
  "string \<Rightarrow> string \<Rightarrow> string \<Rightarrow> string \<Rightarrow> string \<Rightarrow> bool \<Rightarrow> (string \<times> bool) option" where
  "addStubDomain config blockHeader blockTrailer clusterDomain ns below17 =
     map_option (\<lambda>existingStubDomain.
         (let config' = (if existingStubDomain \<noteq> [] then removeStubDomain config blockHeader blockTrailer else config);
              stub = stubDomain blockHeader blockTrailer clusterDomain ns below17
          in (config' @ [newline] @ stub @ [newline], existingStubDomain \<noteq> stub)))
       (getStubDomain config blockHeader blockTrailer)"

section \<open>Occurrences\<close>

text \<open>A pattern of which no proper suffix is a prefix cannot overlap itself.\<close>

definition border_free :: "string \<Rightarrow> bool" where
  "border_free p \<longleftrightarrow> list_all (\<lambda>k. k = 0 \<or> \<not> HasPrefix p (drop k p)) [0..<length p]"

lemma border_freeD:
  assumes "border_free p" "0 < k" "k < length p"
  shows "p \<noteq> drop k p @ v"
proof -
  have "k \<in> set [0..<length p]" using assms(3) by simp
  from assms(1) [unfolded border_free_def list_all_iff, THEN bspec, OF this] assms(2)
  have "\<not> HasPrefix p (drop k p)" by simp
  moreover have "HasPrefix p (drop k p)" if "p = drop k p @ v"
    unfolding HasPrefix_iff using that by (rule exI)
  ultimately show ?thesis by blast
qed

lemma Contains_prefix: "Contains s (p @ q) \<Longrightarrow> Contains s p"
  unfolding Contains_iff by (metis append.assoc)

lemma Index_block:
  assumes free: "border_free p" and pre: "\<not> Contains u p" and ne: "p \<noteq> []"
  shows "Index (u @ p @ v) p = Some (length u)"
proof -
  have "\<not> HasPrefix (drop j u @ p @ v) p" if j: "j < length u" for j
  proof
    assume "HasPrefix (drop j u @ p @ v) p"
    then obtain w where w: "drop j u @ p @ v = p @ w" by (auto simp: HasPrefix_iff)
    let ?k = "length (drop j u)"
    have k: "0 < ?k" using j by simp
    show False
    proof (cases "length p \<le> ?k")
      case True
      from w have "take (length p) (drop j u @ p @ v) = p" by simp
      with True have "drop j u = p @ drop (length p) (drop j u)" by (metis append_take_drop_id take_append
          diff_is_0_eq take0 append_Nil2)
      then have "u = take j u @ p @ drop (length p) (drop j u)" by (metis append_take_drop_id)
      with pre show False by (auto simp: Contains_iff)
    next
      case False
      from w have "drop ?k (drop j u @ p @ v) = drop ?k (p @ w)" by simp
      with False have d: "p @ v = drop ?k p @ w" by simp
      have "length (drop ?k p) \<le> length p" by simp
      with d have "\<exists>x. p = drop ?k p @ x"
        by (metis append_eq_append_conv_if append_take_drop_id)
      with border_freeD [OF free k] False show False by auto
    qed
  qed
  from Index_append_None_left [of u "p @ v" p, OF this] show ?thesis
    by (simp add: Index_0)
qed

lemma Contains_line:
  assumes "c \<notin> set p"
  shows "Contains (u @ c # v) p \<longleftrightarrow> Contains u p \<or> Contains v p"
proof
  assume "Contains (u @ c # v) p"
  then obtain a b where ab: "u @ c # v = a @ p @ b" by (auto simp: Contains_iff)
  then consider w where "u = a @ w" "w @ c # v = p @ b" | w where "a = u @ w" "c # v = w @ p @ b"
    by (auto simp: append_eq_append_conv2)
  then show "Contains u p \<or> Contains v p"
  proof cases
    case 1
    from 1(2) consider x where "w = p @ x" | x where "p = w @ x" "c # v = x @ b" "x \<noteq> []"
      by (auto simp: append_eq_append_conv2) (metis append_Nil2)
    then show ?thesis
    proof cases
      case 1
      with \<open>u = a @ w\<close> show ?thesis by (auto simp: Contains_iff)
    next
      case 2
      then have "c \<in> set x" by (cases x) auto
      with 2(1) assms show ?thesis by simp
    qed
  next
    case 2
    show ?thesis
    proof (cases w)
      case Nil
      with 2(2) assms have "p = []" by (cases p) auto
      then show ?thesis by (auto simp: Contains_iff)
    next
      case (Cons d ds)
      with 2(2) show ?thesis by (auto simp: Contains_iff)
    qed
  qed
next
  assume "Contains u p \<or> Contains v p"
  then show "Contains (u @ c # v) p"
    unfolding Contains_iff by (metis append.assoc append_Cons)
qed

lemma Contains_Join:
  assumes "c \<notin> set p" "ls \<noteq> []"
  shows "Contains (Join ls [c]) p \<longleftrightarrow> (\<exists>l\<in>set ls. Contains l p)"
  using assms(2)
proof (induction ls rule: induct_list012)
  case (3 a b ls)
  then show ?case using Contains_line [OF assms(1), of a "Join (b # ls) [c]"] by simp
qed simp_all

lemma no_hash: "CHR ''#'' \<notin> set l \<Longrightarrow> \<not> Contains l (CHR ''#'' # p)"
  by (auto simp: Contains_iff)


section \<open>The block of the mesh\<close>

abbreviation "header \<equiv> traefikMeshBlockHeader"
abbreviation "trailer \<equiv> traefikMeshBlockTrailer"

lemma borders:
  "border_free header" "border_free trailer" "border_free (header @ [newline])" "border_free (trailer @ [newline])"
  by (simp_all add: border_free_def traefikMeshBlockHeader_def traefikMeshBlockTrailer_def upt_rec)

lemma block_facts:
  "header \<noteq> []" "trailer \<noteq> []" "newline \<notin> set header" "newline \<notin> set trailer" "\<not> Contains header trailer"
  by (simp_all add: traefikMeshBlockHeader_def traefikMeshBlockTrailer_def Contains_def)

lemma no_marker: "CHR ''#'' \<notin> set l \<Longrightarrow> \<not> Contains l header" "CHR ''#'' \<notin> set l \<Longrightarrow> \<not> Contains l trailer"
  unfolding traefikMeshBlockHeader_def traefikMeshBlockTrailer_def by (simp_all add: no_hash)

text \<open>A configuration with one block, after which anything may follow.\<close>

definition block :: "string \<Rightarrow> string" where
  "block body = header @ [newline] @ body @ [newline] @ trailer"

definition with_block :: "string \<Rightarrow> string \<Rightarrow> string \<Rightarrow> string" where
  "with_block pre body post = pre @ block body @ [newline] @ post"

lemma header_position:
  "\<not> Contains pre header \<Longrightarrow> Index (with_block pre body post) header = Some (length pre)"
  using Index_block [OF borders(1) _ block_facts(1)] by (simp add: with_block_def block_def)

lemma header_line_position:
  assumes "\<not> Contains pre header"
  shows "Index (with_block pre body post) (header @ [newline]) = Some (length pre)"
proof -
  have "\<not> Contains pre (header @ [newline])" using assms Contains_prefix by blast
  from Index_block [OF borders(3) this, of "body @ [newline] @ trailer @ [newline] @ post"] show ?thesis
    by (simp add: with_block_def block_def)
qed

lemma before_trailer:
  assumes "\<not> Contains pre trailer" "\<not> Contains body trailer" "pre = [] \<or> last pre = newline"
  shows "\<not> Contains (pre @ header @ [newline] @ body @ [newline]) trailer"
proof -
  have nil: "\<not> Contains [] trailer" using block_facts(2) by (simp add: Contains_def)
  have body: "\<not> Contains (header @ newline # body @ newline # []) trailer"
    using assms(2) block_facts(5) nil Contains_line [OF block_facts(4), of header "body @ [newline]"]
      Contains_line [OF block_facts(4), of body "[]"] by blast
  show ?thesis
  proof (cases "pre = []")
    case False
    with assms(3) obtain u where u: "pre = u @ [newline]" by (metis append_butlast_last_id)
    with assms(1) have "\<not> Contains u trailer" using Contains_line [OF block_facts(4), of u "[]"] by simp
    with body show ?thesis using Contains_line [OF block_facts(4)] u by simp
  qed (use body in simp)
qed

definition well_placed :: "string \<Rightarrow> string \<Rightarrow> bool" where
  "well_placed pre body \<longleftrightarrow> \<not> Contains pre header \<and> \<not> Contains pre trailer \<and> \<not> Contains body trailer
     \<and> (pre = [] \<or> last pre = newline)"

lemma trailer_position:
  assumes "well_placed pre body"
  shows "Index (with_block pre body post) trailer = Some (length (pre @ header @ [newline] @ body @ [newline]))"
    "Index (with_block pre body post) (trailer @ [newline]) = Some (length (pre @ header @ [newline] @ body @ [newline]))"
proof -
  let ?u = "pre @ header @ [newline] @ body @ [newline]"
  have no: "\<not> Contains ?u trailer" using assms before_trailer by (simp add: well_placed_def)
  then have no': "\<not> Contains ?u (trailer @ [newline])" using Contains_prefix by blast
  show "Index (with_block pre body post) trailer = Some (length ?u)"
    using Index_block [OF borders(2) no block_facts(2), of "[newline] @ post"] by (simp add: with_block_def block_def)
  show "Index (with_block pre body post) (trailer @ [newline]) = Some (length ?u)"
    using Index_block [OF borders(4) no', of post] by (simp add: with_block_def block_def)
qed

lemma getStubDomain_block:
  assumes "well_placed pre body"
  shows "getStubDomain (with_block pre body post) header trailer = Some (block body)"
proof -
  have "Index (with_block pre body post) header = Some (length pre)"
    using assms header_position by (simp add: well_placed_def)
  with trailer_position(1) [OF assms, of post] show ?thesis
    by (simp add: getStubDomain_def with_block_def block_def)
qed

lemma SplitN2_at: "Index (u @ sep @ v) sep = Some (length u) \<Longrightarrow> SplitN2 (u @ sep @ v) sep = [u, v]"
  by (simp add: SplitN2_def)

lemma removeStubDomain_block:
  assumes "well_placed pre body"
  shows "removeStubDomain (with_block pre body post) header trailer = pre @ post"
proof -
  have pre: "\<not> Contains pre header" using assms by (simp add: well_placed_def)
  have 1: "with_block pre body post = pre @ (header @ [newline]) @ body @ [newline] @ trailer @ [newline] @ post"
    and 2: "with_block pre body post = (pre @ header @ [newline] @ body @ [newline]) @ (trailer @ [newline]) @ post"
    by (simp_all add: with_block_def block_def)
  have "SplitN2 (with_block pre body post) (header @ [newline]) = [pre, body @ [newline] @ trailer @ [newline] @ post]"
    using header_line_position [OF pre, of body post] unfolding 1 by (rule SplitN2_at)
  moreover have "SplitN2 (with_block pre body post) (trailer @ [newline]) =
      [pre @ header @ [newline] @ body @ [newline], post]"
    using trailer_position(2) [OF assms, of post] unfolding 2 by (rule SplitN2_at)
  moreover have "Contains (with_block pre body post) header"
    using header_position [OF pre, of body post] by (simp add: Contains_def)
  ultimately show ?thesis by (simp add: removeStubDomain_def Let_def)
qed

lemma Join_snoc: "ls \<noteq> [] \<Longrightarrow> Join (ls @ [t]) sep = Join ls sep @ sep @ t"
  by (induction ls rule: induct_list012) simp_all

lemma Join_Cons: "ls \<noteq> [] \<Longrightarrow> Join (l # ls) sep = l @ sep @ Join ls sep"
  by (cases ls) simp_all

abbreviation stub_body :: "string \<Rightarrow> string \<Rightarrow> bool \<Rightarrow> string" where
  "stub_body clusterDomain ns below17 \<equiv>
     Join (stub_lines clusterDomain ns (if below17 then ''upstream'' else [])) [newline]"

lemma stub_lines_nonempty [simp]: "stub_lines d ns up \<noteq> []"
  by (simp add: stub_lines_def)

lemma stubDomain_block: "stubDomain header trailer d ns b = block (stub_body d ns b)"
  by (simp add: stubDomain_def block_def Join_Cons Join_snoc)

lemma ReplaceAllChar_chars: "x \<in> set (ReplaceAllChar s c r) \<Longrightarrow> x \<in> set s \<or> x \<in> set r"
  by (auto simp: ReplaceAllChar_def split: if_splits)

lemma stub_body_clean:
  assumes "CHR ''#'' \<notin> set d" "CHR ''#'' \<notin> set ns"
  shows "\<not> Contains (stub_body d ns b) trailer"
proof -
  have "CHR ''#'' \<notin> set (ReplaceAllChar d (CHR ''.'') [backslash, CHR ''.''])"
    using assms(1) ReplaceAllChar_chars by fastforce
  then have "\<forall>l\<in>set (stub_lines d ns (if b then ''upstream'' else [])). CHR ''#'' \<notin> set l"
    using assms by (simp add: stub_lines_def)
  then show ?thesis
    using Contains_Join [OF block_facts(4), of "stub_lines d ns (if b then ''upstream'' else [])"] no_marker(2)
    by (metis stub_lines_nonempty)
qed

lemma addStubDomain_block:
  assumes "well_placed pre body"
  shows "addStubDomain (with_block pre body post) header trailer d ns b =
     Some (with_block (pre @ post @ [newline]) (stub_body d ns b) [], block body \<noteq> stubDomain header trailer d ns b)"
proof -
  have "block body \<noteq> []" using block_facts(1) by (simp add: block_def)
  moreover have "with_block u x [] = u @ block x @ [newline]" for u x by (simp add: with_block_def)
  ultimately show ?thesis
    by (simp add: addStubDomain_def getStubDomain_block [OF assms] removeStubDomain_block [OF assms] Let_def
        stubDomain_block)
qed

lemma addStubDomain_fresh:
  assumes "\<not> Contains config header" "\<not> Contains config trailer"
  shows "addStubDomain config header trailer d ns b = Some (with_block (config @ [newline]) (stub_body d ns b) [], True)"
proof -
  have "getStubDomain config header trailer = Some []"
    using assms by (simp add: getStubDomain_def Contains_def)
  moreover have "block (stub_body d ns b) \<noteq> []" using block_facts(1) by (simp add: block_def)
  ultimately show ?thesis by (simp add: addStubDomain_def Let_def stubDomain_block with_block_def)
qed

lemma well_placed_stub:
  assumes "\<not> Contains config header" "\<not> Contains config trailer" "CHR ''#'' \<notin> set d" "CHR ''#'' \<notin> set ns"
  shows "well_placed (config @ [newline]) (stub_body d ns b)"
proof -
  have "\<not> Contains [] header" "\<not> Contains [] trailer" using block_facts(1,2) by (simp_all add: Contains_def)
  with assms stub_body_clean show ?thesis
    using Contains_line [OF block_facts(3), of config "[]"] Contains_line [OF block_facts(4), of config "[]"]
    by (simp add: well_placed_def)
qed

text \<open>Patching a configuration without a block of the mesh installs the stub domain and reports a change;
  patching the result again reports none; and removing the block gives the configuration back, with one
  newline more.\<close>

theorem stub_domain_installed:
  assumes "\<not> Contains config header" "\<not> Contains config trailer" "CHR ''#'' \<notin> set d" "CHR ''#'' \<notin> set ns"
  shows "\<exists>c. addStubDomain config header trailer d ns b = Some (c, True)
     \<and> getStubDomain c header trailer = Some (stubDomain header trailer d ns b)
     \<and> (\<exists>c'. addStubDomain c header trailer d ns b = Some (c', False))
     \<and> removeStubDomain c header trailer = config @ [newline]"
  using addStubDomain_fresh [OF assms(1,2), of d ns b] well_placed_stub [OF assms, of b]
  by (simp add: getStubDomain_block removeStubDomain_block addStubDomain_block stubDomain_block)

text \<open>A block that is already there, at the start of a line, is replaced: what is before and after it
  stays, the new stub domain is put at the end, and a change is reported exactly when the old block is
  another one. Removing it leaves what is before and after it.\<close>

theorem stub_domain_replaced:
  assumes "well_placed pre body"
  shows "addStubDomain (with_block pre body post) header trailer d ns b =
      Some (pre @ post @ [newline] @ stubDomain header trailer d ns b @ [newline],
        block body \<noteq> stubDomain header trailer d ns b)
    \<and> removeStubDomain (with_block pre body post) header trailer = pre @ post"
  unfolding addStubDomain_block [OF assms] removeStubDomain_block [OF assms]
  by (simp add: stubDomain_block with_block_def)

text \<open>A configuration that starts with a trailer and has its first header on the next line makes the
  patch panic: the slice between header and trailer is out of range.\<close>

theorem stub_domain_panic:
  "addStubDomain (trailer @ newline # header @ post) header trailer d ns b = None"
proof -
  have "\<not> Contains [] trailer" using block_facts(2) by (simp add: Contains_def)
  from Index_block [OF borders(2) this block_facts(2), of "newline # header @ post"]
  have t: "Index (trailer @ newline # header @ post) trailer = Some 0" by simp
  have "\<not> Contains (trailer @ [newline]) header"
    by (simp add: traefikMeshBlockHeader_def traefikMeshBlockTrailer_def Contains_def)
  from Index_block [OF borders(1) this block_facts(1), of post]
  have "Index (trailer @ newline # header @ post) header = Some (Suc (length trailer))" by simp
  with t show ?thesis by (simp add: addStubDomain_def getStubDomain_def)
qed

section \<open>Small configurations\<close>

lemma stub_domain_installed_witness:
  "\<exists>c. addStubDomain ''.:53 {}'' header trailer ''cluster.local'' ''maesh'' False = Some (c, True)
     \<and> removeStubDomain c header trailer = ''.:53 {}'' @ [newline]"
proof -
  have "\<not> Contains ''.:53 {}'' header" "\<not> Contains ''.:53 {}'' trailer"
    by (rule no_marker; simp)+
  from stub_domain_installed [OF this, of "''cluster.local''" "''maesh''" False] show ?thesis by auto
qed

lemma stub_domain_replaced_witness:
  "removeStubDomain (with_block [] ''old'' ''rest'') header trailer = ''rest''"
proof -
  have "well_placed [] ''old''"
    by (simp add: well_placed_def no_marker)
  from stub_domain_replaced [OF this, of "''rest''"] show ?thesis by simp
qed

end
