(* ===== verification/Dns.thy ===== *)
theory Dns
  imports Corefile
begin

text \<open>
  \<open>pkg/dns/dns.go\<close>: detecting the DNS provider of the cluster, patching and restoring its configuration.
  The Kubernetes API is a parameter: \<open>kube\<close> answers the reads and the writes of one command; the writes
  that a command makes, in order, are part of its result, whether it fails later or not. The other
  packages the code calls are parameters as well: the version library, the JSON of the stub domains,
  the retry loop and the source of unique ids. \<open>None\<close> is a panic.
\<close>

section \<open>Objects and API\<close>

record ConfigMap =
  cm_Name :: string
  cm_Namespace :: string
  cm_Data :: "string \<rightharpoonup> string"

record ConfigMapVolumeSource =
  cv_Name :: string
  cv_Optional :: "bool option"

record Container =
  ct_Name :: string
  ct_Image :: string

record Deployment =
  dp_Name :: string
  dp_Namespace :: string
  dp_Containers :: "Container list"
  dp_Volumes :: "ConfigMapVolumeSource option list"
  dp_Annotations :: "string \<rightharpoonup> string"

datatype api_error = NotFound | ApiError

datatype dns_error =
    EApi api_error
  | EGetCoreDNSDeployment
  | EGetKubeDNSDeployment
  | EBadVersion string
  | EUnsupportedVersion
  | ENoCoreDNSContainer
  | ENoDNSProvider
  | EConfigMapNotFound string
  | EPatchCoreDNS dns_error
  | EUnpatchCoreDNS dns_error
  | EUnmarshalStubDomains
  | EGetCoreDNSService
  | ENoClusterIP

datatype api_write = CreateConfigMap ConfigMap | UpdateConfigMap ConfigMap | UpdateDeployment Deployment

record kube =
  get_Deployment :: "string \<Rightarrow> string \<Rightarrow> api_error + Deployment"
  get_ConfigMap :: "string \<Rightarrow> string \<Rightarrow> api_error + ConfigMap"
  get_ClusterIP :: "string \<Rightarrow> string \<Rightarrow> nat \<Rightarrow> api_error + string"
  create_ConfigMap :: "ConfigMap \<Rightarrow> api_error + ConfigMap"
  update_ConfigMap :: "ConfigMap \<Rightarrow> api_error option"
  update_Deployment :: "Deployment \<Rightarrow> api_error option"

text \<open>\<open>JsonUnmarshal\<close> yields the decoded map, \<open>Some None\<close> for the JSON value null, which makes it nil, and
  \<open>None\<close> for an error. \<open>Retry\<close> gets the outcome of the \<open>n\<close>-th attempt for every \<open>n\<close>.\<close>

record 'v libraries =
  NewVersion :: "string \<Rightarrow> 'v option"
  SupportedVersion :: "'v \<Rightarrow> bool"
  LessThan17 :: "'v \<Rightarrow> bool"
  JsonUnmarshal :: "string \<Rightarrow> (string \<rightharpoonup> string list) option option"
  JsonMarshal :: "(string \<rightharpoonup> string list) option \<Rightarrow> string"
  Retry :: "(nat \<Rightarrow> dns_error + string) \<Rightarrow> dns_error + string"
  NewUUID :: string

text \<open>A command that panics, or makes writes and then returns a value or an error.\<close>

type_synonym 'a act = "(api_write list \<times> (dns_error + 'a)) option"

definition ret :: "'a \<Rightarrow> 'a act" where "ret x = Some ([], Inr x)"

definition from_res :: "dns_error + 'a \<Rightarrow> 'a act" where "from_res r = Some ([], r)"

definition emit :: "api_write \<Rightarrow> dns_error + 'a \<Rightarrow> 'a act" where "emit w r = Some ([w], r)"

definition and_then :: "'a act \<Rightarrow> ('a \<Rightarrow> 'b act) \<Rightarrow> 'b act" where
  "and_then m f = (case m of
     None \<Rightarrow> None
   | Some (ws, Inl e) \<Rightarrow> Some (ws, Inl e)
   | Some (ws, Inr x) \<Rightarrow> map_option (\<lambda>(ws', r). (ws @ ws', r)) (f x))"

definition wrap_act :: "(dns_error \<Rightarrow> dns_error) \<Rightarrow> 'a act \<Rightarrow> 'a act" where
  "wrap_act w m = map_option (\<lambda>(ws, r). (ws, wrap_err w r)) m"

definition api :: "api_error + 'a \<Rightarrow> dns_error + 'a" where "api r = wrap_err EApi r"

definition api_done :: "api_error option \<Rightarrow> dns_error + unit" where
  "api_done r = (case r of None \<Rightarrow> Inr () | Some e \<Rightarrow> Inl (EApi e))"

abbreviation NamespaceSystem :: string where "NamespaceSystem \<equiv> ''kube-system''"

section \<open>Detecting the provider\<close>

datatype DNSProvider = UnknownDNS | CoreDNS | KubeDNS

fun last_part :: "string list \<Rightarrow> string" where
  "last_part parts = parts ! (length parts - 1)"

fun coreDNSVersion_of :: "'v libraries \<Rightarrow> Container list \<Rightarrow> dns_error + 'v" where
  "coreDNSVersion_of lib [] = Inl ENoCoreDNSContainer"
| "coreDNSVersion_of lib (container # containers) =
     (if ct_Name container \<noteq> ''coredns'' then coreDNSVersion_of lib containers
      else let v = last_part (SplitChar (CHR '':'') (ct_Image container)) in
        case NewVersion lib v of None \<Rightarrow> Inl (EBadVersion v) | Some version \<Rightarrow> Inr version)"

definition getCoreDNSVersion :: "'v libraries \<Rightarrow> Deployment \<Rightarrow> dns_error + 'v" where
  "getCoreDNSVersion lib deployment = coreDNSVersion_of lib (dp_Containers deployment)"

definition coreDNSMatch :: "'v libraries \<Rightarrow> kube \<Rightarrow> dns_error + bool" where
  "coreDNSMatch lib k =
     (case get_Deployment k NamespaceSystem ''coredns'' of
        Inl NotFound \<Rightarrow> Inr False
      | Inl ApiError \<Rightarrow> Inl EGetCoreDNSDeployment
      | Inr deployment \<Rightarrow>
          bind_res (getCoreDNSVersion lib deployment)
            (\<lambda>version. if \<not> SupportedVersion lib version then Inl EUnsupportedVersion else Inr True))"

definition kubeDNSMatch :: "kube \<Rightarrow> dns_error + bool" where
  "kubeDNSMatch k =
     (case get_Deployment k NamespaceSystem ''kube-dns'' of
        Inl NotFound \<Rightarrow> Inr False
      | Inl ApiError \<Rightarrow> Inl EGetKubeDNSDeployment
      | Inr _ \<Rightarrow> Inr True)"

text \<open>Both results of the code: the provider and the error.\<close>

definition CheckDNSProvider :: "'v libraries \<Rightarrow> kube \<Rightarrow> DNSProvider \<times> dns_error option" where
  "CheckDNSProvider lib k =
     (case coreDNSMatch lib k of
        Inl err \<Rightarrow> (UnknownDNS, Some err)
      | Inr True \<Rightarrow> (CoreDNS, None)
      | Inr False \<Rightarrow>
          (case kubeDNSMatch k of
             Inl err \<Rightarrow> (UnknownDNS, Some err)
           | Inr True \<Rightarrow> (KubeDNS, None)
           | Inr False \<Rightarrow> (UnknownDNS, Some ENoDNSProvider)))"

section \<open>Config maps\<close>

fun find_volume :: "string \<Rightarrow> ConfigMapVolumeSource option list \<Rightarrow> dns_error + ConfigMapVolumeSource" where
  "find_volume name [] = Inl (EConfigMapNotFound name)"
| "find_volume name (v # vs) =
     (case v of
        None \<Rightarrow> find_volume name vs
      | Some cv \<Rightarrow> if cv_Name cv \<noteq> name then find_volume name vs else Inr cv)"

definition getConfigMapVolumeSource :: "Deployment \<Rightarrow> string \<Rightarrow> dns_error + ConfigMapVolumeSource" where
  "getConfigMapVolumeSource deployment name = find_volume name (dp_Volumes deployment)"

definition getConfigMap :: "kube \<Rightarrow> Deployment \<Rightarrow> string \<Rightarrow> dns_error + ConfigMap" where
  "getConfigMap k deployment name =
     bind_res (getConfigMapVolumeSource deployment name)
       (\<lambda>volumeSrc. api (get_ConfigMap k (dp_Namespace deployment) (cv_Name volumeSrc)))"

definition getOrCreateConfigMap :: "kube \<Rightarrow> Deployment \<Rightarrow> string \<Rightarrow> ConfigMap act" where
  "getOrCreateConfigMap k deployment name =
     and_then (from_res (getConfigMapVolumeSource deployment name))
       (\<lambda>volumeSrc.
          case get_ConfigMap k (dp_Namespace deployment) (cv_Name volumeSrc) of
            Inr configMap \<Rightarrow> ret configMap
          | Inl err \<Rightarrow>
              if err = NotFound \<and> cv_Optional volumeSrc = Some True then
                (let configMap = \<lparr>cm_Name = name, cm_Namespace = dp_Namespace deployment, cm_Data = Map.empty\<rparr>
                 in emit (CreateConfigMap configMap) (api (create_ConfigMap k configMap)))
              else from_res (Inl (EApi err)))"

definition data_of :: "ConfigMap \<Rightarrow> string \<Rightarrow> string" where
  "data_of configMap key = (case cm_Data configMap key of None \<Rightarrow> [] | Some s \<Rightarrow> s)"

definition put_data :: "string \<Rightarrow> string \<Rightarrow> ConfigMap \<Rightarrow> ConfigMap" where
  "put_data key s configMap = configMap\<lparr>cm_Data := (cm_Data configMap)(key \<mapsto> s)\<rparr>"

definition restarted :: "'v libraries \<Rightarrow> Deployment \<Rightarrow> Deployment" where
  "restarted lib deployment =
     deployment\<lparr>dp_Annotations := (dp_Annotations deployment)(''traefik-mesh-hash'' \<mapsto> NewUUID lib)\<rparr>"

definition restartPods :: "'v libraries \<Rightarrow> kube \<Rightarrow> Deployment \<Rightarrow> unit act" where
  "restartPods lib k deployment =
     emit (UpdateDeployment (restarted lib deployment)) (api_done (update_Deployment k (restarted lib deployment)))"

definition updateConfigMap :: "kube \<Rightarrow> ConfigMap \<Rightarrow> unit act" where
  "updateConfigMap k configMap = emit (UpdateConfigMap configMap) (api_done (update_ConfigMap k configMap))"

section \<open>CoreDNS\<close>

definition patch_with ::
  "'v libraries \<Rightarrow> 'v \<Rightarrow> string \<Rightarrow> string \<Rightarrow> string \<Rightarrow> ConfigMap \<Rightarrow> (ConfigMap \<times> bool) act" where
  "patch_with lib version key clusterDomain meshNamespace configMap =
     (case addStubDomain (data_of configMap key) traefikMeshBlockHeader traefikMeshBlockTrailer clusterDomain
             meshNamespace (LessThan17 lib version) of
        None \<Rightarrow> None
      | Some (corefile, changed) \<Rightarrow> ret (put_data key corefile configMap, changed))"

definition patchCoreDNSConfig ::
  "'v libraries \<Rightarrow> kube \<Rightarrow> Deployment \<Rightarrow> string \<Rightarrow> string \<Rightarrow> (ConfigMap \<times> bool) act" where
  "patchCoreDNSConfig lib k deployment clusterDomain meshNamespace =
     and_then (from_res (getCoreDNSVersion lib deployment))
       (\<lambda>version.
          case getConfigMap k deployment ''coredns-custom'' of
            Inr customConfigMap \<Rightarrow>
              patch_with lib version ''traefik.mesh.server'' clusterDomain meshNamespace customConfigMap
          | Inl _ \<Rightarrow>
              and_then (from_res (getConfigMap k deployment ''coredns''))
                (patch_with lib version ''Corefile'' clusterDomain meshNamespace))"

definition ConfigureCoreDNS :: "'v libraries \<Rightarrow> kube \<Rightarrow> string \<Rightarrow> string \<Rightarrow> string \<Rightarrow> unit act" where
  "ConfigureCoreDNS lib k coreDNSNamespace clusterDomain meshNamespace =
     and_then (from_res (api (get_Deployment k coreDNSNamespace ''coredns'')))
       (\<lambda>coreDNSDeployment.
          and_then (wrap_act EPatchCoreDNS (patchCoreDNSConfig lib k coreDNSDeployment clusterDomain meshNamespace))
            (\<lambda>(patchedConfigMap, changed).
               if \<not> changed then ret ()
               else and_then (updateConfigMap k patchedConfigMap) (\<lambda>_. restartPods lib k coreDNSDeployment)))"

definition unpatchCoreDNSConfig :: "kube \<Rightarrow> Deployment \<Rightarrow> dns_error + ConfigMap" where
  "unpatchCoreDNSConfig k deployment =
     (case getConfigMap k deployment ''coredns-custom'' of
        Inr configMap \<Rightarrow> Inr (configMap\<lparr>cm_Data := (cm_Data configMap)(''traefik.mesh.server'' := None)\<rparr>)
      | Inl _ \<Rightarrow>
          bind_res (getConfigMap k deployment ''coredns'')
            (\<lambda>configMap. Inr (put_data ''Corefile''
               (removeStubDomain (data_of configMap ''Corefile'') traefikMeshBlockHeader traefikMeshBlockTrailer) configMap)))"

definition RestoreCoreDNS :: "'v libraries \<Rightarrow> kube \<Rightarrow> unit act" where
  "RestoreCoreDNS lib k =
     and_then (from_res (api (get_Deployment k NamespaceSystem ''coredns'')))
       (\<lambda>coreDNSDeployment.
          and_then (from_res (wrap_err EUnpatchCoreDNS (unpatchCoreDNSConfig k coreDNSDeployment)))
            (\<lambda>unpatchedConfigMap.
               and_then (updateConfigMap k unpatchedConfigMap) (\<lambda>_. restartPods lib k coreDNSDeployment)))"

section \<open>KubeDNS\<close>

definition patchKubeDNSConfig :: "'v libraries \<Rightarrow> kube \<Rightarrow> Deployment \<Rightarrow> string \<Rightarrow> unit act" where
  "patchKubeDNSConfig lib k deployment coreDNSServiceIP =
     and_then (getOrCreateConfigMap k deployment ''kube-dns'')
       (\<lambda>configMap.
          let stubDomainsStr = data_of configMap ''stubDomains'' in
          case (if stubDomainsStr \<noteq> [] then JsonUnmarshal lib stubDomainsStr else Some (Some Map.empty)) of
            None \<Rightarrow> from_res (Inl EUnmarshalStubDomains)
          | Some None \<Rightarrow> None
          | Some (Some stubDomains) \<Rightarrow>
              updateConfigMap k (put_data ''stubDomains''
                (JsonMarshal lib (Some (stubDomains(''traefik.mesh'' \<mapsto> [coreDNSServiceIP])))) configMap))"

text \<open>The \<open>n\<close>-th attempt of the operation that is retried.\<close>

definition clusterIP_attempt :: "kube \<Rightarrow> string \<Rightarrow> nat \<Rightarrow> dns_error + string" where
  "clusterIP_attempt k meshNamespace n =
     (case get_ClusterIP k meshNamespace ''coredns'' n of
        Inl _ \<Rightarrow> Inl EGetCoreDNSService
      | Inr ip \<Rightarrow> if ip = [] then Inl ENoClusterIP else Inr ip)"

definition ConfigureKubeDNS :: "'v libraries \<Rightarrow> kube \<Rightarrow> string \<Rightarrow> string \<Rightarrow> unit act" where
  "ConfigureKubeDNS lib k clusterDomain meshNamespace =
     and_then (from_res (api (get_Deployment k NamespaceSystem ''kube-dns'')))
       (\<lambda>kubeDNSDeployment.
          and_then (from_res (Retry lib (clusterIP_attempt k meshNamespace)))
            (\<lambda>coreDNSServiceIP.
               and_then (patchKubeDNSConfig lib k kubeDNSDeployment coreDNSServiceIP)
                 (\<lambda>_. and_then (ConfigureCoreDNS lib k meshNamespace clusterDomain meshNamespace)
                    (\<lambda>_. restartPods lib k kubeDNSDeployment))))"

definition RestoreKubeDNS :: "'v libraries \<Rightarrow> kube \<Rightarrow> unit act" where
  "RestoreKubeDNS lib k =
     and_then (from_res (api (get_Deployment k NamespaceSystem ''kube-dns'')))
       (\<lambda>kubeDNSDeployment.
          and_then (from_res (getConfigMap k kubeDNSDeployment ''kube-dns''))
            (\<lambda>configMap.
               let stubDomainsStr = data_of configMap ''stubDomains'' in
               if stubDomainsStr = [] then ret ()
               else case JsonUnmarshal lib stubDomainsStr of
                 None \<Rightarrow> from_res (Inl EUnmarshalStubDomains)
               | Some stubDomains \<Rightarrow>
                   and_then (updateConfigMap k (put_data ''stubDomains''
                      (JsonMarshal lib (map_option (\<lambda>m. m(''traefik.mesh'' := None)) stubDomains))
                      configMap))
                     (\<lambda>_. restartPods lib k kubeDNSDeployment)))"

section \<open>Commands\<close>

lemma act_simps [simp]:
  "and_then None f = None"
  "and_then (Some (ws, Inl e)) f = Some (ws, Inl e)"
  "and_then (Some (ws, Inr x)) f = map_option (\<lambda>(ws', r). (ws @ ws', r)) (f x)"
  "and_then (ret x) f = f x"
  "and_then (from_res (Inl e)) f = Some ([], Inl e)"
  "and_then (from_res (Inr x)) f = f x"
  "wrap_act w None = None"
  "wrap_act w (Some (ws, r)) = Some (ws, wrap_err w r)"
  "wrap_act w (ret x) = ret x"
  by (cases "f x"; simp add: and_then_def ret_def from_res_def wrap_act_def)+

lemma api_simps [simp]: "api (Inr x) = Inr x" "api (Inl e) = Inl (EApi e)" "api_done None = Inr ()" "api_done (Some e) = Inl (EApi e)"
  by (simp_all add: api_def api_done_def)

lemma data_put [simp]: "data_of (put_data key s cm) key = s" "cm_Name (put_data key s cm) = cm_Name cm"
  "cm_Namespace (put_data key s cm) = cm_Namespace cm" "put_data key s (put_data key s' cm) = put_data key s cm"
  by (simp_all add: data_of_def put_data_def)

text \<open>A deployment is checked for CoreDNS first. The provider is CoreDNS exactly when that deployment exists
  in a supported version and KubeDNS exactly when the first does not exist and the other one does; in
  every other case there is an error and the provider is unknown.\<close>

theorem CheckDNSProvider_spec:
  "case CheckDNSProvider lib k of
     (CoreDNS, err) \<Rightarrow> err = None \<and> (\<exists>d v. get_Deployment k NamespaceSystem ''coredns'' = Inr d
        \<and> getCoreDNSVersion lib d = Inr v \<and> SupportedVersion lib v)
   | (KubeDNS, err) \<Rightarrow> err = None \<and> get_Deployment k NamespaceSystem ''coredns'' = Inl NotFound
        \<and> (\<exists>d. get_Deployment k NamespaceSystem ''kube-dns'' = Inr d)
   | (UnknownDNS, err) \<Rightarrow> err \<noteq> None
        \<and> \<not> (\<exists>d v. get_Deployment k NamespaceSystem ''coredns'' = Inr d \<and> getCoreDNSVersion lib d = Inr v \<and> SupportedVersion lib v)
        \<and> \<not> (get_Deployment k NamespaceSystem ''coredns'' = Inl NotFound
             \<and> (\<exists>d. get_Deployment k NamespaceSystem ''kube-dns'' = Inr d))"
proof (cases "get_Deployment k NamespaceSystem ''coredns''")
  case (Inl e)
  then show ?thesis
    by (cases e; cases "get_Deployment k NamespaceSystem ''kube-dns''")
       (auto simp: CheckDNSProvider_def coreDNSMatch_def kubeDNSMatch_def split: api_error.split)
next
  case (Inr d)
  then show ?thesis
    by (cases "getCoreDNSVersion lib d") (auto simp: CheckDNSProvider_def coreDNSMatch_def)
qed

section \<open>Configuring CoreDNS\<close>

text \<open>What the two writes of a patch look like, whatever they answer.\<close>

lemma write_both:
  "and_then (updateConfigMap k cm) (\<lambda>_. restartPods lib k d) =
     (case update_ConfigMap k cm of
        Some e \<Rightarrow> Some ([UpdateConfigMap cm], Inl (EApi e))
      | None \<Rightarrow> Some ([UpdateConfigMap cm, UpdateDeployment (restarted lib d)],
          api_done (update_Deployment k (restarted lib d))))"
  by (simp add: updateConfigMap_def restartPods_def emit_def split: option.split)

text \<open>The cluster a command sees when its CoreDNS is deployed and configured by the config map \<open>cm\<close>.\<close>

definition coredns_cluster :: "'v libraries \<Rightarrow> kube \<Rightarrow> string \<Rightarrow> Deployment \<Rightarrow> 'v \<Rightarrow> ConfigMap \<Rightarrow> bool" where
  "coredns_cluster lib k ns d v cm \<longleftrightarrow> get_Deployment k ns ''coredns'' = Inr d \<and> getCoreDNSVersion lib d = Inr v
     \<and> is_err (getConfigMap k d ''coredns-custom'') \<and> getConfigMap k d ''coredns'' = Inr cm"

lemma ConfigureCoreDNS_eq:
  assumes "coredns_cluster lib k ns d v cm"
  shows "ConfigureCoreDNS lib k ns domain mesh =
    (case addStubDomain (data_of cm ''Corefile'') header trailer domain mesh (LessThan17 lib v) of
       None \<Rightarrow> None
     | Some (corefile, changed) \<Rightarrow>
         if \<not> changed then Some ([], Inr ())
         else and_then (updateConfigMap k (put_data ''Corefile'' corefile cm)) (\<lambda>_. restartPods lib k d))"
proof -
  from assms obtain e where "getConfigMap k d ''coredns-custom'' = Inl e"
    by (cases "getConfigMap k d ''coredns-custom''") (auto simp: coredns_cluster_def)
  with assms show ?thesis
    by (simp add: ConfigureCoreDNS_def patchCoreDNSConfig_def coredns_cluster_def patch_with_def ret_def option.map_id split: option.split)
qed

lemma RestoreCoreDNS_eq:
  assumes "coredns_cluster lib k NamespaceSystem d v cm"
  shows "RestoreCoreDNS lib k =
    and_then (updateConfigMap k (put_data ''Corefile'' (removeStubDomain (data_of cm ''Corefile'') header trailer) cm))
      (\<lambda>_. restartPods lib k d)"
proof -
  from assms obtain e where "getConfigMap k d ''coredns-custom'' = Inl e"
    by (cases "getConfigMap k d ''coredns-custom''") (auto simp: coredns_cluster_def)
  with assms show ?thesis
    by (simp add: RestoreCoreDNS_def unpatchCoreDNSConfig_def coredns_cluster_def)
qed

text \<open>Configuring CoreDNS writes at most twice: the config map, then the deployment to restart the pods.
  The pods are restarted only after the config map was accepted, and success means that both writes
  were accepted or that none was needed.\<close>

theorem ConfigureCoreDNS_writes:
  assumes "ConfigureCoreDNS lib k ns domain mesh = Some (ws, r)"
  shows "ws = [] \<or> (\<exists>cm. update_ConfigMap k cm \<noteq> None \<and> ws = [UpdateConfigMap cm] \<and> is_err r)
     \<or> (\<exists>cm d. get_Deployment k ns ''coredns'' = Inr d \<and> update_ConfigMap k cm = None
          \<and> ws = [UpdateConfigMap cm, UpdateDeployment (restarted lib d)]
          \<and> (r = Inr () \<longleftrightarrow> update_Deployment k (restarted lib d) = None))"
proof (cases "get_Deployment k ns ''coredns''")
  case (Inl e)
  with assms show ?thesis by (simp add: ConfigureCoreDNS_def)
next
  case (Inr d)
  have reads: "\<exists>r. patchCoreDNSConfig lib k d domain mesh = Some ([], r) \<or> patchCoreDNSConfig lib k d domain mesh = None"
    by (cases "getCoreDNSVersion lib d"; cases "getConfigMap k d ''coredns-custom''"; cases "getConfigMap k d ''coredns''")
       (auto simp: patchCoreDNSConfig_def patch_with_def ret_def split: option.split)
  show ?thesis
  proof (cases "patchCoreDNSConfig lib k d domain mesh")
    case None
    with assms Inr show ?thesis by (simp add: ConfigureCoreDNS_def)
  next
    case (Some p)
    with reads obtain pr where p: "p = ([], pr)" by auto
    show ?thesis
    proof (cases pr)
      case (Inl e)
      with assms Inr Some p show ?thesis by (simp add: ConfigureCoreDNS_def)
    next
      case inr: (Inr cc)
      obtain cm changed where cc: "cc = (cm, changed)" by fastforce
      show ?thesis
      proof (cases changed)
        case False
        with assms Inr Some p inr cc show ?thesis by (simp add: ConfigureCoreDNS_def ret_def)
      next
        case True
        with assms Inr Some p inr cc
        have "and_then (updateConfigMap k cm) (\<lambda>_. restartPods lib k d) = Some (ws, r)"
          by (simp add: ConfigureCoreDNS_def option.map_comp comp_def case_prod_unfold option.map_ident)
        with Inr show ?thesis unfolding write_both
          by (cases "update_ConfigMap k cm"; cases "update_Deployment k (restarted lib d)") auto
      qed
    qed
  qed
qed

text \<open>The cluster after a write that it accepted: it answers with what was written under that name, and as before
  under every other one.\<close>

fun apply_write :: "api_write \<Rightarrow> kube \<Rightarrow> kube" where
  "apply_write (CreateConfigMap cm) k = k\<lparr>get_ConfigMap := (\<lambda>ns n.
     if ns = cm_Namespace cm \<and> n = cm_Name cm then Inr cm else get_ConfigMap k ns n)\<rparr>"
| "apply_write (UpdateConfigMap cm) k = k\<lparr>get_ConfigMap := (\<lambda>ns n.
     if ns = cm_Namespace cm \<and> n = cm_Name cm then Inr cm else get_ConfigMap k ns n)\<rparr>"
| "apply_write (UpdateDeployment d) k = k\<lparr>get_Deployment := (\<lambda>ns n.
     if ns = dp_Namespace d \<and> n = dp_Name d then Inr d else get_Deployment k ns n)\<rparr>"

text \<open>The API answers a read with an object of the name asked for.\<close>

definition answers_by_name :: "kube \<Rightarrow> bool" where
  "answers_by_name k \<longleftrightarrow>
     (\<forall>ns n d. get_Deployment k ns n = Inr d \<longrightarrow> dp_Namespace d = ns \<and> dp_Name d = n)
   \<and> (\<forall>ns n cm. get_ConfigMap k ns n = Inr cm \<longrightarrow> cm_Namespace cm = ns \<and> cm_Name cm = n)"

lemma apply_write_answers [simp]: "answers_by_name k \<Longrightarrow> answers_by_name (apply_write w k)"
  by (cases w) (auto simp: answers_by_name_def)

lemma find_volume_name: "find_volume name vs = Inr cv \<Longrightarrow> cv_Name cv = name"
  by (induction vs) (auto split: option.splits if_splits)

lemma getConfigMap_at:
  "getConfigMap k d name = (case getConfigMapVolumeSource d name of
     Inl e \<Rightarrow> Inl e | Inr _ \<Rightarrow> api (get_ConfigMap k (dp_Namespace d) name))"
  using find_volume_name [of name "dp_Volumes d"]
  by (cases "getConfigMapVolumeSource d name") (auto simp: getConfigMap_def getConfigMapVolumeSource_def)

lemma coredns_cluster_names:
  assumes "answers_by_name k" "coredns_cluster lib k ns d v cm"
  shows "dp_Namespace d = ns" "dp_Name d = ''coredns''" "cm_Namespace cm = ns" "cm_Name cm = ''coredns''"
    "get_ConfigMap k ns ''coredns'' = Inr cm"
proof -
  show d: "dp_Namespace d = ns" "dp_Name d = ''coredns''" using assms by (auto simp: answers_by_name_def coredns_cluster_def)
  with assms(2) show cm: "get_ConfigMap k ns ''coredns'' = Inr cm"
    by (auto simp: coredns_cluster_def getConfigMap_at api_def split: sum.splits)
  with assms(1) show "cm_Namespace cm = ns" "cm_Name cm = ''coredns''" by (auto simp: answers_by_name_def)
qed

lemma restarted_simps [simp]:
  "dp_Name (restarted lib d) = dp_Name d" "dp_Namespace (restarted lib d) = dp_Namespace d"
  "getCoreDNSVersion lib (restarted lib' d) = getCoreDNSVersion lib d"
  "getConfigMap k (restarted lib d) name = getConfigMap k d name"
  "getConfigMapVolumeSource (restarted lib d) name = getConfigMapVolumeSource d name"
  by (simp_all add: restarted_def getCoreDNSVersion_def getConfigMap_def getConfigMapVolumeSource_def)

text \<open>A later command has a fresh identifier.\<close>

lemma fresh_uuid [simp]:
  "coredns_cluster (lib\<lparr>NewUUID := u\<rparr>) k ns d v cm = coredns_cluster lib k ns d v cm"
proof -
  have "coreDNSVersion_of (lib\<lparr>NewUUID := u\<rparr>) cs = coreDNSVersion_of lib cs" for cs
    by (induction cs) (simp_all add: Let_def)
  then show ?thesis by (simp add: coredns_cluster_def getCoreDNSVersion_def)
qed

text \<open>The cluster that a patch of the Corefile leaves behind, with and without the restart.\<close>

lemma patched_cluster:
  assumes "answers_by_name k" "coredns_cluster lib k ns d v cm"
  shows "coredns_cluster lib (apply_write (UpdateConfigMap (put_data key s cm)) k) ns d v (put_data key s cm)"
    "coredns_cluster lib (apply_write (UpdateDeployment (restarted lib' d)) (apply_write (UpdateConfigMap (put_data key s cm)) k))
       ns (restarted lib' d) v (put_data key s cm)"
  using assms(2) coredns_cluster_names [OF assms]
  by (auto simp: coredns_cluster_def getConfigMap_at api_def split: sum.splits)

text \<open>C32: When CoreDNS has no \<open>coredns-custom\<close> config map, its Corefile contains no marker of the mesh, the cluster
  domain and the mesh namespace contain no number sign, and the API answers by name and accepts the writes, then
  configuring installs the stub domain and restarts the pods. On the cluster with both objects as they were
  written, configuring again writes nothing, and restoring writes the former Corefile with one newline more and
  restarts the pods.\<close>

theorem ConfigureCoreDNS_round_trip:
  assumes "answers_by_name k" "coredns_cluster lib k NamespaceSystem d v cm"
    and "\<not> Contains (data_of cm ''Corefile'') header" "\<not> Contains (data_of cm ''Corefile'') trailer"
    and "CHR ''#'' \<notin> set domain" "CHR ''#'' \<notin> set mesh"
    and "\<And>cm. update_ConfigMap k cm = None" "\<And>d. update_Deployment k d = None"
  shows "\<exists>cm' k'. ConfigureCoreDNS lib k NamespaceSystem domain mesh =
        Some ([UpdateConfigMap cm', UpdateDeployment (restarted lib d)], Inr ())
     \<and> getStubDomain (data_of cm' ''Corefile'') header trailer = Some (stubDomain header trailer domain mesh (LessThan17 lib v))
     \<and> k' = fold apply_write [UpdateConfigMap cm', UpdateDeployment (restarted lib d)] k
     \<and> ConfigureCoreDNS (lib\<lparr>NewUUID := u\<rparr>) k' NamespaceSystem domain mesh = Some ([], Inr ())
     \<and> RestoreCoreDNS (lib\<lparr>NewUUID := u\<rparr>) k' =
         Some ([UpdateConfigMap (put_data ''Corefile'' (data_of cm ''Corefile'' @ [newline]) cm),
                UpdateDeployment (restarted (lib\<lparr>NewUUID := u\<rparr>) (restarted lib d))], Inr ())"
proof -
  let ?old = "data_of cm ''Corefile''" and ?b = "LessThan17 lib v" and ?lib = "lib\<lparr>NewUUID := u\<rparr>"
  let ?new = "with_block (?old @ [newline]) (stub_body domain mesh ?b) []"
  let ?cm = "put_data ''Corefile'' ?new cm"
  let ?k = "fold apply_write [UpdateConfigMap ?cm, UpdateDeployment (restarted lib d)] k"
  note add = addStubDomain_fresh [OF assms(3,4), of domain mesh ?b]
  note wp = well_placed_stub [OF assms(3-6), of ?b]
  have c: "coredns_cluster ?lib ?k NamespaceSystem (restarted lib d) v ?cm"
    using patched_cluster(2) [OF assms(1,2)] by (simp only: fresh_uuid fold.simps comp_apply id_apply)
  have accepts: "update_ConfigMap ?k x = None" "update_Deployment ?k y = None" for x y using assms(7,8) by simp_all
  have "ConfigureCoreDNS lib k NamespaceSystem domain mesh = Some ([UpdateConfigMap ?cm, UpdateDeployment (restarted lib d)], Inr ())"
    unfolding ConfigureCoreDNS_eq [OF assms(2)] add by (simp add: write_both assms(7,8))
  moreover have "ConfigureCoreDNS ?lib ?k NamespaceSystem domain mesh = Some ([], Inr ())"
    unfolding ConfigureCoreDNS_eq [OF c] by (simp add: addStubDomain_block [OF wp] stubDomain_block)
  moreover have "RestoreCoreDNS ?lib ?k = Some ([UpdateConfigMap (put_data ''Corefile'' (?old @ [newline]) cm),
      UpdateDeployment (restarted ?lib (restarted lib d))], Inr ())"
    unfolding RestoreCoreDNS_eq [OF c] write_both accepts by (simp add: removeStubDomain_block [OF wp])
  moreover have "getStubDomain ?new header trailer = Some (stubDomain header trailer domain mesh ?b)"
    by (simp add: getStubDomain_block [OF wp] stubDomain_block)
  ultimately show ?thesis by (intro exI [of _ ?cm] exI [of _ ?k]) simp
qed

text \<open>C29: A failed restart is lost. When the config map was written but the pods could not be restarted, the
  command fails; on the cluster with the config map as it was written, whatever the API server answers from
  then on, the next one finds the stub domain in place, writes nothing and succeeds, so the pods keep running
  with the former configuration. As before, there is no \<open>coredns-custom\<close> config map, no marker of the mesh in the
  Corefile, no number sign in the names, and the API answers by name.\<close>

theorem ConfigureCoreDNS_lost_restart:
  assumes "answers_by_name k" "coredns_cluster lib k ns d v cm"
    and "\<not> Contains (data_of cm ''Corefile'') header" "\<not> Contains (data_of cm ''Corefile'') trailer"
    and "CHR ''#'' \<notin> set domain" "CHR ''#'' \<notin> set mesh"
    and "\<And>cm. update_ConfigMap k cm = None" "update_Deployment k (restarted lib d) = Some e"
  shows "\<exists>cm'. ConfigureCoreDNS lib k ns domain mesh =
        Some ([UpdateConfigMap cm', UpdateDeployment (restarted lib d)], Inl (EApi e))
     \<and> ConfigureCoreDNS (lib\<lparr>NewUUID := u\<rparr>) ((apply_write (UpdateConfigMap cm') k)
         \<lparr>update_ConfigMap := accepts_map, update_Deployment := accepts_deployment\<rparr>) ns domain mesh = Some ([], Inr ())"
proof -
  let ?new = "with_block (data_of cm ''Corefile'' @ [newline]) (stub_body domain mesh (LessThan17 lib v)) []"
  let ?cm = "put_data ''Corefile'' ?new cm" and ?lib = "lib\<lparr>NewUUID := u\<rparr>"
  let ?k = "(apply_write (UpdateConfigMap ?cm) k)\<lparr>update_ConfigMap := accepts_map, update_Deployment := accepts_deployment\<rparr>"
  note wp = well_placed_stub [OF assms(3-6), of "LessThan17 lib v"]
  have "coredns_cluster lib (apply_write (UpdateConfigMap ?cm) k) ns d v ?cm" by (rule patched_cluster(1) [OF assms(1,2)])
  then have c: "coredns_cluster ?lib ?k ns d v ?cm" unfolding fresh_uuid by (simp add: coredns_cluster_def getConfigMap_def)
  have "ConfigureCoreDNS lib k ns domain mesh =
      Some ([UpdateConfigMap ?cm, UpdateDeployment (restarted lib d)], Inl (EApi e))"
    unfolding ConfigureCoreDNS_eq [OF assms(2)] addStubDomain_fresh [OF assms(3,4)]
    by (simp add: write_both assms(7,8))
  moreover have "ConfigureCoreDNS ?lib ?k ns domain mesh = Some ([], Inr ())"
    unfolding ConfigureCoreDNS_eq [OF c] by (simp add: addStubDomain_block [OF wp] stubDomain_block)
  ultimately show ?thesis by blast
qed

section \<open>KubeDNS\<close>

definition kubedns_cluster :: "kube \<Rightarrow> Deployment \<Rightarrow> ConfigMap \<Rightarrow> bool" where
  "kubedns_cluster k d cm \<longleftrightarrow> get_Deployment k NamespaceSystem ''kube-dns'' = Inr d
     \<and> getConfigMap k d ''kube-dns'' = Inr cm"

lemma getOrCreate_existing:
  assumes "kubedns_cluster k d cm"
  shows "getOrCreateConfigMap k d ''kube-dns'' = ret cm"
proof -
  from assms obtain vs where "getConfigMapVolumeSource d ''kube-dns'' = Inr vs"
    "api (get_ConfigMap k (dp_Namespace d) (cv_Name vs)) = Inr cm"
    by (auto simp: kubedns_cluster_def getConfigMap_def bind_res_Inr_iff)
  then show ?thesis by (simp add: getOrCreateConfigMap_def api_def)
qed

text \<open>Configuring KubeDNS adds the mesh to its stub domains and keeps the others; on the config map this
  wrote, restoring takes the mesh out again, which gives back the stub domains there were.\<close>

theorem KubeDNS_round_trip:
  assumes "kubedns_cluster k d cm" "data_of cm ''stubDomains'' \<noteq> []"
    and "JsonUnmarshal lib (data_of cm ''stubDomains'') = Some (Some stubs)" "stubs ''traefik.mesh'' = None"
    and "JsonUnmarshal lib (JsonMarshal lib (Some (stubs(''traefik.mesh'' \<mapsto> [ip])))) =
           Some (Some (stubs(''traefik.mesh'' \<mapsto> [ip])))"
    and "JsonMarshal lib (Some (stubs(''traefik.mesh'' \<mapsto> [ip]))) \<noteq> []"
  shows "\<exists>cm'. patchKubeDNSConfig lib k d ip = updateConfigMap k cm'
     \<and> JsonUnmarshal lib (data_of cm' ''stubDomains'') = Some (Some (stubs(''traefik.mesh'' \<mapsto> [ip])))
     \<and> (\<forall>k'. kubedns_cluster k' d cm' \<longrightarrow> RestoreKubeDNS lib k' =
          and_then (updateConfigMap k' (put_data ''stubDomains'' (JsonMarshal lib (Some stubs)) cm))
            (\<lambda>_. restartPods lib k' d))"
proof -
  let ?json = "JsonMarshal lib (Some (stubs(''traefik.mesh'' \<mapsto> [ip])))"
  have patch: "patchKubeDNSConfig lib k d ip = updateConfigMap k (put_data ''stubDomains'' ?json cm)"
    using assms(2,3) by (simp add: patchKubeDNSConfig_def getOrCreate_existing [OF assms(1)] Let_def)
  have "(stubs(''traefik.mesh'' \<mapsto> [ip]))(''traefik.mesh'' := None) = stubs" using assms(4) by auto
  then have "RestoreKubeDNS lib k' = and_then (updateConfigMap k' (put_data ''stubDomains'' (JsonMarshal lib (Some stubs)) cm))
            (\<lambda>_. restartPods lib k' d)" if "kubedns_cluster k' d (put_data ''stubDomains'' ?json cm)" for k'
    using that assms(5,6) by (simp add: RestoreKubeDNS_def kubedns_cluster_def Let_def)
  with patch assms(5) show ?thesis by (intro exI [of _ "put_data ''stubDomains'' ?json cm"]) simp
qed

section \<open>A small cluster\<close>

definition ex_lib :: "string libraries" where
  "ex_lib = \<lparr>NewVersion = Some, SupportedVersion = (\<lambda>v. True), LessThan17 = (\<lambda>v. False),
     JsonUnmarshal = (\<lambda>s. Some (Some (if s = ''{}'' then Map.empty else [''traefik.mesh'' \<mapsto> [''10.0.0.9'']]))),
     JsonMarshal = (\<lambda>m. case m of None \<Rightarrow> ''null'' | Some f \<Rightarrow> if f ''traefik.mesh'' = None then ''{}'' else ''mesh''),
     Retry = (\<lambda>op. op 0), NewUUID = ''uuid''\<rparr>"

definition ex_deployment :: Deployment where
  "ex_deployment = \<lparr>dp_Name = ''coredns'', dp_Namespace = NamespaceSystem,
     dp_Containers = [\<lparr>ct_Name = ''coredns'', ct_Image = ''coredns:1.7''\<rparr>],
     dp_Volumes = [Some \<lparr>cv_Name = ''coredns'', cv_Optional = None\<rparr>, Some \<lparr>cv_Name = ''kube-dns'', cv_Optional = Some True\<rparr>],
     dp_Annotations = Map.empty\<rparr>"

definition ex_config :: ConfigMap where
  "ex_config = \<lparr>cm_Name = ''coredns'', cm_Namespace = NamespaceSystem,
     cm_Data = [''Corefile'' \<mapsto> ''.:53 {}'', ''stubDomains'' \<mapsto> ''{}'']\<rparr>"

definition ex_kube :: "api_error option \<Rightarrow> ConfigMap \<Rightarrow> kube" where
  "ex_kube restart cm = \<lparr>
     get_Deployment = (\<lambda>ns n. if n = ''coredns'' \<or> n = ''kube-dns'' then Inr (ex_deployment\<lparr>dp_Name := n, dp_Namespace := ns\<rparr>) else Inl NotFound),
     get_ConfigMap = (\<lambda>ns n. if n = ''coredns'' \<or> n = ''kube-dns'' then Inr (cm\<lparr>cm_Name := n, cm_Namespace := ns\<rparr>) else Inl NotFound),
     get_ClusterIP = (\<lambda>ns n i. Inr ''10.0.0.9''), create_ConfigMap = Inr, update_ConfigMap = (\<lambda>cm. None),
     update_Deployment = (\<lambda>d. restart)\<rparr>"

lemma ex_kube_answers: "answers_by_name (ex_kube restart cm)"
  by (simp add: answers_by_name_def ex_kube_def)

lemma ex_coredns: "coredns_cluster ex_lib (ex_kube restart ex_config) NamespaceSystem ex_deployment ''1.7'' ex_config"
  by (simp add: coredns_cluster_def ex_kube_def ex_deployment_def getCoreDNSVersion_def ex_lib_def getConfigMap_def
      getConfigMapVolumeSource_def ex_config_def)

lemma ex_config_clean:
  "\<not> Contains (data_of ex_config ''Corefile'') header" "\<not> Contains (data_of ex_config ''Corefile'') trailer"
  by (rule no_marker; simp add: data_of_def ex_config_def)+

lemma ConfigureCoreDNS_writes_witness:
  "\<exists>ws r. ConfigureCoreDNS ex_lib (ex_kube None ex_config) NamespaceSystem ''cluster.local'' ''maesh'' = Some (ws, r)
     \<and> length ws \<le> 2"
proof -
  have "\<exists>ws r. ConfigureCoreDNS ex_lib (ex_kube None ex_config) NamespaceSystem ''cluster.local'' ''maesh'' = Some (ws, r)"
    unfolding ConfigureCoreDNS_eq [OF ex_coredns] addStubDomain_fresh [OF ex_config_clean]
    by (simp add: write_both ex_kube_def)
  then obtain ws r where run: "ConfigureCoreDNS ex_lib (ex_kube None ex_config) NamespaceSystem ''cluster.local'' ''maesh'' = Some (ws, r)"
    by blast
  from ConfigureCoreDNS_writes [OF run] have "length ws \<le> 2" by auto
  with run show ?thesis by blast
qed

lemma ConfigureCoreDNS_round_trip_witness:
  "\<exists>cm' k'. ConfigureCoreDNS ex_lib (ex_kube None ex_config) NamespaceSystem ''cluster.local'' ''maesh'' =
       Some ([UpdateConfigMap cm', UpdateDeployment (restarted ex_lib ex_deployment)], Inr ())
     \<and> ConfigureCoreDNS (ex_lib\<lparr>NewUUID := ''other''\<rparr>) k' NamespaceSystem ''cluster.local'' ''maesh'' = Some ([], Inr ())
     \<and> k' = fold apply_write [UpdateConfigMap cm', UpdateDeployment (restarted ex_lib ex_deployment)] (ex_kube None ex_config)"
proof -
  have "CHR ''#'' \<notin> set ''cluster.local''" "CHR ''#'' \<notin> set ''maesh''"
    "\<And>cm. update_ConfigMap (ex_kube None ex_config) cm = None" "\<And>d. update_Deployment (ex_kube None ex_config) d = None"
    by (simp_all add: ex_kube_def)
  from ConfigureCoreDNS_round_trip [OF ex_kube_answers ex_coredns ex_config_clean this] show ?thesis by blast
qed

lemma ConfigureCoreDNS_lost_restart_witness:
  "\<exists>ws k'. ConfigureCoreDNS ex_lib (ex_kube (Some ApiError) ex_config) NamespaceSystem ''cluster.local'' ''maesh'' =
       Some (ws, Inl (EApi ApiError)) \<and> update_Deployment k' = (\<lambda>d. None)
     \<and> ConfigureCoreDNS (ex_lib\<lparr>NewUUID := ''other''\<rparr>) k' NamespaceSystem ''cluster.local'' ''maesh'' = Some ([], Inr ())"
proof -
  have "CHR ''#'' \<notin> set ''cluster.local''" "CHR ''#'' \<notin> set ''maesh''"
    "\<And>cm. update_ConfigMap (ex_kube (Some ApiError) ex_config) cm = None"
    "update_Deployment (ex_kube (Some ApiError) ex_config) (restarted ex_lib ex_deployment) = Some ApiError"
    by (simp_all add: ex_kube_def)
  from ConfigureCoreDNS_lost_restart [OF ex_kube_answers ex_coredns ex_config_clean this,
      where u = "''other''" and accepts_map = "\<lambda>cm. None" and accepts_deployment = "\<lambda>d. None"]
  obtain cm' where run: "ConfigureCoreDNS ex_lib (ex_kube (Some ApiError) ex_config) NamespaceSystem ''cluster.local'' ''maesh'' =
      Some ([UpdateConfigMap cm', UpdateDeployment (restarted ex_lib ex_deployment)], Inl (EApi ApiError))"
    and again: "ConfigureCoreDNS (ex_lib\<lparr>NewUUID := ''other''\<rparr>) ((apply_write (UpdateConfigMap cm') (ex_kube (Some ApiError) ex_config))
      \<lparr>update_ConfigMap := \<lambda>cm. None, update_Deployment := \<lambda>d. None\<rparr>) NamespaceSystem ''cluster.local'' ''maesh'' = Some ([], Inr ())"
    by blast
  have "update_Deployment ((apply_write (UpdateConfigMap cm') (ex_kube (Some ApiError) ex_config))
      \<lparr>update_ConfigMap := \<lambda>cm. None, update_Deployment := \<lambda>d. None\<rparr>) = (\<lambda>d. None)" by simp
  with run again show ?thesis by blast
qed

lemma KubeDNS_round_trip_witness:
  "\<exists>cm'. patchKubeDNSConfig ex_lib (ex_kube None ex_config) (ex_deployment\<lparr>dp_Name := ''kube-dns''\<rparr>) ''10.0.0.9'' =
       updateConfigMap (ex_kube None ex_config) cm'"
proof -
  have c: "kubedns_cluster (ex_kube None ex_config) (ex_deployment\<lparr>dp_Name := ''kube-dns''\<rparr>) (ex_config\<lparr>cm_Name := ''kube-dns''\<rparr>)"
    by (simp add: kubedns_cluster_def ex_kube_def getConfigMap_def getConfigMapVolumeSource_def ex_deployment_def ex_config_def)
  have j: "data_of (ex_config\<lparr>cm_Name := ''kube-dns''\<rparr>) ''stubDomains'' \<noteq> []"
    "JsonUnmarshal ex_lib (data_of (ex_config\<lparr>cm_Name := ''kube-dns''\<rparr>) ''stubDomains'') = Some (Some Map.empty)" "Map.empty ''traefik.mesh'' = None"
    "JsonUnmarshal ex_lib (JsonMarshal ex_lib (Some (Map.empty(''traefik.mesh'' \<mapsto> [''10.0.0.9''])))) =
       Some (Some (Map.empty(''traefik.mesh'' \<mapsto> [''10.0.0.9''])))"
    "JsonMarshal ex_lib (Some (Map.empty(''traefik.mesh'' \<mapsto> [''10.0.0.9'']))) \<noteq> []"
    by (simp_all add: data_of_def ex_config_def ex_lib_def)
  from KubeDNS_round_trip [OF c j] show ?thesis by blast
qed

end
