(* ===== verification/Clients.thy ===== *)
theory Clients
  imports Prelude
begin

text \<open>
  The clients of the Kubernetes and SMI API groups (\<open>pkg/k8s/client.go\<close>). What client-go and the SMI packages
  offer is an argument, as is the environment of the process.
\<close>

section \<open>Clients\<close>

datatype client_error = EInClusterConfig | EConfigFlags | EMissingConfig | EKubernetesClient | EAccessClient | ESpecsClient | ESplitClient

text \<open>What client-go and the SMI packages offer: configurations and clients made of them, \<open>None\<close> for an error.\<close>

record ('r, 'k, 'a, 's, 't) client_library =
  InClusterConfig :: "'r option"
  BuildConfigFromFlags :: "string \<Rightarrow> string \<Rightarrow> 'r option"
  kubernetes_NewForConfig :: "'r \<Rightarrow> 'k option"
  access_NewForConfig :: "'r \<Rightarrow> 'a option"
  specs_NewForConfig :: "'r \<Rightarrow> 's option"
  split_NewForConfig :: "'r \<Rightarrow> 't option"

record ('k, 'a, 's, 't) ClientWrapper =
  kubeClient :: 'k
  accessClient :: 'a
  specsClient :: 's
  splitClient :: 't

definition from_option :: "'e \<Rightarrow> 'a option \<Rightarrow> 'e + 'a" where
  "from_option err x = (case x of None \<Rightarrow> Inl err | Some y \<Rightarrow> Inr y)"

definition buildConfig ::
  "('r, 'k, 'a, 's, 't) client_library \<Rightarrow> (string \<Rightarrow> string) \<Rightarrow> string \<Rightarrow> string \<Rightarrow> client_error + 'r" where
  "buildConfig lib getenv masterURL kubeConfig =
     (if getenv ''KUBERNETES_SERVICE_HOST'' \<noteq> [] \<and> getenv ''KUBERNETES_SERVICE_PORT'' \<noteq> [] then
        from_option EInClusterConfig (InClusterConfig lib)
      else if masterURL \<noteq> [] \<or> kubeConfig \<noteq> [] then
        from_option EConfigFlags (BuildConfigFromFlags lib masterURL kubeConfig)
      else Inl EMissingConfig)"

definition buildKubernetesClient :: "('r, 'k, 'a, 's, 't) client_library \<Rightarrow> 'r \<Rightarrow> client_error + 'k" where
  "buildKubernetesClient lib config = from_option EKubernetesClient (kubernetes_NewForConfig lib config)"

definition buildSmiAccessClient :: "('r, 'k, 'a, 's, 't) client_library \<Rightarrow> 'r \<Rightarrow> client_error + 'a" where
  "buildSmiAccessClient lib config = from_option EAccessClient (access_NewForConfig lib config)"

definition buildSmiSpecsClient :: "('r, 'k, 'a, 's, 't) client_library \<Rightarrow> 'r \<Rightarrow> client_error + 's" where
  "buildSmiSpecsClient lib config = from_option ESpecsClient (specs_NewForConfig lib config)"

definition buildSmiSplitClient :: "('r, 'k, 'a, 's, 't) client_library \<Rightarrow> 'r \<Rightarrow> client_error + 't" where
  "buildSmiSplitClient lib config = from_option ESplitClient (split_NewForConfig lib config)"

definition NewClient ::
  "('r, 'k, 'a, 's, 't) client_library \<Rightarrow> (string \<Rightarrow> string) \<Rightarrow> string \<Rightarrow> string \<Rightarrow>
     client_error + ('k, 'a, 's, 't) ClientWrapper" where
  "NewClient lib getenv masterURL kubeConfig =
     bind_res (buildConfig lib getenv masterURL kubeConfig) (\<lambda>config.
     bind_res (buildKubernetesClient lib config) (\<lambda>kube.
     bind_res (buildSmiAccessClient lib config) (\<lambda>acc.
     bind_res (buildSmiSpecsClient lib config) (\<lambda>specs.
     bind_res (buildSmiSplitClient lib config) (\<lambda>split.
       Inr \<lparr>kubeClient = kube, accessClient = acc, specsClient = specs, splitClient = split\<rparr>)))))"

section \<open>When clients are built\<close>

lemma Inr_from_option [simp]: "from_option err x = Inr y \<longleftrightarrow> x = Some y"
  by (simp add: from_option_def split: option.split)

text \<open>\<open>NewClient\<close> succeeds exactly when a configuration is found and all four clients can be built from it, and
  the wrapper holds those four. Inside a cluster the configuration is the cluster's, whatever master URL or
  kubeconfig is given.\<close>

theorem NewClient_spec:
  "NewClient lib getenv masterURL kubeConfig = Inr w \<longleftrightarrow>
     (\<exists>config. kubernetes_NewForConfig lib config = Some (kubeClient w) \<and> access_NewForConfig lib config = Some (accessClient w)
        \<and> specs_NewForConfig lib config = Some (specsClient w) \<and> split_NewForConfig lib config = Some (splitClient w)
        \<and> (if getenv ''KUBERNETES_SERVICE_HOST'' \<noteq> [] \<and> getenv ''KUBERNETES_SERVICE_PORT'' \<noteq> []
           then InClusterConfig lib = Some config
           else (masterURL \<noteq> [] \<or> kubeConfig \<noteq> []) \<and> BuildConfigFromFlags lib masterURL kubeConfig = Some config))"
  by (cases w)
     (auto simp: NewClient_def buildConfig_def buildKubernetesClient_def buildSmiAccessClient_def buildSmiSpecsClient_def
      buildSmiSplitClient_def bind_res_Inr_iff)

text \<open>A library in which everything can be built, outside a cluster.\<close>

definition ex_library :: "(string, unit, unit, unit, unit) client_library" where
  "ex_library = \<lparr>InClusterConfig = None, BuildConfigFromFlags = (\<lambda>master kube. Some kube),
     kubernetes_NewForConfig = (\<lambda>c. Some ()), access_NewForConfig = (\<lambda>c. Some ()), specs_NewForConfig = (\<lambda>c. Some ()),
     split_NewForConfig = (\<lambda>c. Some ())\<rparr>"

definition ex_getenv :: "string \<Rightarrow> string" where
  "ex_getenv name = (if name = ''KUBECONFIG'' then ''/root/.kube/config'' else [])"

lemma ex_client: "\<exists>w. NewClient ex_library ex_getenv [] (ex_getenv ''KUBECONFIG'') = Inr w"
  by (simp add: NewClient_def buildConfig_def buildKubernetesClient_def buildSmiAccessClient_def buildSmiSpecsClient_def
      buildSmiSplitClient_def ex_library_def ex_getenv_def from_option_def)

end
