(* ===== verification/Commands.thy ===== *)
theory Commands
  imports Objects Dns Clients
begin

text \<open>
  The commands around the controller: \<open>pkg/k8s/smi.go\<close> (the installed SMI versions), \<open>pkg/cleanup/cleanup.go\<close>,
  \<open>pkg/safe/recover.go\<close>, \<open>cmd/log.go\<close>, and what \<open>cmd/prepare/prepare.go\<close> and \<open>cmd/cleanup/cleanup.go\<close> make of
  them. The client libraries, parsing a log level and the groups the API server announces are arguments.
\<close>

section \<open>The logger\<close>

datatype Formatter = JSONFormatter | TextFormatter (DisableColors: bool) (FullTimestamp: bool) (DisableSorting: bool)

datatype cmd_error =
    EInvalidLogFormat string
  | EInvalidLogLevel string
  | ELogger cmd_error
  | EClient client_error
  | EListGroups
  | EGroupVersions "(string \<times> string) list"
  | EUnsupportedSMI cmd_error
  | EProvider dns_error
  | EConfigureDNS dns_error
  | ECleanup
  | ERestore dns_error

definition parseLogFormat :: "string \<Rightarrow> cmd_error + Formatter" where
  "parseLogFormat format =
     (if format = ''json'' then Inr JSONFormatter
      else if format = ''common'' then Inr (TextFormatter False True True)
      else Inl (EInvalidLogFormat format))"

text \<open>\<open>parseLevel\<close> is \<open>logrus.ParseLevel\<close>. The result is the error, if any.\<close>

definition NewLogger :: "(string \<Rightarrow> bool) \<Rightarrow> string \<Rightarrow> string \<Rightarrow> bool \<Rightarrow> cmd_error option" where
  "NewLogger parseLevel format level debug =
     (let logLevelStr = if debug then ''debug'' else level in
      if \<not> parseLevel logLevelStr then Some (EInvalidLogLevel logLevelStr)
      else case parseLogFormat format of Inl err \<Rightarrow> Some err | Inr _ \<Rightarrow> None)"

section \<open>SMI versions\<close>

text \<open>A group announces its preferred version; the first group of a name counts, and the empty string stands
  for none.\<close>

fun preferred_version :: "string \<Rightarrow> (string \<times> string) list \<Rightarrow> string" where
  "preferred_version required [] = []"
| "preferred_version required ((name, version) # groups) =
     (if required = name then version else preferred_version required groups)"

text \<open>The three groups and versions are those of the SMI packages. An error lists the groups without the
  version they should have.\<close>

record smi_groups =
  splitGroup :: "string \<times> string"
  specsGroup :: "string \<times> string"
  accessGroup :: "string \<times> string"

definition requiredGroups :: "smi_groups \<Rightarrow> bool \<Rightarrow> (string \<times> string) list" where
  "requiredGroups smi aclEnabled =
     [splitGroup smi, specsGroup smi] @ (if aclEnabled then [accessGroup smi] else [])"

definition CheckSMIVersion :: "smi_groups \<Rightarrow> (string \<times> string) list option \<Rightarrow> bool \<Rightarrow> cmd_error option" where
  "CheckSMIVersion smi serverGroups aclEnabled =
     (case serverGroups of
        None \<Rightarrow> Some EListGroups
      | Some groups \<Rightarrow>
          (let errs = filter (\<lambda>(group, version). let v = preferred_version group groups in v = [] \<or> v \<noteq> version)
             (requiredGroups smi aclEnabled)
           in if 0 < length errs then Some (EGroupVersions errs) else None))"

section \<open>Cleaning up\<close>

text \<open>The services deleted one after another, until the API server refuses one.\<close>

fun delete_services :: "(string \<Rightarrow> string \<Rightarrow> bool) \<Rightarrow> ObjectMeta list \<Rightarrow> (string \<times> string) list \<times> cmd_error option" where
  "delete_services accepts [] = ([], None)"
| "delete_services accepts (s # services) =
     (if \<not> accepts (om_Namespace s) (om_Name s) then ([(om_Namespace s, om_Name s)], Some ECleanup)
      else let (deleted, err) = delete_services accepts services in ((om_Namespace s, om_Name s) # deleted, err))"

definition CleanShadowServices ::
  "ObjectMeta list option \<Rightarrow> (string \<Rightarrow> string \<Rightarrow> bool) \<Rightarrow> (string \<times> string) list \<times> cmd_error option" where
  "CleanShadowServices serviceList accepts =
     (case serviceList of None \<Rightarrow> ([], Some ECleanup) | Some services \<Rightarrow> delete_services accepts services)"

definition RestoreDNSConfig :: "'v libraries \<Rightarrow> kube \<Rightarrow> unit act" where
  "RestoreDNSConfig lib k =
     (case CheckDNSProvider lib k of
        (_, Some err) \<Rightarrow> from_res (Inl err)
      | (CoreDNS, None) \<Rightarrow> RestoreCoreDNS lib k
      | (KubeDNS, None) \<Rightarrow> RestoreKubeDNS lib k
      | (UnknownDNS, None) \<Rightarrow> ret ())"

text \<open>The deletions, the other writes and the error of the whole command.\<close>

record CleanupConfiguration =
  cl_ConfigFile :: string
  cl_KubeConfig :: string
  cl_MasterURL :: string
  cl_Namespace :: string
  cl_LogLevel :: string
  cl_LogFormat :: string

definition NewCleanupConfiguration :: "(string \<Rightarrow> string) \<Rightarrow> CleanupConfiguration" where
  "NewCleanupConfiguration getenv =
     \<lparr>cl_ConfigFile = [], cl_KubeConfig = getenv ''KUBECONFIG'', cl_MasterURL = [], cl_Namespace = ''maesh'',
      cl_LogLevel = ''error'', cl_LogFormat = ''common''\<rparr>"

text \<open>\<open>services ns\<close> is the answer to listing the shadow services of a namespace.\<close>

definition cleanupCommand ::
  "(string \<Rightarrow> bool) \<Rightarrow> ('r, 'k, 'a, 's, 't) client_library \<Rightarrow> (string \<Rightarrow> string) \<Rightarrow> (string \<Rightarrow> ObjectMeta list option) \<Rightarrow>
     (string \<Rightarrow> string \<Rightarrow> bool) \<Rightarrow> 'v libraries \<Rightarrow> kube \<Rightarrow> CleanupConfiguration \<Rightarrow>
     ((string \<times> string) list \<times> api_write list \<times> cmd_error option) option" where
  "cleanupCommand parseLevel clib getenv services accepts lib k cfg =
     (case NewLogger parseLevel (cl_LogFormat cfg) (cl_LogLevel cfg) False of
        Some err \<Rightarrow> Some ([], [], Some (ELogger err))
      | None \<Rightarrow>
          (case NewClient clib getenv (cl_MasterURL cfg) (cl_KubeConfig cfg) of
             Inl err \<Rightarrow> Some ([], [], Some (EClient err))
           | Inr clients \<Rightarrow>
               (case CleanShadowServices (services (cl_Namespace cfg)) accepts of
                  (deleted, Some err) \<Rightarrow> Some (deleted, [], Some err)
                | (deleted, None) \<Rightarrow>
                    map_option (\<lambda>(ws, r). (deleted, ws, case r of Inl err \<Rightarrow> Some (ERestore err) | Inr _ \<Rightarrow> None))
                      (RestoreDNSConfig lib k))))"

section \<open>Preparing\<close>

record PrepareConfiguration =
  pr_ConfigFile :: string
  pr_KubeConfig :: string
  pr_MasterURL :: string
  pr_LogLevel :: string
  pr_LogFormat :: string
  pr_Debug :: bool
  pr_Namespace :: string
  pr_ClusterDomain :: string
  pr_SMI :: bool
  pr_ACL :: bool

definition NewPrepareConfiguration :: "(string \<Rightarrow> string) \<Rightarrow> PrepareConfiguration" where
  "NewPrepareConfiguration getenv =
     \<lparr>pr_ConfigFile = [], pr_KubeConfig = getenv ''KUBECONFIG'', pr_MasterURL = [], pr_LogLevel = ''error'',
      pr_LogFormat = ''common'', pr_Debug = False, pr_Namespace = ''maesh'', pr_ClusterDomain = ''cluster.local'',
      pr_SMI = False, pr_ACL = False\<rparr>"

definition prepareCommand ::
  "(string \<Rightarrow> bool) \<Rightarrow> ('r, 'k, 'a, 's, 't) client_library \<Rightarrow> (string \<Rightarrow> string) \<Rightarrow> smi_groups \<Rightarrow> (string \<times> string) list option \<Rightarrow> 'v libraries \<Rightarrow> kube \<Rightarrow>
     PrepareConfiguration \<Rightarrow> (api_write list \<times> cmd_error option) option" where
  "prepareCommand parseLevel clib getenv smi serverGroups lib k cfg =
     (case NewLogger parseLevel (pr_LogFormat cfg) (pr_LogLevel cfg) (pr_Debug cfg) of
        Some err \<Rightarrow> Some ([], Some (ELogger err))
      | None \<Rightarrow>
          (case NewClient clib getenv (pr_MasterURL cfg) (pr_KubeConfig cfg) of
             Inl err \<Rightarrow> Some ([], Some (EClient err))
           | Inr client \<Rightarrow>
               (case CheckSMIVersion smi serverGroups (pr_ACL cfg \<or> pr_SMI cfg) of
                  Some err \<Rightarrow> Some ([], Some (EUnsupportedSMI err))
                | None \<Rightarrow>
                    (case CheckDNSProvider lib k of
                       (_, Some err) \<Rightarrow> Some ([], Some (EProvider err))
                     | (CoreDNS, None) \<Rightarrow>
                         map_option (\<lambda>(ws, r). (ws, case r of Inl err \<Rightarrow> Some (EConfigureDNS err) | Inr _ \<Rightarrow> None))
                           (ConfigureCoreDNS lib k NamespaceSystem (pr_ClusterDomain cfg) (pr_Namespace cfg))
                     | (KubeDNS, None) \<Rightarrow>
                         map_option (\<lambda>(ws, r). (ws, case r of Inl err \<Rightarrow> Some (EConfigureDNS err) | Inr _ \<Rightarrow> None))
                           (ConfigureKubeDNS lib k (pr_ClusterDomain cfg) (pr_Namespace cfg))
                     | (UnknownDNS, None) \<Rightarrow> Some ([], None)))))"

section \<open>Panics of retried operations\<close>

datatype 'e outcome = Returned "'e option" | Panicked

datatype 'e recovered = OperationError 'e | PanicInOperation "'e option"

text \<open>The named result \<open>err\<close> is still nil when the panic is recovered, so it is nil that is wrapped.\<close>

definition OperationWithRecover :: "(unit \<Rightarrow> 'e outcome) \<Rightarrow> 'e recovered option" where
  "OperationWithRecover operation =
     (case operation () of
        Returned err \<Rightarrow> map_option OperationError err
      | Panicked \<Rightarrow> Some (PanicInOperation None))"

section \<open>What the commands guarantee\<close>

lemma preferred_version_eq:
  "preferred_version g groups = (case map_of groups g of None \<Rightarrow> [] | Some v \<Rightarrow> v)"
  by (induction g groups rule: preferred_version.induct) auto

lemma CheckSMIVersion_None_iff:
  "CheckSMIVersion smi serverGroups acl = None \<longleftrightarrow> (\<exists>groups. serverGroups = Some groups \<and>
     (\<forall>(group, version)\<in>set (requiredGroups smi acl). version \<noteq> [] \<and> map_of groups group = Some version))"
proof (cases serverGroups)
  case (Some groups)
  have "(let v = preferred_version group groups in v = [] \<or> v \<noteq> version) \<longleftrightarrow>
      \<not> (version \<noteq> [] \<and> map_of groups group = Some version)" for group version
    by (auto simp: Let_def preferred_version_eq split: option.split)
  with Some show ?thesis
    by (simp add: CheckSMIVersion_def filter_empty_conv case_prod_unfold)
qed (simp add: CheckSMIVersion_def)

lemma NewLogger_None_iff:
  "NewLogger parseLevel format level debug = None \<longleftrightarrow>
     parseLevel (if debug then ''debug'' else level) \<and> format \<in> {''json'', ''common''}"
  by (auto simp: NewLogger_def parseLogFormat_def Let_def)

text \<open>Cleaning up deletes the listed services in order, all of them exactly when there is no error, and
  otherwise up to the first that is refused.\<close>

lemma delete_services_spec:
  "delete_services accepts ss = (deleted, err) \<Longrightarrow>
     (err = None \<longleftrightarrow> (\<forall>s\<in>set ss. accepts (om_Namespace s) (om_Name s)))
   \<and> deleted = map (\<lambda>s. (om_Namespace s, om_Name s))
       (take (if err = None then length ss else Suc (length (takeWhile (\<lambda>s. accepts (om_Namespace s) (om_Name s)) ss))) ss)"
  by (induction ss arbitrary: deleted err) (auto split: prod.splits if_splits)

text \<open>C33: Preparing a cluster touches nothing before all its checks have passed: a write means that the logger
  and the clients could be built, that the split and specs groups, and under access control the access group, are
  preferred in exactly the versions the program was built with, and that a DNS provider was found. With
  CoreDNS, success means that the patched configuration was accepted or needed no change.\<close>

theorem prepare_checks_first:
  assumes "prepareCommand parseLevel clib getenv smi serverGroups lib k cfg = Some (ws, err)" "ws \<noteq> [] \<or> err = None"
  shows "(\<exists>w. NewClient clib getenv (pr_MasterURL cfg) (pr_KubeConfig cfg) = Inr w) \<and> pr_LogFormat cfg \<in> {''json'', ''common''}
     \<and> (\<exists>groups. serverGroups = Some groups
          \<and> (\<forall>(group, version)\<in>set ([splitGroup smi, specsGroup smi] @
                (if pr_ACL cfg \<or> pr_SMI cfg then [accessGroup smi] else [])). map_of groups group = Some version))
     \<and> (\<exists>provider. CheckDNSProvider lib k = (provider, None)
          \<and> (provider = CoreDNS \<longrightarrow> (\<exists>r. ConfigureCoreDNS lib k NamespaceSystem (pr_ClusterDomain cfg) (pr_Namespace cfg) = Some (ws, r)
               \<and> (err = None \<longleftrightarrow> r = Inr ()))))"
proof -
  have log: "NewLogger parseLevel (pr_LogFormat cfg) (pr_LogLevel cfg) (pr_Debug cfg) = None"
    and client: "\<exists>w. NewClient clib getenv (pr_MasterURL cfg) (pr_KubeConfig cfg) = Inr w" and smi: "CheckSMIVersion smi serverGroups (pr_ACL cfg \<or> pr_SMI cfg) = None"
    using assms by (auto simp: prepareCommand_def split: option.splits sum.splits)
  obtain provider e where dns: "CheckDNSProvider lib k = (provider, e)" by fastforce
  with assms log client smi have e: "e = None"
    by (cases provider) (auto simp: prepareCommand_def split: option.splits)
  have "\<exists>r. ConfigureCoreDNS lib k NamespaceSystem (pr_ClusterDomain cfg) (pr_Namespace cfg) = Some (ws, r)
               \<and> (err = None \<longleftrightarrow> r = Inr ())" if "provider = CoreDNS"
  proof -
    from assms(1) log client smi dns e that obtain r where
      "ConfigureCoreDNS lib k NamespaceSystem (pr_ClusterDomain cfg) (pr_Namespace cfg) = Some (ws, r)"
      "err = (case r of Inl err \<Rightarrow> Some (EConfigureDNS err) | Inr _ \<Rightarrow> None)"
      by (auto simp: prepareCommand_def)
    then show ?thesis by (cases r) auto
  qed
  with log client smi dns e show ?thesis
    unfolding CheckSMIVersion_None_iff NewLogger_None_iff requiredGroups_def by fastforce
qed

lemma prepare_checks_first_witness:
  "\<exists>ws err. prepareCommand (\<lambda>l. True) ex_library ex_getenv
      \<lparr>splitGroup = (''split'', ''v1alpha3''), specsGroup = (''specs'', ''v1alpha3''), accessGroup = (''access'', ''v1alpha2'')\<rparr>
      (Some [(''split'', ''v1alpha3''), (''specs'', ''v1alpha3'')]) ex_lib (ex_kube None ex_config)
      (NewPrepareConfiguration ex_getenv) = Some (ws, err)
    \<and> CheckDNSProvider ex_lib (ex_kube None ex_config) = (CoreDNS, None) \<and> length ws = 2"
proof -
  let ?cfg = "NewPrepareConfiguration ex_getenv"
  let ?smi = "\<lparr>splitGroup = (''split'', ''v1alpha3''), specsGroup = (''specs'', ''v1alpha3''), accessGroup = (''access'', ''v1alpha2'')\<rparr>"
  let ?run = "prepareCommand (\<lambda>l. True) ex_library ex_getenv ?smi (Some [(''split'', ''v1alpha3''), (''specs'', ''v1alpha3'')])
      ex_lib (ex_kube None ex_config) ?cfg"
  have dns: "CheckDNSProvider ex_lib (ex_kube None ex_config) = (CoreDNS, None)"
    by (simp add: CheckDNSProvider_def coreDNSMatch_def ex_kube_def getCoreDNSVersion_def ex_deployment_def ex_lib_def)
  obtain ws where conf: "ConfigureCoreDNS ex_lib (ex_kube None ex_config) NamespaceSystem ''cluster.local'' ''maesh'' = Some (ws, Inr ())"
    "length ws = 2"
    unfolding ConfigureCoreDNS_eq [OF ex_coredns] addStubDomain_fresh [OF ex_config_clean]
    by (simp add: write_both ex_kube_def)
  obtain w where w: "NewClient ex_library ex_getenv [] (ex_getenv ''KUBECONFIG'') = Inr w" using ex_client ..
  have run: "?run = Some (ws, None)"
    using dns conf w by (simp add: prepareCommand_def NewPrepareConfiguration_def NewLogger_def parseLogFormat_def CheckSMIVersion_def requiredGroups_def Let_def)
  from prepare_checks_first [OF run] dns conf run show ?thesis by auto
qed

end
