(* ===== verification/Watching.thy ===== *)
theory Watching
  imports Controller
begin

text \<open>
  Which objects the controller hears of and which ones matter: the handler registration and the listers of
  \<open>NewMeshController\<close> (\<open>pkg/controller/controller.go\<close>), the reaction to a notification of an informer, and
  the proof that an object the resource filter ignores has no influence on the topology.
\<close>

section \<open>Objects of the informer caches\<close>

datatype Resource =
    RService KService
  | RPod KPod
  | REndpoints Endpoints
  | RTrafficSplit KTrafficSplit
  | RHTTPRouteGroup HTTPRouteGroup
  | RTCPRoute TCPRoute
  | RTrafficTarget KTrafficTarget

fun object_of :: "Resource \<Rightarrow> Object" where
  "object_of (RService x) = ServiceObj x"
| "object_of (RPod x) = MetaObj (kp_meta x)"
| "object_of (REndpoints x) = MetaObj (ke_meta x)"
| "object_of (RTrafficSplit x) = MetaObj (kts_meta x)"
| "object_of (RHTTPRouteGroup x) = MetaObj (hrg_meta x)"
| "object_of (RTCPRoute x) = MetaObj (tcr_meta x)"
| "object_of (RTrafficTarget x) = MetaObj (ktt_meta x)"

fun meta_of :: "Resource \<Rightarrow> ObjectMeta" where
  "meta_of (RService x) = ks_meta x"
| "meta_of (RPod x) = kp_meta x"
| "meta_of (REndpoints x) = ke_meta x"
| "meta_of (RTrafficSplit x) = kts_meta x"
| "meta_of (RHTTPRouteGroup x) = hrg_meta x"
| "meta_of (RTCPRoute x) = tcr_meta x"
| "meta_of (RTrafficTarget x) = ktt_meta x"

lemma Accessor_object_of [simp]: "Accessor (object_of r) = Some (meta_of r)"
  by (cases r) simp_all

text \<open>The informers that the event handler is added to.\<close>

fun registered :: "ControllerConfig \<Rightarrow> Resource \<Rightarrow> bool" where
  "registered cfg (RService x) = True"
| "registered cfg (REndpoints x) = True"
| "registered cfg (RTrafficSplit x) = True"
| "registered cfg (RHTTPRouteGroup x) = True"
| "registered cfg (RTCPRoute x) = True"
| "registered cfg (RTrafficTarget x) = ACLEnabled cfg"
| "registered cfg (RPod x) = ACLEnabled cfg"

text \<open>The listers the topology builder is given: the one for traffic targets stays nil without access
  control. A lister of a synced cache returns its objects, each once, in some order.\<close>

definition lists_all :: "'a list \<Rightarrow> 'a set \<Rightarrow> bool" where
  "lists_all xs A \<longleftrightarrow> distinct xs \<and> set xs = A"

definition listers :: "ControllerConfig \<Rightarrow> Resource set \<Rightarrow> cluster \<Rightarrow> bool" where
  "listers cfg C b \<longleftrightarrow>
     (\<exists>xs. l_Services b = Some xs \<and> lists_all xs (RService -` C))
   \<and> (\<exists>xs. l_Pods b = Some xs \<and> lists_all xs (RPod -` C))
   \<and> (\<exists>xs. l_Endpoints b = Some xs \<and> lists_all xs (REndpoints -` C))
   \<and> (\<exists>xs. l_TrafficSplits b = Some xs \<and> lists_all xs (RTrafficSplit -` C))
   \<and> (\<exists>xs. l_HTTPRouteGroups b = Some (Some xs) \<and> lists_all xs (RHTTPRouteGroup -` C))
   \<and> (\<exists>xs. l_TCPRoutes b = Some (Some xs) \<and> lists_all xs (RTCPRoute -` C))
   \<and> (if ACLEnabled cfg then \<exists>xs. l_TrafficTargets b = Some (Some xs) \<and> lists_all xs (RTrafficTarget -` C)
      else l_TrafficTargets b = None)"

section \<open>Notifications\<close>

text \<open>What an informer tells its handlers: objects as they were and as they are.\<close>

datatype notification = Added Resource | Updated Resource Resource | Deleted Resource

fun subject :: "notification \<Rightarrow> Resource" where
  "subject (Added r) = r"
| "subject (Updated r r') = r'"
| "subject (Deleted r) = r"

text \<open>\<open>cache.FilteringResourceEventHandler\<close> belongs to client-go. Its documentation: the filter applies to all
  events; an object that starts to pass it is considered an add, one that stops to pass it a delete.\<close>

type_synonym filtering = "(Object \<Rightarrow> bool) \<Rightarrow> notification \<Rightarrow> notification option"

definition filters_as_documented :: "filtering \<Rightarrow> bool" where
  "filters_as_documented deliver \<longleftrightarrow>
     (\<forall>p r. deliver p (Added r) = (if p (object_of r) then Some (Added r) else None))
   \<and> (\<forall>p r. deliver p (Deleted r) = (if p (object_of r) then Some (Deleted r) else None))
   \<and> (\<forall>p r r'. deliver p (Updated r r') =
        (if p (object_of r') then (if p (object_of r) then Some (Updated r r') else Some (Added r'))
         else if p (object_of r) then Some (Deleted r) else None))"

fun handle :: "(ObjectMeta \<Rightarrow> string option) \<Rightarrow> notification \<Rightarrow> queue_call list" where
  "handle keyFunc (Added r) = OnAdd keyFunc (object_of r)"
| "handle keyFunc (Updated r r') = OnUpdate keyFunc (object_of r) (object_of r')"
| "handle keyFunc (Deleted r) = OnDelete keyFunc (object_of r)"

definition react :: "filtering \<Rightarrow> (ObjectMeta \<Rightarrow> string option) \<Rightarrow> Controller \<Rightarrow> notification \<Rightarrow> queue_call list" where
  "react deliver keyFunc c n =
     (if \<not> registered (ct_cfg c) (subject n) then []
      else case deliver (isWatchedResource c) n of None \<Rightarrow> [] | Some n' \<Rightarrow> handle keyFunc n')"

definition seen :: "ResourceFilter \<Rightarrow> Resource set \<Rightarrow> Resource set" where
  "seen flt C = {r \<in> C. \<not> IsIgnored flt (object_of r)}"

lemma seen_insert: "seen flt (insert r C) = (if IsIgnored flt (object_of r) then seen flt C else insert r (seen flt C))"
  by (auto simp: seen_def)

lemma seen_remove: "seen flt (C - {r}) = seen flt C - {r}"
  by (auto simp: seen_def)

lemma finite_seen: "finite C \<Longrightarrow> finite (seen flt C)"
  by (simp add: seen_def)

text \<open>Caches are keyed by kind, namespace and name.\<close>

fun kind_of :: "Resource \<Rightarrow> string" where
  "kind_of (RService x) = ''Service''"
| "kind_of (RPod x) = ''Pod''"
| "kind_of (REndpoints x) = ''Endpoints''"
| "kind_of (RTrafficSplit x) = ''TrafficSplit''"
| "kind_of (RHTTPRouteGroup x) = ''HTTPRouteGroup''"
| "kind_of (RTCPRoute x) = ''TCPRoute''"
| "kind_of (RTrafficTarget x) = ''TrafficTarget''"

definition identity :: "Resource \<Rightarrow> string \<times> Key" where
  "identity r = (kind_of r, meta_key (meta_of r))"

section \<open>Ignored objects do not matter\<close>

text \<open>The part of a cluster that the resource filter lets through.\<close>

definition seen_cluster :: "ResourceFilter \<Rightarrow> cluster \<Rightarrow> cluster" where
  "seen_cluster flt b = \<lparr>
     l_Services = map_option (filter (\<lambda>x. \<not> IsIgnored flt (ServiceObj x))) (l_Services b),
     l_Pods = map_option (filter (\<lambda>x. \<not> IsIgnored flt (MetaObj (kp_meta x)))) (l_Pods b),
     l_Endpoints = map_option (filter (\<lambda>x. \<not> IsIgnored flt (MetaObj (ke_meta x)))) (l_Endpoints b),
     l_TrafficSplits = map_option (filter (\<lambda>x. \<not> IsIgnored flt (MetaObj (kts_meta x)))) (l_TrafficSplits b),
     l_HTTPRouteGroups = map_option (map_option (filter (\<lambda>x. \<not> IsIgnored flt (MetaObj (hrg_meta x))))) (l_HTTPRouteGroups b),
     l_TCPRoutes = map_option (map_option (filter (\<lambda>x. \<not> IsIgnored flt (MetaObj (tcr_meta x))))) (l_TCPRoutes b),
     l_TrafficTargets = map_option (map_option (filter (\<lambda>x. \<not> IsIgnored flt (MetaObj (ktt_meta x))))) (l_TrafficTargets b)\<rparr>"

lemma fold_ignoring:
  assumes "\<And>x s. ignored x \<Longrightarrow> f x s = s"
  shows "fold f (filter (\<lambda>x. \<not> ignored x) xs) s = fold f xs s"
  by (induction xs arbitrary: s) (simp_all add: assms)

lemma load_services_seen:
  "load_services flt (filter (\<lambda>x. \<not> IsIgnored flt (ServiceObj x)) svcs) r = load_services flt svcs r"
  by (induction svcs arbitrary: r) simp_all

lemma indexPods_seen:
  "indexPods flt (filter (\<lambda>x. \<not> IsIgnored flt (MetaObj (kp_meta x))) pods)
     (filter (\<lambda>x. \<not> IsIgnored flt (MetaObj (ke_meta x))) eps) r = indexPods flt pods eps r"
proof -
  have "indexPodsByServiceAccount flt (filter (\<lambda>x. \<not> IsIgnored flt (MetaObj (kp_meta x))) pods) r m =
      indexPodsByServiceAccount flt pods r m" for r m
    by (induction pods arbitrary: r m) simp_all
  moreover have "indexPodsByService flt (filter (\<lambda>x. \<not> IsIgnored flt (MetaObj (ke_meta x))) eps) m r =
      indexPodsByService flt eps m r" for r m
    by (induction eps arbitrary: r) simp_all
  ultimately show ?thesis by (simp add: indexPods_def)
qed

lemma indexSMIResources_seen:
  "indexSMIResources flt (filter (\<lambda>x. \<not> IsIgnored flt (MetaObj (ktt_meta x))) tts)
     (filter (\<lambda>x. \<not> IsIgnored flt (MetaObj (kts_meta x))) tss)
     (filter (\<lambda>x. \<not> IsIgnored flt (MetaObj (tcr_meta x))) tcps)
     (filter (\<lambda>x. \<not> IsIgnored flt (MetaObj (hrg_meta x))) hrgs) r = indexSMIResources flt tts tss tcps hrgs r"
  unfolding indexSMIResources_def by (simp add: fold_ignoring smi_index_defs)

lemma seen_cluster_fields:
  "l_Pods (seen_cluster flt b) = map_option (filter (\<lambda>x. \<not> IsIgnored flt (MetaObj (kp_meta x)))) (l_Pods b)"
  "l_Endpoints (seen_cluster flt b) = map_option (filter (\<lambda>x. \<not> IsIgnored flt (MetaObj (ke_meta x)))) (l_Endpoints b)"
  "l_TrafficSplits (seen_cluster flt b) = map_option (filter (\<lambda>x. \<not> IsIgnored flt (MetaObj (kts_meta x)))) (l_TrafficSplits b)"
  "l_HTTPRouteGroups (seen_cluster flt b) = map_option (map_option (filter (\<lambda>x. \<not> IsIgnored flt (MetaObj (hrg_meta x))))) (l_HTTPRouteGroups b)"
  "l_TCPRoutes (seen_cluster flt b) = map_option (map_option (filter (\<lambda>x. \<not> IsIgnored flt (MetaObj (tcr_meta x))))) (l_TCPRoutes b)"
  "l_TrafficTargets (seen_cluster flt b) = map_option (map_option (filter (\<lambda>x. \<not> IsIgnored flt (MetaObj (ktt_meta x))))) (l_TrafficTargets b)"
  by (simp_all add: seen_cluster_def)

lemma loadResources_seen: "loadResources (seen_cluster flt b) flt = loadResources b flt"
proof -
  have services: "loadServices (seen_cluster flt b) flt r = loadServices b flt r" for r
    by (cases "l_Services b") (simp_all add: loadServices_def seen_cluster_def load_services_seen)
  have required: "list_required w (map_option f x) = bind_res (list_required w x) (\<lambda>xs. Inr (f xs))"
    for w and f :: "'a list \<Rightarrow> 'a list" and x by (cases x) (simp_all add: list_required_def)
  have optional: "list_optional w (map_option (map_option (filter p)) x) = bind_res (list_optional w x) (\<lambda>xs. Inr (filter p xs))"
    for w and p :: "'a \<Rightarrow> bool" and x by (cases x) (simp_all add: list_optional_def split: option.split)
  have assoc: "bind_res (bind_res m f) g = bind_res m (\<lambda>x. bind_res (f x) g)"
    for m :: "'e + 'a" and f :: "'a \<Rightarrow> 'e + 'b" and g :: "'b \<Rightarrow> 'e + 'c" by (cases m) simp_all
  show ?thesis
    by (simp add: loadResources_def services required optional assoc seen_cluster_fields
        indexPods_seen indexSMIResources_seen)
qed

text \<open>C16: An ignored object has no influence on the topology: building from a cluster and building from the part of
  it that the filter lets through give the same result, errors included.\<close>

theorem Build_ignores_ignored:
  "Build_topology fuel sch b flt = Build_topology fuel sch (seen_cluster flt b) flt"
  by (simp add: Build_topology_def loadResources_seen)

corollary Build_cong_seen:
  "seen_cluster flt b = seen_cluster flt b' \<Longrightarrow> Build_topology fuel sch b flt = Build_topology fuel sch b' flt"
  by (subst (1 2) Build_ignores_ignored) simp

lemma listers_seen:
  assumes "listers cfg C b"
  shows "listers cfg (seen flt C) (seen_cluster flt b)"
proof -
  have *: "lists_all (filter (\<lambda>x. \<not> IsIgnored flt (object_of (R x))) xs) (R -` seen flt C)"
    if "lists_all xs (R -` C)" for R :: "'a \<Rightarrow> Resource" and xs
    using that by (auto simp: lists_all_def seen_def)
  show ?thesis
    using assms *[of _ RService] *[of _ RPod] *[of _ REndpoints] *[of _ RTrafficSplit] *[of _ RHTTPRouteGroup]
      *[of _ RTCPRoute] *[of _ RTrafficTarget]
    by (auto simp: listers_def seen_cluster_def split: if_splits)
qed

lemma listers_exist:
  assumes "finite C"
  shows "\<exists>b. listers cfg C b"
proof -
  have *: "\<exists>xs. lists_all xs (R -` C)" if "inj R" for R :: "'a \<Rightarrow> Resource"
    using finite_distinct_list [OF finite_vimageI [OF assms that]] by (auto simp: lists_all_def)
  have "inj RService" "inj RPod" "inj REndpoints" "inj RTrafficSplit" "inj RHTTPRouteGroup" "inj RTCPRoute" "inj RTrafficTarget"
    by (auto simp: inj_def)
  note *[OF this(1)] *[OF this(2)] *[OF this(3)] *[OF this(4)] *[OF this(5)] *[OF this(6)] *[OF this(7)]
  then obtain a1 a2 a3 a4 a5 a6 a7 where ls: "lists_all a1 (RService -` C)" "lists_all a2 (RPod -` C)"
    "lists_all a3 (REndpoints -` C)" "lists_all a4 (RTrafficSplit -` C)" "lists_all a5 (RHTTPRouteGroup -` C)"
    "lists_all a6 (RTCPRoute -` C)" "lists_all a7 (RTrafficTarget -` C)" by blast
  let ?b = "\<lparr>l_Services = Some a1, l_Pods = Some a2, l_Endpoints = Some a3, l_TrafficSplits = Some a4,
     l_HTTPRouteGroups = Some (Some a5), l_TCPRoutes = Some (Some a6),
     l_TrafficTargets = (if ACLEnabled cfg then Some (Some a7) else None)\<rparr>"
  have "listers cfg C ?b" using ls by (simp add: listers_def)
  then show ?thesis ..
qed

lemma listers_load:
  assumes "listers cfg C b"
  shows "\<exists>r. loadResources b flt = Inr r"
  using assms
  by (auto simp: listers_def loadResources_def loadServices_def list_required_def list_optional_def split: if_splits)

section \<open>What a pod without a handler means to the topology\<close>

text \<open>Without access control nobody is told of pods. Then the builder reads a pod only behind a watched Endpoints
  object, and of it only what \<open>getOrCreatePod\<close> copies.\<close>

definition backing_keys :: "ResourceFilter \<Rightarrow> Resource set \<Rightarrow> Key set" where
  "backing_keys flt C = (\<Union>ep\<in>REndpoints -` seen flt C. addr_keys (ep_addresses ep))"

definition pod_views :: "ResourceFilter \<Rightarrow> Resource set \<Rightarrow> Key \<Rightarrow> Pod set" where
  "pod_views flt C k = new_pod ` {p. RPod p \<in> seen flt C \<and> pod_key p = k}"

definition alike :: "ControllerConfig \<Rightarrow> ResourceFilter \<Rightarrow> Resource set \<Rightarrow> Resource set \<Rightarrow> bool" where
  "alike cfg flt C C' \<longleftrightarrow> {r \<in> seen flt C. registered cfg r} = {r \<in> seen flt C'. registered cfg r}
     \<and> (\<not> ACLEnabled cfg \<longrightarrow> (\<forall>k\<in>backing_keys flt C. pod_views flt C k = pod_views flt C' k))"

lemma alike_refl [simp]: "alike cfg flt C C"
  by (simp add: alike_def)

lemma alike_acl: "ACLEnabled cfg \<Longrightarrow> alike cfg flt C C' \<longleftrightarrow> seen flt C = seen flt C'"
proof -
  assume acl: "ACLEnabled cfg"
  then have "registered cfg r" for r by (cases r) simp_all
  with acl show ?thesis by (simp add: alike_def)
qed

lemma alike_backing: "alike cfg flt C C' \<Longrightarrow> backing_keys flt C' = backing_keys flt C"
proof -
  assume "alike cfg flt C C'"
  then have "REndpoints ep \<in> seen flt C \<longleftrightarrow> REndpoints ep \<in> seen flt C'" for ep
    unfolding alike_def using registered.simps(2) by blast
  then show ?thesis by (auto simp: backing_keys_def)
qed

text \<open>Adding pods that look the same gives the same topology.\<close>

lemma new_pod_key: "new_pod p = new_pod p' \<Longrightarrow> pod_key p = pod_key p'"
  by (simp add: new_pod_def pod_key_def meta_key_def)

lemma add_pods_cong: "map new_pod ps = map new_pod ps' \<Longrightarrow> add_pods t ps = add_pods t ps'"
proof (induction ps arbitrary: ps' t)
  case (Cons p ps)
  then obtain p' qs where ps': "ps' = p' # qs" "new_pod p = new_pod p'" "map new_pod ps = map new_pod qs" by (cases ps') auto
  then have "getOrCreatePod t p = getOrCreatePod t p'"
    using new_pod_key [OF ps'(2)] by (simp add: getOrCreatePod_def Let_def split: option.split)
  with ps'(1) Cons.IH [OF ps'(3)] show ?case by simp
qed simp

text \<open>Two pod indexes that look the same.\<close>

definition same_pods :: "resources \<Rightarrow> resources \<Rightarrow> bool" where
  "same_pods r r' \<longleftrightarrow> (\<forall>k. map new_pod (at (PodsBySvc r) k) = map new_pod (at (PodsBySvc r') k))"

lemma same_pods_index:
  assumes "same_pods r r'" and "\<And>k. k \<in> addr_keys as \<Longrightarrow> map_option new_pod (pbn k) = map_option new_pod (pbn' k)"
  shows "same_pods (fst (fold (\<lambda>a. indexPodByService ep a pbn) as (r, I)))
     (fst (fold (\<lambda>a. indexPodByService ep a pbn') as (r', I)))"
  using assms
proof (induction as arbitrary: r r' I)
  case (Cons a as)
  have later: "k \<in> addr_keys as \<Longrightarrow> map_option new_pod (pbn k) = map_option new_pod (pbn' k)" for k
    using Cons.prems(2) [of k] by simp
  have "same_pods (fst (indexPodByService ep a pbn (r, I))) (fst (indexPodByService ep a pbn' (r', I)))
      \<and> snd (indexPodByService ep a pbn (r, I)) = snd (indexPodByService ep a pbn' (r', I))"
  proof (cases "ea_TargetRef a")
    case None
    with Cons.prems(1) show ?thesis by (simp add: indexPodByService_def)
  next
    case (Some ref)
    let ?k = "Key (ref_Name ref) (ref_Namespace ref)"
    have "map_option new_pod (pbn ?k) = map_option new_pod (pbn' ?k)" using Cons.prems(2) [of ?k] Some by simp
    with Some Cons.prems(1) show ?thesis
      by (cases "pbn ?k"; cases "pbn' ?k") (auto simp: indexPodByService_def Let_def same_pods_def)
  qed
  with Cons.IH [OF _ later] show ?case by (metis fold_simps(2) prod.collapse)
qed simp

lemma same_pods_indexPodsByService:
  assumes "same_pods r r'"
    and "\<And>ep k. ep \<in> set (seen_endpoints flt eps) \<Longrightarrow> k \<in> addr_keys (ep_addresses ep) \<Longrightarrow>
          map_option new_pod (pbn k) = map_option new_pod (pbn' k)"
  shows "same_pods (indexPodsByService flt eps pbn r) (indexPodsByService flt eps pbn' r')"
  using assms
proof (induction eps arbitrary: r r')
  case (Cons ep eps)
  show ?case
  proof (cases "IsIgnored flt (MetaObj (ke_meta ep))")
    case True
    with Cons show ?thesis by simp
  next
    case False
    with Cons.prems have "same_pods (indexEndpoints ep pbn r) (indexEndpoints ep pbn' r')"
      unfolding indexEndpoints_eq by (intro same_pods_index) auto
    from Cons.IH [OF this] Cons.prems(2) False have "same_pods (indexPodsByService flt eps pbn (indexEndpoints ep pbn r))
        (indexPodsByService flt eps pbn' (indexEndpoints ep pbn' r'))" by fastforce
    with False show ?thesis by simp
  qed
qed simp

lemma service_step_same_pods:
  "same_pods r r' \<Longrightarrow> r_Services r = r_Services r' \<Longrightarrow> service_step r k t = service_step r' k t"
  using add_pods_cong [of "at (PodsBySvc r) k'" "at (PodsBySvc r') k'" for k']
  by (auto simp: service_step_def evaluateService_def same_pods_def split: option.split)

text \<open>Without traffic targets nothing but this index says which pods there are.\<close>

lemma evaluate_all_same_pods:
  assumes "same_pods r r'" "r_Services r = r_Services r'" "r_TrafficSplits r = r_TrafficSplits r'"
    "r_HTTPRouteGroups r = r_HTTPRouteGroups r'" "r_TCPRoutes r = r_TCPRoutes r'" "r_TrafficTargets r = Map.empty"
    "r_TrafficTargets r' = Map.empty"
  shows "evaluate_all r sch = evaluate_all r' sch"
proof -
  have "service_step r = service_step r'" using service_step_same_pods [OF assms(1,2)] by (intro ext)
  moreover have "split_step r = split_step r'"
  proof -
    have "buildTrafficSplitSpecs r = buildTrafficSplitSpecs r'" by (intro ext) (simp only: buildTrafficSplitSpecs_def assms(4,5))
    then have "evaluateTrafficSplit r = evaluateTrafficSplit r'" by (intro ext) (simp only: evaluateTrafficSplit_def)
    then show ?thesis by (intro ext) (simp only: split_step_def assms(3))
  qed
  moreover have "traffic_target_step r sch = traffic_target_step r' sch"
    by (intro ext) (simp add: traffic_target_step_def assms(6,7))
  ultimately show ?thesis by (simp add: evaluate_all_def)
qed

text \<open>What loading makes of a listing without traffic targets, in terms of the objects that are seen.\<close>

lemma podsByName_listed:
  assumes "indexPodsByServiceAccount flt pods r Map.empty = (r', pbn)" "lists_all pods (RPod -` C)" "inj_on identity C"
  shows "set_option (pbn k) = {p. RPod p \<in> seen flt C \<and> pod_key p = k}"
proof -
  have pods: "set (seen_pods flt pods) = {p. RPod p \<in> seen flt C}"
    using assms(2) by (auto simp: lists_all_def seen_pods_def seen_def)
  note km = podsByName_keys_match [OF assms(1)]
  have unique: "p = p'" if "RPod p \<in> seen flt C" "RPod p' \<in> seen flt C" "pod_key p = pod_key p'" for p p'
  proof -
    have "identity (RPod p) = identity (RPod p')" using that(3) by (simp add: identity_def pod_key_def)
    with assms(3) that(1,2) show ?thesis by (auto simp: inj_on_def seen_def)
  qed
  show ?thesis
  proof (cases "pbn k")
    case None
    then have "k \<notin> pod_key ` {p. RPod p \<in> seen flt C}" using km pods by (metis domIff)
    with None show ?thesis by auto
  next
    case (Some p)
    then have "p \<in> ran pbn" "pod_key p = k" using km by (simp_all add: keys_match_def ranI)
    moreover from this have "RPod p \<in> seen flt C" using km pods by blast
    ultimately show ?thesis using Some unique by auto
  qed
qed

lemma alike_load:
  assumes "listers cfg C b" "alike cfg flt C C'" "\<not> ACLEnabled cfg" "inj_on identity C" "inj_on identity C'"
    and "b' = b\<lparr>l_Pods := Some pods'\<rparr>" "lists_all pods' (RPod -` C')"
    and "seen flt C = C" "seen flt C' = C'" "loadResources b flt = Inr r"
  shows "\<exists>r'. loadResources b' flt = Inr r' \<and> (\<forall>sch. valid_schedule r sch = valid_schedule r' sch)
     \<and> (\<forall>sch. evaluate_all r sch = evaluate_all r' sch)"
proof -
  from assms(1,3) obtain svcs pods eps tss hrgs tcps where b: "l_Services b = Some svcs" "l_Pods b = Some pods"
    "l_Endpoints b = Some eps" "l_TrafficSplits b = Some tss" "l_HTTPRouteGroups b = Some (Some hrgs)"
    "l_TCPRoutes b = Some (Some tcps)" "l_TrafficTargets b = None"
    and pods: "lists_all pods (RPod -` C)" and eps: "lists_all eps (REndpoints -` C)"
    by (auto simp: listers_def)
  let ?base = "indexSMIResources flt [] tss tcps hrgs (load_services flt svcs empty_resources)"
  obtain r1 pbn where i1: "indexPodsByServiceAccount flt pods ?base Map.empty = (r1, pbn)" by fastforce
  obtain r2 pbn' where i2: "indexPodsByServiceAccount flt pods' ?base Map.empty = (r2, pbn')" by fastforce
  let ?r = "indexPodsByService flt eps pbn r1" and ?r' = "indexPodsByService flt eps pbn' r2"
  have load: "loadResources b flt = Inr ?r" "loadResources b' flt = Inr ?r'"
    using b assms(6) i1 i2 by (simp_all add: loadResources_def loadServices_def list_required_def list_optional_def indexPods_def)
  have views: "map_option new_pod (pbn k) = map_option new_pod (pbn' k)"
    if "ep \<in> set (seen_endpoints flt eps)" "k \<in> addr_keys (ep_addresses ep)" for ep k
  proof -
    have "k \<in> backing_keys flt C"
      using that eps by (auto simp: backing_keys_def lists_all_def seen_endpoints_def seen_def)
    with assms(2,3) have "pod_views flt C k = pod_views flt C' k" by (simp add: alike_def)
    then have "new_pod ` set_option (pbn k) = new_pod ` set_option (pbn' k)"
      using podsByName_listed [OF i1 pods assms(4)] podsByName_listed [OF i2 assms(7,5)] by (simp add: pod_views_def)
    then show ?thesis by (cases "pbn k"; cases "pbn' k") auto
  qed
  have "same_pods r1 r2"
    using indexPodsByServiceAccount_eq [OF i1] indexPodsByServiceAccount_eq [OF i2] by (simp add: same_pods_def)
  with views have "same_pods ?r ?r'" by (intro same_pods_indexPodsByService)
  moreover have same: "r_Services ?r = r_Services ?r'" "r_TrafficSplits ?r = r_TrafficSplits ?r'"
    "r_HTTPRouteGroups ?r = r_HTTPRouteGroups ?r'" "r_TCPRoutes ?r = r_TCPRoutes ?r'"
    using indexPodsByServiceAccount_frame [OF i1] indexPodsByServiceAccount_frame [OF i2] by (simp_all add: frame_simps)
  moreover have none: "r_TrafficTargets ?r = Map.empty" "r_TrafficTargets ?r' = Map.empty"
  proof -
    have "r_TrafficTargets ?base = Map.empty"
      by (simp add: indexSMIResources_def fold_frame smi_index_defs frame_simps empty_resources_def)
    moreover have "r_TrafficTargets ?r = r_TrafficTargets ?base" "r_TrafficTargets ?r' = r_TrafficTargets ?base"
      using indexPodsByServiceAccount_frame [OF i1] indexPodsByServiceAccount_frame [OF i2]
      by (simp_all only: frame_simps)
    ultimately show "r_TrafficTargets ?r = Map.empty" "r_TrafficTargets ?r' = Map.empty" by simp_all
  qed
  ultimately have "evaluate_all ?r sch = evaluate_all ?r' sch" for sch by (intro evaluate_all_same_pods)
  moreover have "valid_schedule ?r sch = valid_schedule ?r' sch" for sch
    using same none by (simp add: valid_schedule_def)
  moreover have "r = ?r" using load(1) assms(10) by simp
  ultimately show ?thesis using load(2) by blast
qed

text \<open>Caches that are alike can be listed so that the builder cannot tell them apart.\<close>

lemma alike_build:
  assumes "listers cfg (seen flt C) b" "alike cfg flt C C'" "inj_on identity C" "inj_on identity C'" "finite C'"
  shows "\<exists>b'. listers cfg (seen flt C') b' \<and> (\<forall>fuel sch. Build_topology fuel sch b' flt = Build_topology fuel sch b flt)
     \<and> (\<forall>sch. (\<forall>r. loadResources b' flt = Inr r \<longrightarrow> valid_schedule r sch) = (\<forall>r. loadResources b flt = Inr r \<longrightarrow> valid_schedule r sch))"
proof (cases "ACLEnabled cfg")
  case True
  with assms(1,2) show ?thesis by (auto simp: alike_acl)
next
  case False
  let ?D = "seen flt C" and ?D' = "seen flt C'"
  have seen_seen: "seen flt ?D = ?D" "seen flt ?D' = ?D'" by (auto simp: seen_def)
  have D: "alike cfg flt ?D ?D'" "inj_on identity ?D" "inj_on identity ?D'"
    using assms(2-4) by (auto simp: alike_def backing_keys_def pod_views_def seen_seen inj_on_def) (auto simp: seen_def)
  have "finite (RPod -` ?D')" using finite_vimageI [OF finite_seen [OF assms(5)], of RPod flt] by (simp add: inj_def)
  then obtain pods where pods: "lists_all pods (RPod -` ?D')" using finite_distinct_list [of "RPod -` ?D'"] by (auto simp: lists_all_def)
  let ?b = "b\<lparr>l_Pods := Some pods\<rparr>"
  have same: "R -` ?D = R -` ?D'" if "\<And>x. registered cfg (R x)" for R :: "'a \<Rightarrow> Resource"
    using assms(2) that unfolding alike_def by blast
  have "RService -` ?D = RService -` ?D'" "REndpoints -` ?D = REndpoints -` ?D'" "RTrafficSplit -` ?D = RTrafficSplit -` ?D'"
    "RHTTPRouteGroup -` ?D = RHTTPRouteGroup -` ?D'" "RTCPRoute -` ?D = RTCPRoute -` ?D'"
    by (rule same; simp)+
  with assms(1) False pods have listed: "listers cfg ?D' ?b" by (simp add: listers_def)
  obtain r where r: "loadResources b flt = Inr r" using listers_load [OF assms(1)] by blast
  from alike_load [OF assms(1) D(1) False D(2,3) refl pods seen_seen r] obtain r' where
    "loadResources ?b flt = Inr r'" "\<And>sch. valid_schedule r sch = valid_schedule r' sch"
    "\<And>sch. evaluate_all r sch = evaluate_all r' sch" by blast
  with r listed show ?thesis by (intro exI [of _ ?b]) (simp add: Build_topology_def)
qed

end
