(* ===== verification/Freshness.thy ===== *)
theory Freshness
  imports Watching ControllerInvariant
begin

text \<open>
  The controller among the informers it listens to: cluster objects change in the caches, notifications reach
  the handlers later, keys wait in the work queue, and the worker reads the caches while they may change. What
  is shown: nothing relevant is lost, so when nothing is left to do the API serves what the code builds from
  the objects as they are; and without further changes the system comes to rest.
\<close>

section \<open>What the worker publishes\<close>

text \<open>The last \<open>range\<close> of an item of work is over the services of the topology just built.\<close>

definition order_ok :: "ResourceFilter \<Rightarrow> env \<Rightarrow> bool" where
  "order_ok flt e \<longleftrightarrow> (\<forall>topo. Build_topology (env_fuel e) (env_schedule e) (env_cluster e) flt = Some (Inr topo)
     \<longrightarrow> enumerates (env_order e) (Services topo))"

text \<open>The controller serves the configuration that the code builds, with the port tables as they are now, from
  the cluster of \<open>e\<close>, and the topology it built it from.\<close>

definition serves :: "Controller \<Rightarrow> env \<Rightarrow> bool" where
  "serves c e \<longleftrightarrow> (\<exists>topo. Build_topology (env_fuel e) (env_schedule e) (env_cluster e) (ct_resourceFilter c) = Some (Inr topo)
     \<and> BuildConfig (provider_of (env_ranges e) c) (env_order e) topo =
         Some (Safe_Get (api_topology (ct_store c)), Safe_Get (api_configuration (ct_store c))))"

definition up_to_date :: "Controller \<Rightarrow> Resource set \<Rightarrow> bool" where
  "up_to_date c C \<longleftrightarrow> (\<exists>e. env_ok (ct_resourceFilter c) e \<and> order_ok (ct_resourceFilter c) e
     \<and> listers (ct_cfg c) (seen (ct_resourceFilter c) C) (env_cluster e) \<and> serves c e)"

text \<open>An item of work succeeds when the shadow service could be synced, or need not be, and the cluster could be
  listed.\<close>

definition work_succeeds :: "env \<Rightarrow> string \<Rightarrow> Controller \<Rightarrow> bool" where
  "work_succeeds e key c \<longleftrightarrow>
     (key = configRefreshKey \<or> (case syncShadowService e key c of Some (_, _, None) \<Rightarrow> True | _ \<Rightarrow> False))
   \<and> (\<exists>res. loadResources (env_cluster e) (ct_resourceFilter c) = Inr res)"

lemma provider_of_store [simp]: "provider_of choices (c\<lparr>ct_store := a\<rparr>) = provider_of choices c"
  by (simp add: provider_of_def)

lemma buildAndStore_serves:
  assumes "buildAndStore e n key c = Some (c', calls)" "loadResources (env_cluster e) (ct_resourceFilter c) = Inr res"
  shows "calls = [QForget key] \<and> serves c' e \<and> ct_resourceFilter c' = ct_resourceFilter c \<and> ct_cfg c' = ct_cfg c"
  using assms by (auto simp: buildAndStore_def Build_topology_def serves_def store.published split: option.splits sum.splits)

lemma buildAndStore_fails:
  assumes "buildAndStore e n key c = Some (c', calls)" "loadResources (env_cluster e) (ct_resourceFilter c) = Inl er"
  shows "calls = handleErr n key"
  using assms by (simp add: buildAndStore_def Build_topology_def)

lemma sync_filter:
  assumes "syncShadowService e key c = Some (c', call, err)"
  shows "ct_resourceFilter c' = ct_resourceFilter c \<and> ct_cfg c' = ct_cfg c"
proof -
  have put: "ct_resourceFilter c' = ct_resourceFilter c \<and> ct_cfg c' = ct_cfg c" if "c\<lparr>ct_manager := m\<rparr> = c'" for m
    using that by auto
  show ?thesis
  proof (cases "env_splitKey e key")
    case None
    with assms show ?thesis by (simp add: syncShadowService_def)
  next
    case (Some nsn)
    obtain ns n where nsn: "nsn = (ns, n)" by fastforce
    let ?shadow = "env_services e (sm_namespace (ct_manager c)) (shadow_name (ct_manager c) ns n)"
    show ?thesis
    proof (cases "env_services e ns n")
      case (Found svc)
      with assms Some nsn obtain m r where "CreateOrUpdate ?shadow (env_topologyKeys e) svc (ct_manager c) = Some (m, r)"
        by (auto simp: syncShadowService_def Let_def)
      with assms Some nsn Found put [of m] show ?thesis by (cases r) (simp_all add: syncShadowService_def Let_def)
    next
      case NotFound
      obtain m r where "Delete_shadow ?shadow ns n (ct_manager c) = (m, r)" by fastforce
      with assms Some nsn NotFound put [of m] show ?thesis
        by (cases r; cases "projr r") (simp_all add: syncShadowService_def Let_def)
    next
      case LookupError
      with assms Some nsn show ?thesis by (simp add: syncShadowService_def Let_def)
    qed
  qed
qed

lemma work_keeps:
  assumes "processNextWorkItem e n key c = Some (c', new)"
  shows "ct_resourceFilter c' = ct_resourceFilter c \<and> ct_cfg c' = ct_cfg c"
proof -
  have built: "ct_resourceFilter d' = ct_resourceFilter d \<and> ct_cfg d' = ct_cfg d"
    if "buildAndStore e n key d = Some (d', calls)" for d d' calls
    using that by (auto simp: buildAndStore_def split: option.splits sum.splits)
  show ?thesis
  proof (cases "key = configRefreshKey")
    case True
    with assms built show ?thesis by (auto simp: processNextWorkItem_def)
  next
    case False
    with assms obtain c1 call err where sync: "syncShadowService e key c = Some (c1, call, err)"
      by (auto simp: processNextWorkItem_def split: option.splits)
    from sync_filter [OF sync] assms False sync built [of c1 c'] show ?thesis
      by (cases err) (auto simp: processNextWorkItem_def)
  qed
qed

lemma work_publishes:
  assumes "processNextWorkItem e n key c = Some (c', new)" "work_succeeds e key c"
  shows "new = [QForget key, QDone key] \<and> serves c' e \<and> ct_resourceFilter c' = ct_resourceFilter c \<and> ct_cfg c' = ct_cfg c"
proof -
  from assms(2) obtain res where res: "loadResources (env_cluster e) (ct_resourceFilter c) = Inr res"
    by (auto simp: work_succeeds_def)
  show ?thesis
  proof (cases "key = configRefreshKey")
    case True
    with assms(1) obtain calls where "buildAndStore e n key c = Some (c', calls)" "new = calls @ [QDone key]"
      by (auto simp: processNextWorkItem_def)
    with buildAndStore_serves [OF _ res] show ?thesis by fastforce
  next
    case False
    with assms(2) obtain c1 call where sync: "syncShadowService e key c = Some (c1, call, None)"
      by (auto simp: work_succeeds_def split: option.splits)
    note same = sync_filter [OF sync]
    from assms(1) False sync obtain calls where "buildAndStore e n key c1 = Some (c', calls)" "new = calls @ [QDone key]"
      by (auto simp: processNextWorkItem_def)
    with buildAndStore_serves [of e n key c1 c' calls res] res same show ?thesis by simp
  qed
qed

lemma work_fails:
  assumes "processNextWorkItem e n key c = Some (c', new)" "\<not> work_succeeds e key c"
  shows "new = handleErr n key @ [QDone key]"
proof (cases "key = configRefreshKey")
  case True
  with assms(2) obtain er where "loadResources (env_cluster e) (ct_resourceFilter c) = Inl er"
    by (cases "loadResources (env_cluster e) (ct_resourceFilter c)") (auto simp: work_succeeds_def)
  with True assms(1) buildAndStore_fails show ?thesis by (auto simp: processNextWorkItem_def)
next
  case False
  with assms(1) obtain c1 call err where sync: "syncShadowService e key c = Some (c1, call, err)"
    by (auto simp: processNextWorkItem_def split: option.splits)
  show ?thesis
  proof (cases err)
    case None
    with assms(2) sync False obtain er where "loadResources (env_cluster e) (ct_resourceFilter c1) = Inl er"
      using sync_filter [OF sync]
      by (cases "loadResources (env_cluster e) (ct_resourceFilter c)") (auto simp: work_succeeds_def)
    with sync None False assms(1) buildAndStore_fails show ?thesis by (auto simp: processNextWorkItem_def)
  next
    case (Some er)
    with sync False assms(1) show ?thesis by (auto simp: processNextWorkItem_def)
  qed
qed

section \<open>An environment for every cluster\<close>

definition finite_maps :: "resources \<Rightarrow> bool" where
  "finite_maps r \<longleftrightarrow> finite (dom (r_Services r)) \<and> finite (dom (r_TrafficTargets r)) \<and> finite (dom (r_TrafficSplits r))
     \<and> (\<forall>sa m. PodsBySvcBySa r sa = Some m \<longrightarrow> finite (dom m))"

lemma finite_maps_indexPodByService:
  "finite_maps (fst st) \<Longrightarrow> finite_maps (fst (indexPodByService ep a pbn st))"
  by (cases st) (auto simp: finite_maps_def indexPodByService_def Let_def split: option.splits)

lemma finite_maps_indexEndpoints:
  assumes "finite_maps r"
  shows "finite_maps (indexEndpoints ep pbn r)"
proof -
  have "finite_maps (fst (fold (\<lambda>a. indexPodByService ep a pbn) (ep_addresses ep) (r, {})))"
    by (rule fold_invariant_rule [where P = "\<lambda>st. finite_maps (fst st)"])
       (simp_all add: finite_maps_indexPodByService assms)
  then show ?thesis by (simp add: indexEndpoints_eq)
qed

lemma finite_maps_fields [simp]:
  "finite_maps (r\<lparr>PodsByServiceAccounts := x\<rparr>) = finite_maps r"
  "finite_maps r \<Longrightarrow> finite_maps (r\<lparr>r_Services := (r_Services r)(k \<mapsto> s)\<rparr>)"
  by (simp_all add: finite_maps_def)

lemma finite_maps_indexPods:
  assumes "finite_maps r"
  shows "finite_maps (indexPods flt pods eps r)"
proof -
  have "finite_maps (fst (indexPodsByServiceAccount flt pods r m))" if "finite_maps r" for r m
    using that by (induction pods arbitrary: r m) simp_all
  moreover have "finite_maps (indexPodsByService flt eps m r)" if "finite_maps r" for r m
    using that by (induction eps arbitrary: r) (simp_all add: finite_maps_indexEndpoints)
  ultimately show ?thesis using assms by (simp add: indexPods_def split: prod.split) (metis fst_conv)
qed

lemma finite_maps_index:
  "finite_maps r \<Longrightarrow> finite_maps (indexSMIResources flt tts tss tcps hrgs r)"
  unfolding indexSMIResources_def
  by (intro fold_invariant_rule [where P = finite_maps]) (auto simp: finite_maps_def smi_index_defs)

lemma loadResources_finite:
  assumes "loadResources b flt = Inr r"
  shows "finite_maps r"
proof -
  have "finite_maps (load_services flt svcs r)" if "finite_maps r" for svcs r
    using that by (induction svcs arbitrary: r) simp_all
  moreover have "finite_maps empty_resources" by (simp add: finite_maps_def empty_resources_def)
  ultimately show ?thesis using assms
    by (auto simp: loadResources_def bind_res_Inr_iff loadServices_def finite_maps_indexPods finite_maps_index
        split: option.splits)
qed

lemma enumeration_exists: "finite (dom m) \<Longrightarrow> \<exists>ks. enumerates ks m"
  using finite_distinct_list [of "dom m"] by (auto simp: enumerates_def)

lemma schedule_exists:
  assumes "loadResources b flt = Inr r"
  shows "\<exists>sch. valid_schedule r sch"
proof -
  note fin = loadResources_finite [OF assms]
  have "finite (dom (destination_services r tt))" for tt
    using fin by (auto simp: finite_maps_def destination_services_def split: option.split)
  then have "\<exists>ks. enumerates ks (destination_services r tt)" for tt by (rule enumeration_exists)
  then have "\<exists>ks. case r_TrafficTargets r k of None \<Rightarrow> True | Some tt \<Rightarrow> enumerates ks (destination_services r tt)" for k
    by (cases "r_TrafficTargets r k") simp_all
  then obtain f where "\<And>k. case r_TrafficTargets r k of None \<Rightarrow> True | Some tt \<Rightarrow> enumerates (f k) (destination_services r tt)"
    by metis
  then have f: "r_TrafficTargets r k = Some tt \<Longrightarrow> enumerates (f k) (destination_services r tt)" for k tt
    by (metis option.simps(5))
  from fin enumeration_exists obtain a b c where "enumerates a (r_Services r)" "enumerates b (r_TrafficSplits r)"
    "enumerates c (r_TrafficTargets r)" unfolding finite_maps_def by meson
  with f have "valid_schedule r \<lparr>sch_Services = a, sch_TrafficSplits = b, sch_TrafficTargets = c, sch_PodsBySa = f, sch_Populate = a\<rparr>"
    by (simp add: valid_schedule_def)
  then show ?thesis ..
qed

text \<open>Whatever the caches hold, there is an environment in which the worker reads them.\<close>

lemma env_exists:
  "\<exists>e. env_ok flt e \<and> order_ok flt e \<and> env_cluster e = b"
proof -
  have "\<exists>sch. \<forall>r. loadResources b flt = Inr r \<longrightarrow> valid_schedule r sch"
  proof (cases "loadResources b flt")
    case (Inr r)
    with schedule_exists show ?thesis by fastforce
  qed simp
  then obtain sch where sch: "\<And>r. loadResources b flt = Inr r \<Longrightarrow> valid_schedule r sch" by blast
  let ?e = "\<lparr>env_splitKey = (\<lambda>key. None), env_services = (\<lambda>ns n. NotFound), env_topologyKeys = True,
     env_accepts = (\<lambda>call. True), env_cluster = b, env_schedule = sch, env_order = sch_Services sch, env_ranges = as_listed,
     env_fuel = Suc (length (sch_TrafficSplits sch))\<rparr>"
  have "enumerates (sch_Services sch) (Services t)"
    if "Build_topology (Suc (length (sch_TrafficSplits sch))) sch b flt = Some (Inr t)" for t
  proof -
    from that obtain r where r: "loadResources b flt = Inr r"
      by (cases "loadResources b flt") (auto simp: Build_topology_def)
    from Build_total [of b flt sch, OF sch lessI] that r have "dom (Services t) = dom (r_Services r)" by simp
    with sch [OF r] show ?thesis by (simp add: valid_schedule_def enumerates_def)
  qed
  then have "env_ok flt ?e \<and> order_ok flt ?e \<and> env_cluster ?e = b" using sch by (simp add: env_ok_def order_ok_def)
  then show ?thesis by blast
qed

section \<open>Nothing watched, nothing to build\<close>

lemma Build_nothing_watched:
  assumes "\<And>r. r \<in> C \<Longrightarrow> \<not> registered cfg r" "listers cfg C b" "0 < fuel"
    and "\<And>res. loadResources b flt = Inr res \<Longrightarrow> valid_schedule res sch"
  shows "Build_topology fuel sch b flt = Some (Inr NewTopology)"
proof -
  have none: "RService -` C = {}" "REndpoints -` C = {}" "RTrafficSplit -` C = {}" "RHTTPRouteGroup -` C = {}"
    "RTCPRoute -` C = {}" "ACLEnabled cfg \<Longrightarrow> RTrafficTarget -` C = {}"
    using assms(1) by force+
  with assms(2) have b: "l_Services b = Some []" "l_Endpoints b = Some []" "l_TrafficSplits b = Some []"
    "l_HTTPRouteGroups b = Some (Some [])" "l_TCPRoutes b = Some (Some [])"
    "l_TrafficTargets b = Some (Some []) \<or> l_TrafficTargets b = None"
    by (auto simp: listers_def lists_all_def split: if_splits)
  from assms(2) obtain pods where pods: "l_Pods b = Some pods" by (auto simp: listers_def)
  obtain r m where idx: "indexPodsByServiceAccount flt pods empty_resources Map.empty = (r, m)" by fastforce
  have load: "loadResources b flt = Inr r"
    using b pods idx by (auto simp: loadResources_def loadServices_def list_required_def list_optional_def
        indexSMIResources_def indexPods_def)
  have "r_Services r = Map.empty" "r_TrafficSplits r = Map.empty" "r_TrafficTargets r = Map.empty"
    using indexPodsByServiceAccount_frame [OF idx] by (simp_all add: empty_resources_def)
  with assms(4) [OF load] have "sch_Services sch = []" "sch_TrafficSplits sch = []" "sch_TrafficTargets sch = []" "sch_Populate sch = []"
    by (simp_all add: valid_schedule_def enumerates_def)
  then show ?thesis using assms(3) load
    by (simp add: Build_topology_def evaluate_all_def populateTrafficSplitsAuthorizedIncomingTraffic_def
        removeLoopCausingTrafficSplits_def NewTopology_def)
qed

lemma booted_store:
  assumes "booted cfg shadows c"
  shows "Safe_Get (api_topology (ct_store c)) = NewTopology" "Safe_Get (api_configuration (ct_store c)) = NewDefaultDynamicConfig"
proof -
  from assms obtain synced i ns store where new: "NewAPI synced ns = Some store"
    and start: "Run_start i (Some shadows) (Some shadows) (NewMeshController cfg store) = (c, None)"
    unfolding booted_def by blast
  obtain d r where load: "loadPortMappersState (Some shadows) (Some shadows) (NewMeshController cfg store) = (d, r)" by fastforce
  have "ct_store d = store" using loadPortMappersState_store [OF load] by (simp add: NewMeshController_def)
  with start load have "ct_store c = SetReadiness True store" by (auto simp: Run_start_def split: if_splits option.splits)
  with new show "Safe_Get (api_topology (ct_store c)) = NewTopology"
    "Safe_Get (api_configuration (ct_store c)) = NewDefaultDynamicConfig"
    by (auto simp: store.laws NewAPI_def split: if_splits)
qed

lemma up_to_date_initially:
  assumes "booted cfg shadows c" "ct_cfg c = cfg" "finite C"
    and "\<And>r. r \<in> seen (ct_resourceFilter c) C \<Longrightarrow> \<not> registered cfg r"
  shows "up_to_date c C"
proof -
  let ?flt = "ct_resourceFilter c"
  obtain b where b: "listers cfg (seen ?flt C) b" using listers_exist [OF finite_seen [OF assms(3)]] by blast
  obtain e where e: "env_ok ?flt e" "order_ok ?flt e" "env_cluster e = b" using env_exists by blast
  have "Build_topology (env_fuel e) (env_schedule e) (env_cluster e) ?flt = Some (Inr NewTopology)"
    using e b assms(4) by (intro Build_nothing_watched [where C = "seen ?flt C" and cfg = cfg]) (auto simp: env_ok_def)
  moreover from this e(2) have "env_order e = []"
    by (auto simp: order_ok_def enumerates_def NewTopology_def)
  ultimately have "serves c e"
    using booted_store [OF assms(1)] by (simp add: serves_def BuildConfig_def)
  with e b assms(2) show ?thesis by (auto simp: up_to_date_def)
qed

end
