(* ===== verification/Running.thy ===== *)
theory Running
  imports Freshness
begin

text \<open>
  The running controller: caches that change, notifications under way, the work queue, and the worker that
  reads the caches while they may change. \<open>life\<close> is the relation of all interleavings. It refines \<open>run\<close>, so
  what is proved there holds here; in addition nothing relevant gets lost, and without changes the system
  comes to rest.
\<close>

section \<open>The system\<close>

record System =
  sy_ctrl :: Controller
  sy_cache :: "Resource set"
  sy_news :: "notification list"      \<comment> \<open>notifications not yet handled\<close>
  sy_calls :: "queue_call list"       \<comment> \<open>calls made to the work queue\<close>
  sy_waiting :: "string set"          \<comment> \<open>keys the queue will hand out\<close>
  sy_working :: "string option"       \<comment> \<open>the key being worked on\<close>
  sy_touched :: bool                  \<comment> \<open>something the builder reads changed since then\<close>
  sy_missed :: bool                   \<comment> \<open>a pod in use changed, without a handler, since the last key was taken\<close>
  sy_gaveUp :: bool                   \<comment> \<open>a key was given up after its last retry and nothing was published since\<close>

text \<open>One change of a cache and the notification about it. An object with an unchanged resource version is
  unchanged: that is a resync.\<close>

inductive changed :: "Resource set \<Rightarrow> Resource set \<Rightarrow> notification \<Rightarrow> bool" where
  added: "identity r \<notin> identity ` C \<Longrightarrow> changed C (insert r C) (Added r)"
| updated: "r \<in> C \<Longrightarrow> identity r' = identity r \<Longrightarrow>
     (om_ResourceVersion (meta_of r') = om_ResourceVersion (meta_of r) \<Longrightarrow> r' = r) \<Longrightarrow>
     changed C (insert r' (C - {r})) (Updated r r')"
| deleted: "r \<in> C \<Longrightarrow> changed C (C - {r}) (Deleted r)"

inductive_cases changedE: "changed C C' n"

definition keys_added :: "queue_call list \<Rightarrow> string set" where
  "keys_added calls = {k. QAdd k \<in> set calls \<or> QAddRateLimited k \<in> set calls}"

abbreviation sy_cfg :: "System \<Rightarrow> ControllerConfig" where
  "sy_cfg s \<equiv> ct_cfg (sy_ctrl s)"

abbreviation sy_filter :: "System \<Rightarrow> ResourceFilter" where
  "sy_filter s \<equiv> ct_resourceFilter (sy_ctrl s)"

inductive cluster_step :: "System \<Rightarrow> System \<Rightarrow> bool" where
  "changed (sy_cache s) C n \<Longrightarrow>
   cluster_step s (s\<lparr>sy_cache := C, sy_news := sy_news s @ [n],
     sy_touched := (sy_touched s \<or> \<not> alike (sy_cfg s) (sy_filter s) (sy_cache s) C),
     sy_missed := (sy_missed s \<or> \<not> registered (sy_cfg s) (subject n) \<and> \<not> alike (sy_cfg s) (sy_filter s) (sy_cache s) C)\<rparr>)"

text \<open>
  Steps of the mesh. The queue hands out a waiting key while no other is worked on, and a key added in the
  meantime waits. If nothing that the builder reads changed since the worker got its key, it reads caches
  that are like the present ones; otherwise it may read anything.
\<close>

inductive mesh_step ::
  "filtering \<Rightarrow> (ObjectMeta \<Rightarrow> string option) \<Rightarrow> (queue_call list \<Rightarrow> string \<Rightarrow> nat) \<Rightarrow> System \<Rightarrow> System \<Rightarrow> bool"
  for deliver :: filtering and keyFunc :: "ObjectMeta \<Rightarrow> string option" and numRequeues :: "queue_call list \<Rightarrow> string \<Rightarrow> nat"
where
  notify: "sy_news s = xs @ n # ys \<Longrightarrow> calls = react deliver keyFunc (sy_ctrl s) n \<Longrightarrow>
   mesh_step deliver keyFunc numRequeues s
     (s\<lparr>sy_news := xs @ ys, sy_calls := sy_calls s @ calls, sy_waiting := sy_waiting s \<union> keys_added calls\<rparr>)"
| take_key: "sy_working s = None \<Longrightarrow> key \<in> sy_waiting s \<Longrightarrow>
   mesh_step deliver keyFunc numRequeues s
     (s\<lparr>sy_waiting := sy_waiting s - {key}, sy_working := Some key, sy_touched := False, sy_missed := False\<rparr>)"
| finish: "sy_working s = Some key \<Longrightarrow>
   env_ok (sy_filter s) e \<Longrightarrow> order_ok (sy_filter s) e \<Longrightarrow>
   (\<not> sy_touched s \<Longrightarrow> \<exists>C. inj_on identity C \<and> alike (sy_cfg s) (sy_filter s) C (sy_cache s)
      \<and> listers (sy_cfg s) C (env_cluster e)) \<Longrightarrow>
   processNextWorkItem e (numRequeues (sy_calls s) key) key (sy_ctrl s) = Some (c', new) \<Longrightarrow>
   mesh_step deliver keyFunc numRequeues s
     (s\<lparr>sy_ctrl := c', sy_calls := sy_calls s @ new, sy_waiting := sy_waiting s \<union> keys_added new, sy_working := None,
        sy_gaveUp := (\<not> work_succeeds e key (sy_ctrl s) \<and> (sy_gaveUp s \<or> keys_added new = {}))\<rparr>)"

text \<open>A started controller: every cached object is announced to the handlers.\<close>

definition initial :: "ControllerConfig \<Rightarrow> KService list \<Rightarrow> Controller \<Rightarrow> System \<Rightarrow> bool" where
  "initial cfg shadows c0 s \<longleftrightarrow> booted cfg shadows c0 \<and> finite (sy_cache s) \<and> inj_on identity (sy_cache s)
     \<and> set (sy_news s) = Added ` {r \<in> sy_cache s. registered cfg r}
     \<and> sy_ctrl s = c0 \<and> sy_calls s = [] \<and> sy_waiting s = {} \<and> sy_working s = None
     \<and> \<not> sy_touched s \<and> \<not> sy_missed s \<and> \<not> sy_gaveUp s"

inductive life ::
  "filtering \<Rightarrow> (ObjectMeta \<Rightarrow> string option) \<Rightarrow> (queue_call list \<Rightarrow> string \<Rightarrow> nat) \<Rightarrow> System \<Rightarrow> System \<Rightarrow> bool"
  for deliver :: filtering and keyFunc :: "ObjectMeta \<Rightarrow> string option" and numRequeues :: "queue_call list \<Rightarrow> string \<Rightarrow> nat"
    and s0 :: System
where
  started: "life deliver keyFunc numRequeues s0 s0"
| cluster: "life deliver keyFunc numRequeues s0 s \<Longrightarrow> cluster_step s s' \<Longrightarrow> life deliver keyFunc numRequeues s0 s'"
| mesh: "life deliver keyFunc numRequeues s0 s \<Longrightarrow> mesh_step deliver keyFunc numRequeues s s' \<Longrightarrow>
     life deliver keyFunc numRequeues s0 s'"

section \<open>Every relevant change is noticed\<close>

lemma filtersD:
  assumes "filters_as_documented deliver"
  shows "deliver p (Added r) = (if p (object_of r) then Some (Added r) else None)"
    "deliver p (Deleted r) = (if p (object_of r) then Some (Deleted r) else None)"
    "deliver p (Updated r r') =
       (if p (object_of r') then (if p (object_of r) then Some (Updated r r') else Some (Added r'))
        else if p (object_of r) then Some (Deleted r) else None)"
  using assms by (simp_all add: filters_as_documented_def)

text \<open>\<open>MetaNamespaceKeyFunc\<close> fails only for values without metadata.\<close>

definition names_all :: "(ObjectMeta \<Rightarrow> string option) \<Rightarrow> bool" where
  "names_all keyFunc \<longleftrightarrow> (\<forall>m. keyFunc m \<noteq> None)"

lemma enqueueWork_adds:
  assumes "names_all keyFunc"
  shows "\<exists>k. enqueueWork keyFunc obj = [QAdd k]"
  using assms by (cases obj) (auto simp: enqueueWork_def names_all_def split: option.split)

lemma handle_adds:
  assumes "names_all keyFunc"
    and "\<And>r r'. n = Updated r r' \<Longrightarrow> om_ResourceVersion (meta_of r) \<noteq> om_ResourceVersion (meta_of r')"
  shows "\<exists>k. handle keyFunc n = [QAdd k]"
  using enqueueWork_adds [of keyFunc, OF assms(1)] assms(2)
  by (cases n) (simp_all add: OnAdd_def OnUpdate_def OnDelete_def)

lemma changed_noticed:
  assumes "changed C C' n" "registered (ct_cfg c) (subject n)" "filters_as_documented deliver" "names_all keyFunc"
    and "\<not> alike (ct_cfg c) (ct_resourceFilter c) C C'"
  shows "\<exists>k. react deliver keyFunc c n = [QAdd k]"
proof -
  note law = filtersD [OF assms(3)]
  have sees: "isWatchedResource c (object_of r) \<longleftrightarrow> \<not> IsIgnored (ct_resourceFilter c) (object_of r)" for r
    by (simp add: isWatchedResource_def)
  have seen: "seen (ct_resourceFilter c) C' \<noteq> seen (ct_resourceFilter c) C"
    using assms(5) by (auto simp: alike_def pod_views_def)
  from assms(1) have "\<exists>n'. deliver (isWatchedResource c) n = Some n' \<and>
      (\<forall>r r'. n' = Updated r r' \<longrightarrow> om_ResourceVersion (meta_of r) \<noteq> om_ResourceVersion (meta_of r'))"
  proof cases
    case (added r)
    with seen have "isWatchedResource c (object_of r)" by (auto simp: seen_insert sees)
    with added law show ?thesis by auto
  next
    case (updated r r')
    with seen have "r' \<noteq> r" by (auto simp: insert_absorb)
    with updated have "om_ResourceVersion (meta_of r) \<noteq> om_ResourceVersion (meta_of r')" by auto
    moreover have "isWatchedResource c (object_of r) \<or> isWatchedResource c (object_of r')"
      using seen updated by (auto simp: seen_insert seen_remove sees seen_def split: if_splits)
    ultimately show ?thesis using updated law by auto
  next
    case (deleted r)
    with seen have "isWatchedResource c (object_of r)" by (auto simp: seen_remove sees seen_def)
    with deleted law show ?thesis by auto
  qed
  with assms(2) handle_adds [of keyFunc, OF assms(4)] show ?thesis by (fastforce simp: react_def)
qed

lemma changed_keyed: "changed C C' n \<Longrightarrow> inj_on identity C \<Longrightarrow> inj_on identity C'"
proof (erule changedE)
  fix r r'
  assume *: "inj_on identity C" "r \<in> C" "identity r' = identity r" and C': "C' = insert r' (C - {r})"
  have "identity r \<notin> identity ` (C - {r})" using *(1,2) by (metis DiffD1 Diff_insert_absorb Diff_iff imageE inj_on_contraD insertI1 singletonI)
  with * show "inj_on identity C'" unfolding C' by (auto intro: inj_on_diff)
qed (auto intro: inj_on_diff)

section \<open>The life of the system is a run of the controller\<close>

lemma react_event:
  assumes "filters_as_documented deliver" "calls = react deliver keyFunc c n"
  shows "calls = [] \<or> (\<exists>obj old. isWatchedResource c obj \<and>
     calls \<in> {OnAdd keyFunc obj, OnUpdate keyFunc old obj, OnDelete keyFunc obj})"
proof (cases "registered (ct_cfg c) (subject n)")
  case True
  let ?p = "isWatchedResource c"
  note law = filtersD [OF assms(1)]
  show ?thesis
  proof (cases n)
    case (Added r)
    with assms(2) True law show ?thesis by (cases "?p (object_of r)") (auto simp: react_def)
  next
    case (Updated r r')
    with assms(2) True law show ?thesis
      by (cases "?p (object_of r)"; cases "?p (object_of r')") (auto simp: react_def)
  next
    case (Deleted r)
    with assms(2) True law show ?thesis by (cases "?p (object_of r)") (auto simp: react_def)
  qed
qed (use assms(2) in \<open>simp add: react_def\<close>)

lemma keys_added_append [simp]: "keys_added (xs @ ys) = keys_added xs \<union> keys_added ys"
  by (auto simp: keys_added_def)

lemma keys_added_queued: "k \<in> keys_added calls \<longleftrightarrow> queued calls k"
  by (simp add: keys_added_def queued_def)

definition busy_keys :: "System \<Rightarrow> string set" where
  "busy_keys s = sy_waiting s \<union> set_option (sy_working s)"

lemma life_run:
  assumes "life deliver keyFunc numRequeues s0 s" "initial cfg shadows c0 s0" "filters_as_documented deliver"
    and "ranges_ok cfg" "unambiguous (fresh_tcp cfg) shadows" "unambiguous (fresh_udp cfg) shadows"
  shows "run numRequeues keyFunc (env_ok (controller_filter cfg)) c0 (sy_ctrl s) (sy_calls s)
     \<and> busy_keys s \<subseteq> keys_added (sy_calls s) \<and> controller_ok c0 (sy_ctrl s)
     \<and> ct_cfg (sy_ctrl s) = cfg \<and> ct_resourceFilter (sy_ctrl s) = controller_filter cfg"
  using assms(1)
proof induction
  case started
  have boot: "booted cfg shadows c0" "sy_ctrl s0 = c0" "sy_calls s0 = []" "busy_keys s0 = {}"
    using assms(2) by (auto simp: initial_def busy_keys_def)
  note ok = booted_ok [OF boot(1) assms(4-6)]
  from boot ok run.start show ?case by (simp add: controller_ok_def)
next
  case (cluster s s')
  from cluster.hyps(2) cluster.IH show ?case by cases (simp add: busy_keys_def)
next
  case (mesh s s')
  have boot: "booted cfg shadows c0" using assms(2) by (simp add: initial_def)
  note ok = booted_ok [OF boot assms(4-6)]
  from mesh.hyps(2) show ?case
  proof cases
    case (notify xs n ys calls)
    from react_event [OF assms(3) notify(3)]
    have "run numRequeues keyFunc (env_ok (controller_filter cfg)) c0 (sy_ctrl s) (sy_calls s @ calls)"
      using mesh.IH run.event by fastforce
    with notify(1) mesh.IH show ?thesis by (auto simp: busy_keys_def)
  next
    case (take_key key)
    with mesh.IH show ?thesis by (auto simp: busy_keys_def)
  next
    case (finish key e c' new)
    have "queued (sy_calls s) key"
      using mesh.IH finish(2) by (auto simp: busy_keys_def simp flip: keys_added_queued)
    moreover have e: "env_ok (controller_filter cfg) e" using finish(3) mesh.IH by simp
    ultimately have run: "run numRequeues keyFunc (env_ok (controller_filter cfg)) c0 c' (sy_calls s @ new)"
      using mesh.IH finish(6) run.work by blast
    then have "run numRequeues keyFunc (env_ok (ct_resourceFilter c0)) c0 c' (sy_calls s @ new)" using ok by simp
    from run_ok [OF this ok(1)] have "controller_ok c0 c'" .
    with run finish(1,2) mesh.IH ok show ?thesis by (auto simp: busy_keys_def controller_ok_def)
  qed
qed

section \<open>Nothing relevant is lost\<close>

definition pending :: "filtering \<Rightarrow> (ObjectMeta \<Rightarrow> string option) \<Rightarrow> System \<Rightarrow> bool" where
  "pending deliver keyFunc s \<longleftrightarrow> sy_waiting s \<noteq> {} \<or> (\<exists>n\<in>set (sy_news s). react deliver keyFunc (sy_ctrl s) n \<noteq> [])"

text \<open>Either the served configuration is up to date or somebody will still look at the change; and a change
  during work is looked at after it.\<close>

definition nothing_lost :: "filtering \<Rightarrow> (ObjectMeta \<Rightarrow> string option) \<Rightarrow> System \<Rightarrow> bool" where
  "nothing_lost deliver keyFunc s \<longleftrightarrow>
     (pending deliver keyFunc s \<or> sy_working s \<noteq> None \<or> sy_gaveUp s \<or> sy_missed s \<or> up_to_date (sy_ctrl s) (sy_cache s))
   \<and> (sy_touched s \<longrightarrow> sy_working s \<noteq> None \<longrightarrow> pending deliver keyFunc s \<or> sy_missed s)"

lemma react_cong:
  "ct_cfg c' = ct_cfg c \<Longrightarrow> ct_resourceFilter c' = ct_resourceFilter c \<Longrightarrow> react deliver keyFunc c' n = react deliver keyFunc c n"
  by (simp add: react_def isWatchedResource_def [abs_def])

lemma up_to_date_alike:
  assumes "up_to_date c C" "alike (ct_cfg c) (ct_resourceFilter c) C C'" "inj_on identity C" "inj_on identity C'" "finite C'"
  shows "up_to_date c C'"
proof -
  let ?flt = "ct_resourceFilter c"
  from assms(1) obtain e where e: "env_ok ?flt e" "order_ok ?flt e" "listers (ct_cfg c) (seen ?flt C) (env_cluster e)" "serves c e"
    by (auto simp: up_to_date_def)
  from alike_build [OF e(3) assms(2-5)] obtain b where b: "listers (ct_cfg c) (seen ?flt C') b"
    "\<And>fuel sch. Build_topology fuel sch b ?flt = Build_topology fuel sch (env_cluster e) ?flt"
    "\<And>sch. (\<forall>r. loadResources b ?flt = Inr r \<longrightarrow> valid_schedule r sch) =
       (\<forall>r. loadResources (env_cluster e) ?flt = Inr r \<longrightarrow> valid_schedule r sch)" by blast
  with e show ?thesis unfolding up_to_date_def
    by (intro exI [of _ "e\<lparr>env_cluster := b\<rparr>"]) (simp add: env_ok_def order_ok_def serves_def)
qed

lemma react_keys:
  assumes "filters_as_documented deliver"
  shows "react deliver keyFunc c n = [] \<or> (\<exists>k. react deliver keyFunc c n = [QAdd k])"
  using react_event [OF assms refl, of keyFunc c n] event_calls by metis

text \<open>A successful item of work that was not overtaken by a change leaves the store up to date.\<close>

lemma finish_up_to_date:
  assumes "env_ok (ct_resourceFilter c) e" "order_ok (ct_resourceFilter c) e"
    and "\<exists>D. inj_on identity D \<and> alike (ct_cfg c) (ct_resourceFilter c) D C \<and> listers (ct_cfg c) D (env_cluster e)"
    and "processNextWorkItem e n key c = Some (c', new)" "work_succeeds e key c" "inj_on identity C" "finite C"
  shows "up_to_date c' C"
proof -
  let ?flt = "ct_resourceFilter c"
  from work_publishes [OF assms(4,5)] have c': "serves c' e" "ct_resourceFilter c' = ?flt" "ct_cfg c' = ct_cfg c" by blast+
  from assms(3) obtain D where D: "inj_on identity D" "alike (ct_cfg c) ?flt D C" "listers (ct_cfg c) D (env_cluster e)" by blast
  let ?e = "e\<lparr>env_cluster := seen_cluster ?flt (env_cluster e)\<rparr>"
  have "env_ok ?flt ?e" "order_ok ?flt ?e"
    using assms(1,2) by (simp_all add: env_ok_def order_ok_def loadResources_seen flip: Build_ignores_ignored)
  moreover have "serves c' ?e" using c' by (simp add: serves_def flip: Build_ignores_ignored)
  ultimately have "up_to_date c' D"
    using c' listers_seen [OF D(3), of ?flt] unfolding up_to_date_def by (intro exI [of _ ?e]) simp
  from up_to_date_alike [OF this _ D(1) assms(6,7)] D(2) c' show ?thesis by simp
qed

lemma cluster_step_keeps:
  assumes "cluster_step s s'" "nothing_lost deliver keyFunc s" "filters_as_documented deliver" "names_all keyFunc"
    and "finite (sy_cache s)" "inj_on identity (sy_cache s)"
  shows "nothing_lost deliver keyFunc s'"
  using assms(1)
proof cases
  case (1 C n)
  have fields: "sy_ctrl s' = sy_ctrl s" "sy_waiting s' = sy_waiting s" "sy_working s' = sy_working s"
    "sy_gaveUp s' = sy_gaveUp s" "sy_news s' = sy_news s @ [n]" "sy_cache s' = C" using 1 by simp_all
  have pend: "pending deliver keyFunc s \<Longrightarrow> pending deliver keyFunc s'" using fields by (auto simp: pending_def)
  show ?thesis
  proof (cases "alike (sy_cfg s) (sy_filter s) (sy_cache s) C")
    case True
    have "finite C" using 1(2) assms(5) by (auto elim!: changedE)
    from up_to_date_alike [OF _ True assms(6) changed_keyed [OF 1(2) assms(6)] this] 1(1) True pend assms(2) fields
    show ?thesis by (auto simp: nothing_lost_def)
  next
    case False
    show ?thesis
    proof (cases "registered (sy_cfg s) (subject n)")
      case True
      from changed_noticed [OF 1(2) True assms(3,4) False] fields have "pending deliver keyFunc s'" by (auto simp: pending_def)
      then show ?thesis by (simp add: nothing_lost_def)
    next
      case unregistered: False
      with False 1(1) have "sy_missed s'" by simp
      then show ?thesis by (simp add: nothing_lost_def)
    qed
  qed
qed

lemma mesh_step_keeps:
  assumes "mesh_step deliver keyFunc numRequeues s s'" "nothing_lost deliver keyFunc s" "filters_as_documented deliver"
    and "finite (sy_cache s)" "inj_on identity (sy_cache s)"
  shows "nothing_lost deliver keyFunc s'"
  using assms(1)
proof cases
  case (notify xs n ys calls)
  have "pending deliver keyFunc s'" if "pending deliver keyFunc s"
    using that notify react_keys [OF assms(3), of keyFunc "sy_ctrl s" n] by (auto simp: pending_def keys_added_def)
  with assms(2) notify(1) show ?thesis by (auto simp: nothing_lost_def)
next
  case (take_key key)
  then show ?thesis by (simp add: nothing_lost_def)
next
  case (finish key e c' new)
  let ?c = "sy_ctrl s"
  have c': "ct_resourceFilter c' = ct_resourceFilter ?c" "ct_cfg c' = ct_cfg ?c"
    using work_keeps [OF finish(6)] by simp_all
  have pend: "pending deliver keyFunc s'" if "pending deliver keyFunc s"
    using that finish(1) react_cong [OF c'(2,1)] by (auto simp: pending_def)
  show ?thesis
  proof (cases "work_succeeds e key ?c")
    case True
    have "up_to_date c' (sy_cache s)" if "\<not> sy_touched s"
      using finish_up_to_date [OF finish(3,4) finish(5) [OF that] finish(6) True assms(5,4)] .
    with assms(2) finish(1,2) pend show ?thesis by (auto simp: nothing_lost_def)
  next
    case False
    from work_fails [OF finish(6) False] have "keys_added new = {} \<or> sy_waiting s' \<noteq> {}" using finish(1) by auto
    with False finish(1) show ?thesis by (auto simp: nothing_lost_def pending_def)
  qed
qed

lemma life_finite:
  assumes "life deliver keyFunc numRequeues s0 s" "initial cfg shadows c0 s0"
  shows "finite (sy_cache s) \<and> inj_on identity (sy_cache s) \<and> finite (sy_waiting s)"
  using assms(1)
proof induction
  case started
  with assms(2) show ?case by (simp add: initial_def)
next
  case (cluster s s')
  from cluster.hyps(2) cluster.IH show ?case by (auto elim!: cluster_step.cases dest: changed_keyed elim: changedE)
next
  case (mesh s s')
  have "finite (keys_added calls)" for calls
  proof -
    have "keys_added calls \<subseteq> (\<lambda>call. case call of QAdd k \<Rightarrow> k | QAddRateLimited k \<Rightarrow> k | _ \<Rightarrow> []) ` set calls"
      by (force simp: keys_added_def)
    then show ?thesis by (rule finite_subset) simp
  qed
  with mesh.hyps(2) mesh.IH show ?case by (auto elim!: mesh_step.cases)
qed

lemma initially_nothing_lost:
  assumes "initial cfg shadows c0 s" "filters_as_documented deliver" "names_all keyFunc"
    and "ct_cfg c0 = cfg" "ct_resourceFilter c0 = controller_filter cfg"
  shows "nothing_lost deliver keyFunc s"
proof (cases "\<exists>r\<in>seen (ct_resourceFilter c0) (sy_cache s). registered cfg r")
  case True
  then obtain r where r: "r \<in> sy_cache s" "isWatchedResource c0 (object_of r)" "registered cfg r"
    by (auto simp: seen_def isWatchedResource_def)
  with assms(1) have "Added r \<in> set (sy_news s)" "sy_ctrl s = c0" by (simp_all add: initial_def)
  moreover have "\<exists>k. react deliver keyFunc c0 (Added r) = [QAdd k]"
    using r assms(3,4) filtersD(1) [OF assms(2)] handle_adds [of keyFunc "Added r"] by (simp add: react_def)
  ultimately have "pending deliver keyFunc s" by (force simp: pending_def)
  with assms(1) show ?thesis by (simp add: nothing_lost_def initial_def)
next
  case False
  with assms(1,4) up_to_date_initially [of cfg shadows c0 "sy_cache s"] show ?thesis
    by (auto simp: nothing_lost_def initial_def)
qed

lemma life_nothing_lost:
  assumes "life deliver keyFunc numRequeues s0 s" "initial cfg shadows c0 s0" "filters_as_documented deliver"
    and "names_all keyFunc" "ranges_ok cfg" "unambiguous (fresh_tcp cfg) shadows" "unambiguous (fresh_udp cfg) shadows"
  shows "nothing_lost deliver keyFunc s"
  using assms(1)
proof induction
  case started
  from assms(2) have "booted cfg shadows c0" by (simp add: initial_def)
  from initially_nothing_lost [OF assms(2-4)] booted_ok [OF this assms(5-7)] show ?case by simp
next
  case (cluster s s')
  from cluster_step_keeps [OF cluster.hyps(2) cluster.IH assms(3,4)] life_finite [OF cluster.hyps(1) assms(2)] show ?case by blast
next
  case (mesh s s')
  from mesh_step_keeps [OF mesh.hyps(2) mesh.IH assms(3)] life_finite [OF mesh.hyps(1) assms(2)] show ?case by blast
qed

lemma never_missed:
  assumes "life deliver keyFunc numRequeues s0 s" "initial cfg shadows c0 s0" "filters_as_documented deliver"
    and "ranges_ok cfg" "unambiguous (fresh_tcp cfg) shadows" "unambiguous (fresh_udp cfg) shadows" "ACLEnabled cfg"
  shows "\<not> sy_missed s"
  using assms(1)
proof induction
  case started
  with assms(2) show ?case by (simp add: initial_def)
next
  case (cluster s s')
  from life_run [OF cluster.hyps(1) assms(2-6)] have "sy_cfg s = cfg" by blast
  moreover have "registered cfg r" for r using assms(7) by (cases r) simp_all
  ultimately show ?case using cluster.hyps(2) cluster.IH by (auto elim!: cluster_step.cases)
next
  case (mesh s s')
  from mesh.hyps(2) mesh.IH show ?case by (auto elim!: mesh_step.cases)
qed

definition at_rest :: "System \<Rightarrow> bool" where
  "at_rest s \<longleftrightarrow> sy_news s = [] \<and> sy_waiting s = {} \<and> sy_working s = None"

text \<open>C13: Nothing relevant is lost: in every state that a started controller can reach, however changes,
  notifications and work interleave, if no notification is under way, no key waits or is worked on, and none
  was given up since the last publication, then the API serves what the code builds from the watched objects
  as they are now and with the port tables as they are now. Without access control this excludes that a pod
  in use has changed since the last key was taken, for nobody is told of pods then.\<close>

theorem fresh_at_rest:
  assumes "initial cfg shadows c0 s0" "ranges_ok cfg" "unambiguous (fresh_tcp cfg) shadows" "unambiguous (fresh_udp cfg) shadows"
    and "filters_as_documented deliver" "names_all keyFunc" "life deliver keyFunc numRequeues s0 s"
    and "at_rest s" "\<not> sy_gaveUp s" "ACLEnabled cfg \<or> \<not> sy_missed s"
  shows "\<exists>(e :: env) topo topo' conf. listers cfg (seen (controller_filter cfg) (sy_cache s)) (env_cluster e)
     \<and> Build_topology (env_fuel e) (env_schedule e) (env_cluster e) (controller_filter cfg) = Some (Inr topo)
     \<and> enumerates (env_order e) (Services topo)
     \<and> BuildConfig (provider_of (env_ranges e) (sy_ctrl s)) (env_order e) topo = Some (topo', conf)
     \<and> getCurrentTopology (\<lambda>b. True) (ct_store (sy_ctrl s)) = (StatusOK, TopologyBody topo')
     \<and> getCurrentConfiguration (\<lambda>b. True) (ct_store (sy_ctrl s)) = (StatusOK, ConfigBody conf)"
proof -
  from life_run [OF assms(7,1,5,2,3,4)] have c: "ct_cfg (sy_ctrl s) = cfg" "ct_resourceFilter (sy_ctrl s) = controller_filter cfg"
    by blast+
  have "\<not> sy_missed s" using never_missed [OF assms(7,1,5,2,3,4)] assms(10) by blast
  with life_nothing_lost [OF assms(7,1,5,6,2,3,4)] assms(8,9) have "up_to_date (sy_ctrl s) (sy_cache s)"
    by (simp add: nothing_lost_def pending_def at_rest_def)
  then obtain e topo where e: "order_ok (controller_filter cfg) e"
    "listers cfg (seen (controller_filter cfg) (sy_cache s)) (env_cluster e)"
    "Build_topology (env_fuel e) (env_schedule e) (env_cluster e) (controller_filter cfg) = Some (Inr topo)"
    "BuildConfig (provider_of (env_ranges e) (sy_ctrl s)) (env_order e) topo =
       Some (Safe_Get (api_topology (ct_store (sy_ctrl s))), Safe_Get (api_configuration (ct_store (sy_ctrl s))))"
    unfolding up_to_date_def serves_def c by blast
  then have "enumerates (env_order e) (Services topo)" by (simp add: order_ok_def)
  moreover have "getCurrentTopology (\<lambda>b. True) (ct_store (sy_ctrl s)) =
      (StatusOK, TopologyBody (Safe_Get (api_topology (ct_store (sy_ctrl s)))))"
    "getCurrentConfiguration (\<lambda>b. True) (ct_store (sy_ctrl s)) =
      (StatusOK, ConfigBody (Safe_Get (api_configuration (ct_store (sy_ctrl s)))))"
    by (simp_all add: getCurrentTopology_def getCurrentConfiguration_def respond_def)
  ultimately show ?thesis using e(2-4) by - (intro exI conjI, assumption+)
qed

section \<open>Pods without a handler\<close>

text \<open>C34: Without access control no handler is told of pods. When a pod changes while the mesh is at rest, the
  mesh stays at rest: no work is queued and the API goes on serving what it served before, also when an
  Endpoints object refers to the pod and the topology built now would be another one.\<close>

theorem unheard_pods:
  assumes "initial cfg shadows c0 s0" "ranges_ok cfg" "unambiguous (fresh_tcp cfg) shadows" "unambiguous (fresh_udp cfg) shadows"
    and "filters_as_documented deliver" "life deliver keyFunc numRequeues s0 s" "\<not> ACLEnabled cfg"
    and "at_rest s" "changed (sy_cache s) C n" "subject n = RPod pod"
  shows "\<exists>s'. life deliver keyFunc numRequeues s0 s' \<and> at_rest s' \<and> sy_cache s' = C
     \<and> sy_calls s' = sy_calls s \<and> sy_ctrl s' = sy_ctrl s"
proof -
  obtain t where t: "cluster_step s t" "sy_cache t = C" "sy_news t = [n]" "sy_ctrl t = sy_ctrl s" "sy_calls t = sy_calls s"
    "sy_waiting t = {}" "sy_working t = None"
    using cluster_step.intros [OF assms(9)] assms(8) by (fastforce simp: at_rest_def)
  from life_run [OF assms(6,1,5,2-4)] have "sy_cfg s = cfg" by blast
  with t(4) assms(7,10) have "react deliver keyFunc (sy_ctrl t) n = []" by (simp add: react_def)
  with mesh_step.notify [of t "[]" n "[]" "[]" deliver keyFunc numRequeues] t(3)
  have "mesh_step deliver keyFunc numRequeues t (t\<lparr>sy_news := []\<rparr>)" by (simp add: keys_added_def)
  with life.mesh [OF life.cluster [OF assms(6) t(1)]] t show ?thesis
    by (intro exI [of _ "t\<lparr>sy_news := []\<rparr>"]) (simp add: at_rest_def)
qed

section \<open>Services that are no longer watched\<close>

text \<open>C35: A service that an update takes out of what is watched (an ignored app label, the type ExternalName) keeps
  its shadow service: its key is queued, but the worker looks only whether the service still exists, so it
  creates or updates the shadow service and never deletes it, while no topology has the service any more.\<close>

theorem unwatched_service_kept:
  assumes "filters_as_documented deliver" "isWatchedResource c (ServiceObj svc)" "\<not> isWatchedResource c (ServiceObj svc')"
    and "keyFunc (ks_meta svc) = Some key" "env_splitKey e key = Some (ns, n)" "env_services e ns n = Found svc'"
  shows "react deliver keyFunc c (Updated (RService svc) (RService svc')) = [QAdd key]
     \<and> (\<forall>c' call err. syncShadowService e key c = Some (c', Some call, err) \<longrightarrow>
          (\<exists>shadow. call \<in> {CreateService shadow, UpdateService shadow}))
     \<and> (\<forall>b r k. loadResources b (ct_resourceFilter c) = Inr r \<longrightarrow> r_Services r k \<noteq> Some svc')"
proof (intro conjI allI impI)
  show "react deliver keyFunc c (Updated (RService svc) (RService svc')) = [QAdd key]"
    using assms(2-4) filtersD(3) [OF assms(1)] by (simp add: react_def OnDelete_def enqueueWork_def)
next
  fix c' call err assume sync: "syncShadowService e key c = Some (c', Some call, err)"
  let ?cu = "CreateOrUpdate (env_services e (sm_namespace (ct_manager c)) (shadow_name (ct_manager c) ns n))
      (env_topologyKeys e) svc' (ct_manager c)"
  from sync assms(5,6) obtain m r where "?cu = Some (m, r)" by (auto simp: syncShadowService_def Let_def)
  with sync assms(5,6) have "?cu = Some (m, Inr call)" by (cases r) (auto simp: syncShadowService_def Let_def)
  then show "\<exists>shadow. call \<in> {CreateService shadow, UpdateService shadow}"
    by (auto simp: CreateOrUpdate_def Let_def split: lookup.splits option.splits sum.splits)
next
  fix b r k assume "loadResources b (ct_resourceFilter c) = Inr r"
  then show "r_Services r k \<noteq> Some svc'"
    using loadResources_ok assms(3) by (fastforce simp: none_ignored_def isWatchedResource_def)
qed

section \<open>The system comes to rest\<close>

text \<open>A waiting key weighs more than the key worked on, a notification more than the key it adds, and each retry
  takes two away; forgetting a key that waits again gives less back than the finished work was worth.\<close>

definition weight :: "(queue_call list \<Rightarrow> string \<Rightarrow> nat) \<Rightarrow> System \<Rightarrow> nat" where
  "weight numRequeues s = 52 * length (sy_news s)
     + (\<Sum>k\<in>sy_waiting s. 51 - 2 * numRequeues (sy_calls s) k)
     + (case sy_working s of None \<Rightarrow> 0 | Some k \<Rightarrow> 50 - 2 * numRequeues (sy_calls s) k)"

lemma sum_insert_le: "finite A \<Longrightarrow> (\<Sum>k\<in>insert a A. f k) \<le> (\<Sum>k\<in>A. f k) + (f a :: nat)"
  by (cases "a \<in> A") (simp_all add: insert_absorb)

lemma sum_change_one:
  fixes f g :: "'a \<Rightarrow> nat"
  assumes "finite A" "\<And>k. k \<noteq> a \<Longrightarrow> f k = g k"
  shows "(\<Sum>k\<in>A. f k) + (if a \<in> A then g a else 0) = (\<Sum>k\<in>A. g k) + (if a \<in> A then f a else 0)"
proof (cases "a \<in> A")
  case True
  have "(\<Sum>k\<in>A - {a}. f k) = (\<Sum>k\<in>A - {a}. g k)" by (rule sum.cong) (auto intro: assms(2))
  with True sum.remove [OF assms(1) True, of f] sum.remove [OF assms(1) True, of g] show ?thesis by simp
next
  case False
  have "(\<Sum>k\<in>A. f k) = (\<Sum>k\<in>A. g k)" by (rule sum.cong) (use False in \<open>auto intro: assms(2)\<close>)
  with False show ?thesis by simp
qed

lemma mesh_step_lighter:
  assumes "mesh_step deliver keyFunc numRequeues s s'" "finite (sy_waiting s)" "counts_requeues numRequeues"
    and "filters_as_documented deliver" "\<And>k. numRequeues (sy_calls s) k \<le> 12"
  shows "finite (sy_waiting s') \<and> weight numRequeues s' < weight numRequeues s"
  using assms(1)
proof cases
  case (notify xs n ys calls)
  from react_keys [OF assms(4), of keyFunc "sy_ctrl s" n] notify(3) consider "calls = []" | k where "calls = [QAdd k]" by auto
  then show ?thesis
  proof cases
    case 1
    with notify assms(2) show ?thesis by (simp add: weight_def keys_added_def split: option.split)
  next
    case (2 k)
    have "keys_added calls = {k}" using 2 by (auto simp: keys_added_def)
    have "(\<Sum>k\<in>insert k (sy_waiting s). 51 - 2 * numRequeues (sy_calls s) k)
        \<le> (\<Sum>k\<in>sy_waiting s. 51 - 2 * numRequeues (sy_calls s) k) + 51"
      using sum_insert_le [OF assms(2), of "\<lambda>k. 51 - 2 * numRequeues (sy_calls s) k" k] by linarith
    with 2 \<open>keys_added calls = {k}\<close> notify(1,2) assms(2) show ?thesis by (simp add: weight_def counts_requeuesD [OF assms(3)] split: option.split)
  qed
next
  case (take_key key)
  have "51 - 2 * numRequeues (sy_calls s) key = Suc (50 - 2 * numRequeues (sy_calls s) key)" using assms(5) [of key] by simp
  with take_key assms(2) sum.remove [OF assms(2) take_key(3), of "\<lambda>k. 51 - 2 * numRequeues (sy_calls s) k"] show ?thesis
    by (simp add: weight_def)
next
  case (finish key e c' new)
  let ?n = "numRequeues (sy_calls s)" and ?m = "numRequeues (sy_calls s @ new)"
  let ?W = "sy_waiting s"
  have n: "?n key \<le> 12" by (rule assms(5))
  have dn: "numRequeues (calls @ [call, QDone key]) j = numRequeues (calls @ [call]) j" for calls call j
    using counts_requeuesD(3) [OF assms(3), of "calls @ [call]" key j] by simp
  from work_calls [OF finish(6)] consider "new = [QForget key, QDone key]"
    | "new = [QAddRateLimited key, QDone key]" "?n key < 12" by (auto simp: maxRetries_def)
  then show ?thesis
  proof cases
    case 1
    then have m: "?m j = (if j = key then 0 else ?n j)" for j by (simp add: dn counts_requeuesD [OF assms(3)])
    have "keys_added new = {}" using 1 by (simp add: keys_added_def)
    with finish(1,2) m n assms(2) sum_change_one [OF assms(2), of key "\<lambda>k. 51 - 2 * ?m k" "\<lambda>k. 51 - 2 * ?n k"] show ?thesis
      by (simp add: weight_def split: if_splits)
  next
    case 2
    then have m: "?m j = (if j = key then Suc (?n j) else ?n j)" for j by (simp add: dn counts_requeuesD [OF assms(3)])
    have "keys_added new = {key}" using 2 by (auto simp: keys_added_def)
    with finish(1,2) m n 2(2) assms(2) sum_change_one [OF assms(2), of key "\<lambda>k. 51 - 2 * ?m k" "\<lambda>k. 51 - 2 * ?n k"]
      sum_insert_le [OF assms(2), of "\<lambda>k. 51 - 2 * ?m k" key] show ?thesis
      by (simp add: weight_def split: if_splits)
  qed
qed

text \<open>Only at rest is there no step to make.\<close>

lemma mesh_step_exists:
  assumes "finite (sy_cache s)" "inj_on identity (sy_cache s)" "controller_ok c0 (sy_ctrl s)" "\<not> at_rest s"
  shows "\<exists>s'. mesh_step deliver keyFunc numRequeues s s'"
proof (cases "sy_news s")
  case (Cons n ns)
  with mesh_step.notify [of s "[]" n ns _ deliver keyFunc numRequeues] show ?thesis by auto
next
  case news: Nil
  show ?thesis
  proof (cases "sy_working s")
    case None
    with assms(4) news obtain key where "key \<in> sy_waiting s" by (auto simp: at_rest_def)
    from mesh_step.take_key [OF None this] show ?thesis by blast
  next
    case (Some key)
    let ?c = "sy_ctrl s" let ?flt = "ct_resourceFilter ?c"
    obtain b where b: "listers (ct_cfg ?c) (sy_cache s) b" using listers_exist [OF assms(1)] by blast
    obtain e where e: "env_ok ?flt e" "order_ok ?flt e" "env_cluster e = b" using env_exists by blast
    have "controller_ok ?c ?c" using assms(3) by (simp add: controller_ok_def)
    from process_ok [OF this e(1), of "numRequeues (sy_calls s) key" key] obtain c' new
      where work: "processNextWorkItem e (numRequeues (sy_calls s) key) key ?c = Some (c', new)" by blast
    have "\<exists>C. inj_on identity C \<and> alike (ct_cfg ?c) ?flt C (sy_cache s) \<and> listers (ct_cfg ?c) C (env_cluster e)"
      using assms(2) b e(3) by (intro exI [of _ "sy_cache s"]) simp
    from mesh_step.finish [where numRequeues = numRequeues and s = s, OF Some e(1,2) this work] show ?thesis by blast
  qed
qed

lemma mesh_steps_life:
  "(mesh_step deliver keyFunc numRequeues)\<^sup>*\<^sup>* s s' \<Longrightarrow> life deliver keyFunc numRequeues s0 s \<Longrightarrow> life deliver keyFunc numRequeues s0 s'"
  by (induction rule: rtranclp_induct) (auto intro: life.mesh)

lemma life_weight:
  assumes "initial cfg shadows c0 s0" "ranges_ok cfg" "unambiguous (fresh_tcp cfg) shadows" "unambiguous (fresh_udp cfg) shadows"
    and "filters_as_documented deliver" "counts_requeues numRequeues" "life deliver keyFunc numRequeues s0 s"
    and "mesh_step deliver keyFunc numRequeues s s'"
  shows "weight numRequeues s' < weight numRequeues s"
proof -
  from life_run [OF assms(7,1,5,2,3,4)] retries_bounded [OF assms(6)] have "numRequeues (sy_calls s) k \<le> 12" for k by blast
  with mesh_step_lighter [OF assms(8) _ assms(6,5)] life_finite [OF assms(7,1)] show ?thesis by blast
qed

text \<open>C14: Without further changes of the cluster the system comes to rest, however the notifications and the
  work interleave and whatever work fails: from a reachable state there are at most as many steps as its
  weight, and every state that is not at rest has a next step.\<close>

theorem comes_to_rest:
  assumes "initial cfg shadows c0 s0" "ranges_ok cfg" "unambiguous (fresh_tcp cfg) shadows" "unambiguous (fresh_udp cfg) shadows"
    and "filters_as_documented deliver" "counts_requeues numRequeues" "life deliver keyFunc numRequeues s0 s"
  shows "(\<forall>n s'. (mesh_step deliver keyFunc numRequeues ^^ n) s s' \<longrightarrow> n \<le> weight numRequeues s)
     \<and> (\<forall>s'. (mesh_step deliver keyFunc numRequeues)\<^sup>*\<^sup>* s s' \<longrightarrow>
          at_rest s' \<or> (\<exists>s''. mesh_step deliver keyFunc numRequeues s' s''))"
proof (intro conjI allI impI)
  fix n s' assume "(mesh_step deliver keyFunc numRequeues ^^ n) s s'"
  then have "n + weight numRequeues s' \<le> weight numRequeues s"
  proof (induction n arbitrary: s')
    case (Suc n)
    then obtain t where t: "(mesh_step deliver keyFunc numRequeues ^^ n) s t" "mesh_step deliver keyFunc numRequeues t s'" by auto
    have "life deliver keyFunc numRequeues s0 t" using mesh_steps_life [OF relpowp_imp_rtranclp [OF t(1)] assms(7)] .
    from life_weight [OF assms(1-6) this t(2)] Suc.IH [OF t(1)] show ?case by simp
  qed simp
  then show "n \<le> weight numRequeues s" by simp
next
  fix s' assume "(mesh_step deliver keyFunc numRequeues)\<^sup>*\<^sup>* s s'"
  from mesh_steps_life [OF this assms(7)] have life: "life deliver keyFunc numRequeues s0 s'" .
  from life_run [OF life assms(1,5,2,3,4)] life_finite [OF life assms(1)] mesh_step_exists [of s' c0]
  show "at_rest s' \<or> (\<exists>s''. mesh_step deliver keyFunc numRequeues s' s'')" by blast
qed

section \<open>A life of the small installation\<close>

fun ex_deliver :: filtering where
  "ex_deliver p (Added r) = (if p (object_of r) then Some (Added r) else None)"
| "ex_deliver p (Deleted r) = (if p (object_of r) then Some (Deleted r) else None)"
| "ex_deliver p (Updated r r') =
     (if p (object_of r') then (if p (object_of r) then Some (Updated r r') else Some (Added r'))
      else if p (object_of r) then Some (Deleted r) else None)"

lemma ex_deliver_filters: "filters_as_documented ex_deliver"
  by (simp add: filters_as_documented_def)

lemma ex_key_names: "names_all ex_key"
  by (simp add: names_all_def ex_key_def)

definition ex_route :: Resource where
  "ex_route = RTCPRoute \<lparr>tcr_meta = ex_meta ''route''\<rparr>"

definition ex_system :: "Controller \<Rightarrow> Resource set \<Rightarrow> notification list \<Rightarrow> System" where
  "ex_system c C news = \<lparr>sy_ctrl = c, sy_cache = C, sy_news = news, sy_calls = [], sy_waiting = {}, sy_working = None,
     sy_touched = False, sy_missed = False, sy_gaveUp = False\<rparr>"

lemma ex_initial:
  "booted cfg shadows c \<Longrightarrow> registered cfg r \<Longrightarrow> initial cfg shadows c (ex_system c {r} [Added r])"
  by (auto simp: initial_def ex_system_def)

text \<open>One object in the caches: its notification queues work, and the work ends at rest.\<close>

lemma ex_life:
  assumes "booted ex_cfg [ex_shadow] c"
  shows "\<exists>s. life ex_deliver ex_key ex_requeues (ex_system c {ex_route} [Added ex_route]) s \<and> at_rest s \<and> \<not> sy_gaveUp s
     \<and> sy_cache s = {ex_route} \<and> sy_calls s = [QAdd configRefreshKey, QForget configRefreshKey, QDone configRefreshKey]"
proof -
  let ?s0 = "ex_system c {ex_route} [Added ex_route]" and ?flt = "controller_filter ex_cfg"
  note ok = booted_ok [OF assms ex_ranges ex_unambiguous]
  have "isWatchedResource c (object_of ex_route)"
    using ex_filter(1) [of "ex_meta ''route''"] ok(4) by (simp add: isWatchedResource_def ex_route_def ex_meta_def)
  then have react: "react ex_deliver ex_key c (Added ex_route) = [QAdd configRefreshKey]"
    using ok(3) by (simp add: react_def ex_route_def OnAdd_def enqueueWork_def)
  define s1 where "s1 = ?s0\<lparr>sy_news := [], sy_calls := [QAdd configRefreshKey], sy_waiting := {configRefreshKey}\<rparr>"
  have "mesh_step ex_deliver ex_key ex_requeues ?s0 s1"
    using mesh_step.notify [of ?s0 "[]" "Added ex_route" "[]" _ ex_deliver ex_key ex_requeues] react
    by (simp add: s1_def ex_system_def keys_added_def)
  define s2 where "s2 = s1\<lparr>sy_waiting := {}, sy_working := Some configRefreshKey\<rparr>"
  have "mesh_step ex_deliver ex_key ex_requeues s1 s2"
    using mesh_step.take_key [of s1 configRefreshKey ex_deliver ex_key ex_requeues] by (simp add: s1_def s2_def ex_system_def)
  obtain b where b: "listers ex_cfg {ex_route} b" using listers_exist by blast
  obtain e where e: "env_ok ?flt e" "order_ok ?flt e" "env_cluster e = b" using env_exists by blast
  have "controller_ok c c" using ok by (simp add: controller_ok_def)
  from process_ok [OF this, of e 0 configRefreshKey] e(1) ok(4) obtain c' new where
    work: "processNextWorkItem e 0 configRefreshKey c = Some (c', new)" by auto
  have good: "work_succeeds e configRefreshKey c" using listers_load [OF b] e(3) by (simp add: work_succeeds_def)
  with work_publishes [OF work] have new: "new = [QForget configRefreshKey, QDone configRefreshKey]" by blast
  define s3 where "s3 = s2\<lparr>sy_ctrl := c', sy_calls := sy_calls s2 @ new, sy_working := None\<rparr>"
  have "\<exists>C. inj_on identity C \<and> alike (sy_cfg s2) (sy_filter s2) C (sy_cache s2) \<and> listers (sy_cfg s2) C (env_cluster e)"
    using b e(3) ok(3) by (intro exI [of _ "{ex_route}"]) (simp add: s2_def s1_def ex_system_def)
  from mesh_step.finish [where numRequeues = ex_requeues and s = s2, OF _ _ _ this, of configRefreshKey c' new ex_deliver ex_key]
  have "mesh_step ex_deliver ex_key ex_requeues s2 s3"
    using e(1,2) work good new ok(4)
    by (simp add: s3_def s2_def s1_def ex_system_def keys_added_def ex_requeues_def)
  with \<open>mesh_step ex_deliver ex_key ex_requeues ?s0 s1\<close> \<open>mesh_step ex_deliver ex_key ex_requeues s1 s2\<close>
  have "life ex_deliver ex_key ex_requeues ?s0 s3" by (meson life.intros)
  moreover have "at_rest s3" "\<not> sy_gaveUp s3" "sy_cache s3 = {ex_route}"
    "sy_calls s3 = [QAdd configRefreshKey, QForget configRefreshKey, QDone configRefreshKey]"
    by (simp_all add: s3_def s2_def s1_def ex_system_def at_rest_def new)
  ultimately show ?thesis by blast
qed

lemma fresh_at_rest_witness:
  "\<exists>c s conf. booted ex_cfg [ex_shadow] c \<and> life ex_deliver ex_key ex_requeues (ex_system c {ex_route} [Added ex_route]) s
     \<and> sy_calls s \<noteq> [] \<and> getCurrentConfiguration (\<lambda>b. True) (ct_store (sy_ctrl s)) = (StatusOK, ConfigBody conf)"
proof -
  obtain c where c: "booted ex_cfg [ex_shadow] c" using ex_booted by blast
  have "registered ex_cfg ex_route" by (simp add: ex_route_def)
  note init = ex_initial [OF c this]
  from ex_life [OF c] obtain s where s: "life ex_deliver ex_key ex_requeues (ex_system c {ex_route} [Added ex_route]) s"
    "at_rest s" "\<not> sy_gaveUp s" "sy_calls s \<noteq> []" by auto
  from fresh_at_rest [OF init ex_ranges ex_unambiguous ex_deliver_filters ex_key_names s(1-3)] ex_cfg_simps(7) c s(1,4)
  show ?thesis by blast
qed

lemma comes_to_rest_witness:
  "\<exists>c. booted ex_cfg [ex_shadow] c \<and> {n. \<exists>s'. (mesh_step ex_deliver ex_key ex_requeues ^^ n)
     (ex_system c {ex_route} [Added ex_route]) s'} \<subseteq> {..52}"
proof -
  obtain c where c: "booted ex_cfg [ex_shadow] c" using ex_booted by blast
  have "registered ex_cfg ex_route" by (simp add: ex_route_def)
  from comes_to_rest [OF ex_initial [OF c this] ex_ranges ex_unambiguous ex_deliver_filters ex_requeues_counts life.started, of ex_key]
  have "(mesh_step ex_deliver ex_key ex_requeues ^^ n) (ex_system c {ex_route} [Added ex_route]) s' \<Longrightarrow> n \<le> 52" for n s'
    by (auto simp: weight_def ex_system_def)
  with c show ?thesis by auto
qed

text \<open>The same installation without access control, and nothing in the caches.\<close>

definition ex_open_cfg :: ControllerConfig where
  "ex_open_cfg = mesh_config False False ''http'' ''mesh'' [] [] 10 25 25"

lemma ex_open_facts:
  "ranges_ok ex_open_cfg" "unambiguous m []" "\<not> ACLEnabled ex_open_cfg" "DefaultMode ex_open_cfg = ''http''"
  "cc_MinHTTPPort ex_open_cfg = 5000" "cc_MaxHTTPPort ex_open_cfg = 5009" "cc_Namespace ex_open_cfg = ''mesh''"
  "controller_filter ex_open_cfg = controller_filter ex_cfg"
  by (simp_all add: ranges_ok_def ex_open_cfg_def mesh_config_def getMaxPort_def unambiguous_def listed_ports_def
      controller_filter_def ex_cfg_def)

lemma ex_open_booted: "\<exists>c. booted ex_open_cfg [] c"
proof -
  have "startInformers ex_synced c" for c by (simp add: startInformers_iff ex_synced_def)
  then have "snd (Run_start ex_synced (Some []) (Some []) (NewMeshController ex_open_cfg ex_api)) = None"
    by (simp add: Run_start_def loadPortMappersState_def LoadState_def Let_def)
  then show ?thesis unfolding booted_def using ex_new_api by (metis prod.collapse)
qed

lemma unheard_pods_witness:
  "\<exists>c s. booted ex_open_cfg [] c \<and> life ex_deliver ex_key ex_requeues (ex_system c {} []) s
     \<and> at_rest s \<and> sy_cache s = {RPod ex_pod} \<and> sy_calls s = []"
proof -
  obtain c where c: "booted ex_open_cfg [] c" using ex_open_booted ..
  have init: "initial ex_open_cfg [] c (ex_system c {} [])" using c by (simp add: initial_def ex_system_def)
  have rest: "at_rest (ex_system c {} [])" by (simp add: at_rest_def ex_system_def)
  have ch: "changed (sy_cache (ex_system c {} [])) {RPod ex_pod} (Added (RPod ex_pod))"
    using changed.added [of "RPod ex_pod" "{}"] by (simp add: ex_system_def)
  from unheard_pods [OF init ex_open_facts(1,2,2) ex_deliver_filters life.started ex_open_facts(3) rest ch, of ex_pod ex_key ex_requeues] c
  show ?thesis by (auto simp: ex_system_def)
qed

lemma unwatched_service_kept_witness:
  "\<exists>c' shadow. react ex_deliver ex_key (NewMeshController ex_cfg ex_api)
       (Updated (RService ex_service) (RService (ex_service\<lparr>ks_Type := ServiceTypeExternalName\<rparr>))) = [QAdd ''ns/svc'']
     \<and> syncShadowService (ex_env\<lparr>env_services := (\<lambda>ns n. if ns = ''ns'' \<and> n = ''svc''
           then Found (ex_service\<lparr>ks_Type := ServiceTypeExternalName\<rparr>) else NotFound)\<rparr>) ''ns/svc'' (NewMeshController ex_cfg ex_api)
         = Some (c', Some (CreateService shadow), None)"
proof -
  let ?c = "NewMeshController ex_cfg ex_api" and ?svc = "ex_service\<lparr>ks_Type := ServiceTypeExternalName\<rparr>"
  let ?e = "ex_env\<lparr>env_services := (\<lambda>ns n. if ns = ''ns'' \<and> n = ''svc'' then Found ?svc else NotFound)\<rparr>"
  have flt: "ct_resourceFilter ?c = controller_filter ex_cfg" by (simp add: NewMeshController_def)
  have w: "isWatchedResource ?c (ServiceObj ex_service)" using ex_filter(2) flt by (simp add: isWatchedResource_def)
  have nw: "\<not> isWatchedResource ?c (ServiceObj ?svc)" by (simp add: isWatchedResource_def IsIgnored_service_iff)
  have key: "ex_key (ks_meta ex_service) = Some ''ns/svc''" by (simp add: ex_key_def ex_service_def ex_meta_def)
  have e: "env_splitKey ?e ''ns/svc'' = Some (''ns'', ''svc'')" "env_services ?e ''ns'' ''svc'' = Found ?svc"
    by (simp_all add: ex_env_def)
  have "\<exists>c' shadow. syncShadowService ?e ''ns/svc'' ?c = Some (c', Some (CreateService shadow), None)"
    by (simp add: syncShadowService_def ex_env_def CreateOrUpdate_def Let_def removeUnusedPortMappings_def
        getShadowServicePorts_def ex_service_def ex_meta_def NewMeshController_def NewShadowServiceManager_def
        GetTrafficType_def ex_cfg_simps)
  with unwatched_service_kept [of ex_deliver ?c ex_service ?svc ex_key, OF ex_deliver_filters w nw key e] show ?thesis by blast
qed

end
