(* ===== verification/Process.thy ===== *)
theory Process
  imports ControllerInvariant
begin

text \<open>
  The process of the mesh command, \<open>traefikMeshCommand\<close> of \<open>cmd/mesh/mesh.go\<close> once everything is built, with
  \<open>ContextWithSignal\<close> (\<open>cmd/context.go\<close>) and \<open>Run\<close> and \<open>Shutdown\<close> of the controller: five goroutines that meet in
  channels and wait groups. One step is one action of one goroutine. What is shown: nothing blocks on an
  error channel, and after a reason to stop the command returns, unless the shutdown overtakes the start of the
  worker: then it hangs.
\<close>

section \<open>State\<close>

text \<open>The goroutine of \<open>ContextWithSignal\<close>: not yet receiving, receiving, and after \<open>cancel\<close>.\<close>

datatype signal_phase = Unready | Receiving | Cancelled

text \<open>The goroutine of the API server: in \<open>ListenAndServe\<close>, sending its error, done.\<close>

datatype api_phase = ApiServing | ApiSending | ApiDone

text \<open>The goroutine of the controller: in \<open>Run\<close> before the worker, waiting for \<open>stopCh\<close>, in the deferred
  function with the result of \<open>Run\<close>, sending its error, done.\<close>

datatype ctrl_phase = CtrlStarting | CtrlWaiting | CtrlLeaving "start_error option" | CtrlSending | CtrlDone

text \<open>The goroutine of \<open>wait.Until\<close>: not started, before its first look at \<open>stopCh\<close>, in \<open>runWorker\<close>, returned
  without having called \<open>runWorker\<close>, returned after it.\<close>

datatype worker_phase = NoWorker | WorkerReady | WorkerBusy | WorkerSkipped | WorkerGone

datatype main_phase = Selecting | StoppingAPI | Waiting | Finished

record Process =
  px_main :: main_phase
  px_signal :: signal_phase
  px_api :: api_phase
  px_apiShutdown :: bool
  px_apiErrCh :: nat          \<comment> \<open>messages in the channel, whose capacity is one\<close>
  px_ctrl :: ctrl_phase
  px_ctrlErrCh :: nat
  px_controller :: Controller
  px_worker :: worker_phase
  px_queueDown :: bool
  px_items :: nat             \<comment> \<open>items in the work queue\<close>
  px_runGroup :: nat          \<comment> \<open>the wait group of \<open>Run\<close>\<close>
  px_wg :: nat                \<comment> \<open>the wait group of the command\<close>

definition command_start :: "Controller \<Rightarrow> Process" where
  "command_start c = \<lparr>px_main = Selecting, px_signal = Unready, px_api = ApiServing, px_apiShutdown = False,
     px_apiErrCh = 0, px_ctrl = CtrlStarting, px_ctrlErrCh = 0, px_controller = c, px_worker = NoWorker,
     px_queueDown = False, px_items = 0, px_runGroup = 0, px_wg = 2\<rparr>"

abbreviation stopped :: "Process \<Rightarrow> bool" where
  "stopped s \<equiv> ct_stopped (px_controller s)"

section \<open>Steps\<close>

text \<open>What comes from outside: a signal (one that comes before somebody receives is lost, the channel has no
  buffer), a failure of the API server, work for the queue.\<close>

inductive outside :: "Process \<Rightarrow> Process \<Rightarrow> bool" where
  signal: "px_signal s = Receiving \<Longrightarrow> outside s (s\<lparr>px_signal := Cancelled\<rparr>)"
| api_fails: "px_api s = ApiServing \<Longrightarrow> outside s (s\<lparr>px_api := ApiSending\<rparr>)"
| enqueue: "\<not> px_queueDown s \<Longrightarrow> outside s (s\<lparr>px_items := Suc (px_items s)\<rparr>)"

text \<open>
  The steps of the program. \<open>untilSkips\<close> is what \<open>wait.Until\<close> of apimachinery does with a channel that is closed
  before its first look: it does not call its function. \<open>ListenAndServe\<close> returns once \<open>Shutdown\<close> was called,
  the queue hands out what it holds and then tells the worker to quit.
\<close>

inductive proceeds :: "bool \<Rightarrow> Process \<Rightarrow> Process \<Rightarrow> bool" for untilSkips :: bool where
  receive: "px_signal s = Unready \<Longrightarrow> proceeds untilSkips s (s\<lparr>px_signal := Receiving\<rparr>)"
| api_closed: "px_api s = ApiServing \<Longrightarrow> px_apiShutdown s \<Longrightarrow>
    proceeds untilSkips s (s\<lparr>px_api := ApiDone, px_wg := px_wg s - 1\<rparr>)"
| api_send: "px_api s = ApiSending \<Longrightarrow> px_apiErrCh s < 1 \<Longrightarrow>
    proceeds untilSkips s (s\<lparr>px_api := ApiDone, px_apiErrCh := Suc (px_apiErrCh s), px_wg := px_wg s - 1\<rparr>)"
| run_starts: "px_ctrl s = CtrlStarting \<Longrightarrow> Run_start i tcp udp (px_controller s) = (c, None) \<Longrightarrow>
    proceeds untilSkips s (s\<lparr>px_ctrl := CtrlWaiting, px_controller := c, px_runGroup := Suc (px_runGroup s), px_worker := WorkerReady\<rparr>)"
| run_fails: "px_ctrl s = CtrlStarting \<Longrightarrow> Run_start i tcp udp (px_controller s) = (c, Some err) \<Longrightarrow>
    proceeds untilSkips s (s\<lparr>px_ctrl := CtrlLeaving (Some err), px_controller := c, px_queueDown := True\<rparr>)"
| run_stops: "px_ctrl s = CtrlWaiting \<Longrightarrow> stopped s \<Longrightarrow>
    proceeds untilSkips s (s\<lparr>px_ctrl := CtrlLeaving None, px_queueDown := True\<rparr>)"
| run_returns: "px_ctrl s = CtrlLeaving None \<Longrightarrow> px_runGroup s = 0 \<Longrightarrow>
    proceeds untilSkips s (s\<lparr>px_ctrl := CtrlDone, px_wg := px_wg s - 1\<rparr>)"
| run_returns_error: "px_ctrl s = CtrlLeaving (Some err) \<Longrightarrow> px_runGroup s = 0 \<Longrightarrow>
    proceeds untilSkips s (s\<lparr>px_ctrl := CtrlSending\<rparr>)"
| ctrl_send: "px_ctrl s = CtrlSending \<Longrightarrow> px_ctrlErrCh s < 1 \<Longrightarrow>
    proceeds untilSkips s (s\<lparr>px_ctrl := CtrlDone, px_ctrlErrCh := Suc (px_ctrlErrCh s), px_wg := px_wg s - 1\<rparr>)"
| worker_skips: "px_worker s = WorkerReady \<Longrightarrow> stopped s \<Longrightarrow> untilSkips \<Longrightarrow>
    proceeds untilSkips s (s\<lparr>px_worker := WorkerSkipped\<rparr>)"
| worker_starts: "px_worker s = WorkerReady \<Longrightarrow> \<not> stopped s \<or> \<not> untilSkips \<Longrightarrow>
    proceeds untilSkips s (s\<lparr>px_worker := WorkerBusy\<rparr>)"
| worker_works: "px_worker s = WorkerBusy \<Longrightarrow> px_items s = Suc k \<Longrightarrow>
    proceeds untilSkips s (s\<lparr>px_items := k\<rparr>)"
| worker_quits: "px_worker s = WorkerBusy \<Longrightarrow> px_items s = 0 \<Longrightarrow> px_queueDown s \<Longrightarrow>
    proceeds untilSkips s (s\<lparr>px_worker := WorkerGone, px_runGroup := px_runGroup s - 1\<rparr>)"
| on_signal: "px_main s = Selecting \<Longrightarrow> px_signal s = Cancelled \<Longrightarrow>
    proceeds untilSkips s (s\<lparr>px_main := StoppingAPI, px_controller := Shutdown (px_controller s)\<rparr>)"
| on_api_error: "px_main s = Selecting \<Longrightarrow> px_apiErrCh s = Suc k \<Longrightarrow>
    proceeds untilSkips s (s\<lparr>px_main := Waiting, px_apiErrCh := k, px_controller := Shutdown (px_controller s)\<rparr>)"
| on_ctrl_error: "px_main s = Selecting \<Longrightarrow> px_ctrlErrCh s = Suc k \<Longrightarrow>
    proceeds untilSkips s (s\<lparr>px_main := StoppingAPI, px_ctrlErrCh := k\<rparr>)"
| stop_api: "px_main s = StoppingAPI \<Longrightarrow> proceeds untilSkips s (s\<lparr>px_main := Waiting, px_apiShutdown := True\<rparr>)"
| return_nil: "px_main s = Waiting \<Longrightarrow> px_wg s = 0 \<Longrightarrow> proceeds untilSkips s (s\<lparr>px_main := Finished\<rparr>)"

inductive command :: "bool \<Rightarrow> Controller \<Rightarrow> Process \<Rightarrow> bool" for untilSkips :: bool and c :: Controller where
  start: "command untilSkips c (command_start c)"
| outside: "command untilSkips c s \<Longrightarrow> outside s s' \<Longrightarrow> command untilSkips c s'"
| proceed: "command untilSkips c s \<Longrightarrow> proceeds untilSkips s s' \<Longrightarrow> command untilSkips c s'"

section \<open>Invariant\<close>

text \<open>Both groups count the goroutines that still owe a \<open>Done\<close>.\<close>

fun api_owes :: "api_phase \<Rightarrow> nat" where
  "api_owes ApiDone = 0" | "api_owes ApiServing = 1" | "api_owes ApiSending = 1"

fun ctrl_owes :: "ctrl_phase \<Rightarrow> nat" where
  "ctrl_owes CtrlDone = 0" | "ctrl_owes CtrlStarting = 1" | "ctrl_owes CtrlWaiting = 1"
| "ctrl_owes (CtrlLeaving r) = 1" | "ctrl_owes CtrlSending = 1"

fun worker_owes :: "worker_phase \<Rightarrow> nat" where
  "worker_owes NoWorker = 0" | "worker_owes WorkerReady = 1" | "worker_owes WorkerBusy = 1"
| "worker_owes WorkerSkipped = 1" | "worker_owes WorkerGone = 0"

text \<open>The worker exists once \<open>Run\<close> has started it, and is gone when \<open>Run\<close> has returned.\<close>

fun worker_fits :: "ctrl_phase \<Rightarrow> worker_phase \<Rightarrow> bool" where
  "worker_fits CtrlStarting w = (w = NoWorker)"
| "worker_fits CtrlWaiting w = (w \<noteq> NoWorker \<and> w \<noteq> WorkerGone)"
| "worker_fits (CtrlLeaving None) w = (w \<noteq> NoWorker)"
| "worker_fits (CtrlLeaving (Some err)) w = (w = NoWorker)"
| "worker_fits CtrlSending w = (w = NoWorker)"
| "worker_fits CtrlDone w = (w = NoWorker \<or> w = WorkerGone)"

fun queue_down :: "ctrl_phase \<Rightarrow> bool" where
  "queue_down CtrlStarting = False" | "queue_down CtrlWaiting = False" | "queue_down (CtrlLeaving r) = True"
| "queue_down CtrlSending = True" | "queue_down CtrlDone = True"

text \<open>While the select waits nothing was stopped, and who is done without it has left a message; afterwards
  whoever is not done was told to stop.\<close>

fun main_fits :: "main_phase \<Rightarrow> bool \<Rightarrow> bool \<Rightarrow> api_phase \<Rightarrow> ctrl_phase \<Rightarrow> nat \<Rightarrow> nat \<Rightarrow> bool" where
  "main_fits Selecting stop apiStop api ctrl m n =
     (\<not> stop \<and> \<not> apiStop \<and> (api = ApiDone \<longrightarrow> m = 1) \<and> (ctrl = CtrlDone \<longrightarrow> n = 1) \<and> ctrl \<noteq> CtrlLeaving None)"
| "main_fits StoppingAPI stop apiStop api ctrl m n = (stop \<or> ctrl = CtrlDone)"
| "main_fits Waiting stop apiStop api ctrl m n = ((stop \<or> ctrl = CtrlDone) \<and> (apiStop \<or> api = ApiDone))"
| "main_fits Finished stop apiStop api ctrl m n = (api = ApiDone \<and> ctrl = CtrlDone)"

definition process_ok :: "Process \<Rightarrow> bool" where
  "process_ok s \<longleftrightarrow> px_wg s = api_owes (px_api s) + ctrl_owes (px_ctrl s)
   \<and> px_runGroup s = worker_owes (px_worker s)
   \<and> (px_api s = ApiDone \<or> px_apiErrCh s = 0) \<and> (px_ctrl s = CtrlDone \<or> px_ctrlErrCh s = 0)
   \<and> main_fits (px_main s) (stopped s) (px_apiShutdown s) (px_api s) (px_ctrl s) (px_apiErrCh s) (px_ctrlErrCh s)
   \<and> worker_fits (px_ctrl s) (px_worker s) \<and> (px_queueDown s \<longleftrightarrow> queue_down (px_ctrl s))
   \<and> (px_worker s = WorkerSkipped \<longrightarrow> stopped s)"

lemma Shutdown_stopped [simp]: "ct_stopped (Shutdown c)"
  by (simp add: Shutdown_def)

lemma Run_start_stopped: "Run_start i tcp udp c = (c', r) \<Longrightarrow> ct_stopped c' = ct_stopped c"
  by (auto simp: Run_start_def loadPortMappersState_def Let_def split: if_splits option.splits prod.splits)

lemma owes_0: "api_owes a = 0 \<longleftrightarrow> a = ApiDone" "ctrl_owes r = 0 \<longleftrightarrow> r = CtrlDone"
  by (cases a; simp) (cases r; simp)

lemma main_fits_keeps:
  "main_fits m stop apiStop ApiServing ctrl 0 n \<Longrightarrow> main_fits m stop apiStop ApiSending ctrl 0 n"
  "main_fits m stop apiStop ApiSending ctrl 0 n \<Longrightarrow> main_fits m stop apiStop ApiDone ctrl (Suc 0) n"
  "main_fits m stop True ApiServing ctrl 0 n \<Longrightarrow> main_fits m stop True ApiDone ctrl 0 n"
  "main_fits m stop apiStop api CtrlStarting j 0 \<Longrightarrow> main_fits m stop apiStop api CtrlWaiting j 0"
  "main_fits m stop apiStop api CtrlStarting j 0 \<Longrightarrow> main_fits m stop apiStop api (CtrlLeaving (Some err)) j 0"
  "main_fits m True apiStop api CtrlWaiting j 0 \<Longrightarrow> main_fits m True apiStop api (CtrlLeaving None) j 0"
  "main_fits m stop apiStop api (CtrlLeaving None) j 0 \<Longrightarrow> main_fits m stop apiStop api CtrlDone j 0"
  "main_fits m stop apiStop api (CtrlLeaving (Some err)) j 0 \<Longrightarrow> main_fits m stop apiStop api CtrlSending j 0"
  "main_fits m stop apiStop api CtrlSending j 0 \<Longrightarrow> main_fits m stop apiStop api CtrlDone j (Suc 0)"
  by (cases m; simp)+

lemma worker_fits_leaving: "worker_fits (CtrlLeaving r) w \<longleftrightarrow> (r = None \<longleftrightarrow> w \<noteq> NoWorker)"
  by (cases r) simp_all

lemma worker_fits_keeps:
  "worker_fits r WorkerReady \<Longrightarrow> worker_fits r WorkerBusy" "worker_fits r WorkerReady \<Longrightarrow> worker_fits r WorkerSkipped"
  "queue_down r \<Longrightarrow> worker_fits r WorkerBusy \<Longrightarrow> worker_fits r WorkerGone"
  by (cases r; simp add: worker_fits_leaving)+

lemma outside_ok: "outside s s' \<Longrightarrow> process_ok s \<Longrightarrow> process_ok s'"
  by (erule outside.cases) (auto simp: process_ok_def main_fits_keeps)

lemma proceeds_ok:
  assumes "proceeds u s s'" "process_ok s"
  shows "process_ok s'"
  using assms(1)
proof cases
  case receive
  with assms(2) show ?thesis by (simp add: process_ok_def)
next
  case api_closed
  with assms(2) show ?thesis by (auto simp: process_ok_def main_fits_keeps)
next
  case api_send
  with assms(2) show ?thesis by (auto simp: process_ok_def main_fits_keeps)
next
  case (run_starts i tcp udp c)
  with assms(2) show ?thesis by (auto simp: process_ok_def main_fits_keeps Run_start_stopped)
next
  case (run_fails i tcp udp c err)
  with assms(2) show ?thesis by (auto simp: process_ok_def main_fits_keeps Run_start_stopped)
next
  case run_stops
  with assms(2) show ?thesis by (auto simp: process_ok_def main_fits_keeps)
next
  case run_returns
  with assms(2) show ?thesis by (cases "px_worker s") (auto simp: process_ok_def main_fits_keeps)
next
  case (run_returns_error err)
  with assms(2) show ?thesis by (auto simp: process_ok_def main_fits_keeps)
next
  case ctrl_send
  with assms(2) show ?thesis by (auto simp: process_ok_def main_fits_keeps)
next
  case worker_skips
  with assms(2) show ?thesis by (auto simp: process_ok_def worker_fits_keeps)
next
  case worker_starts
  with assms(2) show ?thesis by (auto simp: process_ok_def worker_fits_keeps)
next
  case (worker_works k)
  with assms(2) show ?thesis by (simp add: process_ok_def)
next
  case worker_quits
  with assms(2) show ?thesis by (auto simp: process_ok_def worker_fits_keeps)
next
  case on_signal
  with assms(2) show ?thesis by (simp add: process_ok_def)
next
  case (on_api_error k)
  with assms(2) show ?thesis by (auto simp: process_ok_def)
next
  case (on_ctrl_error k)
  with assms(2) show ?thesis by (auto simp: process_ok_def)
next
  case stop_api
  with assms(2) show ?thesis by (simp add: process_ok_def)
next
  case return_nil
  with assms(2) show ?thesis by (auto simp: process_ok_def owes_0)
qed

lemma command_ok:
  assumes "command u c s" "\<not> ct_stopped c"
  shows "process_ok s"
  using assms(1)
proof induction
  case start
  with assms(2) show ?case by (simp add: process_ok_def command_start_def)
qed (simp_all add: outside_ok proceeds_ok)

section \<open>The command ends\<close>

fun main_rank :: "main_phase \<Rightarrow> nat" where
  "main_rank Selecting = 3" | "main_rank StoppingAPI = 2" | "main_rank Waiting = 1" | "main_rank Finished = 0"

fun api_rank :: "api_phase \<Rightarrow> nat" where
  "api_rank ApiServing = 2" | "api_rank ApiSending = 1" | "api_rank ApiDone = 0"

fun ctrl_rank :: "ctrl_phase \<Rightarrow> nat" where
  "ctrl_rank CtrlStarting = 4" | "ctrl_rank CtrlWaiting = 3" | "ctrl_rank (CtrlLeaving r) = 2"
| "ctrl_rank CtrlSending = 1" | "ctrl_rank CtrlDone = 0"

fun worker_rank :: "worker_phase \<Rightarrow> nat" where
  "worker_rank NoWorker = 3" | "worker_rank WorkerReady = 2" | "worker_rank WorkerBusy = 1"
| "worker_rank WorkerSkipped = 0" | "worker_rank WorkerGone = 0"

definition rank :: "Process \<Rightarrow> nat" where
  "rank s = main_rank (px_main s) + (if px_signal s = Unready then 1 else 0) + api_rank (px_api s)
     + ctrl_rank (px_ctrl s) + worker_rank (px_worker s) + px_items s"

lemma proceeds_rank: "proceeds u s s' \<Longrightarrow> process_ok s \<Longrightarrow> rank s' < rank s"
  by (erule proceeds.cases) (simp_all add: rank_def process_ok_def)

lemma skipped_only_if: "command u c s \<Longrightarrow> px_worker s = WorkerSkipped \<Longrightarrow> u"
  by (induction rule: command.induct) (auto simp: command_start_def elim!: outside.cases proceeds.cases)

definition stuck :: "bool \<Rightarrow> Process \<Rightarrow> bool" where
  "stuck u s \<longleftrightarrow> (\<forall>s'. \<not> proceeds u s s')"

text \<open>The command serves on and nobody has asked it to stop.\<close>

definition running :: "Process \<Rightarrow> bool" where
  "running s \<longleftrightarrow> px_main s = Selecting \<and> px_signal s = Receiving \<and> px_api s = ApiServing \<and> px_ctrl s = CtrlWaiting
     \<and> \<not> stopped s"

lemma stuck_worker:
  assumes "stuck u s" "process_ok s" "px_queueDown s"
  shows "px_worker s \<in> {NoWorker, WorkerSkipped, WorkerGone}"
proof (cases "px_worker s")
  case WorkerReady
  then show ?thesis using assms(1) proceeds.worker_skips [of s u] proceeds.worker_starts [of s u]
    by (cases "stopped s \<and> u") (auto simp: stuck_def)
next
  case WorkerBusy
  then show ?thesis
    using assms(1,3) proceeds.worker_works [of s _ u] proceeds.worker_quits [of s u] by (cases "px_items s") (auto simp: stuck_def)
qed simp_all

lemma stuck_ctrl:
  assumes "stuck u s" "process_ok s"
  shows "px_ctrl s = CtrlDone \<or> px_ctrl s = CtrlWaiting \<and> \<not> stopped s \<or> px_ctrl s = CtrlLeaving None \<and> px_worker s = WorkerSkipped"
proof (cases "px_ctrl s")
  case CtrlStarting
  obtain c r where "Run_start undefined None None (px_controller s) = (c, r)" by fastforce
  with CtrlStarting assms(1) proceeds.run_starts [of s undefined None None c u] proceeds.run_fails [of s undefined None None c _ u]
  show ?thesis by (cases r) (auto simp: stuck_def)
next
  case CtrlWaiting
  with assms(1) proceeds.run_stops [of s u] show ?thesis by (auto simp: stuck_def)
next
  case (CtrlLeaving r)
  with assms(2) have w: "px_runGroup s = worker_owes (px_worker s)" "worker_fits (CtrlLeaving r) (px_worker s)" "px_queueDown s"
    by (auto simp: process_ok_def)
  from stuck_worker [OF assms w(3)] w CtrlLeaving assms(1) proceeds.run_returns [of s u] proceeds.run_returns_error [of s _ u]
  show ?thesis by (cases r) (auto simp: stuck_def worker_fits_leaving)
next
  case CtrlSending
  with assms proceeds.ctrl_send [of s u] show ?thesis by (auto simp: stuck_def process_ok_def)
qed simp

lemma stuck_cases:
  assumes "stuck u s" "process_ok s"
  shows "px_main s = Finished \<or> running s \<or> px_ctrl s = CtrlLeaving None \<and> px_worker s = WorkerSkipped"
proof -
  note ctrl = stuck_ctrl [OF assms]
  have api: "px_api s = ApiDone \<or> px_api s = ApiServing \<and> \<not> px_apiShutdown s"
    using assms proceeds.api_send [of s u] proceeds.api_closed [of s u] by (cases "px_api s") (auto simp: stuck_def process_ok_def)
  have signal: "px_signal s \<noteq> Unready" using assms(1) proceeds.receive [of s u] by (auto simp: stuck_def)
  show ?thesis
  proof (cases "px_main s")
    case Selecting
    with assms(1) have "px_signal s \<noteq> Cancelled" using proceeds.on_signal [of s u] by (auto simp: stuck_def)
    moreover have "px_apiErrCh s = 0" using Selecting assms(1) proceeds.on_api_error [of s _ u]
      by (cases "px_apiErrCh s") (auto simp: stuck_def)
    moreover have "px_ctrlErrCh s = 0" using Selecting assms(1) proceeds.on_ctrl_error [of s _ u]
      by (cases "px_ctrlErrCh s") (auto simp: stuck_def)
    ultimately show ?thesis using Selecting api ctrl signal assms(2) by (cases "px_signal s") (auto simp: process_ok_def running_def)
  next
    case StoppingAPI
    with assms(1) proceeds.stop_api [of s u] show ?thesis by (auto simp: stuck_def)
  next
    case Waiting
    with assms(1) proceeds.return_nil [of s u] have "px_wg s \<noteq> 0" by (auto simp: stuck_def)
    with Waiting api ctrl assms(2) show ?thesis by (auto simp: process_ok_def)
  qed simp
qed

lemma proceeds_command: "(proceeds u)\<^sup>*\<^sup>* s s' \<Longrightarrow> command u c s \<Longrightarrow> command u c s'"
  by (induction rule: rtranclp_induct) (auto intro: command.proceed)

text \<open>C15: From every state the command can be in, whatever signals, failures and work came, the program makes
  finitely many steps of its own, and where it can make no further one it has returned, or nobody has asked it
  to stop, or the worker was skipped: \<open>stopCh\<close> was closed before \<open>wait.Until\<close> first looked at it.\<close>

theorem command_ends:
  assumes "command untilSkips c s" "\<not> ct_stopped c"
  shows "(\<forall>n s'. (proceeds untilSkips ^^ n) s s' \<longrightarrow> n \<le> rank s)
     \<and> (\<forall>s'. (proceeds untilSkips)\<^sup>*\<^sup>* s s' \<longrightarrow> stuck untilSkips s' \<longrightarrow>
          px_main s' = Finished \<or> running s' \<or> untilSkips \<and> px_worker s' = WorkerSkipped)"
proof (intro conjI allI impI)
  fix n s' assume "(proceeds untilSkips ^^ n) s s'"
  then have "n + rank s' \<le> rank s"
  proof (induction n arbitrary: s')
    case (Suc n)
    then obtain t where t: "(proceeds untilSkips ^^ n) s t" "proceeds untilSkips t s'" by auto
    have "process_ok t" using command_ok [OF proceeds_command [OF relpowp_imp_rtranclp [OF t(1)] assms(1)] assms(2)] .
    from proceeds_rank [OF t(2) this] Suc.IH [OF t(1)] show ?case by simp
  qed simp
  then show "n \<le> rank s" by simp
next
  fix s' assume "(proceeds untilSkips)\<^sup>*\<^sup>* s s'" "stuck untilSkips s'"
  note reach = proceeds_command [OF this(1) assms(1)]
  from stuck_cases [OF \<open>stuck untilSkips s'\<close> command_ok [OF reach assms(2)]] skipped_only_if [OF reach]
  show "px_main s' = Finished \<or> running s' \<or> untilSkips \<and> px_worker s' = WorkerSkipped" by blast
qed

section \<open>The shutdown that overtakes the start\<close>

text \<open>A skipped worker never calls \<open>Done\<close> on the group that \<open>Run\<close> waits for.\<close>

definition hung :: "Process \<Rightarrow> bool" where
  "hung s \<longleftrightarrow> px_worker s = WorkerSkipped \<and> px_runGroup s \<noteq> 0 \<and> px_ctrl s = CtrlLeaving None \<and> px_main s \<noteq> Finished"

lemma hung_stays:
  assumes "outside s s' \<or> proceeds u s s'" "hung s" "process_ok s"
  shows "hung s' \<and> process_ok s'"
proof -
  have "hung s'" if "outside s s'"
    using that assms(2) by (auto simp: hung_def elim: outside.cases)
  moreover have "hung s'" if "proceeds u s s'"
  proof -
    have "px_wg s \<noteq> 0" using assms(2,3) by (simp add: hung_def process_ok_def)
    with that assms(2) show ?thesis by cases (simp_all add: hung_def)
  qed
  ultimately show ?thesis using assms(1,3) outside_ok proceeds_ok by blast
qed

text \<open>C37: A signal that comes just after the controller has started makes the command hang when \<open>stopCh\<close> is
  closed before the goroutine of \<open>wait.Until\<close> has looked at it: the worker is skipped, \<open>Run\<close> waits for a
  \<open>Done\<close> that nobody calls, and whatever happens afterwards, the command never returns.\<close>

theorem shutdown_race:
  assumes "Run_start i tcp udp c = (c', None)" "\<not> ct_stopped c"
  shows "\<exists>s. command True c s \<and> px_signal s = Cancelled
     \<and> (\<forall>s'. (\<lambda>a b. outside a b \<or> proceeds True a b)\<^sup>*\<^sup>* s s' \<longrightarrow> px_main s' \<noteq> Finished)"
proof -
  let ?s1 = "(command_start c)\<lparr>px_signal := Receiving\<rparr>"
  let ?s2 = "?s1\<lparr>px_ctrl := CtrlWaiting, px_controller := c', px_runGroup := 1, px_worker := WorkerReady\<rparr>"
  let ?s3 = "?s2\<lparr>px_signal := Cancelled\<rparr>"
  let ?s4 = "?s3\<lparr>px_main := StoppingAPI, px_controller := Shutdown c'\<rparr>"
  let ?s5 = "?s4\<lparr>px_worker := WorkerSkipped\<rparr>"
  let ?s6 = "?s5\<lparr>px_ctrl := CtrlLeaving None, px_queueDown := True\<rparr>"
  have "proceeds True (command_start c) ?s1" by (rule proceeds.receive) (simp add: command_start_def)
  moreover have "proceeds True ?s1 ?s2"
    using proceeds.run_starts [of ?s1 i tcp udp c' True] assms(1) by (simp add: command_start_def)
  moreover have "outside ?s2 ?s3" using outside.signal [of ?s2] by simp
  moreover have "proceeds True ?s3 ?s4" using proceeds.on_signal [of ?s3 True] by (simp add: command_start_def)
  moreover have "proceeds True ?s4 ?s5" using proceeds.worker_skips [of ?s4 True] by simp
  moreover have "proceeds True ?s5 ?s6" using proceeds.run_stops [of ?s5 True] by simp
  ultimately have reach: "command True c ?s6" by (meson command.intros)
  have start: "hung ?s6" "process_ok ?s6"
    using command_ok [OF reach assms(2)] by (simp_all add: hung_def command_start_def)
  have "hung s' \<and> process_ok s'" if "(\<lambda>a b. outside a b \<or> proceeds True a b)\<^sup>*\<^sup>* ?s6 s'" for s'
    using that by induction (use start hung_stays in blast)+
  with reach show ?thesis by (intro exI [of _ ?s6]) (auto simp: hung_def)
qed

section \<open>A command of the small installation\<close>

lemma ex_runs: "\<exists>c'. Run_start ex_synced (Some [ex_shadow]) (Some [ex_shadow]) (NewMeshController ex_cfg ex_api) = (c', None)"
  "\<not> ct_stopped (NewMeshController ex_cfg ex_api)"
proof -
  have "startInformers ex_synced c" for c by (simp add: startInformers_iff ex_synced_def)
  then have "snd (Run_start ex_synced (Some [ex_shadow]) (Some [ex_shadow]) (NewMeshController ex_cfg ex_api)) = None"
    by (simp add: Run_start_def loadPortMappersState_def LoadState_def Let_def)
  then show "\<exists>c'. Run_start ex_synced (Some [ex_shadow]) (Some [ex_shadow]) (NewMeshController ex_cfg ex_api) = (c', None)"
    by (metis prod.collapse)
qed (simp add: NewMeshController_def)

lemma shutdown_race_witness:
  "\<exists>s. command True (NewMeshController ex_cfg ex_api) s \<and> px_signal s = Cancelled \<and> px_main s \<noteq> Finished"
proof -
  from ex_runs(1) obtain c' where "Run_start ex_synced (Some [ex_shadow]) (Some [ex_shadow]) (NewMeshController ex_cfg ex_api) = (c', None)" ..
  from shutdown_race [OF this ex_runs(2)] show ?thesis by blast
qed

lemma command_ends_witness:
  "{n. \<exists>s'. (proceeds True ^^ n) (command_start (NewMeshController ex_cfg ex_api)) s'} \<subseteq> {..13}"
proof -
  have "rank (command_start (NewMeshController ex_cfg ex_api)) = 13" by (simp add: rank_def command_start_def)
  with command_ends [OF command.start ex_runs(2), of True] show ?thesis by auto
qed

end
