(* ===== verification/Startup.thy ===== *)
theory Startup
  imports Commands Process
begin

text \<open>
  How the mesh command comes to run: the default configuration (\<open>cmd/configuration.go\<close>), the loaders that
  overwrite it (\<open>cmd/loaders.go\<close>), and the first half of
  \<open>traefikMeshCommand\<close> with \<open>main\<close> around it (\<open>cmd/mesh/mesh.go\<close>). The paerser library and the environment of the
  process are arguments.
\<close>

section \<open>Configuration\<close>

record TraefikMeshConfiguration =
  tm_ConfigFile :: string
  tm_KubeConfig :: string
  tm_MasterURL :: string
  tm_LogLevel :: string
  tm_LogFormat :: string
  tm_Debug :: bool
  tm_ACL :: bool
  tm_SMI :: bool
  tm_DefaultMode :: string
  tm_Namespace :: string
  tm_WatchNamespaces :: "string list"
  tm_IgnoreNamespaces :: "string list"
  tm_APIPort :: int32
  tm_APIHost :: string
  tm_LimitHTTPPort :: int32
  tm_LimitTCPPort :: int32
  tm_LimitUDPPort :: int32

definition NewTraefikMeshConfiguration :: "(string \<Rightarrow> string) \<Rightarrow> TraefikMeshConfiguration" where
  "NewTraefikMeshConfiguration getenv =
     \<lparr>tm_ConfigFile = [], tm_KubeConfig = getenv ''KUBECONFIG'', tm_MasterURL = [], tm_LogLevel = ''error'',
      tm_LogFormat = ''common'', tm_Debug = False, tm_ACL = False, tm_SMI = False, tm_DefaultMode = ''http'',
      tm_Namespace = ''maesh'', tm_WatchNamespaces = [], tm_IgnoreNamespaces = [], tm_APIPort = 9000,
      tm_APIHost = [], tm_LimitHTTPPort = 10, tm_LimitTCPPort = 25, tm_LimitUDPPort = 25\<rparr>"

section \<open>Loaders\<close>

datatype load_error = EDecodeEnv | EParseFlags | EFindFile | EDecodeFile

text \<open>\<open>strings.Replace\<close> with \<open>n = 1\<close>.\<close>

definition ReplaceFirst :: "string \<Rightarrow> string \<Rightarrow> string \<Rightarrow> string" where
  "ReplaceFirst s old new =
     (case Index s old of None \<Rightarrow> s | Some i \<Rightarrow> take i s @ new @ drop (i + length old) s)"

definition meshPrefix :: string where "meshPrefix = ''MESH_''"

definition traefikMeshPrefix :: string where "traefikMeshPrefix = ''TRAEFIK_MESH_''"

text \<open>\<open>findPrefixed\<close> and \<open>decode\<close> are \<open>env.FindPrefixedEnvVars\<close> and \<open>env.Decode\<close>. The result is whether the
  loader found anything, with the configuration.\<close>

definition EnvLoader_Load ::
  "(string list \<Rightarrow> string \<Rightarrow> string list) \<Rightarrow> (string list \<Rightarrow> string \<Rightarrow> 'c \<Rightarrow> 'c option) \<Rightarrow> string list \<Rightarrow> 'c \<Rightarrow>
     load_error + bool \<times> 'c" where
  "EnvLoader_Load findPrefixed decode environ cfg =
     (let traefikMeshVars = findPrefixed environ traefikMeshPrefix;
          meshVars = map (\<lambda>v. ReplaceFirst v traefikMeshPrefix meshPrefix) traefikMeshVars
      in if length traefikMeshVars = 0 then Inr (False, cfg)
         else case decode meshVars meshPrefix cfg of
           None \<Rightarrow> Inl EDecodeEnv
         | Some cfg' \<Rightarrow> Inr (True, cfg'))"

text \<open>\<open>search\<close> is \<open>cli.Finder.Find\<close> on the given base paths and extensions, \<open>None\<close> for an error and the empty
  string for nothing found; \<open>decodeFile\<close> is \<open>file.Decode\<close>.\<close>

definition basePaths :: "string list" where
  "basePaths = [''/etc/traefik-mesh/traefik-mesh'', ''$XDG_CONFIG_HOME/traefik-mesh'', ''$HOME/.config/traefik-mesh'',
     ''./traefik-mesh'']"

definition extensions :: "string list" where
  "extensions = [''toml'', ''yaml'', ''yml'']"

definition loadConfigFiles ::
  "(string list \<Rightarrow> string list \<Rightarrow> string \<Rightarrow> string option) \<Rightarrow> (string \<Rightarrow> 'c \<Rightarrow> 'c option) \<Rightarrow> string \<Rightarrow> 'c \<Rightarrow>
     load_error + string \<times> 'c" where
  "loadConfigFiles search decodeFile configFile element =
     (case search basePaths extensions configFile of
        None \<Rightarrow> Inl EFindFile
      | Some filePath \<Rightarrow>
          if length filePath = 0 then Inr ([], element)
          else case decodeFile filePath element of
            None \<Rightarrow> Inl EDecodeFile
          | Some element' \<Rightarrow> Inr (filePath, element'))"

text \<open>\<open>parse\<close> is \<open>flag.Parse\<close>: the values of the flags, or an error. \<open>traefik\<close> is the root name of the parser.\<close>

definition FileLoader_Load ::
  "(string list \<Rightarrow> (string \<Rightarrow> string) option) \<Rightarrow> string \<Rightarrow> (string list \<Rightarrow> string list \<Rightarrow> string \<Rightarrow> string option) \<Rightarrow>
     (string \<Rightarrow> 'c \<Rightarrow> 'c option) \<Rightarrow> string list \<Rightarrow> 'c \<Rightarrow> load_error + bool \<times> 'c" where
  "FileLoader_Load parse rootName search decodeFile args cfg =
     (case parse args of
        None \<Rightarrow> Inl EParseFlags
      | Some ref \<Rightarrow>
          bind_res (loadConfigFiles search decodeFile (ref (rootName @ ''.configFile'')) cfg) (\<lambda>(configFile, cfg').
            if configFile = [] then Inr (False, cfg') else Inr (True, cfg')))"

section \<open>The command up to its goroutines\<close>

datatype startup_error = ECreateLogger cmd_error | EBuildClients client_error | ECreateAPI

text \<open>\<open>synced\<close> are the answers of \<open>WaitForCacheSync\<close> in \<open>NewAPI\<close>.\<close>

definition traefikMeshCommand ::
  "(string \<Rightarrow> bool) \<Rightarrow> ('r, 'k, 'a, 's, 't) client_library \<Rightarrow> (string \<Rightarrow> string) \<Rightarrow> bool list \<Rightarrow>
     TraefikMeshConfiguration \<Rightarrow> startup_error + Process" where
  "traefikMeshCommand parseLevel lib getenv synced config =
     (case NewLogger parseLevel (tm_LogFormat config) (tm_LogLevel config) (tm_Debug config) of
        Some err \<Rightarrow> Inl (ECreateLogger err)
      | None \<Rightarrow>
          (case NewClient lib getenv (tm_MasterURL config) (tm_KubeConfig config) of
             Inl err \<Rightarrow> Inl (EBuildClients err)
           | Inr clients \<Rightarrow>
               (case NewAPI synced (tm_Namespace config) of
                  None \<Rightarrow> Inl ECreateAPI
                | Some apiServer \<Rightarrow>
                    Inr (command_start (NewMeshController
                      (mesh_config (tm_ACL config) (tm_SMI config) (tm_DefaultMode config) (tm_Namespace config)
                        (tm_WatchNamespaces config) (tm_IgnoreNamespaces config) (tm_LimitHTTPPort config)
                        (tm_LimitTCPPort config) (tm_LimitUDPPort config)) apiServer)))))"

text \<open>The exit status of \<open>main\<close>: \<open>added\<close> are the results of \<open>AddCommand\<close> for the three subcommands, \<open>executed\<close> the
  one of \<open>Execute\<close>, which is the error of the command that was chosen.\<close>

definition exit_status :: "bool list \<Rightarrow> bool \<Rightarrow> nat" where
  "exit_status added executed = (if \<not> list_all id added then 1 else if \<not> executed then 1 else 0)"

section \<open>What is shown\<close>

lemma ReplaceFirst_prefix: "old \<noteq> [] \<Longrightarrow> ReplaceFirst (old @ rest) old new = new @ rest"
  using Index_0 [OF HasPrefix_append, of old rest] by (simp add: ReplaceFirst_def)

text \<open>The environment loader hands exactly the variables with the prefix of the mesh to the decoder, in their
  order, with only the prefix shortened: the rest of the name and the value stay as they are, even if they
  contain the prefix again. Without such a variable it leaves the configuration alone, and it never reports
  success when the decoder fails.\<close>

theorem EnvLoader_renames:
  assumes "\<And>v. v \<in> set (findPrefixed environ traefikMeshPrefix) \<Longrightarrow> HasPrefix v traefikMeshPrefix"
  shows "EnvLoader_Load findPrefixed decode environ cfg =
     (case findPrefixed environ traefikMeshPrefix of
        [] \<Rightarrow> Inr (False, cfg)
      | vars \<Rightarrow> (case decode (map (\<lambda>v. meshPrefix @ drop (length traefikMeshPrefix) v) vars) meshPrefix cfg of
            None \<Rightarrow> Inl EDecodeEnv | Some cfg' \<Rightarrow> Inr (True, cfg')))"
proof -
  have "ReplaceFirst v traefikMeshPrefix meshPrefix = meshPrefix @ drop (length traefikMeshPrefix) v"
    if "v \<in> set (findPrefixed environ traefikMeshPrefix)" for v
  proof -
    from assms [OF that] obtain rest where "v = traefikMeshPrefix @ rest" by (auto simp: HasPrefix_iff)
    then show ?thesis using ReplaceFirst_prefix [of traefikMeshPrefix rest meshPrefix] by (simp add: traefikMeshPrefix_def)
  qed
  then have eq: "map (\<lambda>v. ReplaceFirst v traefikMeshPrefix meshPrefix) (findPrefixed environ traefikMeshPrefix) =
      map (\<lambda>v. meshPrefix @ drop (length traefikMeshPrefix) v) (findPrefixed environ traefikMeshPrefix)" by simp
  show ?thesis unfolding EnvLoader_Load_def Let_def eq by (simp split: list.split)
qed

text \<open>A command that starts with the default limits has port ranges the controller can work with, apart for all
  three kinds of traffic; whatever is configured, a command starts only with a logger, all clients and a synced
  API, and then with a controller that is not stopped and reports that it is not ready.\<close>

theorem mesh_command_starts:
  assumes "traefikMeshCommand parseLevel lib getenv synced config = Inr p"
  shows "NewLogger parseLevel (tm_LogFormat config) (tm_LogLevel config) (tm_Debug config) = None \<and> list_all id synced
     \<and> (\<exists>w. NewClient lib getenv (tm_MasterURL config) (tm_KubeConfig config) = Inr w)
     \<and> command untilSkips (px_controller p) p \<and> \<not> stopped p
     \<and> getReadiness (\<lambda>b. True) (ct_store (px_controller p)) = (StatusInternalServerError, EmptyBody)
     \<and> (tm_LimitHTTPPort config = 10 \<and> tm_LimitTCPPort config = 25 \<and> tm_LimitUDPPort config = 25 \<longrightarrow>
          ranges_ok (ct_cfg (px_controller p))
          \<and> sint (cc_MaxTCPPort (ct_cfg (px_controller p))) < sint (cc_MinUDPPort (ct_cfg (px_controller p))))"
proof -
  from assms obtain w a where *: "NewLogger parseLevel (tm_LogFormat config) (tm_LogLevel config) (tm_Debug config) = None"
    "NewClient lib getenv (tm_MasterURL config) (tm_KubeConfig config) = Inr w" "NewAPI synced (tm_Namespace config) = Some a"
    and p: "p = command_start (NewMeshController
        (mesh_config (tm_ACL config) (tm_SMI config) (tm_DefaultMode config) (tm_Namespace config)
           (tm_WatchNamespaces config) (tm_IgnoreNamespaces config) (tm_LimitHTTPPort config)
           (tm_LimitTCPPort config) (tm_LimitUDPPort config)) a)"
    by (auto simp: traefikMeshCommand_def split: option.splits sum.splits)
  have "px_controller (command_start c) = c" for c by (simp add: command_start_def)
  with * p show ?thesis using command.start [of untilSkips]
    by (auto simp: NewAPI_def NewMeshController_def getReadiness_def ranges_ok_def mesh_config_def getMaxPort_def split: if_splits)
qed

section \<open>A start of the small installation\<close>

definition ex_environ :: "string list" where
  "ex_environ = [''PATH=/bin'', ''TRAEFIK_MESH_ACL=true'', ''MESH_DEBUG=true'', ''TRAEFIK_MESH_NAMESPACE=TRAEFIK_MESH_'']"

lemma EnvLoader_renames_witness:
  "EnvLoader_Load (\<lambda>environ prefix. filter (\<lambda>v. HasPrefix v prefix) environ) (\<lambda>vars prefix cfg. Some vars) ex_environ []
     = Inr (True, [''MESH_ACL=true'', ''MESH_NAMESPACE=TRAEFIK_MESH_''])"
  by (subst EnvLoader_renames) (auto simp: ex_environ_def traefikMeshPrefix_def meshPrefix_def)

lemma mesh_command_starts_witness:
  "\<exists>p. traefikMeshCommand (\<lambda>l. True) ex_library ex_getenv [True] (NewTraefikMeshConfiguration ex_getenv) = Inr p
     \<and> ranges_ok (ct_cfg (px_controller p))"
proof -
  have "\<exists>p. traefikMeshCommand (\<lambda>l. True) ex_library ex_getenv [True] (NewTraefikMeshConfiguration ex_getenv) = Inr p"
    by (simp add: traefikMeshCommand_def NewTraefikMeshConfiguration_def NewLogger_def parseLogFormat_def NewClient_def
        buildConfig_def buildKubernetesClient_def buildSmiAccessClient_def buildSmiSpecsClient_def buildSmiSplitClient_def
        ex_library_def ex_getenv_def from_option_def NewAPI_def Let_def)
  then obtain p where p: "traefikMeshCommand (\<lambda>l. True) ex_library ex_getenv [True] (NewTraefikMeshConfiguration ex_getenv) = Inr p" ..
  from mesh_command_starts [OF p, of True] p show ?thesis by (simp add: NewTraefikMeshConfiguration_def)
qed

end
