(* ===== verification/Mirror.thy ===== *)
theory Mirror
  imports Build
begin

text \<open>
  The topology mirrors the cluster: what the nodes for services and pods are made of, through all phases of
  \<open>Builder.Build\<close>. The other theories say which nodes there are and how they refer to each other.
\<close>

section \<open>What later phases leave alone\<close>

text \<open>A service node without what splits and targets add to it, and a pod node without the targets it belongs
  to.\<close>

definition svc_core :: "Service \<Rightarrow> Service" where
  "svc_core s = s\<lparr>svc_TrafficTargets := [], svc_TrafficSplits := [], svc_BackendOf := [], svc_Errors := []\<rparr>"

definition pod_core :: "Pod \<Rightarrow> Pod" where
  "pod_core p = p\<lparr>pod_SourceOf := [], pod_DestinationOf := []\<rparr>"

definition cores :: "Topology \<Rightarrow> Key \<Rightarrow> Service option" where
  "cores t k = map_option svc_core (Services t k)"

lemma cores_cong: "Services t = Services t' \<Longrightarrow> cores t k = cores t' k"
  by (simp add: cores_def)

lemma cores_adjust:
  "(\<And>s. svc_core (f s) = svc_core s) \<Longrightarrow> cores (t\<lparr>Services := adjust k f (Services t)\<rparr>) k' = cores t k'"
  by (cases "Services t k") (auto simp: cores_def adjust_apply)

lemma cores_frame [simp]:
  "cores (t\<lparr>TrafficSplits := x\<rparr>) k = cores t k" "cores (t\<lparr>Pods := ps\<rparr>) k = cores t k"
  "cores (put_stt y stt t) k = cores t k" "cores (split_error k' e t) k = cores t k"
  by (simp_all add: cores_def put_stt_def split_error_def)

lemma svc_core_append [simp]:
  "svc_core (s\<lparr>svc_TrafficSplits := xs\<rparr>) = svc_core s" "svc_core (s\<lparr>svc_BackendOf := xs\<rparr>) = svc_core s"
  "svc_core (s\<lparr>svc_TrafficTargets := ys\<rparr>) = svc_core s"
  by (simp_all add: svc_core_def)

definition service_node :: "resources \<Rightarrow> KService \<Rightarrow> Service" where
  "service_node res svc =
     \<lparr>svc_Name = om_Name (ks_meta svc), svc_Namespace = om_Namespace (ks_meta svc), svc_Selector = ks_Selector svc,
      svc_Annotations = om_Annotations (ks_meta svc), svc_Ports = ks_Ports svc, svc_ClusterIP = ks_ClusterIP svc,
      svc_Pods = map pod_key (at (PodsBySvc res) (meta_key (ks_meta svc))), svc_TrafficTargets = [],
      svc_TrafficSplits = [], svc_BackendOf = [], svc_Errors = []\<rparr>"

lemma cores_evaluateService:
  "cores (evaluateService res t svc) = (cores t)(meta_key (ks_meta svc) \<mapsto> service_node res svc)"
proof -
  obtain t1 ps where 1: "add_pods t (at (PodsBySvc res) (meta_key (ks_meta svc))) = (t1, ps)" by fastforce
  from add_pods_adds [OF 1] have "Services t1 = Services t" "ps = map pod_key (at (PodsBySvc res) (meta_key (ks_meta svc)))"
    by (simp_all add: adds_pods_def)
  with 1 show ?thesis by (simp add: evaluateService_def Let_def cores_def service_node_def svc_core_def fun_eq_iff)
qed

lemma cores_evaluateTrafficSplit: "cores (evaluateTrafficSplit res t s) k = cores t k"
proof -
  have backend: "cores (evaluate_backend tsKey ns ps b u) k = cores u k" for tsKey ns ps b u
    by (auto simp: evaluate_backend_def Let_def split_error_def cores_def adjust_apply split: option.split)
  show ?thesis
    unfolding evaluateTrafficSplit_def Let_def
    by (simp add: cores_adjust fold_keeps [where g = "\<lambda>t. cores t k"] backend split: option.split sum.split)
qed

lemma cores_evaluate_target_on: "cores (evaluate_target_on res tt srcs svcKey pods t) k = cores t k"
proof -
  have dest: "cores t1 k = cores u k" if "buildTrafficTargetDestination u tt pods svc = (t1, dest, err)" for u svc t1 dest err
    using cores_cong [OF buildTrafficTargetDestination_frame(1) [OF that]] .
  have add: "cores (addSourceAndDestinationToPods u srcs x) k = cores u k" for u x
    by (rule cores_cong) simp
  show ?thesis
    unfolding evaluate_target_on_def Let_def
    by (auto simp: add cores_adjust dest split: option.split sum.split prod.split)
qed

lemma cores_evaluateTrafficTarget: "cores (evaluateTrafficTarget res order t tt) k = cores t k"
proof -
  obtain t1 srcs where 1: "buildTrafficTargetSources res t tt = (t1, srcs)" by fastforce
  have "cores t1 k = cores t k"
    using build_sources_adds [OF 1 [unfolded buildTrafficTargetSources_def]] by (auto simp: adds_pods_def intro: cores_cong)
  then show ?thesis
    unfolding evaluateTrafficTarget_def Let_def 1
    by (simp add: fold_keeps [where g = "\<lambda>t. cores t k"] cores_evaluate_target_on)
qed

lemma cores_evaluate_all:
  assumes "keys_ok res" "valid_schedule res sch"
  shows "cores (evaluate_all res sch) k = map_option (service_node res) (r_Services res k)"
proof -
  have services: "cores (fold (service_step res) ks t) k =
      (if k \<in> set ks then map_option (service_node res) (r_Services res k) else cores t k)"
    if "set ks \<subseteq> dom (r_Services res)" for ks t
    using that
  proof (induction ks arbitrary: t)
    case (Cons x ks)
    then obtain svc where svc: "r_Services res x = Some svc" by auto
    with assms(1) have "meta_key (ks_meta svc) = x" by (auto simp: keys_ok_def)
    with Cons svc show ?case by (auto simp: service_step_def cores_evaluateService)
  qed simp
  have "cores (split_step res x t) k = cores t k" for x t
    by (simp add: split_step_def cores_evaluateTrafficSplit split: option.split)
  moreover have "cores (traffic_target_step res sch x t) k = cores t k" for x t
    by (simp add: traffic_target_step_def cores_evaluateTrafficTarget split: option.split)
  ultimately have "cores (evaluate_all res sch) k = cores (fold (service_step res) (sch_Services sch) NewTopology) k"
    by (simp add: evaluate_all_def fold_keeps [where g = "\<lambda>t. cores t k"])
  with services [of "sch_Services sch" NewTopology] assms(2) show ?thesis
    by (auto simp: valid_schedule_def enumerates_def cores_def NewTopology_def)
qed

section \<open>Where pods come from\<close>

text \<open>All pods of an index belong to \<open>A\<close>.\<close>

definition indexed_in :: "KPod set \<Rightarrow> resources \<Rightarrow> bool" where
  "indexed_in A res \<longleftrightarrow> index_consistent res \<and> (\<forall>k. set (at (PodsBySvc res) k) \<subseteq> A)
     \<and> (\<forall>sa. set (at (PodsByServiceAccounts res) sa) \<subseteq> A)"

definition pods_from :: "KPod set \<Rightarrow> Topology \<Rightarrow> bool" where
  "pods_from A t \<longleftrightarrow> (\<forall>k p. Pods t k = Some p \<longrightarrow> (\<exists>kp\<in>A. pod_key kp = k \<and> pod_core p = new_pod kp))"

lemma pods_from_cong: "Pods t = Pods t' \<Longrightarrow> pods_from A t = pods_from A t'"
  by (simp add: pods_from_def)

lemma pods_from_adjust:
  assumes "\<And>p. pod_core (f p) = pod_core p" "pods_from A t"
  shows "pods_from A (t\<lparr>Pods := adjust k f (Pods t)\<rparr>)"
  using assms by (fastforce simp: pods_from_def adjust_apply split: if_splits)

lemma add_pods_from: "add_pods t pods = (t', ks) \<Longrightarrow> pods_from A t \<Longrightarrow> set pods \<subseteq> A \<Longrightarrow> pods_from A t'"
proof (induction pods arbitrary: t t' ks)
  case (Cons pod pods)
  obtain t1 k where 1: "getOrCreatePod t pod = (t1, k)" by fastforce
  obtain t2 ks' where 2: "add_pods t1 pods = (t2, ks')" by fastforce
  have "pod_core (new_pod pod) = new_pod pod" by (simp add: pod_core_def new_pod_def)
  with 1 Cons.prems(2,3) have "pods_from A t1"
    by (auto simp: getOrCreatePod_def Let_def pods_from_def split: option.splits if_splits)
  with Cons.IH [OF 2] Cons.prems 1 2 show ?case by auto
qed simp

lemma add_ready_pods_from: "add_ready_pods t pods = (t', ks) \<Longrightarrow> pods_from A t \<Longrightarrow> set pods \<subseteq> A \<Longrightarrow> pods_from A t'"
  unfolding add_ready_pods_eq by (erule add_pods_from) auto

lemma build_sources_from:
  "build_sources res t ss = (t', srcs) \<Longrightarrow> indexed_in A res \<Longrightarrow> pods_from A t \<Longrightarrow> pods_from A t'"
proof (induction ss arbitrary: t t' srcs)
  case (Cons s ss)
  obtain t1 ks where 1: "add_ready_pods t (at (PodsByServiceAccounts res)
      (Key (is_Name s) (is_Namespace s))) = (t1, ks)" by fastforce
  obtain t2 rest where 2: "build_sources res t1 ss = (t2, rest)" by fastforce
  have "pods_from A t1" using add_ready_pods_from [OF 1 Cons.prems(3)] Cons.prems(2) by (simp add: indexed_in_def)
  with Cons.IH [OF 2 Cons.prems(2)] Cons.prems(1) 1 2 show ?case by (auto simp: Let_def)
qed simp

lemma evaluateService_from:
  assumes "indexed_in A res" "pods_from A t"
  shows "pods_from A (evaluateService res t svc)"
proof -
  obtain t1 ps where 1: "add_pods t (at (PodsBySvc res) (meta_key (ks_meta svc))) = (t1, ps)" by fastforce
  from add_pods_from [OF 1 assms(2)] assms(1) have "pods_from A t1" by (simp add: indexed_in_def)
  with 1 show ?thesis by (simp add: evaluateService_def Let_def pods_from_def)
qed

lemma Pods_evaluateTrafficSplit: "Pods (evaluateTrafficSplit res t s) = Pods t"
proof -
  have "Pods (evaluate_backend tsKey ns ps b u) = Pods u" for tsKey ns ps b u
    by (simp add: evaluate_backend_def Let_def split_error_def split: option.split)
  then show ?thesis
    unfolding evaluateTrafficSplit_def Let_def split_error_def
    by (simp add: fold_keeps [where g = Pods] split: option.split sum.split)
qed

lemma addSourceAndDestinationToPods_from:
  assumes "pods_from A t"
  shows "pods_from A (addSourceAndDestinationToPods t srcs x)"
proof -
  have "pods_from A (add_source_of x k u)" "pods_from A (add_destination_of x k u)" if "pods_from A u" for k u
    using that by (simp_all add: add_source_of_def add_destination_of_def pods_from_adjust pod_core_def)
  then have "pods_from A (fold (add_source_of x) ks u)" "pods_from A (fold (add_destination_of x) ks u)" if "pods_from A u" for ks u
    using that by (auto intro: fold_invariant_rule [where P = "pods_from A"])
  then show ?thesis using assms by (simp add: addSourceAndDestinationToPods_def Let_def split: option.split)
qed

lemma evaluate_target_on_from:
  assumes "pods_from A t" "set pods \<subseteq> A"
  shows "pods_from A (evaluate_target_on res tt srcs svcKey pods t)"
proof -
  have put: "pods_from A (put_stt x stt u) = pods_from A u" "pods_from A (u\<lparr>Services := f\<rparr>) = pods_from A u" for x stt u f
    by (simp_all add: pods_from_def put_stt_def)
  have "pods_from A t1" if "buildTrafficTargetDestination u tt pods svc = (t1, dest, err)" "pods_from A u" for u svc t1 dest err
  proof -
    obtain t2 ks where 1: "add_ready_pods u pods = (t2, ks)" by fastforce
    from add_ready_pods_from [OF 1 that(2) assms(2)] that(1) 1 show ?thesis
      by (auto simp: buildTrafficTargetDestination_def Let_def split: sum.splits)
  qed
  then show ?thesis
    unfolding evaluate_target_on_def Let_def
    using assms(1) by (auto simp: put addSourceAndDestinationToPods_from split: option.split sum.split prod.split)
qed

lemma evaluateTrafficTarget_from:
  assumes "indexed_in A res" "pods_from A t"
  shows "pods_from A (evaluateTrafficTarget res order t tt)"
proof -
  obtain t1 srcs where 1: "buildTrafficTargetSources res t tt = (t1, srcs)" by fastforce
  have t1: "pods_from A t1" using build_sources_from [OF 1 [unfolded buildTrafficTargetSources_def] assms] .
  have "set (pods_by_svc_by_sa res sa k) \<subseteq> A" for sa k
    using assms(1) by (auto simp: indexed_in_def index_consistent_def)
  with t1 show ?thesis
    unfolding evaluateTrafficTarget_def Let_def 1
    by (auto intro!: fold_invariant_rule [where P = "pods_from A"] evaluate_target_on_from)
qed

lemma evaluate_all_from:
  assumes "indexed_in A res"
  shows "pods_from A (evaluate_all res sch)"
proof -
  let ?t1 = "fold (service_step res) (sch_Services sch) NewTopology"
  let ?t2 = "fold (split_step res) (sch_TrafficSplits sch) ?t1"
  have new: "pods_from A NewTopology" by (simp add: pods_from_def NewTopology_def)
  have "pods_from A (service_step res k t)" if "pods_from A t" for k t
    using that by (simp add: service_step_def evaluateService_from [OF assms] split: option.split)
  then have t1: "pods_from A ?t1" by (intro fold_invariant_rule [where P = "pods_from A"] new)
  have "pods_from A (split_step res k t)" if "pods_from A t" for k t
    using that pods_from_cong [OF Pods_evaluateTrafficSplit] by (simp add: split_step_def split: option.split)
  then have t2: "pods_from A ?t2" by (intro fold_invariant_rule [where P = "pods_from A"] t1)
  have "pods_from A (traffic_target_step res sch k t)" if "pods_from A t" for k t
    using that by (simp add: traffic_target_step_def evaluateTrafficTarget_from [OF assms] split: option.split)
  then show ?thesis unfolding evaluate_all_def by (intro fold_invariant_rule [where P = "pods_from A"] t2)
qed

section \<open>The mirror\<close>

lemma loadResources_indexed:
  assumes "loadResources b flt = Inr res" "l_Pods b = Some pods"
  shows "indexed_in (set (seen_pods flt pods)) res"
proof -
  from assms obtain eps r0 where r: "res = indexPods flt pods eps r0"
    and r0: "PodsBySvc r0 = Map.empty" "PodsBySvcBySa r0 = Map.empty" "PodsByServiceAccounts r0 = Map.empty"
    by (auto elim: loadResources_Inr)
  obtain r1 pbn where r1: "indexPodsByServiceAccount flt pods r0 Map.empty = (r1, pbn)" by fastforce
  have rr: "res = indexPodsByService flt eps pbn r1" by (simp add: r indexPods_def r1)
  note km = podsByName_keys_match [OF r1] and eq = indexPodsByServiceAccount_eq [OF r1]
  have "index_consistent r1" using eq r0 by (simp add: index_consistent_def pods_by_svc_by_sa_def)
  then have ic: "index_consistent res" unfolding rr by (rule indexPodsByService_consistent)
  have "set (at (PodsBySvc (indexPodsByService flt eps pbn u)) k) \<subseteq> set (seen_pods flt pods)"
    if "set (at (PodsBySvc u) k) \<subseteq> set (seen_pods flt pods)" for k u
    using that
  proof (induction eps arbitrary: u)
    case (Cons ep eps)
    from km have "keys_match pbn" ..
    from indexEndpoints_pods [OF this, of ep u] obtain new where
      "PodsBySvc (indexEndpoints ep pbn u) = (if new = [] then PodsBySvc u else
         (PodsBySvc u)(meta_key (ke_meta ep) \<mapsto> at (PodsBySvc u) (meta_key (ke_meta ep)) @ new))"
      "set new \<subseteq> ran pbn" by (elim exE conjE)
    with Cons.prems km have "set (at (PodsBySvc (indexEndpoints ep pbn u)) k) \<subseteq> set (seen_pods flt pods)"
      by (auto split: if_splits)
    with Cons show ?case by simp
  qed simp
  moreover have "PodsBySvc r1 = Map.empty" using eq r0 by simp
  moreover have "PodsByServiceAccounts res = PodsByServiceAccounts r1" unfolding rr by (simp add: frame_simps)
  ultimately show ?thesis using ic eq r0 by (simp add: indexed_in_def rr)
qed

lemma Build_populated:
  assumes "loadResources b flt = Inr res" "valid_schedule res sch" "length (sch_TrafficSplits sch) < fuel"
    and "Build_topology fuel sch b flt = Some (Inr t)"
  shows "t = populated fuel (evaluate_all res sch)"
proof -
  have keys: "keys_ok res" using loadResources_ok [OF assms(1)] by blast
  let ?t = "evaluate_all res sch"
  note props = evaluate_all_props [OF keys assms(2)]
  have order: "enumerates (sch_Populate sch) (Services ?t)"
    and splits: "enumerates (sch_TrafficSplits sch) (TrafficSplits ?t)"
    using assms(2) props by (simp_all add: valid_schedule_def enumerates_def)
  have fuel: "card (dom (TrafficSplits ?t) - {}) < fuel" using enumerates_card [OF splits] assms(3) by simp
  from props have wf: "wf_topology ?t" and dist: "distinct_splits ?t" by blast+
  note ret = search_returns [OF wf_keyed [OF wf] enumerates_finite [OF splits] fuel]
  from populate_eq [OF wf dist ret order] assms(1,4) show ?thesis by (simp add: Build_topology_def)
qed

lemma Build_mirrors:
  assumes "loadResources b flt = Inr res" "valid_schedule res sch" "length (sch_TrafficSplits sch) < fuel"
    and "Build_topology fuel sch b flt = Some (Inr t)" "l_Pods b = Some pods"
  shows "(\<forall>k. map_option svc_core (Services t k) = map_option (service_node res) (r_Services res k))
     \<and> (\<forall>k p. Pods t k = Some p \<longrightarrow> (\<exists>kp\<in>set (seen_pods flt pods). pod_key kp = k \<and> pod_core p = new_pod kp))"
proof -
  have keys: "keys_ok res" using loadResources_ok [OF assms(1)] by blast
  note t = Build_populated [OF assms(1-4)]
  have "map_option svc_core (Services t k) = cores (evaluate_all res sch) k" for k
    unfolding t by (cases "Services (evaluate_all res sch) k") (simp_all add: populated_service cores_def)
  moreover have "pods_from (set (seen_pods flt pods)) t"
    using evaluate_all_from [OF loadResources_indexed [OF assms(1,5)]] pods_from_cong [of t "evaluate_all res sch"] by (simp add: t)
  ultimately show ?thesis using cores_evaluate_all [OF keys assms(2)] by (simp add: pods_from_def)
qed

text \<open>C7: The topology mirrors the cluster: for every service the filter lets through there is a node, and only
  for those, with the service's own name, labels to select by, annotations, ports and address and with exactly
  the pods the index has for it; and every pod node is made of a pod of the cluster that the filter lets
  through, with its account, its addresses and its container ports.\<close>

theorem Build_mirrors_cluster:
  assumes "loadResources b flt = Inr res" "valid_schedule res sch" "length (sch_TrafficSplits sch) < fuel"
    and "Build_topology fuel sch b flt = Some (Inr t)" "l_Pods b = Some pods"
  shows "(\<forall>k. map_option svc_core (Services t k) = map_option (service_node res) (r_Services res k))
     \<and> (\<forall>k p. Pods t k = Some p \<longrightarrow> (\<exists>kp\<in>set (seen_pods flt pods). pod_key kp = k \<and> pod_core p = new_pod kp))"
  using assms by (rule Build_mirrors)

lemma Build_mirrors_cluster_witness:
  "\<exists>t s. Build_topology 1 ex_schedule ex_mesh (NewResourceFilter []) = Some (Inr t)
     \<and> Services t (Key ''svc'' ''ns'') = Some s \<and> svc_ClusterIP s = ''10.1.0.1'' \<and> dom (Pods t) \<subseteq> {Key ''p'' ''ns''}"
proof -
  obtain res where res: "loadResources ex_mesh (NewResourceFilter []) = Inr res"
    "r_Services res = [Key ''svc'' ''ns'' \<mapsto> ex_service]" by (rule ex_mesh_loads [OF ex_service_not_ignored ex_not_ignored])
  note sched = ex_mesh_schedule [OF res(1)]
  have fuel: "length (sch_TrafficSplits ex_schedule) < 1" by (simp add: ex_schedule_def)
  from Build_total [of ex_mesh "NewResourceFilter []" ex_schedule, OF ex_mesh_schedule fuel] res(1)
  obtain t where t: "Build_topology 1 ex_schedule ex_mesh (NewResourceFilter []) = Some (Inr t)" by auto
  have pods: "l_Pods ex_mesh = Some [ex_pod]" by (simp add: ex_mesh_def ex_cluster_def)
  note m = Build_mirrors_cluster [OF res(1) sched fuel t pods]
  have "map_option svc_core (Services t (Key ''svc'' ''ns'')) = Some (service_node res ex_service)"
    using m res(2) by simp
  then obtain s where s: "Services t (Key ''svc'' ''ns'') = Some s" "svc_core s = service_node res ex_service" by blast
  from s(2) have "svc_ClusterIP (svc_core s) = ks_ClusterIP ex_service" by (simp add: service_node_def)
  then have ip: "svc_ClusterIP s = ''10.1.0.1''" by (simp add: svc_core_def ex_service_def)
  have "dom (Pods t) \<subseteq> {Key ''p'' ''ns''}"
    using m by (auto simp: seen_pods_def pod_key_def meta_key_def ex_pod_def ex_meta_def split: if_splits)
  with t s(1) ip show ?thesis by blast
qed

end
