(* ===== verification/Reach.thy ===== *)
theory Reach
  imports Routing Mirror
begin

text \<open>
  What a whole configuration serves for a service: the routers that \<open>buildConfigForService\<close> writes for the ports
  of a service are still there at the end of \<open>BuildConfig\<close>, whatever is built for the other services and for
  traffic splits, as long as no other service has the same keys.
\<close>

section \<open>Keys of services\<close>

text \<open>No two service ports share a key. The code does not see to it (\<open>service_router_key_collision\<close>); it
  holds when no namespace has a dash.\<close>

definition service_keys :: "Service \<Rightarrow> string set" where
  "service_keys svc = (\<lambda>sp. getServiceRouterKeyFromService svc (sp_Port sp)) ` set (svc_Ports svc)"

definition keys_apart :: "Topology \<Rightarrow> bool" where
  "keys_apart t \<longleftrightarrow> (\<forall>k k' svc svc'. Services t k = Some svc \<longrightarrow> Services t k' = Some svc' \<longrightarrow> k \<noteq> k' \<longrightarrow>
     service_keys svc \<inter> service_keys svc' = {})"

lemma keys_apartD:
  "keys_apart t \<Longrightarrow> Services t k = Some svc \<Longrightarrow> Services t k' = Some svc' \<Longrightarrow> k \<noteq> k' \<Longrightarrow> key \<in> service_keys svc \<Longrightarrow>
     key \<notin> service_keys svc'"
  unfolding keys_apart_def by blast

lemma no_dash_keys_apart:
  assumes "wf_topology t"
    and "\<And>k svc. Services t k = Some svc \<Longrightarrow> CHR ''-'' \<notin> set (svc_Namespace svc) \<and> (\<forall>sp\<in>set (svc_Ports svc). 0 \<le> sint (sp_Port sp))"
  shows "keys_apart t"
proof -
  have "service_keys svc \<inter> service_keys svc' = {}"
    if svc: "Services t k = Some svc" "Services t k' = Some svc'" "k \<noteq> k'" for k k' svc svc'
  proof -
    have "k = Key (svc_Name svc) (svc_Namespace svc)" "k' = Key (svc_Name svc') (svc_Namespace svc')"
      using wf_topologyD(1) [OF assms(1)] svc by (auto simp: svc_ok_def)
    with svc(3) have ne: "svc_Namespace svc \<noteq> svc_Namespace svc' \<or> svc_Name svc \<noteq> svc_Name svc'" by auto
    have "getServiceRouterKeyFromService svc (sp_Port sp) \<noteq> getServiceRouterKeyFromService svc' (sp_Port sp')"
      if "sp \<in> set (svc_Ports svc)" "sp' \<in> set (svc_Ports svc')" for sp sp'
      using service_router_key_injective [of svc svc' "sp_Port sp" "sp_Port sp'"] assms(2) [OF svc(1)] assms(2) [OF svc(2)]
        that ne by blast
    then show ?thesis unfolding service_keys_def by blast
  qed
  then show ?thesis unfolding keys_apart_def by blast
qed

text \<open>Such a key ends in a digit, the keys of splits do not.\<close>

lemma last_itoa32: "is_digit (last (itoa32 w))"
proof -
  have dec: "is_digit (last (dec n))" for n
    using dec_digits [of n] by (cases "dec n" rule: rev_cases) (simp_all add: list_all_iff)
  then show ?thesis by (auto simp: itoa32_def itoa_def)
qed

lemma service_key_last: "is_digit (last (getServiceRouterKeyFromService svc port))"
proof -
  have "itoa32 port \<noteq> []" by (simp add: itoa32_def itoa_def)
  then show ?thesis using last_itoa32 by (simp add: getServiceRouterKeyFromService_def)
qed

lemma split_keys_last:
  "\<not> is_digit (last (getServiceKeyFromTrafficSplit ts q))" "\<not> is_digit (last (getRouterKeyFromTrafficSplitDirect ts q))"
  "\<not> is_digit (last (getServiceKeyFromTrafficSplitBackend ts q b))"
  by (simp_all add: key_defs is_digit_def)

section \<open>What steps leave alone\<close>

text \<open>What the configuration has at a key of an HTTP router and service.\<close>

definition http_at :: "string \<Rightarrow> Configuration \<Rightarrow> Router option \<times> HTTPService option" where
  "http_at k cfg = (hc_Routers (cf_HTTP cfg) k, hc_Services (cf_HTTP cfg) k)"

lemma http_at_simps [simp]:
  "k' \<noteq> k \<Longrightarrow> http_at k (put_router k' r cfg) = http_at k cfg"
  "k' \<noteq> k \<Longrightarrow> http_at k (put_service k' s cfg) = http_at k cfg"
  "http_at k (put_middleware k' m cfg) = http_at k cfg"
  "http_at k (addTCPService k' s4 cfg) = http_at k cfg" "http_at k (addTCPRouter k' tr cfg) = http_at k cfg"
  "http_at k (addUDPService k' s4 cfg) = http_at k cfg" "http_at k (addUDPRouter k' ur cfg) = http_at k cfg"
  by (simp_all add: http_at_def)

lemma fold_opt_keeps:
  assumes "fold_opt f xs s = Some s'" "P s" "\<And>x s s'. x \<in> set xs \<Longrightarrow> P s \<Longrightarrow> f x s = Some s' \<Longrightarrow> P s'"
  shows "P s'"
  using assms
proof (induction xs arbitrary: s)
  case (Cons x xs)
  then obtain s1 where "f x s = Some s1" "fold_opt f xs s1 = Some s'" by (cases "f x s") auto
  with Cons show ?case by (meson list.set_intros)
qed simp

lemma backends_at:
  assumes "buildServicesForTrafficSplitBackends u ts sp scheme bs cfg = (cfg', r)" "is_digit (last k)"
  shows "http_at k cfg' = http_at k cfg"
proof -
  have "k \<notin> range (\<lambda>(port, b). getServiceKeyFromTrafficSplitBackend ts port b)"
    using assms(2) split_keys_last(3) by force
  from backends_frame [OF this assms(1)] show ?thesis by (simp add: http_at_def)
qed

lemma http_split_port_at:
  assumes "\<not> pc_ACL (pv_config p)" "is_digit (last k)"
  shows "http_at k (snd (snd (http_split_port p tsKey scheme ts tsSvc mws rtr x st))) = http_at k (snd (snd st))"
proof -
  obtain n sp rule u cfg where x: "x = (n, sp)" and st: "st = (rule, u, cfg)" by (metis prod.exhaust)
  obtain cfg1 r where b: "buildServicesForTrafficSplitBackends u ts sp scheme (ts_Backends ts) cfg = (cfg1, r)" by fastforce
  have "getServiceKeyFromTrafficSplit ts q \<noteq> k" "getRouterKeyFromTrafficSplitDirect ts q \<noteq> k" for q
    using split_keys_last(1,2) [of ts q] assms(2) by metis+
  with b backends_at [OF b assms(2)] assms(1) x st show ?thesis
    by (cases r; cases "buildHTTPEntrypoint p n") (simp_all add: http_split_port_def Let_def)
qed

lemma split_at:
  assumes "\<not> pc_ACL (pv_config p)" "is_digit (last k)"
  shows "http_at k (snd (fst (buildServiceAndRoutersForTrafficSplit p tsKey scheme tt mws st))) = http_at k (snd st)"
proof -
  have fold: "http_at k (snd (fold f xs st)) = http_at k (snd st)"
    if "\<And>x st. http_at k (snd (f x st)) = http_at k (snd st)" for f :: "'x \<Rightarrow> conf_state \<Rightarrow> conf_state" and xs st
    by (rule fold_invariant_rule [where P = "\<lambda>s. http_at k (snd s) = http_at k (snd st)"]) (simp_all add: that)
  have http: "http_at k (snd (buildHTTPServiceAndRoutersForTrafficSplit p tsKey scheme ts tsSvc mws st)) = http_at k (snd st)" for ts tsSvc
  proof -
    obtain u cfg where st: "st = (u, cfg)" by fastforce
    have "http_at k (snd (snd (fold (http_split_port p tsKey scheme ts tsSvc mws mws) xs (rule, u, cfg)))) = http_at k cfg" for xs rule
      by (rule fold_invariant_rule [where P = "\<lambda>s. http_at k (snd (snd s)) = http_at k cfg"])
         (simp_all add: http_split_port_at [OF assms])
    with assms(1) st show ?thesis by (simp add: buildHTTPServiceAndRoutersForTrafficSplit_def)
  qed
  have adds: "http_at k (fold (\<lambda>b. addTCPService (f b) (g b)) bs cfg) = http_at k cfg"
    "http_at k (fold (\<lambda>b. addUDPService (f b) (g b)) bs cfg) = http_at k cfg" for f g and bs :: "'b list" and cfg
    by (induction bs arbitrary: cfg) simp_all
  have "http_at k (snd (tcp_split_port p tsKey ts tsSvc sp st)) = http_at k (snd st)"
    "http_at k (snd (udp_split_port p tsKey ts tsSvc sp st)) = http_at k (snd st)" for ts tsSvc sp st
    by (cases st; simp add: tcp_split_port_def udp_split_port_def Let_def adds split: sum.split)+
  with http show ?thesis
    by (auto simp: buildServiceAndRoutersForTrafficSplit_def buildTCPServiceAndRoutersForTrafficSplit_def
        buildUDPServiceAndRoutersForTrafficSplit_def fold split: option.split)
qed

lemma splits_at:
  assumes "fold_opt (split_config_step p scheme tt mws) ks st = Some st'" "\<not> pc_ACL (pv_config p)" "is_digit (last k)"
  shows "http_at k (snd st') = http_at k (snd st)"
proof -
  have step: "http_at k (snd s') = http_at k (snd s)" if "split_config_step p scheme tt mws x s = Some s'" for x s s'
    using that split_at [OF assms(2,3), of x scheme tt mws s]
    by (auto simp: split_config_step_def split: prod.splits option.splits if_splits)
  show ?thesis
    by (rule fold_opt_keeps [where P = "\<lambda>s. http_at k (snd s) = http_at k (snd st)", OF assms(1)]) (simp_all add: step)
qed

lemma middlewares_at:
  assumes "buildMiddlewaresForConfigFromService p svc cfg = (cfg', r)"
  shows "http_at k cfg' = http_at k cfg"
proof -
  have "http_at k (fold (\<lambda>(n, m). put_middleware (f n) m) ms cfg) = http_at k cfg" for f and ms :: "(string \<times> Middleware) list"
    by (rule fold_invariant_rule [where P = "\<lambda>c. http_at k c = http_at k cfg"]) auto
  with assms show ?thesis by (auto simp: buildMiddlewaresForConfigFromService_def Let_def split: sum.splits)
qed

text \<open>The names of a service's middlewares, in the order in which its routers have them.\<close>

definition middleware_keys :: "Provider \<Rightarrow> Service \<Rightarrow> (string \<times> Middleware) list \<Rightarrow> string list" where
  "middleware_keys p svc mws = map (\<lambda>(n, m). getMiddlewareKey svc n)
     (ranged (rg_middlewares (pv_ranges p) (Key (svc_Name svc) (svc_Namespace svc))) mws)"

section \<open>A service and the others\<close>

lemma service_routers_at:
  assumes "buildServicesAndRoutersForService p svc scheme tt mws st = (st', r)" "k \<notin> service_keys svc"
  shows "http_at k (snd st') = http_at k (snd st)"
proof -
  have http: "http_at k (snd (http_service_port p svc scheme mws key x st)) = http_at k (snd st)"
    if "snd x \<in> set (svc_Ports svc)" for key x st
  proof -
    obtain n sp u cfg where x: "x = (n, sp)" "st = (u, cfg)" by (metis prod.exhaust)
    with that assms(2) have "getServiceRouterKeyFromService svc (sp_Port sp) \<noteq> k" by (auto simp: service_keys_def)
    with x show ?thesis by (cases "buildHTTPEntrypoint p n") (simp_all add: http_service_port_def Let_def)
  qed
  have l4: "http_at k (snd (tcp_service_port p svc key sp st)) = http_at k (snd st)"
    "http_at k (snd (udp_service_port p svc key sp st)) = http_at k (snd st)" for key sp st
    by (cases st; simp add: tcp_service_port_def udp_service_port_def Let_def split: sum.split)+
  have fold: "http_at k (snd (fold f xs st)) = http_at k (snd st)"
    if "\<And>x st. x \<in> set xs \<Longrightarrow> http_at k (snd (f x st)) = http_at k (snd st)" for f :: "'x \<Rightarrow> conf_state \<Rightarrow> conf_state" and xs st
    by (rule fold_invariant_rule [where P = "\<lambda>s. http_at k (snd s) = http_at k (snd st)"]) (simp_all add: that)
  have "http_at k (snd (fold (http_service_port p svc scheme mws key) (enumerate 0 (svc_Ports svc)) st)) = http_at k (snd st)" for key
    by (rule fold) (auto intro!: http simp: in_set_enumerate_eq)
  with assms(1) show ?thesis
    by (auto simp: buildServicesAndRoutersForService_def buildServicesAndRoutersForHTTPService_def
        buildServicesAndRoutersForTCPService_def buildServicesAndRoutersForUDPService_def fold l4 Let_def split: if_splits)
qed

lemma other_service_at:
  assumes "buildConfigForService p svc st = Some (st', r)" "\<not> pc_ACL (pv_config p)" "is_digit (last k)" "k \<notin> service_keys svc"
  shows "http_at k (snd st') = http_at k (snd st)"
proof (cases "\<exists>tt scheme. GetTrafficType (pc_DefaultTrafficType (pv_config p)) (svc_Annotations svc) = Inr tt
    \<and> GetScheme (svc_Annotations svc) = Inr scheme")
  case False
  with assms(1) show ?thesis by (auto simp: buildConfigForService_def split: sum.splits)
next
  case True
  then obtain tt scheme where tt: "GetTrafficType (pc_DefaultTrafficType (pv_config p)) (svc_Annotations svc) = Inr tt"
    "GetScheme (svc_Annotations svc) = Inr scheme" by blast
  obtain u cfg where st: "st = (u, cfg)" by fastforce
  obtain cfg1 r1 where m: "(if tt = ServiceTypeHTTP then buildMiddlewaresForConfigFromService p svc cfg
      else (cfg, Inr [])) = (cfg1, r1)" by fastforce
  then have at1: "http_at k cfg1 = http_at k cfg" using middlewares_at by (auto split: if_splits)
  note unf = buildConfigForService_def st fst_conv snd_conv tt sum.case m prod.case
  show ?thesis
  proof (cases r1)
    case (Inl e)
    with assms(1) have "st' = (u, cfg1)" unfolding unf by simp
    with at1 st show ?thesis by simp
  next
    case (Inr keys)
    obtain st1 r2 where b: "buildServicesAndRoutersForService p svc scheme tt keys (u, cfg1) = (st1, r2)" by fastforce
    note at2 = service_routers_at [OF b assms(4)]
    show ?thesis
    proof (cases r2)
      case None
      with assms(1,2) Inr b obtain st2 where
        "fold_opt (split_config_step p scheme tt keys) (svc_TrafficSplits svc) st1 = Some st2" "st' = st2"
        unfolding unf by (auto simp: buildConfigRoutersAndServices_def)
      with splits_at [of p scheme tt keys _ st1 st2 k] assms(2,3) at1 at2 st show ?thesis by simp
    next
      case (Some e)
      with assms(1,2) Inr b have "st' = st1" unfolding unf by (simp add: buildConfigRoutersAndServices_def)
      with at1 at2 st show ?thesis by simp
    qed
  qed
qed

lemma own_service_at:
  assumes "buildConfigForService p svc (u, cfg) = Some (st', r)" "\<not> pc_ACL (pv_config p)"
    and "GetTrafficType (pc_DefaultTrafficType (pv_config p)) (svc_Annotations svc) = Inr ServiceTypeHTTP"
    and "GetScheme (svc_Annotations svc) = Inr scheme" "pv_buildServiceMiddleware p (svc_Annotations svc) = Inr mws"
    and "distinct (map sp_Port (svc_Ports svc))" "i < length (svc_Ports svc)" "buildHTTPEntrypoint p i = Inr ep" "Pods u = Pods t"
  defines "key \<equiv> getServiceRouterKeyFromService svc (sp_Port (svc_Ports svc ! i))"
  shows "http_at key (snd st') =
      (Some (buildHTTPRouter (buildHTTPRuleFromService svc) ep (middleware_keys p svc mws) key priorityService),
       Some (buildHTTPServiceFromService t svc scheme (svc_Ports svc ! i)))"
proof -
  let ?keys = "middleware_keys p svc mws"
  obtain cfg1 where m: "buildMiddlewaresForConfigFromService p svc cfg = (cfg1, Inr ?keys)"
    using assms(5) by (simp add: buildMiddlewaresForConfigFromService_def middleware_keys_def Let_def)
  obtain u1 cfg2 where b: "buildServicesAndRoutersForHTTPService p svc scheme ?keys (Key (svc_Name svc) (svc_Namespace svc)) (u, cfg1)
      = (u1, cfg2)" by fastforce
  have "http_at key cfg2 =
      (Some (buildHTTPRouter (buildHTTPRuleFromService svc) ep ?keys key priorityService),
       Some (buildHTTPServiceFromService t svc scheme (svc_Ports svc ! i)))"
    using http_service_ports [of p svc scheme ?keys _ 0 "svc_Ports svc" u cfg1 u1 cfg2 i ep t] b assms(6-9)
    by (simp add: buildServicesAndRoutersForHTTPService_def http_at_def key_def)
  moreover have "fold_opt (split_config_step p scheme ServiceTypeHTTP ?keys) (svc_TrafficSplits svc) (u1, cfg2) = Some st'"
    using assms(1-4) m b
    by (auto simp: buildConfigForService_def buildConfigRoutersAndServices_def buildServicesAndRoutersForService_def Let_def)
  from splits_at [OF this assms(2)] have "http_at key (snd st') = http_at key cfg2"
    by (simp add: key_def service_key_last)
  ultimately show ?thesis by simp
qed

section \<open>The whole configuration\<close>

lemma config_step_at:
  assumes "config_step p k st = Some st'" "same_but_errors t (fst st)" "\<not> pc_ACL (pv_config p)" "is_digit (last key)"
    and "\<And>svc. Services t k = Some svc \<Longrightarrow> key \<notin> service_keys svc"
  shows "http_at key (snd st') = http_at key (snd st)"
proof (cases "Services (fst st) k")
  case None
  with assms(1) show ?thesis by (simp add: config_step_def)
next
  case (Some svc)
  from assms(2) have "map_option clean_svc (Services (fst st) k) = map_option clean_svc (Services t k)"
    by (simp add: same_but_errors_def)
  with Some obtain s where s: "Services t k = Some s" "clean_svc svc = clean_svc s" by (cases "Services t k") simp_all
  then have "service_keys svc = service_keys s"
    by (cases s; cases svc) (simp add: clean_svc_def service_keys_def getServiceRouterKeyFromService_def)
  with assms(5) [OF s(1)] have "key \<notin> service_keys svc" by simp
  with assms(1) Some other_service_at [OF _ assms(3,4)] show ?thesis
    by (fastforce simp: config_step_def split: option.splits)
qed

lemma clean_svc_fields:
  assumes "clean_svc s = clean_svc svc"
  shows "svc_Name s = svc_Name svc" "svc_Namespace s = svc_Namespace svc" "svc_Ports s = svc_Ports svc"
    "svc_Annotations s = svc_Annotations svc" "svc_Pods s = svc_Pods svc" "svc_ClusterIP s = svc_ClusterIP svc"
    "svc_TrafficSplits s = svc_TrafficSplits svc"
  using assms by (cases s; cases svc; simp add: clean_svc_def)+

lemma fold_opt_append: "fold_opt f (xs @ ys) s = Option.bind (fold_opt f xs s) (fold_opt f ys)"
proof (induction xs arbitrary: s)
  case (Cons x xs)
  then show ?case by (cases "f x s") simp_all
qed simp

lemma config_steps_ok:
  assumes "fold_opt (config_step p) ks st = Some st'" "valid_builder (pv_buildServiceMiddleware p)" "wf_topology t"
    and "state_ok (pc_ACL (pv_config p)) t [] st"
  shows "state_ok (pc_ACL (pv_config p)) t [] st'"
proof (rule fold_opt_keeps [where P = "state_ok (pc_ACL (pv_config p)) t []", OF assms(1,4)])
  fix k s s' assume "state_ok (pc_ACL (pv_config p)) t [] s" "config_step p k s = Some s'"
  with config_step_ok [OF assms(2,3), of s k] show "state_ok (pc_ACL (pv_config p)) t [] s'" by auto
qed

lemma config_steps_at:
  assumes "fold_opt (config_step p) ks st = Some st'" "valid_builder (pv_buildServiceMiddleware p)" "wf_topology t"
    and "state_ok (pc_ACL (pv_config p)) t [] st" "\<not> pc_ACL (pv_config p)" "is_digit (last key)"
    and "\<And>k svc. k \<in> set ks \<Longrightarrow> Services t k = Some svc \<Longrightarrow> key \<notin> service_keys svc"
  shows "http_at key (snd st') = http_at key (snd st)"
proof -
  let ?P = "\<lambda>s. state_ok (pc_ACL (pv_config p)) t [] s \<and> http_at key (snd s) = http_at key (snd st)"
  have step: "?P s'" if "k \<in> set ks" "?P s" "config_step p k s = Some s'" for k s s'
  proof -
    from that(2) have "same_but_errors t (fst s)" by (simp add: state_ok_def)
    from config_step_at [OF that(3) this assms(5,6)] assms(7) [OF that(1)]
    have "http_at key (snd s') = http_at key (snd s)" by blast
    with that config_step_ok [OF assms(2,3), of s k] show ?thesis by auto
  qed
  have start: "?P st" using assms(4) by simp
  have "?P st'" by (rule fold_opt_keeps [where P = ?P, OF assms(1) start]) (rule step)
  then show ?thesis ..
qed

text \<open>Building the configuration of a topology ends with this for every port of every HTTP service.\<close>

lemma BuildConfig_http_at:
  assumes "wf_topology t" "pv_buildServiceMiddleware p = BuildMiddlewares" "\<not> pc_ACL (pv_config p)"
    and "BuildConfig p order t = Some (t', conf)" "enumerates order (Services t)" "keys_apart t" "Services t k = Some svc"
    and "GetTrafficType (pc_DefaultTrafficType (pv_config p)) (svc_Annotations svc) = Inr ServiceTypeHTTP"
    and "GetScheme (svc_Annotations svc) = Inr scheme" "BuildMiddlewares (svc_Annotations svc) = Inr mws"
    and "distinct (map sp_Port (svc_Ports svc))" "i < length (svc_Ports svc)" "buildHTTPEntrypoint p i = Inr ep"
  defines "key \<equiv> getServiceRouterKeyFromService svc (sp_Port (svc_Ports svc ! i))"
  shows "http_at key conf =
      (Some (buildHTTPRouter (buildHTTPRuleFromService svc) ep (middleware_keys p svc mws) key priorityService),
       Some (buildHTTPServiceFromService t svc scheme (svc_Ports svc ! i)))"
proof -
  have valid: "valid_builder (pv_buildServiceMiddleware p)" using BuildMiddlewares_valid assms(2) by simp
  from assms(5,7) have "k \<in> set order" by (simp add: enumerates_mem)
  then obtain pre post where order: "order = pre @ k # post" by (meson split_list)
  with assms(5) have post: "k \<notin> set post" by (simp add: enumerates_def)
  from assms(4) order obtain st1 st2 where steps: "fold_opt (config_step p) pre (t, NewDefaultDynamicConfig) = Some st1"
    "config_step p k st1 = Some st2" "fold_opt (config_step p) post st2 = Some (t', conf)"
    by (auto simp: BuildConfig_def fold_opt_append bind_eq_Some_conv)
  have ok1: "state_ok (pc_ACL (pv_config p)) t [] st1"
    by (rule config_steps_ok [OF steps(1) valid assms(1)]) (simp add: default_config_ok)
  from config_step_ok [OF valid assms(1) ok1, of k] steps(2) have ok2: "state_ok (pc_ACL (pv_config p)) t [] st2" by simp
  obtain u cfg where st1: "st1 = (u, cfg)" by fastforce
  with ok1 have same: "same_but_errors t u" by simp
  then have "map_option clean_svc (Services u k) = Some (clean_svc svc)" using assms(7) by (simp add: same_but_errors_def)
  then obtain s where s: "Services u k = Some s" "clean_svc s = clean_svc svc" by auto
  note fields = clean_svc_fields [OF s(2)]
  from steps(2) st1 s(1) obtain st r where b: "buildConfigForService p s (u, cfg) = Some (st, r)" "snd st2 = snd st"
    by (auto simp: config_step_def split: option.splits)
  have "Pods u = Pods t" using same by (simp add: same_but_errors_def)
  from own_service_at [OF b(1) assms(3) _ _ _ _ _ assms(13) this, of scheme mws] fields assms(2,8-12)
  have "http_at key (snd st2) =
      (Some (buildHTTPRouter (buildHTTPRuleFromService svc) ep (middleware_keys p svc mws) key priorityService),
       Some (buildHTTPServiceFromService t svc scheme (svc_Ports svc ! i)))"
    by (simp add: b(2) key_def getServiceRouterKeyFromService_def buildHTTPRuleFromService_def getMiddlewareKey_def
        buildHTTPServiceFromService_def middleware_keys_def)
  moreover have "http_at key conf = http_at key (snd st2)"
  proof -
    have "key \<in> service_keys svc" using assms(12) by (simp add: key_def service_keys_def)
    then have "key \<notin> service_keys svc'" if "k' \<in> set post" "Services t k' = Some svc'" for k' svc'
      using keys_apartD [OF assms(6,7) that(2)] post that(1) by blast
    from config_steps_at [OF steps(3) valid assms(1) ok2 assms(3) _ this] show ?thesis by (simp add: key_def service_key_last)
  qed
  ultimately show ?thesis by simp
qed

section \<open>From the cluster to the configuration\<close>

text \<open>An address at which one of the pods serves a service port.\<close>

definition pod_serves :: "KPod list \<Rightarrow> ServicePort \<Rightarrow> string \<Rightarrow> bool" where
  "pod_serves pods sp address \<longleftrightarrow> (\<exists>kp\<in>set pods. \<exists>port.
     ResolveServicePort sp (concat (map ct_Ports (kp_Containers kp))) = (port, True)
   \<and> address = JoinHostPort (kp_PodIP kp) (itoa32 port))"

lemma pod_core_fields:
  assumes "pod_core p = new_pod kp"
  shows "pod_ContainerPorts p = concat (map ct_Ports (kp_Containers kp))" "pod_IP p = kp_PodIP kp"
  using arg_cong [OF assms, of pod_ContainerPorts] arg_cong [OF assms, of pod_IP] by (simp_all add: pod_core_def new_pod_def)

lemma served_by_mirror:
  assumes "\<And>k p. Pods t k = Some p \<Longrightarrow> \<exists>kp\<in>A. pod_key kp = k \<and> pod_core p = new_pod kp" "inj_on pod_key A"
    and "set pods \<subseteq> A" "pod_key ` set pods \<subseteq> dom (Pods t)"
  shows "served_by t (map pod_key pods) sp a \<longleftrightarrow> pod_serves pods sp a"
proof -
  have "\<exists>p. Pods t (pod_key kp) = Some p \<and> pod_ContainerPorts p = concat (map ct_Ports (kp_Containers kp)) \<and> pod_IP p = kp_PodIP kp"
    if kp: "kp \<in> set pods" for kp
  proof -
    from assms(4) kp obtain p where p: "Pods t (pod_key kp) = Some p" by blast
    from assms(1) [OF p] obtain kp' where kp': "kp' \<in> A" "pod_key kp' = pod_key kp" "pod_core p = new_pod kp'" by blast
    with assms(2,3) kp have "kp' = kp" by (auto dest: inj_onD)
    with p pod_core_fields [OF kp'(3)] show ?thesis by blast
  qed
  then show ?thesis unfolding served_by_def pod_serves_def by fastforce
qed

text \<open>No service has a dash in its namespace or a negative port.\<close>

definition plain_services :: "resources \<Rightarrow> bool" where
  "plain_services res \<longleftrightarrow> (\<forall>k svc. r_Services res k = Some svc \<longrightarrow> CHR ''-'' \<notin> set (om_Namespace (ks_meta svc))
     \<and> (\<forall>sp\<in>set (ks_Ports svc). 0 \<le> sint (sp_Port sp)))"

lemma svc_core_fields:
  assumes "svc_core s = service_node res svc"
  shows "svc_Name s = om_Name (ks_meta svc)" "svc_Namespace s = om_Namespace (ks_meta svc)" "svc_Ports s = ks_Ports svc"
    "svc_Annotations s = om_Annotations (ks_meta svc)" "svc_ClusterIP s = ks_ClusterIP svc"
    "svc_Pods s = map pod_key (at (PodsBySvc res) (meta_key (ks_meta svc)))"
  using assms by (cases s; simp add: svc_core_def service_node_def)+

text \<open>The names under which the mesh answers for a service: its mesh name and its cluster address.\<close>

definition service_rule :: "KService \<Rightarrow> string" where
  "service_rule svc = ''Host(`'' @ om_Name (ks_meta svc) @ ''.'' @ om_Namespace (ks_meta svc) @ ''.traefik.mesh`) || Host(`'' @
     ks_ClusterIP svc @ ''`)''"

text \<open>The node of a service of the cluster, when keys are apart.\<close>

lemma cluster_node:
  assumes load: "loadResources b flt = Inr res" "valid_schedule res sch" "length (sch_TrafficSplits sch) < fuel"
      "Build_topology fuel sch b flt = Some (Inr t)" "l_Pods b = Some pods" "distinct (map pod_key pods)" "plain_services res"
    and svc: "r_Services res k = Some svc"
  obtains s where "wf_topology t" "keys_apart t" "Services t k = Some s" "svc_core s = service_node res svc"
    "\<And>sp a. served_by t (svc_Pods s) sp a \<longleftrightarrow> pod_serves (at (PodsBySvc res) k) sp a"
proof -
  from Build_total [of b flt sch fuel] load have wf: "wf_topology t" by auto
  have mirror: "map_option svc_core (Services t k') = map_option (service_node res) (r_Services res k')"
    "Pods t k' = Some p \<Longrightarrow> \<exists>kp\<in>set (seen_pods flt pods). pod_key kp = k' \<and> pod_core p = new_pod kp" for k' p
    using Build_mirrors [OF load(1-5)] by blast+
  from mirror(1) [of k] svc obtain s where s: "Services t k = Some s" "svc_core s = service_node res svc" by auto
  note fields = svc_core_fields [OF s(2)]
  have keys: "keys_ok res" using loadResources_ok [OF load(1)] by blast
  with svc have k: "meta_key (ks_meta svc) = k" by (auto simp: keys_ok_def)
  have "CHR ''-'' \<notin> set (svc_Namespace s') \<and> (\<forall>sp\<in>set (svc_Ports s'). 0 \<le> sint (sp_Port sp))"
    if "Services t k' = Some s'" for k' s'
  proof -
    from mirror(1) [of k'] that obtain svc' where "r_Services res k' = Some svc'" "svc_core s' = service_node res svc'"
      by (cases "r_Services res k'") auto
    with load(7) svc_core_fields [of s' res svc'] show ?thesis by (auto simp: plain_services_def)
  qed
  from no_dash_keys_apart [OF wf this] have apart: "keys_apart t" .
  let ?pods = "at (PodsBySvc res) k"
  have "served_by t (svc_Pods s) sp a \<longleftrightarrow> pod_serves ?pods sp a" for sp a
    unfolding fields k
  proof (rule served_by_mirror [OF mirror(2)])
    show "inj_on pod_key (set (seen_pods flt pods))"
      using load(6) by (auto simp: seen_pods_def distinct_map inj_on_def)
    show "set ?pods \<subseteq> set (seen_pods flt pods)" using loadResources_indexed [OF load(1,5)] by (simp add: indexed_in_def)
    have "set (svc_Pods s) \<subseteq> dom (Pods t)" using wf_topologyD(1) [OF wf s(1)] by (simp add: svc_ok_def)
    then show "pod_key ` set ?pods \<subseteq> dom (Pods t)" unfolding fields k by simp
  qed
  with that wf apart s show thesis by blast
qed

lemma cluster_http_served:
  assumes load: "loadResources b flt = Inr res" "valid_schedule res sch" "length (sch_TrafficSplits sch) < fuel"
      "Build_topology fuel sch b flt = Some (Inr t)" "l_Pods b = Some pods" "distinct (map pod_key pods)" "plain_services res"
    and conf: "pv_buildServiceMiddleware p = BuildMiddlewares" "\<not> pc_ACL (pv_config p)"
      "BuildConfig p order t = Some (t', conf)" "enumerates order (Services t)"
    and svc: "r_Services res k = Some svc"
      "GetTrafficType (pc_DefaultTrafficType (pv_config p)) (om_Annotations (ks_meta svc)) = Inr ServiceTypeHTTP"
      "GetScheme (om_Annotations (ks_meta svc)) = Inr scheme" "BuildMiddlewares (om_Annotations (ks_meta svc)) = Inr mws"
    and port: "distinct (map sp_Port (ks_Ports svc))" "i < length (ks_Ports svc)" "buildHTTPEntrypoint p i = Inr ep"
  shows "\<exists>key rt servers. hc_Routers (cf_HTTP conf) key = Some rt \<and> rt_EntryPoints rt = [ep]
     \<and> rt_Rule rt = service_rule svc \<and> hc_Services (cf_HTTP conf) (rt_Service rt) = Some (LoadBalancer servers True)
     \<and> (\<forall>url. url \<in> set servers \<longleftrightarrow> (\<exists>a. url = scheme @ ''://'' @ a \<and> pod_serves (at (PodsBySvc res) k) (ks_Ports svc ! i) a))"
proof -
  from cluster_node [OF load svc(1)] obtain s where wf: "wf_topology t" and apart: "keys_apart t"
    and s: "Services t k = Some s" "svc_core s = service_node res svc"
    and served: "\<And>sp a. served_by t (svc_Pods s) sp a \<longleftrightarrow> pod_serves (at (PodsBySvc res) k) sp a" by blast
  note fields = svc_core_fields [OF s(2)]
  note at = BuildConfig_http_at [OF wf conf(1-4) apart s(1), unfolded fields(1-5), OF svc(2-4) port]
  let ?pods = "at (PodsBySvc res) k"
  have rule: "buildHTTPRuleFromService s = service_rule svc" by (simp add: buildHTTPRuleFromService_def service_rule_def fields(1-5))
  let ?key = "getServiceRouterKeyFromService s (sp_Port (ks_Ports svc ! i))"
  let ?rt = "buildHTTPRouter (service_rule svc) ep (middleware_keys p s mws) ?key priorityService"
  let ?servers = "map (\<lambda>a. scheme @ ''://'' @ a) (pod_addresses t (ks_Ports svc ! i) (svc_Pods s))"
  have "hc_Routers (cf_HTTP conf) ?key = Some ?rt" "rt_EntryPoints ?rt = [ep]" "rt_Rule ?rt = service_rule svc"
    using at rule by (simp_all add: http_at_def buildHTTPRouter_def)
  moreover have "hc_Services (cf_HTTP conf) (rt_Service ?rt) = Some (LoadBalancer ?servers True)"
    using at by (simp add: http_at_def buildHTTPRouter_def buildHTTPServiceFromService_def http_servers_def)
  moreover have "url \<in> set ?servers \<longleftrightarrow> (\<exists>a. url = scheme @ ''://'' @ a \<and> pod_serves ?pods (ks_Ports svc ! i) a)" for url
    using served by (auto simp: pod_addresses_iff image_iff)
  ultimately show ?thesis by blast
qed

end
