(* ===== verification/ReachPorts.thy ===== *)
theory ReachPorts
  imports Reach
begin

text \<open>
  The same as \<open>Reach\<close> for TCP and UDP services: what \<open>buildConfigForService\<close> writes for a port is still there at
  the end of \<open>BuildConfig\<close>. Here a split takes the place of the routers of its service, so this is about services
  without splits.
\<close>

section \<open>What the configuration has at a key\<close>

definition tcp_at :: "string \<Rightarrow> Configuration \<Rightarrow> TCPRouter option \<times> L4Service option" where
  "tcp_at k cfg = (tc_Routers (tcp_conf cfg) k, tc_Services (tcp_conf cfg) k)"

definition udp_at :: "string \<Rightarrow> Configuration \<Rightarrow> UDPRouter option \<times> L4Service option" where
  "udp_at k cfg = (uc_Routers (udp_conf cfg) k, uc_Services (udp_conf cfg) k)"

definition l4_at :: "string \<Rightarrow> Configuration \<Rightarrow> (TCPRouter option \<times> L4Service option) \<times> (UDPRouter option \<times> L4Service option)" where
  "l4_at k cfg = (tcp_at k cfg, udp_at k cfg)"

lemma l4_at_simps [simp]:
  "l4_at k (put_router k' r cfg) = l4_at k cfg" "l4_at k (put_service k' s cfg) = l4_at k cfg"
  "l4_at k (put_middleware k' m cfg) = l4_at k cfg"
  "k' \<noteq> k \<Longrightarrow> l4_at k (addTCPService k' s4 cfg) = l4_at k cfg" "k' \<noteq> k \<Longrightarrow> l4_at k (addTCPRouter k' tr cfg) = l4_at k cfg"
  "k' \<noteq> k \<Longrightarrow> l4_at k (addUDPService k' s4 cfg) = l4_at k cfg" "k' \<noteq> k \<Longrightarrow> l4_at k (addUDPRouter k' ur cfg) = l4_at k cfg"
  by (simp_all add: l4_at_def tcp_at_def udp_at_def)

lemma l4_fold:
  assumes "\<And>x st. x \<in> set xs \<Longrightarrow> l4_at k (snd (f x st)) = l4_at k (snd st)"
  shows "l4_at k (snd (fold f xs st)) = l4_at k (snd st)"
  by (rule fold_invariant_rule [where P = "\<lambda>s. l4_at k (snd s) = l4_at k (snd st)"]) (simp_all add: assms)

text \<open>What is built for HTTP leaves it alone.\<close>

lemma http_split_l4: "l4_at k (snd (buildHTTPServiceAndRoutersForTrafficSplit p tsKey scheme ts tsSvc mws st)) = l4_at k (snd st)"
proof -
  have backends: "l4_at k (fst (buildServicesForTrafficSplitBackends u ts sp scheme bs cfg)) = l4_at k cfg" for u sp bs cfg
    by (induction bs arbitrary: cfg) (simp_all add: Let_def case_prod_unfold split: option.split)
  have port: "l4_at k (snd (snd (http_split_port p tsKey scheme ts tsSvc mws rtr x s))) = l4_at k (snd (snd s))" for rtr x s
  proof -
    obtain n sp rule u cfg where x: "x = (n, sp)" and s: "s = (rule, u, cfg)" by (metis prod.exhaust)
    obtain cfg1 r where b: "buildServicesForTrafficSplitBackends u ts sp scheme (ts_Backends ts) cfg = (cfg1, r)" by fastforce
    with backends [of u sp "ts_Backends ts" cfg] x s show ?thesis
      by (cases r; cases "buildHTTPEntrypoint p n") (simp_all add: http_split_port_def Let_def)
  qed
  have "l4_at k (snd (snd (fold (http_split_port p tsKey scheme ts tsSvc mws rtr) xs s))) = l4_at k (snd (snd s))" for rtr xs s
    by (rule fold_invariant_rule [where P = "\<lambda>s'. l4_at k (snd (snd s')) = l4_at k (snd (snd s))"]) (simp_all add: port)
  then show ?thesis by (cases st) (simp add: buildHTTPServiceAndRoutersForTrafficSplit_def Let_def)
qed

lemma middlewares_l4: "buildMiddlewaresForConfigFromService p svc cfg = (cfg', r) \<Longrightarrow> l4_at k cfg' = l4_at k cfg"
proof -
  have "l4_at k (fold (\<lambda>(n, m). put_middleware (f n) m) ms cfg) = l4_at k cfg" for f and ms :: "(string \<times> Middleware) list"
    by (rule fold_invariant_rule [where P = "\<lambda>c. l4_at k c = l4_at k cfg"]) auto
  then show "buildMiddlewaresForConfigFromService p svc cfg = (cfg', r) \<Longrightarrow> l4_at k cfg' = l4_at k cfg"
    by (auto simp: buildMiddlewaresForConfigFromService_def Let_def split: sum.splits)
qed

text \<open>The routers and the splits of a service write to the keys of its ports.\<close>

lemma service_routers_l4:
  assumes "buildServicesAndRoutersForService p svc scheme tt mws st = (st', r)" "k \<notin> service_keys svc"
  shows "l4_at k (snd st') = l4_at k (snd st)"
proof -
  have http: "l4_at k (snd (http_service_port p svc scheme mws key x st)) = l4_at k (snd st)" for key x st
    by (cases x; cases st; cases "buildHTTPEntrypoint p (fst x)") (simp_all add: http_service_port_def Let_def)
  have "getServiceRouterKeyFromService svc (sp_Port sp) \<noteq> k" if "sp \<in> set (svc_Ports svc)" for sp
    using that assms(2) by (auto simp: service_keys_def)
  then have l4: "l4_at k (snd (tcp_service_port p svc key sp st)) = l4_at k (snd st)"
    "l4_at k (snd (udp_service_port p svc key sp st)) = l4_at k (snd st)" if "sp \<in> set (svc_Ports svc)" for key sp st
    using that by (cases st; simp add: tcp_service_port_def udp_service_port_def Let_def split: sum.split)+
  note folds = l4_fold [where f = "http_service_port p svc scheme mws key" for key, OF http]
    l4_fold [where f = "tcp_service_port p svc key" and xs = "svc_Ports svc" for key, OF l4(1)]
    l4_fold [where f = "udp_service_port p svc key" and xs = "svc_Ports svc" for key, OF l4(2)]
  show ?thesis using assms(1)
    by (auto simp: buildServicesAndRoutersForService_def buildServicesAndRoutersForHTTPService_def
        buildServicesAndRoutersForTCPService_def buildServicesAndRoutersForUDPService_def folds Let_def split: if_splits)
qed

lemma split_l4:
  assumes "is_digit (last k)" "\<And>ts svc. TrafficSplits (fst st) x = Some ts \<Longrightarrow> Services (fst st) (ts_Service ts) = Some svc \<Longrightarrow> k \<notin> service_keys svc"
  shows "l4_at k (snd (fst (buildServiceAndRoutersForTrafficSplit p x scheme tt mws st))) = l4_at k (snd st)"
proof -
  have backend: "getServiceKeyFromTrafficSplitBackend ts port b \<noteq> k" for ts port b using split_keys_last(3) assms(1) by metis
  have adds: "l4_at k (fold (\<lambda>b. addTCPService (getServiceKeyFromTrafficSplitBackend ts port b) (g b)) bs cfg) = l4_at k cfg"
    "l4_at k (fold (\<lambda>b. addUDPService (getServiceKeyFromTrafficSplitBackend ts port b) (g b)) bs cfg) = l4_at k cfg" for ts port g bs cfg
    by (induction bs arbitrary: cfg) (simp_all add: backend)
  have l4: "l4_at k (snd (tcp_split_port p x ts svc sp s)) = l4_at k (snd s)" "l4_at k (snd (udp_split_port p x ts svc sp s)) = l4_at k (snd s)"
    if "k \<notin> service_keys svc" "sp \<in> set (svc_Ports svc)" for ts svc sp s
  proof -
    have "getServiceRouterKeyFromService svc (sp_Port sp) \<noteq> k" using that by (auto simp: service_keys_def)
    then show "l4_at k (snd (tcp_split_port p x ts svc sp s)) = l4_at k (snd s)" "l4_at k (snd (udp_split_port p x ts svc sp s)) = l4_at k (snd s)"
      by (cases s; simp add: tcp_split_port_def udp_split_port_def Let_def adds split: sum.split)+
  qed
  have folds: "l4_at k (snd (fold (tcp_split_port p x ts svc) (svc_Ports svc) s)) = l4_at k (snd s)"
    "l4_at k (snd (fold (udp_split_port p x ts svc) (svc_Ports svc) s)) = l4_at k (snd s)" if "k \<notin> service_keys svc" for ts svc s
    using l4 [OF that] by (auto intro!: l4_fold)
  show ?thesis using assms(2)
    by (auto simp: buildServiceAndRoutersForTrafficSplit_def buildTCPServiceAndRoutersForTrafficSplit_def
        buildUDPServiceAndRoutersForTrafficSplit_def http_split_l4 folds split: option.split)
qed

lemma same_service_keys:
  assumes "same_but_errors t u" "Services t k = Some svc" "Services u k = Some s"
  shows "service_keys s = service_keys svc"
proof -
  have "clean_svc s = clean_svc svc" using assms by (metis same_but_errors_def option.simps(9) option.inject)
  from clean_svc_fields [OF this] show ?thesis by (simp add: service_keys_def getServiceRouterKeyFromService_def)
qed

lemma splits_l4:
  assumes wf: "wf_topology t" and acl: "\<not> pc_ACL (pv_config p)" and key: "is_digit (last k)" "k \<notin> service_keys svc"
    and svc: "Services t svcKey = Some svc" "set xs \<subseteq> set (svc_TrafficSplits svc)"
    and run: "fold_opt (split_config_step p scheme tt mws) xs st = Some st'" "state_ok (pc_ACL (pv_config p)) t mws st"
  shows "l4_at k (snd st') = l4_at k (snd st)"
proof -
  let ?P = "\<lambda>s. state_ok (pc_ACL (pv_config p)) t mws s \<and> l4_at k (snd s) = l4_at k (snd st)"
  have step: "?P s'" if x: "x \<in> set xs" and P: "?P s" and s': "split_config_step p scheme tt mws x s = Some s'" for x s s'
  proof -
    have "\<forall>x\<in>set (svc_TrafficSplits svc). \<exists>ts. TrafficSplits t x = Some ts \<and> ts_Service ts = svcKey"
      using wf_topologyD(1) [OF wf svc(1)] unfolding svc_ok_def by blast
    with x svc(2) obtain ts where ts: "TrafficSplits t x = Some ts" "ts_Service ts = svcKey" by blast
    from P have same: "same_but_errors t (fst s)" by (simp add: state_ok_def)
    have own: "k \<notin> service_keys svc'" if "TrafficSplits (fst s) x = Some ts'" "Services (fst s) (ts_Service ts') = Some svc'" for ts' svc'
    proof -
      have "clean_ts ts' = clean_ts ts" using same ts(1) that(1) by (metis same_but_errors_def option.simps(9) option.inject)
      with ts(2) have "ts_Service ts' = svcKey" using clean_ts_fields by metis
      with same_service_keys [OF same svc(1)] that(2) key(2) show ?thesis by simp
    qed
    have "l4_at k (snd (fst (buildServiceAndRoutersForTrafficSplit p x scheme tt mws s))) = l4_at k (snd s)"
      by (rule split_l4 [OF key(1)]) (rule own)
    with s' have "l4_at k (snd s') = l4_at k (snd s)"
      by (auto simp: split_config_step_def split: prod.splits option.splits if_splits)
    with P split_config_step_ok [of p t mws s x scheme tt] s' ts(1) show ?thesis by auto
  qed
  have start: "?P st" using run(2) by simp
  have "?P st'" by (rule fold_opt_keeps [where P = ?P, OF run(1) start]) (rule step)
  then show ?thesis ..
qed

lemma other_service_l4:
  assumes wf: "wf_topology t" and acl: "\<not> pc_ACL (pv_config p)" and valid: "valid_builder (pv_buildServiceMiddleware p)"
    and key: "is_digit (last k)" "k \<notin> service_keys svc0" and svc: "Services t svcKey = Some svc0" "clean_svc svc = clean_svc svc0"
    and run: "buildConfigForService p svc st = Some (st', r)" "state_ok (pc_ACL (pv_config p)) t [] st"
  shows "l4_at k (snd st') = l4_at k (snd st)"
proof (cases "\<exists>tt scheme. GetTrafficType (pc_DefaultTrafficType (pv_config p)) (svc_Annotations svc) = Inr tt
    \<and> GetScheme (svc_Annotations svc) = Inr scheme")
  case False
  with run(1) show ?thesis by (auto simp: buildConfigForService_def split: sum.splits)
next
  case True
  then obtain tt scheme where tt: "GetTrafficType (pc_DefaultTrafficType (pv_config p)) (svc_Annotations svc) = Inr tt"
    "GetScheme (svc_Annotations svc) = Inr scheme" by blast
  note fields = clean_svc_fields [OF svc(2)]
  have keys: "k \<notin> service_keys svc" using key(2) fields by (simp add: service_keys_def getServiceRouterKeyFromService_def)
  obtain u cfg where st: "st = (u, cfg)" by fastforce
  obtain cfg1 r1 where m: "(if tt = ServiceTypeHTTP then buildMiddlewaresForConfigFromService p svc cfg
      else (cfg, Inr [])) = (cfg1, r1)" by fastforce
  then have at1: "l4_at k cfg1 = l4_at k cfg" using middlewares_l4 by (auto split: if_splits)
  have "conf_ok (pc_ACL (pv_config p)) t [] cfg" using run(2) st by simp
  note ok1 = traffic_type_middlewares_ok [OF valid this m]
  note unf = buildConfigForService_def st fst_conv snd_conv tt sum.case m prod.case
  show ?thesis
  proof (cases r1)
    case (Inl e)
    with run(1) have "st' = (u, cfg1)" unfolding unf by simp
    with at1 st show ?thesis by simp
  next
    case (Inr mws)
    with ok1 run(2) st acl have ok: "state_ok False t mws (u, cfg1)" by simp
    obtain st1 r2 where b: "buildServicesAndRoutersForService p svc scheme tt mws (u, cfg1) = (st1, r2)" by fastforce
    note at2 = service_routers_l4 [OF b keys]
    from buildServicesAndRoutersForService_ok [OF ok, of p svc scheme tt] b acl
    have ok2: "state_ok (pc_ACL (pv_config p)) t mws st1" by simp
    show ?thesis
    proof (cases r2)
      case None
      with run(1) acl Inr b have splits: "fold_opt (split_config_step p scheme tt mws) (svc_TrafficSplits svc) st1 = Some st'"
        unfolding unf by (auto simp: buildConfigRoutersAndServices_def)
      from splits_l4 [OF wf acl key svc(1) _ splits ok2] fields at1 at2 st show ?thesis by simp
    next
      case (Some e)
      with run(1) acl Inr b have "st' = st1" unfolding unf by (simp add: buildConfigRoutersAndServices_def)
      with at1 at2 st show ?thesis by simp
    qed
  qed
qed

section \<open>A service of its own\<close>

text \<open>A loop that writes at a key at exactly one element leaves there what it wrote.\<close>

lemma fold_single_write:
  assumes "\<And>x s. x \<in> set xs \<Longrightarrow> P s \<Longrightarrow> P (f x s)" "\<And>x s. x \<in> set xs \<Longrightarrow> x \<noteq> x0 \<Longrightarrow> look (f x s) = look s"
    and "\<And>s. P s \<Longrightarrow> look (f x0 s) = w" "x0 \<in> set xs" "distinct xs" "P s"
  shows "look (fold f xs s) = w"
  using assms
proof (induction xs arbitrary: s)
  case (Cons x xs)
  show ?case
  proof (cases "x = x0")
    case True
    have "look (fold f xs s') = look s'" for s'
    proof (rule fold_invariant_rule [where P = "\<lambda>s. look s = look s'"])
      fix y s assume "y \<in> set xs" "look s = look s'"
      with Cons.prems(2) [of y s] Cons.prems(5) True show "look (f y s) = look s'" by auto
    qed simp
    with True Cons.prems(3,6) show ?thesis by simp
  next
    case False
    have "P (f x s)" using Cons.prems(1,6) by simp
    with Cons.IH [of "f x s"] Cons.prems False show ?thesis by simp
  qed
qed simp

definition tcp_entry :: "string \<Rightarrow> string \<Rightarrow> string list \<Rightarrow> TCPRouter option \<times> L4Service option" where
  "tcp_entry key ep servers = (Some (buildTCPRouter buildTCPRouterRule ep key), Some (L4LoadBalancer servers))"

definition udp_entry :: "string \<Rightarrow> string \<Rightarrow> string list \<Rightarrow> UDPRouter option \<times> L4Service option" where
  "udp_entry key ep servers = (Some (buildUDPRouter ep key), Some (L4LoadBalancer servers))"

lemma own_service_l4:
  assumes dist: "distinct (map sp_Port (svc_Ports svc))" and "distinct (svc_Ports svc)" "sp \<in> set (svc_Ports svc)" "Pods u = Pods t"
  defines "key \<equiv> getServiceRouterKeyFromService svc (sp_Port sp)"
  shows "buildTCPEntrypoint p svc (sp_Port sp) = Inr ep \<Longrightarrow>
      tcp_at key (snd (buildServicesAndRoutersForTCPService p svc k (u, cfg))) = tcp_entry key ep (pod_addresses t sp (svc_Pods svc))"
    "buildUDPEntrypoint p svc (sp_Port sp) = Inr ep \<Longrightarrow>
      udp_at key (snd (buildServicesAndRoutersForUDPService p svc k (u, cfg))) = udp_entry key ep (pod_addresses t sp (svc_Pods svc))"
proof -
  have other: "getServiceRouterKeyFromService svc (sp_Port sp') \<noteq> key" if "sp' \<in> set (svc_Ports svc)" "sp' \<noteq> sp" for sp'
    using dist assms(3) that unfolding key_def
    by (auto simp: getServiceRouterKeyFromService_def itoa32_inj distinct_map dest: inj_onD)
  have svc_err: "Pods (svc_error k e v) = Pods v" for e v by (simp add: svc_error_def)
  let ?P = "\<lambda>s. Pods (fst s) = Pods t"
  show "tcp_at key (snd (buildServicesAndRoutersForTCPService p svc k (u, cfg))) = tcp_entry key ep (pod_addresses t sp (svc_Pods svc))"
    if ep: "buildTCPEntrypoint p svc (sp_Port sp) = Inr ep"
    unfolding buildServicesAndRoutersForTCPService_def
  proof (rule fold_single_write [where look = "\<lambda>s. tcp_at key (snd s)" and P = ?P and ?x0.0 = sp])
    show "?P (tcp_service_port p svc k x s)" if "?P s" for x s
      using that by (cases s) (auto simp: tcp_service_port_def Let_def svc_err split: sum.split)
    show "tcp_at key (snd (tcp_service_port p svc k x s)) = tcp_at key (snd s)" if "x \<in> set (svc_Ports svc)" "x \<noteq> sp" for x s
      using other [OF that] by (cases s) (auto simp: tcp_service_port_def Let_def tcp_at_def split: sum.split)
    show "tcp_at key (snd (tcp_service_port p svc k sp s)) = tcp_entry key ep (pod_addresses t sp (svc_Pods svc))" if "?P s" for s
      using that ep pod_addresses_cong [of "fst s" t sp "svc_Pods svc"]
      by (cases s) (simp add: tcp_service_port_def Let_def tcp_at_def tcp_entry_def key_def buildTCPServiceFromService_def)
  qed (use assms(2-4) in simp_all)
  show "udp_at key (snd (buildServicesAndRoutersForUDPService p svc k (u, cfg))) = udp_entry key ep (pod_addresses t sp (svc_Pods svc))"
    if ep: "buildUDPEntrypoint p svc (sp_Port sp) = Inr ep"
    unfolding buildServicesAndRoutersForUDPService_def
  proof (rule fold_single_write [where look = "\<lambda>s. udp_at key (snd s)" and P = ?P and ?x0.0 = sp])
    show "?P (udp_service_port p svc k x s)" if "?P s" for x s
      using that by (cases s) (auto simp: udp_service_port_def Let_def svc_err split: sum.split)
    show "udp_at key (snd (udp_service_port p svc k x s)) = udp_at key (snd s)" if "x \<in> set (svc_Ports svc)" "x \<noteq> sp" for x s
      using other [OF that] by (cases s) (auto simp: udp_service_port_def Let_def udp_at_def split: sum.split)
    show "udp_at key (snd (udp_service_port p svc k sp s)) = udp_entry key ep (pod_addresses t sp (svc_Pods svc))" if "?P s" for s
      using that ep pod_addresses_cong [of "fst s" t sp "svc_Pods svc"]
      by (cases s) (simp add: udp_service_port_def Let_def udp_at_def udp_entry_def key_def buildUDPServiceFromService_def)
  qed (use assms(2-4) in simp_all)
qed

section \<open>The whole configuration\<close>

lemma own_config_l4:
  assumes "buildConfigForService p svc (u, cfg) = Some (st', r)" "\<not> pc_ACL (pv_config p)" "svc_TrafficSplits svc = []"
    and "GetTrafficType (pc_DefaultTrafficType (pv_config p)) (svc_Annotations svc) = Inr tt" "GetScheme (svc_Annotations svc) = Inr scheme"
    and "distinct (map sp_Port (svc_Ports svc))" "sp \<in> set (svc_Ports svc)" "Pods u = Pods t"
  defines "key \<equiv> getServiceRouterKeyFromService svc (sp_Port sp)"
  shows "tt = ServiceTypeTCP \<Longrightarrow> buildTCPEntrypoint p svc (sp_Port sp) = Inr ep \<Longrightarrow>
      tcp_at key (snd st') = tcp_entry key ep (pod_addresses t sp (svc_Pods svc))"
    "tt = ServiceTypeUDP \<Longrightarrow> buildUDPEntrypoint p svc (sp_Port sp) = Inr ep \<Longrightarrow>
      udp_at key (snd st') = udp_entry key ep (pod_addresses t sp (svc_Pods svc))"
proof -
  have "distinct (svc_Ports svc)" using assms(6) by (simp add: distinct_map)
  note own = own_service_l4 [OF assms(6) this assms(7,8), folded key_def, of p ep "Key (svc_Name svc) (svc_Namespace svc)" cfg]
  show "tcp_at key (snd st') = tcp_entry key ep (pod_addresses t sp (svc_Pods svc))"
    if "tt = ServiceTypeTCP" "buildTCPEntrypoint p svc (sp_Port sp) = Inr ep"
    using own(1) [OF that(2)] assms(1-5) that(1)
    by (simp add: buildConfigForService_def buildConfigRoutersAndServices_def buildServicesAndRoutersForService_def Let_def)
  show "udp_at key (snd st') = udp_entry key ep (pod_addresses t sp (svc_Pods svc))"
    if "tt = ServiceTypeUDP" "buildUDPEntrypoint p svc (sp_Port sp) = Inr ep"
    using own(2) [OF that(2)] assms(1-5) that(1)
    by (simp add: buildConfigForService_def buildConfigRoutersAndServices_def buildServicesAndRoutersForService_def Let_def)
qed

lemma config_step_l4:
  assumes wf: "wf_topology t" and acl: "\<not> pc_ACL (pv_config p)" and valid: "valid_builder (pv_buildServiceMiddleware p)"
    and key: "is_digit (last key)" "\<And>svc. Services t k = Some svc \<Longrightarrow> key \<notin> service_keys svc"
    and step: "config_step p k st = Some st'" "state_ok (pc_ACL (pv_config p)) t [] st"
  shows "l4_at key (snd st') = l4_at key (snd st)"
proof (cases "Services (fst st) k")
  case None
  with step(1) show ?thesis by (simp add: config_step_def)
next
  case (Some svc)
  from step(2) have "map_option clean_svc (Services (fst st) k) = map_option clean_svc (Services t k)"
    by (simp add: state_ok_def same_but_errors_def)
  with Some obtain s where s: "Services t k = Some s" "clean_svc svc = clean_svc s" by (cases "Services t k") simp_all
  from step(1) Some obtain st1 r where "buildConfigForService p svc st = Some (st1, r)" "snd st' = snd st1"
    by (auto simp: config_step_def split: option.splits)
  with other_service_l4 [OF wf acl valid key(1) key(2) [OF s(1)] s _ step(2)] show ?thesis by simp
qed

lemma config_steps_l4:
  assumes wf: "wf_topology t" and acl: "\<not> pc_ACL (pv_config p)" and valid: "valid_builder (pv_buildServiceMiddleware p)"
    and key: "is_digit (last key)" "\<And>k svc. k \<in> set ks \<Longrightarrow> Services t k = Some svc \<Longrightarrow> key \<notin> service_keys svc"
    and run: "fold_opt (config_step p) ks st = Some st'" "state_ok (pc_ACL (pv_config p)) t [] st"
  shows "l4_at key (snd st') = l4_at key (snd st)"
proof -
  let ?P = "\<lambda>s. state_ok (pc_ACL (pv_config p)) t [] s \<and> l4_at key (snd s) = l4_at key (snd st)"
  have "?P s'" if "k \<in> set ks" "?P s" "config_step p k s = Some s'" for k s s'
    using config_step_l4 [OF wf acl valid key(1) key(2) [OF that(1)] that(3)] that config_step_ok [OF valid wf, of s k] by auto
  then have "?P st'" using fold_opt_keeps [where P = ?P, OF run(1)] run(2) by blast
  then show ?thesis ..
qed

text \<open>Building the configuration of a topology ends with this for every mapped port of every TCP or UDP service without splits.\<close>

lemma BuildConfig_l4_at:
  assumes "wf_topology t" "pv_buildServiceMiddleware p = BuildMiddlewares" "\<not> pc_ACL (pv_config p)"
    and "BuildConfig p order t = Some (t', conf)" "enumerates order (Services t)" "keys_apart t" "Services t k = Some svc"
    and "svc_TrafficSplits svc = []" "GetTrafficType (pc_DefaultTrafficType (pv_config p)) (svc_Annotations svc) = Inr tt"
    and "GetScheme (svc_Annotations svc) = Inr scheme" "distinct (map sp_Port (svc_Ports svc))" "sp \<in> set (svc_Ports svc)"
  defines "key \<equiv> getServiceRouterKeyFromService svc (sp_Port sp)"
  shows "tt = ServiceTypeTCP \<Longrightarrow> buildTCPEntrypoint p svc (sp_Port sp) = Inr ep \<Longrightarrow>
      tcp_at key conf = tcp_entry key ep (pod_addresses t sp (svc_Pods svc))"
    "tt = ServiceTypeUDP \<Longrightarrow> buildUDPEntrypoint p svc (sp_Port sp) = Inr ep \<Longrightarrow>
      udp_at key conf = udp_entry key ep (pod_addresses t sp (svc_Pods svc))"
proof -
  have valid: "valid_builder (pv_buildServiceMiddleware p)" using BuildMiddlewares_valid assms(2) by simp
  from assms(5,7) have "k \<in> set order" by (simp add: enumerates_mem)
  then obtain pre post where order: "order = pre @ k # post" by (meson split_list)
  with assms(5) have post: "k \<notin> set post" by (simp add: enumerates_def)
  from assms(4) order obtain st1 st2 where steps: "fold_opt (config_step p) pre (t, NewDefaultDynamicConfig) = Some st1"
    "config_step p k st1 = Some st2" "fold_opt (config_step p) post st2 = Some (t', conf)"
    by (auto simp: BuildConfig_def fold_opt_append bind_eq_Some_conv)
  have ok1: "state_ok (pc_ACL (pv_config p)) t [] st1"
    by (rule config_steps_ok [OF steps(1) valid assms(1)]) (simp add: default_config_ok)
  from config_step_ok [OF valid assms(1) ok1, of k] steps(2) have ok2: "state_ok (pc_ACL (pv_config p)) t [] st2" by simp
  obtain u cfg where st1: "st1 = (u, cfg)" by fastforce
  with ok1 have same: "same_but_errors t u" by simp
  then have "map_option clean_svc (Services u k) = Some (clean_svc svc)" using assms(7) by (simp add: same_but_errors_def)
  then obtain s where s: "Services u k = Some s" "clean_svc s = clean_svc svc" by auto
  note fields = clean_svc_fields [OF s(2)]
  from steps(2) st1 s(1) obtain st r where b: "buildConfigForService p s (u, cfg) = Some (st, r)" "snd st2 = snd st"
    by (auto simp: config_step_def split: option.splits)
  have pods: "Pods u = Pods t" using same by (simp add: same_but_errors_def)
  have key: "getServiceRouterKeyFromService s (sp_Port sp) = key" by (simp add: key_def getServiceRouterKeyFromService_def fields)
  have own: "svc_TrafficSplits s = []" "GetTrafficType (pc_DefaultTrafficType (pv_config p)) (svc_Annotations s) = Inr tt"
    "GetScheme (svc_Annotations s) = Inr scheme" "distinct (map sp_Port (svc_Ports s))" "sp \<in> set (svc_Ports s)"
    using assms(8-12) fields by simp_all
  note own = own_config_l4 [OF b(1) assms(3) own pods, unfolded key fields(5), of ep]
  have "key \<in> service_keys svc" using assms(12) by (simp add: key_def service_keys_def)
  then have "key \<notin> service_keys svc'" if "k' \<in> set post" "Services t k' = Some svc'" for k' svc'
    using keys_apartD [OF assms(6,7) that(2)] post that(1) by blast
  from config_steps_l4 [OF assms(1,3) valid _ this steps(3) ok2] have "l4_at key conf = l4_at key (snd st)"
    by (simp add: key_def service_key_last b(2))
  then have eq: "tcp_at key conf = tcp_at key (snd st)" "udp_at key conf = udp_at key (snd st)" by (simp_all add: l4_at_def)
  have eps: "buildTCPEntrypoint p s port = buildTCPEntrypoint p svc port" "buildUDPEntrypoint p s port = buildUDPEntrypoint p svc port" for port
    by (simp_all add: buildTCPEntrypoint_def buildUDPEntrypoint_def fields)
  show "tcp_at key conf = tcp_entry key ep (pod_addresses t sp (svc_Pods svc))"
    if "tt = ServiceTypeTCP" "buildTCPEntrypoint p svc (sp_Port sp) = Inr ep"
    using own(1) that eps eq by simp
  show "udp_at key conf = udp_entry key ep (pod_addresses t sp (svc_Pods svc))"
    if "tt = ServiceTypeUDP" "buildUDPEntrypoint p svc (sp_Port sp) = Inr ep"
    using own(2) that eps eq by simp
qed

section \<open>From the cluster to the configuration\<close>

text \<open>The configuration routes an entry point of a TCP or UDP mesh port to these servers.\<close>

definition l4_route :: "string \<Rightarrow> Configuration \<Rightarrow> string \<Rightarrow> string list \<Rightarrow> bool" where
  "l4_route tt conf ep servers \<longleftrightarrow>
     (if tt = ServiceTypeTCP then \<exists>key r. tc_Routers (tcp_conf conf) key = Some r \<and> tr_EntryPoints r = [ep] \<and> tr_Rule r = buildTCPRouterRule
        \<and> tc_Services (tcp_conf conf) (tr_Service r) = Some (L4LoadBalancer servers)
      else \<exists>key r. uc_Routers (udp_conf conf) key = Some r \<and> ur_EntryPoints r = [ep]
        \<and> uc_Services (udp_conf conf) (ur_Service r) = Some (L4LoadBalancer servers))"

lemma l4_route_entries:
  "tcp_at key conf = tcp_entry key ep servers \<Longrightarrow> l4_route ServiceTypeTCP conf ep servers"
  "udp_at key conf = udp_entry key ep servers \<Longrightarrow> l4_route ServiceTypeUDP conf ep servers"
  by (simp_all add: l4_route_def tcp_at_def tcp_entry_def udp_at_def udp_entry_def buildTCPRouter_def buildUDPRouter_def) force+

definition l4_entrypoint :: "Provider \<Rightarrow> string \<Rightarrow> Service \<Rightarrow> int32 \<Rightarrow> error + string" where
  "l4_entrypoint p tt svc port = (if tt = ServiceTypeTCP then buildTCPEntrypoint p svc port else buildUDPEntrypoint p svc port)"

lemma cluster_l4_served:
  assumes load: "loadResources b flt = Inr res" "valid_schedule res sch" "length (sch_TrafficSplits sch) < fuel"
      "Build_topology fuel sch b flt = Some (Inr t)" "l_Pods b = Some pods" "distinct (map pod_key pods)" "plain_services res"
    and conf: "pv_buildServiceMiddleware p = BuildMiddlewares" "\<not> pc_ACL (pv_config p)"
      "BuildConfig p order t = Some (t', conf)" "enumerates order (Services t)"
    and svc: "r_Services res k = Some svc" "\<And>s. Services t k = Some s \<Longrightarrow> svc_TrafficSplits s = []"
      "GetTrafficType (pc_DefaultTrafficType (pv_config p)) (om_Annotations (ks_meta svc)) = Inr tt"
      "tt = ServiceTypeTCP \<or> tt = ServiceTypeUDP" "GetScheme (om_Annotations (ks_meta svc)) = Inr scheme"
    and port: "distinct (map sp_Port (ks_Ports svc))" "sp \<in> set (ks_Ports svc)"
      "\<And>node. svc_Namespace node = om_Namespace (ks_meta svc) \<Longrightarrow> svc_Name node = om_Name (ks_meta svc) \<Longrightarrow>
         l4_entrypoint p tt node (sp_Port sp) = Inr ep"
  shows "\<exists>servers. l4_route tt conf ep servers \<and> (\<forall>a. a \<in> set servers \<longleftrightarrow> pod_serves (at (PodsBySvc res) k) sp a)"
proof -
  from cluster_node [OF load svc(1)] obtain s where wf: "wf_topology t" and apart: "keys_apart t"
    and s: "Services t k = Some s" "svc_core s = service_node res svc"
    and served: "\<And>sp a. served_by t (svc_Pods s) sp a \<longleftrightarrow> pod_serves (at (PodsBySvc res) k) sp a" by blast
  note fields = svc_core_fields [OF s(2)]
  note at = BuildConfig_l4_at [OF wf conf apart s(1) svc(2) [OF s(1)], unfolded fields(1-5), OF svc(3,5) port(1,2)]
  have ep: "l4_entrypoint p tt s (sp_Port sp) = Inr ep" using port(3) [of s] fields by simp
  let ?servers = "pod_addresses t sp (svc_Pods s)"
  from svc(4) have "l4_route tt conf ep ?servers"
  proof
    assume tt: "tt = ServiceTypeTCP"
    from at(1) [OF this] ep tt show ?thesis unfolding tt by (intro l4_route_entries) (simp add: l4_entrypoint_def)
  next
    assume tt: "tt = ServiceTypeUDP"
    from at(2) [OF this] ep tt show ?thesis unfolding tt by (intro l4_route_entries) (simp add: l4_entrypoint_def)
  qed
  moreover have "a \<in> set ?servers \<longleftrightarrow> pod_serves (at (PodsBySvc res) k) sp a" for a
    using served by (simp add: pod_addresses_iff)
  ultimately show ?thesis by blast
qed

end
