(* ===== verification/Access.thy ===== *)
theory Access
  imports Routing Mirror ControllerInvariant
begin

text \<open>
  Access control from the cluster to the configuration: under access control, whoever gets through the
  whitelist of a router that leads to pods was allowed to by a traffic target of the cluster. First, what every
  step of \<open>BuildConfig\<close> keeps: which service and which whitelist a router has, and which servers a service has.
  Then the keys, by which a router, its service and its whitelist come from the same traffic target. Last the
  pods, through the topology to the objects of the cluster.
\<close>

section \<open>Where routers lead and what servers services have\<close>

definition router_fenced :: "Topology \<Rightarrow> string \<Rightarrow> Router \<Rightarrow> bool" where
  "router_fenced t k r \<longleftrightarrow> k = ''readiness'' \<or> rt_Service r = blockAllServiceKey
     \<or> (\<exists>tt port. known_stt t tt \<and> rt_Service r = getServiceKeyFromTrafficTarget tt port
          \<and> (getWhitelistMiddlewareKeyFromTrafficTargetDirect tt \<in> set (rt_Middlewares r)
           \<or> getWhitelistMiddlewareKeyFromTrafficTargetIndirect tt \<in> set (rt_Middlewares r)))
     \<or> (\<exists>ts port. rt_Service r = getServiceKeyFromTrafficSplit ts port)"

definition service_fenced :: "Topology \<Rightarrow> string \<Rightarrow> HTTPService \<Rightarrow> bool" where
  "service_fenced t k s \<longleftrightarrow> k = ''readiness'' \<or> s = LoadBalancer [] False
     \<or> (\<exists>tt scheme sp. known_stt t tt \<and> k = getServiceKeyFromTrafficTarget tt (sp_Port sp)
          \<and> s = buildHTTPServiceFromTrafficTarget t tt scheme sp)
     \<or> (\<exists>ws. s = Weighted ws)
     \<or> (\<exists>ts port b. k = getServiceKeyFromTrafficSplitBackend ts port b)"

definition fenced :: "Topology \<Rightarrow> Configuration \<Rightarrow> bool" where
  "fenced t cfg \<longleftrightarrow> (\<forall>k r. hc_Routers (cf_HTTP cfg) k = Some r \<longrightarrow> router_fenced t k r)
     \<and> (\<forall>k s. hc_Services (cf_HTTP cfg) k = Some s \<longrightarrow> service_fenced t k s)"

lemma fenced_default: "fenced t NewDefaultDynamicConfig"
  by (simp add: fenced_def NewDefaultDynamicConfig_def router_fenced_def service_fenced_def)

lemma fenced_writes:
  "fenced t cfg \<Longrightarrow> router_fenced t k r \<Longrightarrow> fenced t (put_router k r cfg)"
  "fenced t cfg \<Longrightarrow> service_fenced t k s \<Longrightarrow> fenced t (put_service k s cfg)"
  "fenced t cfg \<Longrightarrow> fenced t (put_middleware k m cfg)"
  by (simp_all add: fenced_def)

lemma fenced_l4 [simp]:
  "fenced t (addTCPService k s cfg) = fenced t cfg" "fenced t (addTCPRouter k r cfg) = fenced t cfg"
  "fenced t (addUDPService k s cfg) = fenced t cfg" "fenced t (addUDPRouter k u cfg) = fenced t cfg"
  by (simp_all add: fenced_def)

lemma fences:
  "router_fenced t k \<lparr>rt_EntryPoints = eps, rt_Middlewares = mws, rt_Service = blockAllServiceKey, rt_Rule = rule, rt_Priority = pr\<rparr>"
  "known_stt t tt \<Longrightarrow> router_fenced t k (buildHTTPRouter rule ep
     (addToSliceCopy mws (getWhitelistMiddlewareKeyFromTrafficTargetDirect tt)) (getServiceKeyFromTrafficTarget tt port) pr)"
  "known_stt t tt \<Longrightarrow> router_fenced t k (buildHTTPRouter rule ep
     (addToSliceCopy mws (getWhitelistMiddlewareKeyFromTrafficTargetIndirect tt)) (getServiceKeyFromTrafficTarget tt port) pr)"
  "router_fenced t k (buildHTTPRouter rule ep mws (getServiceKeyFromTrafficSplit ts port) pr)"
  "known_stt t tt \<Longrightarrow> service_fenced t (getServiceKeyFromTrafficTarget tt (sp_Port sp)) (buildHTTPServiceFromTrafficTarget t tt scheme sp)"
  "service_fenced t k (Weighted ws)"
  "service_fenced t (getServiceKeyFromTrafficSplitBackend ts port b) s"
  by (simp_all add: router_fenced_def service_fenced_def addToSliceCopy_def) blast+

text \<open>The state between two steps.\<close>

definition fence :: "Topology \<Rightarrow> conf_state \<Rightarrow> bool" where
  "fence t st \<longleftrightarrow> same_but_errors t (fst st) \<and> fenced t (snd st)"

lemma fence_pair [simp]: "fence t (u, cfg) \<longleftrightarrow> same_but_errors t u \<and> fenced t cfg"
  by (simp add: fence_def)

lemma fence_fold:
  assumes "\<And>x st. fence t st \<Longrightarrow> fence t (f x st)" "fence t st"
  shows "fence t (fold f xs st)"
  using assms by (intro fold_invariant_rule [where P = "fence t"]) simp_all

lemma fence_fold_opt:
  assumes "\<And>x st st'. fence t st \<Longrightarrow> f x st = Some st' \<Longrightarrow> fence t st'" "fence t st" "fold_opt f xs st = Some st'"
  shows "fence t st'"
  using assms(2,3)
proof (induction xs arbitrary: st)
  case (Cons x xs)
  then obtain st1 where "f x st = Some st1" "fold_opt f xs st1 = Some st'" by (auto simp: bind_eq_Some_conv)
  with Cons.IH Cons.prems(1) assms(1) show ?case by blast
qed simp

lemma target_servers_cong:
  "Pods u = Pods t \<Longrightarrow> buildHTTPServiceFromTrafficTarget u tt scheme sp = buildHTTPServiceFromTrafficTarget t tt scheme sp"
  by (simp add: buildHTTPServiceFromTrafficTarget_def pod_addresses_cong [of u t])

lemma fence_block_all: "fence t st \<Longrightarrow> fence t (block_all_port p svc x st)"
  by (cases st; cases x; cases "buildHTTPEntrypoint p (fst x)") (simp_all add: block_all_port_def fenced_writes(1) [OF _ fences(1)])

lemma fence_target_port:
  assumes tt: "known_stt t tt" and ok: "fence t (snd st)"
  shows "fence t (snd (http_target_port p ttKey tt ttSvc scheme mws (getWhitelistMiddlewareKeyFromTrafficTargetDirect tt) x st))"
proof -
  obtain rule u cfg portID svcPort where st: "st = (rule, u, cfg)" and x: "x = (portID, svcPort)" by (metis prod.exhaust)
  from ok st have same: "same_but_errors t u" and cfg: "fenced t cfg" by simp_all
  then have servers: "buildHTTPServiceFromTrafficTarget u tt scheme svcPort = buildHTTPServiceFromTrafficTarget t tt scheme svcPort"
    by (intro target_servers_cong) (simp add: same_but_errors_def)
  show ?thesis using same cfg
    by (auto simp: st x http_target_port_def Let_def servers intro!: fenced_writes fences tt split: sum.split)
qed

lemma fence_target:
  assumes tt: "known_stt t tt" and ok: "fence t st"
  shows "fence t (buildHTTPServicesAndRoutersForTrafficTarget p tt ttSvc ttKey scheme mws st)"
proof -
  obtain u cfg where st: "st = (u, cfg)" by fastforce
  have "fence t (snd (fold (http_target_port p ttKey tt ttSvc scheme mws (getWhitelistMiddlewareKeyFromTrafficTargetDirect tt)) xs st'))"
    if "fence t (snd st')" for xs st'
    by (rule fold_invariant_rule [where P = "\<lambda>st. fence t (snd st)"]) (use fence_target_port [OF tt] that in simp_all)
  with ok show ?thesis
    by (simp add: st buildHTTPServicesAndRoutersForTrafficTarget_def Let_def fenced_writes)
qed

lemma fence_tcp_target: "fence t st \<Longrightarrow> fence t (tcp_target_port p ttKey tt ttSvc sp st)"
  by (cases st) (auto simp: tcp_target_port_def Let_def split: sum.split)

lemma fence_target_config:
  assumes "fence t st" "target_config_step p scheme trafficType mws ttKey st = Some st'"
  shows "fence t st'"
proof -
  from assms(1) have same: "same_but_errors t (fst st)" by (simp add: fence_def)
  have "fence t (fst (buildServicesAndRoutersForTrafficTarget p ttKey scheme trafficType mws st))"
    using assms(1) known_nodes(1) [OF same]
    by (auto simp: buildServicesAndRoutersForTrafficTarget_def buildTCPServicesAndRoutersForTrafficTarget_def
        intro!: fence_fold fence_tcp_target fence_target split: option.split)
  with assms(2) show ?thesis
    by (auto simp: target_config_step_def split: prod.splits option.splits if_splits)
qed

lemma fence_backends:
  "fenced t cfg \<Longrightarrow> buildServicesForTrafficSplitBackends u ts sp scheme bs cfg = (cfg', r) \<Longrightarrow> fenced t cfg'"
proof (induction bs arbitrary: cfg cfg' r)
  case (Cons b bs)
  show ?case
  proof (cases "Services u (tsb_Service b)")
    case (Some svc)
    let ?cfg = "put_service (getServiceKeyFromTrafficSplitBackend ts (sp_Port sp) b)
      (buildHTTPSplitTrafficBackendService b scheme (sp_Port sp)) cfg"
    obtain cfg2 r2 where rest: "buildServicesForTrafficSplitBackends u ts sp scheme bs ?cfg = (cfg2, r2)" by fastforce
    with Cons.prems(2) Some have "cfg' = cfg2" by (simp add: Let_def)
    with Cons.IH [OF _ rest] Cons.prems(1) show ?thesis by (simp add: fenced_writes fences)
  qed (use Cons.prems in simp)
qed simp

lemma fence_split_port:
  assumes "fence t (snd st)"
  shows "fence t (snd (http_split_port p tsKey scheme ts tsSvc mws rtr x st))"
proof -
  obtain rule u cfg portID svcPort where st: "st = (rule, u, cfg)" and x: "x = (portID, svcPort)" by (metis prod.exhaust)
  obtain cfg1 r where b: "buildServicesForTrafficSplitBackends u ts svcPort scheme (ts_Backends ts) cfg = (cfg1, r)" by fastforce
  with assms st have "same_but_errors t u" "fenced t cfg1" using fence_backends by auto
  then show ?thesis
    by (auto simp: st x http_split_port_def b Let_def intro!: fenced_writes fences split: sum.split)
qed

lemma fence_split:
  assumes "fence t st"
  shows "fence t (buildHTTPServiceAndRoutersForTrafficSplit p tsKey scheme ts tsSvc mws st)"
proof -
  obtain u cfg where st: "st = (u, cfg)" by fastforce
  have "fence t (snd (fold (http_split_port p tsKey scheme ts tsSvc mws rtr) xs st'))" if "fence t (snd st')" for xs st' rtr
    by (rule fold_invariant_rule [where P = "\<lambda>st. fence t (snd st)"]) (use fence_split_port that in simp_all)
  with assms show ?thesis
    by (auto simp: st buildHTTPServiceAndRoutersForTrafficSplit_def Let_def fenced_writes split: prod.splits)
qed

lemma fenced_l4_fold [simp]:
  "fenced t (fold (\<lambda>b. addTCPService (f b) (g b)) bs cfg) = fenced t cfg"
  "fenced t (fold (\<lambda>b. addUDPService (f b) (g b)) bs cfg) = fenced t cfg"
  by (induction bs arbitrary: cfg) simp_all

lemma fence_l4_split:
  "fence t st \<Longrightarrow> fence t (tcp_split_port p tsKey ts tsSvc sp st)"
  "fence t st \<Longrightarrow> fence t (udp_split_port p tsKey ts tsSvc sp st)"
  by (cases st; auto simp: tcp_split_port_def udp_split_port_def Let_def split: sum.split)+

lemma fence_split_config:
  assumes "fence t st" "split_config_step p scheme trafficType mws tsKey st = Some st'"
  shows "fence t st'"
proof -
  have "fence t (fst (buildServiceAndRoutersForTrafficSplit p tsKey scheme trafficType mws st))"
    using assms(1)
    by (auto simp: buildServiceAndRoutersForTrafficSplit_def buildTCPServiceAndRoutersForTrafficSplit_def
        buildUDPServiceAndRoutersForTrafficSplit_def intro!: fence_fold fence_l4_split fence_split split: option.split)
  with assms(2) show ?thesis
    by (auto simp: split_config_step_def split: prod.splits option.splits if_splits)
qed

lemma fence_middlewares:
  assumes "fenced t cfg" "buildMiddlewaresForConfigFromService p svc cfg = (cfg', r)"
  shows "fenced t cfg'"
proof -
  have "fenced t (fold (\<lambda>(name, m). put_middleware (getMiddlewareKey svc name) m) ms cfg)" for ms
    by (rule fold_invariant_rule [where P = "fenced t"]) (use assms(1) in \<open>auto intro: fenced_writes\<close>)
  with assms show ?thesis by (auto simp: buildMiddlewaresForConfigFromService_def Let_def split: sum.splits)
qed

lemma fence_service:
  assumes "pc_ACL (pv_config p)" "fence t st" "buildConfigForService p svc st = Some (st', r)"
  shows "fence t st'"
proof -
  obtain u cfg where st: "st = (u, cfg)" by fastforce
  have acl: "fence t s'" if "fence t s" "buildACLConfigRoutersAndServices p svc scheme tt mws s = Some s'" for s s' scheme tt mws
  proof -
    have "fence t (if tt = ServiceTypeHTTP then buildBlockAllRouters p svc s else s)"
      using that(1) by (simp add: buildBlockAllRouters_def fence_fold fence_block_all)
    from fence_fold_opt [OF fence_target_config this that(2) [unfolded buildACLConfigRoutersAndServices_def]] show ?thesis .
  qed
  have splits: "fence t s'" if "fence t s" "fold_opt (split_config_step p scheme tt mws) ks s = Some s'" for s s' scheme tt mws ks
    by (rule fence_fold_opt [OF fence_split_config that])
  have mw: "fenced t cfg'" if "(if tt = ServiceTypeHTTP then buildMiddlewaresForConfigFromService p svc cfg else (cfg, Inr [])) = (cfg', r')"
    for tt cfg' r'
    using that assms(2) fence_middlewares [of t cfg] by (auto simp: st split: if_splits)
  note def = assms(3) [unfolded st buildConfigForService_def snd_conv fst_conv]
  show ?thesis
  proof (cases "GetTrafficType (pc_DefaultTrafficType (pv_config p)) (svc_Annotations svc)")
    case (Inl e)
    with def assms(2) st show ?thesis by simp
  next
    case tt: (Inr tt)
    show ?thesis
    proof (cases "GetScheme (svc_Annotations svc)")
      case (Inl e)
      with def tt assms(2) st show ?thesis by simp
    next
      case scheme: (Inr scheme)
      obtain cfg1 r1 where m: "(if tt = ServiceTypeHTTP then buildMiddlewaresForConfigFromService p svc cfg
        else (cfg, Inr [])) = (cfg1, r1)" by fastforce
      have 1: "fence t (u, cfg1)" using assms(2) mw [OF m] by (simp add: st)
      show ?thesis
      proof (cases r1)
        case (Inl e)
        with def tt scheme m 1 show ?thesis by simp
      next
        case (Inr mws)
        with def tt scheme m assms(1) obtain s where
          s: "buildACLConfigRoutersAndServices p svc scheme tt mws (u, cfg1) = Some s"
          "fold_opt (split_config_step p scheme tt mws) (svc_TrafficSplits svc) s = Some st'"
          by (cases "buildACLConfigRoutersAndServices p svc scheme tt mws (u, cfg1)") auto
        from splits [OF acl [OF 1 s(1)] s(2)] show ?thesis .
      qed
    qed
  qed
qed

lemma BuildConfig_fenced:
  assumes "pc_ACL (pv_config p)" "BuildConfig p order t = Some (t', cfg)"
  shows "same_but_errors t t'" "fenced t cfg"
proof -
  have "fence t st'" if "fence t st" "config_step p k st = Some st'" for k st st'
    using that fence_service [OF assms(1) that(1)]
    by (cases st) (fastforce simp: config_step_def split: option.splits prod.splits)
  then have "fence t (t', cfg)"
    using fence_fold_opt [of t "config_step p" "(t, NewDefaultDynamicConfig)" order "(t', cfg)"] assms(2)
    by (simp add: BuildConfig_def fenced_default)
  then show "same_but_errors t t'" "fenced t cfg" by simp_all
qed

section \<open>Keys of traffic targets\<close>

text \<open>The suffixes keep the kinds of keys apart, and the name of a traffic target does not end in a dash: a
  service key, and a whitelist key, give away the part that names service and target.\<close>

lemma dash_itoa32:
  assumes "xs @ CHR ''-'' # itoa32 p = ys @ CHR ''-'' # itoa32 q" "xs \<noteq> []" "last xs \<noteq> CHR ''-''" "ys \<noteq> []" "last ys \<noteq> CHR ''-''"
  shows "xs = ys"
proof -
  have itoa: "\<exists>n. itoa32 w = dec n \<or> itoa32 w = CHR ''-'' # dec n" for w by (auto simp: itoa32_def itoa_def)
  from itoa obtain m n where m: "itoa32 p = dec m \<or> itoa32 p = CHR ''-'' # dec m" and n: "itoa32 q = dec n \<or> itoa32 q = CHR ''-'' # dec n"
    by meson
  have cut: "us = vs" if "us @ CHR ''-'' # dec i = vs @ CHR ''-'' # dec j" for us vs i j
    using dash_split_last [OF that dec_no_dash dec_no_dash] by blast
  from m n consider "xs @ CHR ''-'' # dec m = ys @ CHR ''-'' # dec n" | "(xs @ ''-'') @ CHR ''-'' # dec m = ys @ CHR ''-'' # dec n"
    | "xs @ CHR ''-'' # dec m = (ys @ ''-'') @ CHR ''-'' # dec n" | "(xs @ ''-'') @ CHR ''-'' # dec m = (ys @ ''-'') @ CHR ''-'' # dec n"
    using assms(1) by fastforce
  then show ?thesis
  proof cases
    case 1
    from cut [OF this] show ?thesis .
  next
    case 2
    from cut [OF this] have "ys = xs @ ''-''" ..
    with assms(5) show ?thesis by simp
  next
    case 3
    from cut [OF this] have "xs = ys @ ''-''" .
    with assms(3) show ?thesis by simp
  next
    case 4
    from cut [OF this] show ?thesis by simp
  qed
qed

lemma key_kinds_apart:
  "getServiceKeyFromTrafficTarget tt port \<noteq> ''readiness''" "getServiceKeyFromTrafficTarget tt port \<noteq> blockAllServiceKey"
  "getServiceKeyFromTrafficTarget tt port \<noteq> getServiceKeyFromTrafficSplitBackend ts q b"
  "getServiceKeyFromTrafficSplit ts q \<noteq> ''readiness''" "getServiceKeyFromTrafficSplit ts q \<noteq> getServiceKeyFromTrafficTarget tt port"
  "getServiceKeyFromTrafficSplit ts q \<noteq> getServiceKeyFromTrafficSplitBackend ts' port b"
  "blockAllServiceKey \<noteq> ''readiness''" "blockAllServiceKey \<noteq> getServiceKeyFromTrafficSplitBackend ts q b"
  by (rule notI, drule arg_cong [where f = rev], simp add: key_defs blockAllServiceKey_def)+

lemma rev_eq: "rev xs = rev ys \<Longrightarrow> xs = ys" "xs = ys \<Longrightarrow> rev xs = rev ys"
  by simp_all

lemma whitelist_kinds_apart:
  assumes "m = getWhitelistMiddlewareKeyFromTrafficTargetDirect tt \<or> m = getWhitelistMiddlewareKeyFromTrafficTargetIndirect tt"
  shows "m \<noteq> blockAllMiddlewareKey" "m \<noteq> getWhitelistMiddlewareKeyFromTrafficSplitDirect ts"
    "m \<noteq> getWhitelistMiddlewareKeyFromTrafficSplitIndirect ts"
    "m = getWhitelistMiddlewareKeyFromTrafficTargetDirect tt' \<or> m = getWhitelistMiddlewareKeyFromTrafficTargetIndirect tt' \<Longrightarrow>
       tt_prefix tt = tt_prefix tt'"
proof -
  from assms consider "m = getWhitelistMiddlewareKeyFromTrafficTargetDirect tt" | "m = getWhitelistMiddlewareKeyFromTrafficTargetIndirect tt"
    by blast
  then have "m \<noteq> blockAllMiddlewareKey \<and> m \<noteq> getWhitelistMiddlewareKeyFromTrafficSplitDirect ts
    \<and> m \<noteq> getWhitelistMiddlewareKeyFromTrafficSplitIndirect ts"
    by cases (intro conjI notI; drule rev_eq(2); simp add: key_defs blockAllMiddlewareKey_def)+
  then show "m \<noteq> blockAllMiddlewareKey" "m \<noteq> getWhitelistMiddlewareKeyFromTrafficSplitDirect ts"
    "m \<noteq> getWhitelistMiddlewareKeyFromTrafficSplitIndirect ts" by blast+
  have "getWhitelistMiddlewareKeyFromTrafficTargetDirect u \<noteq> getWhitelistMiddlewareKeyFromTrafficTargetIndirect v" for u v
    by (intro notI; drule rev_eq(2); simp add: key_defs)
  moreover assume "m = getWhitelistMiddlewareKeyFromTrafficTargetDirect tt' \<or> m = getWhitelistMiddlewareKeyFromTrafficTargetIndirect tt'"
  ultimately have "getWhitelistMiddlewareKeyFromTrafficTargetDirect tt = getWhitelistMiddlewareKeyFromTrafficTargetDirect tt'
    \<or> getWhitelistMiddlewareKeyFromTrafficTargetIndirect tt = getWhitelistMiddlewareKeyFromTrafficTargetIndirect tt'"
    using assms by metis
  then show "tt_prefix tt = tt_prefix tt'" by (auto simp: key_defs)
qed

definition target_prefix :: "STTKey \<Rightarrow> string" where
  "target_prefix x = Namespace (Service x) @ ''-'' @ Name (Service x) @ ''-'' @ Name (TrafficTarget x)"

text \<open>The names of traffic targets are as Kubernetes has them, and no two share a prefix. The code does not see to
  the latter (\<open>whitelist_key_collision\<close>).\<close>

definition targets_apart :: "STTKey set \<Rightarrow> bool" where
  "targets_apart X \<longleftrightarrow> inj_on target_prefix X \<and> (\<forall>x\<in>X. Name (TrafficTarget x) \<noteq> [] \<and> last (Name (TrafficTarget x)) \<noteq> CHR ''-'')"

lemma service_key_prefix:
  assumes "getServiceKeyFromTrafficTarget tt p = getServiceKeyFromTrafficTarget tt' q"
    and "stt_Name tt \<noteq> []" "last (stt_Name tt) \<noteq> CHR ''-''" "stt_Name tt' \<noteq> []" "last (stt_Name tt') \<noteq> CHR ''-''"
  shows "tt_prefix tt = tt_prefix tt'"
proof -
  have "(tt_prefix tt @ CHR ''-'' # itoa32 p) @ ''-traffic-target'' = (tt_prefix tt' @ CHR ''-'' # itoa32 q) @ ''-traffic-target''"
    using assms(1) by (simp add: getServiceKeyFromTrafficTarget_def)
  then have "tt_prefix tt @ CHR ''-'' # itoa32 p = tt_prefix tt' @ CHR ''-'' # itoa32 q" unfolding append_same_eq .
  from dash_itoa32 [OF this] assms(2-5) show ?thesis by simp
qed

lemma targets_apart_known:
  assumes "wf_topology t" "targets_apart (dom (ServiceTrafficTargets t))" "known_stt t tt"
  shows "stt_Name tt \<noteq> []" "last (stt_Name tt) \<noteq> CHR ''-''"
    "known_stt t tt' \<Longrightarrow> tt_prefix tt = tt_prefix tt' \<Longrightarrow> clean_stt tt = clean_stt tt'"
proof -
  have known: "\<exists>x tt0. ServiceTrafficTargets t x = Some tt0 \<and> clean_stt tt0 = clean_stt u \<and> target_prefix x = tt_prefix u
      \<and> Name (TrafficTarget x) = stt_Name u" if u: "known_stt t u" for u
  proof -
    from u obtain x tt0 where x: "ServiceTrafficTargets t x = Some tt0" "clean_stt tt0 = clean_stt u" unfolding known_stt_def by blast
    have "x = STTKey (stt_Service tt0) (Key (stt_Name tt0) (stt_Namespace tt0))"
      using wf_topologyD(3) [OF assms(1) x(1)] by (simp add: stt_ok_def)
    with x(1) clean_stt_fields [OF x(2)] x(2) show ?thesis by (intro exI [of _ x] exI [of _ tt0]) (simp add: target_prefix_def)
  qed
  from known [OF assms(3)] obtain x tt0 where x: "ServiceTrafficTargets t x = Some tt0" "clean_stt tt0 = clean_stt tt"
    "target_prefix x = tt_prefix tt" "Name (TrafficTarget x) = stt_Name tt" by blast
  from assms(2) have "\<forall>x\<in>dom (ServiceTrafficTargets t). Name (TrafficTarget x) \<noteq> [] \<and> last (Name (TrafficTarget x)) \<noteq> CHR ''-''"
    unfolding targets_apart_def by blast
  moreover have "x \<in> dom (ServiceTrafficTargets t)" using x(1) by blast
  ultimately show "stt_Name tt \<noteq> []" "last (stt_Name tt) \<noteq> CHR ''-''" using x(4) by force+
  assume "known_stt t tt'" and eq: "tt_prefix tt = tt_prefix tt'"
  from known [OF this(1)] obtain y tt1 where y: "ServiceTrafficTargets t y = Some tt1" "clean_stt tt1 = clean_stt tt'"
    "target_prefix y = tt_prefix tt'" by blast
  have "target_prefix x = target_prefix y" "x \<in> dom (ServiceTrafficTargets t)" "y \<in> dom (ServiceTrafficTargets t)"
    using x(1,3) y(1,3) eq by auto
  then have "x = y" using assms(2) unfolding targets_apart_def by (meson inj_onD)
  with x y show "clean_stt tt = clean_stt tt'" by simp
qed

section \<open>A router that leads to pods\<close>

text \<open>In the topology: the servers behind such a router are those of a traffic target whose sources its whitelist lets
  through.\<close>

lemma BuildConfig_target_router:
  assumes wf: "wf_topology t" and apart: "targets_apart (dom (ServiceTrafficTargets t))"
    and p: "pv_buildServiceMiddleware p = BuildMiddlewares" "pc_ACL (pv_config p)"
    and conf: "BuildConfig p order t = Some (t', cfg)"
    and router: "hc_Routers (cf_HTTP cfg) k = Some r" "k \<noteq> ''readiness''"
    and servers: "hc_Services (cf_HTTP cfg) (rt_Service r) = Some (LoadBalancer servers pass)" "url \<in> set servers"
  shows "\<exists>x tt. ServiceTrafficTargets t x = Some tt \<and> (\<exists>m\<in>set (rt_Middlewares r). \<exists>mw wl. hc_Middlewares (cf_HTTP cfg) m = Some mw
      \<and> mw_IPWhiteList mw = Some wl \<and> wl_SourceRange wl = pod_ips t (concat (map src_Pods (stt_Sources tt))))
    \<and> (\<exists>scheme sp. LoadBalancer servers pass = buildHTTPServiceFromTrafficTarget t tt scheme sp)"
proof -
  note fenced = BuildConfig_fenced(2) [OF p(2) conf]
  have ok: "conf_ok True t [] cfg" using BuildConfig_ok [OF _ wf, of p order] BuildMiddlewares_valid p conf by auto
  from fenced router(1) have "router_fenced t k r" unfolding fenced_def by blast
  moreover from fenced servers(1) have s: "service_fenced t (rt_Service r) (LoadBalancer servers pass)" unfolding fenced_def by blast
  moreover have "rt_Service r \<noteq> blockAllServiceKey \<and> rt_Service r \<noteq> getServiceKeyFromTrafficSplit ts port" for ts port
  proof -
    have "servers \<noteq> []" using servers(2) by auto
    with s consider "rt_Service r = ''readiness''" | tt q where "rt_Service r = getServiceKeyFromTrafficTarget tt q"
      | ts' q b where "rt_Service r = getServiceKeyFromTrafficSplitBackend ts' q b" unfolding service_fenced_def by blast
    then show ?thesis by cases (metis key_kinds_apart)+
  qed
  ultimately obtain tt port m where tt: "known_stt t tt" "rt_Service r = getServiceKeyFromTrafficTarget tt port"
    and m: "m \<in> set (rt_Middlewares r)"
      "m = getWhitelistMiddlewareKeyFromTrafficTargetDirect tt \<or> m = getWhitelistMiddlewareKeyFromTrafficTargetIndirect tt"
    using router(2) unfolding router_fenced_def by blast
  have "servers \<noteq> []" using servers(2) by auto
  with s [unfolded tt(2)] key_kinds_apart(1,3) [of tt port] obtain tt1 scheme sp where tt1: "known_stt t tt1"
    "getServiceKeyFromTrafficTarget tt port = getServiceKeyFromTrafficTarget tt1 (sp_Port sp)"
    "LoadBalancer servers pass = buildHTTPServiceFromTrafficTarget t tt1 scheme sp"
    unfolding service_fenced_def by blast
  note names = targets_apart_known [OF wf apart tt(1)] targets_apart_known [OF wf apart tt1(1)]
  have eq1: "clean_stt tt = clean_stt tt1"
    using service_key_prefix [OF tt1(2) names(1,2,4,5)] names(3) tt1(1) by blast
  from ok router(1) m(1) obtain mw where mw: "hc_Middlewares (cf_HTTP cfg) m = Some mw"
    unfolding conf_ok_def http_refs_ok_def closed_map_def by blast
  have "guard_key m" using m(2) by auto
  with ok mw have "authentic t m mw" unfolding conf_ok_def guarded_def by blast
  then obtain wl x tt2 where wl: "mw_IPWhiteList mw = Some wl" "ServiceTrafficTargets t x = Some tt2"
    "m = getWhitelistMiddlewareKeyFromTrafficTargetDirect tt2 \<or> m = getWhitelistMiddlewareKeyFromTrafficTargetIndirect tt2"
    "wl_SourceRange wl = pod_ips t (concat (map src_Pods (stt_Sources tt2)))"
    using whitelist_kinds_apart(1-3) [OF m(2)] unfolding authentic_def by blast
  have "known_stt t tt2" using wl(2) unfolding known_stt_def by blast
  with names(3) whitelist_kinds_apart(4) [OF m(2) wl(3)] have eq2: "clean_stt tt = clean_stt tt2" by blast
  have "buildHTTPServiceFromTrafficTarget t tt1 scheme sp = buildHTTPServiceFromTrafficTarget t tt2 scheme sp"
    using eq1 eq2 by (cases tt1; cases tt2) (simp add: clean_stt_def buildHTTPServiceFromTrafficTarget_def)
  with tt1(3) wl m(1) mw show ?thesis by metis
qed

section \<open>Pods of the cluster\<close>

text \<open>Who may call by a traffic target, and who is called: pods that the filter lets through, that have an address
  and run under an account that the target names.\<close>

definition may_call :: "ResourceFilter \<Rightarrow> KPod list \<Rightarrow> KTrafficTarget \<Rightarrow> KPod \<Rightarrow> bool" where
  "may_call flt pods tt kp \<longleftrightarrow> kp \<in> set (seen_pods flt pods) \<and> kp_PodIP kp \<noteq> []
     \<and> (\<exists>s\<in>set (ktt_Sources tt). sa_key kp = Key (is_Name s) (is_Namespace s))"

definition is_called :: "ResourceFilter \<Rightarrow> KPod list \<Rightarrow> KTrafficTarget \<Rightarrow> KPod \<Rightarrow> bool" where
  "is_called flt pods tt kp \<longleftrightarrow> kp \<in> set (seen_pods flt pods) \<and> kp_PodIP kp \<noteq> []
     \<and> sa_key kp = Key (is_Name (ktt_Destination tt)) (is_Namespace (ktt_Destination tt))"

lemma loadResources_accounts:
  assumes "loadResources b flt = Inr res" "l_Pods b = Some pods"
  shows "at (PodsByServiceAccounts res) sa = filter (\<lambda>p. sa_key p = sa) (seen_pods flt pods)"
proof -
  from assms obtain eps r0 where r: "res = indexPods flt pods eps r0" and r0: "PodsByServiceAccounts r0 = Map.empty"
    by (auto elim: loadResources_Inr)
  obtain r1 pbn where r1: "indexPodsByServiceAccount flt pods r0 Map.empty = (r1, pbn)" by fastforce
  have "PodsByServiceAccounts res = PodsByServiceAccounts r1" by (simp add: r indexPods_def r1 frame_simps)
  with indexPodsByServiceAccount_eq [OF r1] r0 show ?thesis by simp
qed

lemma destination_pods:
  assumes "loadResources b flt = Inr res" "l_Pods b = Some pods" "kp \<in> set (at (destination_services res tt) k)"
  shows "kp \<in> set (seen_pods flt pods)" "sa_key kp = Key (is_Name (ktt_Destination tt)) (is_Namespace (ktt_Destination tt))"
proof -
  let ?sa = "Key (is_Name (ktt_Destination tt)) (is_Namespace (ktt_Destination tt))"
  note idx = loadResources_indexed [OF assms(1,2)]
  have "at (destination_services res tt) k = pods_by_svc_by_sa res ?sa k" by (simp add: destination_services_def pods_by_svc_by_sa_def)
  with idx have "at (destination_services res tt) k = filter (\<lambda>p. sa_key p = ?sa) (at (PodsBySvc res) k)"
    by (simp add: indexed_in_def index_consistent_def)
  with assms(3) idx show "kp \<in> set (seen_pods flt pods)" "sa_key kp = ?sa" by (auto simp: indexed_in_def)
qed

lemma Build_stt_from:
  assumes "loadResources b flt = Inr res" "valid_schedule res sch" "length (sch_TrafficSplits sch) < fuel"
    and "Build_topology fuel sch b flt = Some (Inr t)" "ServiceTrafficTargets t x = Some stt"
  shows "stt_from res x stt"
proof -
  have "keys_ok res" using loadResources_ok [OF assms(1)] by blast
  with evaluate_all_props [OF _ assms(2)] assms(5) Build_populated [OF assms(1-4)] show ?thesis by simp
qed

lemma pod_ips_mirror:
  assumes "\<And>k p. Pods t k = Some p \<Longrightarrow> \<exists>kp\<in>A. pod_key kp = k \<and> pod_core p = new_pod kp" "inj_on pod_key A"
    and "set pods \<subseteq> A" "pod_key ` set pods \<subseteq> dom (Pods t)"
  shows "pod_ips t (map pod_key pods) = map kp_PodIP pods"
  using assms(3,4)
proof (induction pods)
  case (Cons kp pods)
  then obtain p where p: "Pods t (pod_key kp) = Some p" by auto
  from assms(1) [OF p] obtain kp' where kp': "kp' \<in> A" "pod_key kp' = pod_key kp" "pod_core p = new_pod kp'" by blast
  with assms(2) Cons.prems have "kp' = kp" by (auto dest: inj_onD)
  with arg_cong [OF kp'(3), of pod_IP] have "pod_IP p = kp_PodIP kp" by (simp add: pod_core_def new_pod_def)
  with Cons p show ?case by simp
qed simp

text \<open>The theorem over one build.\<close>

lemma cluster_access_control:
  assumes load: "loadResources b flt = Inr res" "valid_schedule res sch" "length (sch_TrafficSplits sch) < fuel"
      "Build_topology fuel sch b flt = Some (Inr t)" "l_Pods b = Some pods" "distinct (map pod_key pods)"
    and apart: "targets_apart (target_keys res UNIV)"
    and p: "pv_buildServiceMiddleware p = BuildMiddlewares" "pc_ACL (pv_config p)" "BuildConfig p order t = Some (t', conf)"
    and router: "hc_Routers (cf_HTTP conf) k = Some r" "k \<noteq> ''readiness''"
    and servers: "hc_Services (cf_HTTP conf) (rt_Service r) = Some (LoadBalancer servers pass)" "url \<in> set servers"
  shows "\<exists>tt\<in>ran (r_TrafficTargets res).
     (\<exists>m\<in>set (rt_Middlewares r). \<exists>mw wl. hc_Middlewares (cf_HTTP conf) m = Some mw \<and> mw_IPWhiteList mw = Some wl
        \<and> set (wl_SourceRange wl) = kp_PodIP ` {kp. may_call flt pods tt kp})
   \<and> (\<exists>kp scheme port. is_called flt pods tt kp \<and> url = scheme @ ''://'' @ JoinHostPort (kp_PodIP kp) (itoa32 port))"
proof -
  from Build_total [of b flt sch fuel] load have wf: "wf_topology t" and dom: "dom (ServiceTrafficTargets t) = target_keys res UNIV"
    by auto
  have mirror: "Pods t k' = Some p' \<Longrightarrow> \<exists>kp\<in>set (seen_pods flt pods). pod_key kp = k' \<and> pod_core p' = new_pod kp" for k' p'
    using Build_mirrors [OF load(1-5)] by blast
  have inj: "inj_on pod_key (set (seen_pods flt pods))"
    using load(6) by (auto simp: seen_pods_def distinct_map intro: inj_on_subset)
  from BuildConfig_target_router [OF wf apart [folded dom] p router servers] obtain x stt m mw wl scheme sp where
    stt: "ServiceTrafficTargets t x = Some stt"
    and m: "m \<in> set (rt_Middlewares r)" "hc_Middlewares (cf_HTTP conf) m = Some mw" "mw_IPWhiteList mw = Some wl"
      "wl_SourceRange wl = pod_ips t (concat (map src_Pods (stt_Sources stt)))"
    and lb: "LoadBalancer servers pass = buildHTTPServiceFromTrafficTarget t stt scheme sp" by blast
  from Build_stt_from [OF load(1-4) stt] obtain tt where tt: "r_TrafficTargets res (TrafficTarget x) = Some tt"
    "stt_Sources stt = map (source_of res) (ktt_Sources tt)"
    "set (dst_Pods (stt_Destination stt)) \<subseteq> set (ready_keys (at (destination_services res tt) (Service x)))"
    unfolding stt_from_def by blast
  from wf_topologyD(3) [OF wf stt] have refs: "\<forall>src\<in>set (stt_Sources stt). set (src_Pods src) \<subseteq> dom (Pods t)"
    "set (dst_Pods (stt_Destination stt)) \<subseteq> dom (Pods t)" by (simp_all add: stt_ok_def)
  let ?ps = "concat (map (\<lambda>s. filter (\<lambda>kp. kp_PodIP kp \<noteq> []) (filter (\<lambda>kp. sa_key kp = Key (is_Name s) (is_Namespace s))
      (seen_pods flt pods))) (ktt_Sources tt))"
  have "concat (map src_Pods (stt_Sources stt)) = map pod_key ?ps"
    by (simp add: tt(2) source_of_def ready_keys_def loadResources_accounts [OF load(1,5)] map_concat comp_def)
  moreover have "pod_key ` set ?ps \<subseteq> dom (Pods t)"
  proof -
    have "set (concat (map src_Pods (stt_Sources stt))) \<subseteq> dom (Pods t)" using refs(1) by auto
    then show ?thesis unfolding calculation set_map .
  qed
  moreover have "set ?ps \<subseteq> set (seen_pods flt pods)" by auto
  ultimately have "wl_SourceRange wl = map kp_PodIP ?ps" using m(4) pod_ips_mirror [OF mirror inj, where pods = ?ps] by simp
  then have "set (wl_SourceRange wl) = kp_PodIP ` {kp. may_call flt pods tt kp}" by (auto simp: may_call_def)
  moreover have "\<exists>kp port. is_called flt pods tt kp \<and> url = scheme @ ''://'' @ JoinHostPort (kp_PodIP kp) (itoa32 port)"
  proof -
    from lb have "servers = map (\<lambda>a. scheme @ ''://'' @ a) (pod_addresses t sp (dst_Pods (stt_Destination stt)))"
      by (simp add: buildHTTPServiceFromTrafficTarget_def http_servers_def)
    with servers(2) obtain a where a: "url = scheme @ ''://'' @ a" "served_by t (dst_Pods (stt_Destination stt)) sp a"
      by (auto simp: pod_addresses_iff)
    then obtain kk pod port where kk: "kk \<in> set (dst_Pods (stt_Destination stt))" "Pods t kk = Some pod"
      "a = JoinHostPort (pod_IP pod) (itoa32 port)" unfolding served_by_def by blast
    from kk(1) tt(3) obtain kp where kp: "kp \<in> set (at (destination_services res tt) (Service x))" "kp_PodIP kp \<noteq> []" "kk = pod_key kp"
      by (auto simp: ready_keys_def)
    note dest = destination_pods [OF load(1,5) kp(1)]
    from mirror [OF kk(2)] obtain kp' where kp': "kp' \<in> set (seen_pods flt pods)" "pod_key kp' = kk" "pod_core pod = new_pod kp'" by blast
    with inj kp(3) dest(1) have "kp' = kp" by (auto dest: inj_onD)
    with arg_cong [OF kp'(3), of pod_IP] have "pod_IP pod = kp_PodIP kp" by (simp add: pod_core_def new_pod_def)
    with dest kp(2) a(1) kk(3) show ?thesis by (auto simp: is_called_def)
  qed
  moreover have "tt \<in> ran (r_TrafficTargets res)" using tt(1) by (rule ranI)
  ultimately show ?thesis using m(1-3) by blast
qed

text \<open>Keys are apart when no namespace and no service has a dash in its name and no two targets share a name.\<close>

lemma no_dash_targets_apart:
  assumes "\<And>x. x \<in> X \<Longrightarrow> CHR ''-'' \<notin> set (Namespace (Service x)) \<union> set (Name (Service x))"
    and "\<And>x. x \<in> X \<Longrightarrow> Name (TrafficTarget x) \<noteq> [] \<and> last (Name (TrafficTarget x)) \<noteq> CHR ''-''"
    and "\<And>x y. x \<in> X \<Longrightarrow> y \<in> X \<Longrightarrow> Name (TrafficTarget x) = Name (TrafficTarget y) \<Longrightarrow> TrafficTarget x = TrafficTarget y"
  shows "targets_apart X"
proof -
  have "x = y" if xy: "x \<in> X" "y \<in> X" "target_prefix x = target_prefix y" for x y
  proof -
    have split: "u = u' \<and> v = v'" if "u @ ''-'' @ v = u' @ ''-'' @ v'" "CHR ''-'' \<notin> set u" "CHR ''-'' \<notin> set u'" for u v u' v' :: string
      using dash_split_first [of u v u' v'] that by simp
    note dash = assms(1) [OF xy(1)] assms(1) [OF xy(2)]
    from split [OF xy(3) [unfolded target_prefix_def]] dash have ns: "Namespace (Service x) = Namespace (Service y)"
      and rest: "Name (Service x) @ ''-'' @ Name (TrafficTarget x) = Name (Service y) @ ''-'' @ Name (TrafficTarget y)" by simp_all
    from split [OF rest] dash have "Name (Service x) = Name (Service y)" "Name (TrafficTarget x) = Name (TrafficTarget y)" by simp_all
    with ns assms(3) [OF xy(1,2)] show ?thesis by (metis Key.expand STTKey.expand)
  qed
  then show ?thesis using assms(2) by (auto simp: targets_apart_def intro: inj_onI)
qed

section \<open>What a running controller serves\<close>

text \<open>A state of the cluster in which pods have a key of their own and traffic targets are apart.\<close>

definition tidy :: "ResourceFilter \<Rightarrow> cluster \<Rightarrow> bool" where
  "tidy flt b \<longleftrightarrow> (\<forall>pods. l_Pods b = Some pods \<longrightarrow> distinct (map pod_key pods))
     \<and> (\<forall>res. loadResources b flt = Inr res \<longrightarrow> targets_apart (target_keys res UNIV))"

definition built_from :: "ResourceFilter \<Rightarrow> ControllerConfig \<Rightarrow> cluster set \<Rightarrow> Configuration \<Rightarrow> bool" where
  "built_from flt cfg B conf \<longleftrightarrow> (\<exists>e p t t'. env_ok flt e \<and> env_cluster e \<in> B
     \<and> Build_topology (env_fuel e) (env_schedule e) (env_cluster e) flt = Some (Inr t)
     \<and> pv_buildServiceMiddleware p = BuildMiddlewares \<and> pc_ACL (pv_config p) = ACLEnabled cfg
     \<and> pc_DefaultTrafficType (pv_config p) = DefaultMode cfg \<and> BuildConfig p (env_order e) t = Some (t', conf))"

abbreviation served :: "Controller \<Rightarrow> Configuration" where
  "served c \<equiv> Safe_Get (api_configuration (ct_store c))"

lemma run_mono: "run numRequeues keyFunc V c0 c calls \<Longrightarrow> (\<And>e. V e \<Longrightarrow> W e) \<Longrightarrow> run numRequeues keyFunc W c0 c calls"
  by (induction rule: run.induct) (auto intro: run.intros)

lemma buildAndStore_built:
  assumes "buildAndStore e n key c = Some (c', new)" "env_ok (ct_resourceFilter c) e" "env_cluster e \<in> B"
  shows "served c' = served c \<or> built_from (ct_resourceFilter c) (ct_cfg c) B (served c')"
proof (cases "Build_topology (env_fuel e) (env_schedule e) (env_cluster e) (ct_resourceFilter c)")
  case (Some r)
  show ?thesis
  proof (cases r)
    case (Inr topo)
    with Some assms(1) obtain topo' conf where conf: "BuildConfig (provider_of (env_ranges e) c) (env_order e) topo = Some (topo', conf)"
      "served c' = conf" by (auto simp: buildAndStore_def store.laws)
    have "pv_buildServiceMiddleware (provider_of (env_ranges e) c) = BuildMiddlewares" "pc_ACL (pv_config (provider_of (env_ranges e) c)) = ACLEnabled (ct_cfg c)"
      "pc_DefaultTrafficType (pv_config (provider_of (env_ranges e) c)) = DefaultMode (ct_cfg c)"
      by (simp_all add: provider_of_def)
    with conf Some Inr assms(2,3) show ?thesis unfolding built_from_def by blast
  qed (use Some assms(1) in \<open>simp add: buildAndStore_def\<close>)
qed (use assms(1) in \<open>simp add: buildAndStore_def\<close>)

lemma process_built:
  assumes "controller_ok c0 c" "env_ok (ct_resourceFilter c0) e" "env_cluster e \<in> B"
    and "processNextWorkItem e n key c = Some (c', new)"
  shows "served c' = served c \<or> built_from (ct_resourceFilter c0) (ct_cfg c0) B (served c')"
proof -
  have built: "served c' = served d \<or> built_from (ct_resourceFilter c0) (ct_cfg c0) B (served c')"
    if "buildAndStore e n key d = Some (c', calls)" "controller_ok c0 d" for d calls
    using buildAndStore_built [OF that(1)] controller_okD(2,3) [OF that(2)] assms(2,3) by simp
  show ?thesis
  proof (cases "key = configRefreshKey")
    case True
    with assms(4) obtain calls where "buildAndStore e n key c = Some (c', calls)" by (auto simp: processNextWorkItem_def)
    from built [OF this assms(1)] show ?thesis .
  next
    case False
    from sync_keeps [OF assms(1,2), of key] obtain d call err where
      sync: "syncShadowService e key c = Some (d, call, err)" "controller_ok c0 d" "ct_store d = ct_store c" by blast
    show ?thesis
    proof (cases err)
      case None
      with False sync assms(4) obtain calls where "buildAndStore e n key d = Some (c', calls)" by (auto simp: processNextWorkItem_def)
      from built [OF this sync(2)] sync(3) show ?thesis by simp
    next
      case (Some er)
      with False sync assms(4) show ?thesis by (simp add: processNextWorkItem_def)
    qed
  qed
qed

lemma run_built:
  assumes "run numRequeues keyFunc (\<lambda>e. env_ok (ct_resourceFilter c0) e \<and> env_cluster e \<in> B) c0 c calls" "manager_ok (ct_manager c0)"
  shows "served c = served c0 \<or> built_from (ct_resourceFilter c0) (ct_cfg c0) B (served c)"
  using assms(1)
proof induction
  case (work c calls e key c' new)
  have "run numRequeues keyFunc (env_ok (ct_resourceFilter c0)) c0 c calls" using work.hyps(1) by (rule run_mono) simp
  from process_built [OF run_ok [OF this assms(2)] _ _ work.hyps(4), of B] work.hyps(2) work.IH show ?case by auto
qed simp_all

lemma booted_serves_default:
  assumes "booted cfg shadows c" "ranges_ok cfg" "unambiguous (fresh_tcp cfg) shadows" "unambiguous (fresh_udp cfg) shadows"
  shows "served c = NewDefaultDynamicConfig"
proof -
  from assms(1) obtain synced i ns store where new: "NewAPI synced ns = Some store"
    and start: "Run_start i (Some shadows) (Some shadows) (NewMeshController cfg store) = (c, None)" unfolding booted_def by blast
  obtain d r where load: "loadPortMappersState (Some shadows) (Some shadows) (NewMeshController cfg store) = (d, r)" by fastforce
  from load_tables [OF assms(2-4) load] start load have "ct_store c = SetReadiness True store"
    by (auto simp: Run_start_def split: if_splits)
  with new show ?thesis by (auto simp: store.laws NewAPI_def split: if_splits)
qed


section \<open>A guarded service\<close>

text \<open>A service with a port, reached by its own pod through a traffic target.\<close>

definition ex_guarded :: KService where
  "ex_guarded = ex_service\<lparr>ks_Ports := [\<lparr>sp_Name = ''web'', sp_Protocol = ''TCP'', sp_Port = 80, sp_TargetPort = FromInt 8080\<rparr>]\<rparr>"
definition ex_guarded_cluster :: cluster where
  "ex_guarded_cluster = ex_mesh\<lparr>l_Services := Some [ex_guarded]\<rparr>"

abbreviation ex_guarded_key :: STTKey where "ex_guarded_key \<equiv> STTKey (Key ''svc'' ''ns'') (Key ''tt'' ''ns'')"

lemma ex_guarded_builds:
  "case Build_topology 1 ex_schedule ex_guarded_cluster (controller_filter ex_cfg) of
     Some (Inr t) \<Rightarrow> map_option (dst_Pods \<circ> stt_Destination) (ServiceTrafficTargets t ex_guarded_key) = Some [Key ''p'' ''ns'']
       \<and> map_option (dst_Ports \<circ> stt_Destination) (ServiceTrafficTargets t ex_guarded_key) = Some (ks_Ports ex_guarded)
       \<and> map_option svc_TrafficTargets (Services t (Key ''svc'' ''ns'')) = Some [ex_guarded_key]
       \<and> map_option svc_TrafficSplits (Services t (Key ''svc'' ''ns'')) = Some []
       \<and> map_option svc_BackendOf (Services t (Key ''svc'' ''ns'')) = Some []
       \<and> map_option pod_IP (Pods t (Key ''p'' ''ns'')) = Some ''10.0.0.1''
       \<and> map_option pod_ContainerPorts (Pods t (Key ''p'' ''ns'')) = Some []
   | _ \<Rightarrow> False"
  by code_simp

lemma ex_guarded_loads:
  "\<exists>res. loadResources ex_guarded_cluster (controller_filter ex_cfg) = Inr res
     \<and> r_Services res = [Key ''svc'' ''ns'' \<mapsto> ex_guarded] \<and> r_TrafficSplits res = Map.empty
     \<and> r_TrafficTargets res = [Key ''tt'' ''ns'' \<mapsto> ex_target]
     \<and> destination_services res ex_target = [Key ''svc'' ''ns'' \<mapsto> [ex_pod]]"
proof -
  have "\<not> IsIgnored (controller_filter ex_cfg) (ServiceObj ex_guarded)"
    using ex_filter(2) by (simp add: IsIgnored_service_iff ex_guarded_def)
  then show ?thesis
    by (simp add: loadResources_def loadServices_def list_required_def list_optional_def ex_guarded_cluster_def ex_mesh_def
        ex_cluster_def indexSMIResources_def index_trafficTarget_def indexPods_def ex_filter(1) empty_resources_def
        indexEndpoints_def indexPodByService_def destination_services_def Let_def meta_key_def pod_key_def sa_key_def ex_meta_def
        ex_pod_def ex_service_def ex_guarded_def ex_target_def ex_endpoints_def default_destination_def)
qed

lemma ex_guarded_conf:
  assumes t: "Services t k = Some s" "svc_Annotations s = Map.empty" "svc_TrafficTargets s = [x]" "svc_TrafficSplits s = []"
      "svc_BackendOf s = []" "svc_Ports s = ks_Ports ex_guarded"
    and tt: "ServiceTrafficTargets t x = Some tt" "stt_Service tt = k" "dst_Ports (stt_Destination tt) = ks_Ports ex_guarded"
      "dst_Pods (stt_Destination tt) = [pk]" "Pods t pk = Some pod" "pod_IP pod = ''10.0.0.1''" "pod_ContainerPorts pod = []"
    and p: "pc_ACL (pv_config p)" "pc_DefaultTrafficType (pv_config p) = ''http''" "pc_MinHTTPPort (pv_config p) = 5000"
      "pc_MaxHTTPPort (pv_config p) = 5009" "pv_buildServiceMiddleware p = BuildMiddlewares"
  shows "\<exists>t' conf r. BuildConfig p [k] t = Some (t', conf)
     \<and> hc_Routers (cf_HTTP conf) (getRouterKeyFromTrafficTargetDirect tt 80) = Some r \<and> rt_Service r = getServiceKeyFromTrafficTarget tt 80
     \<and> hc_Services (cf_HTTP conf) (rt_Service r) = Some (LoadBalancer [''http://10.0.0.1:8080''] True)"
proof -
  have port: "itoa32 8080 = ''8080''" by (simp add: itoa32_def itoa_def dec.simps digit_char_def)
  have mws: "BuildMiddlewares (Map.empty) = Inr []" using no_middlewares by simp
  show ?thesis using assms port mws
    by (simp add: BuildConfig_def config_step_def buildConfigForService_def GetTrafficType_def GetScheme_def
        buildMiddlewaresForConfigFromService_def buildACLConfigRoutersAndServices_def buildBlockAllRouters_def block_all_port_def
        buildHTTPEntrypoint_def target_config_step_def buildServicesAndRoutersForTrafficTarget_def
        buildHTTPServicesAndRoutersForTrafficTarget_def http_target_port_def Let_def ex_guarded_def
        buildHTTPServiceFromTrafficTarget_def http_servers_def ResolveServicePort_def JoinHostPort_def FromInt_def)
qed


end
