(* ===== verification/Modes.thy ===== *)
theory Modes
  imports Access Reach
begin

text \<open>
  The default mode. \<open>cmd/mesh/mesh.go\<close> passes \<open>--defaultMode\<close> on as it is given, and \<open>GetTrafficType\<close> hands the default
  out unchecked for a service without annotation. This theory shows what becomes of a mode that is not supported.
\<close>

abbreviation supported_modes :: "string set" where
  "supported_modes \<equiv> {ServiceTypeHTTP, ServiceTypeTCP, ServiceTypeUDP}"

section \<open>The configuration\<close>

definition no_modes :: "Topology \<Rightarrow> bool" where
  "no_modes t \<longleftrightarrow> (\<forall>k svc. Services t k = Some svc \<longrightarrow> svc_Annotations svc annotationServiceType = None)"

lemma no_modes_errors [simp]:
  "no_modes (stt_error x err t) = no_modes t" "no_modes (split_error y err t) = no_modes t"
  "no_modes t \<Longrightarrow> no_modes (svc_error k err t)"
  by (auto simp: no_modes_def svc_error_def stt_error_def split_error_def adjust_apply Service_AddError_def split: if_splits)

lemma unsupported_service:
  assumes "pc_DefaultTrafficType (pv_config p) \<notin> supported_modes" "svc_Annotations svc annotationServiceType = None"
    and "no_modes (fst st)" "buildConfigForService p svc st = Some (st', r)"
  shows "snd st' = snd st \<and> no_modes (fst st')"
proof -
  let ?tt = "pc_DefaultTrafficType (pv_config p)"
  have tt: "GetTrafficType ?tt (svc_Annotations svc) = Inr ?tt" using assms(2) by (simp add: GetTrafficType_def)
  have types: "?tt \<noteq> ServiceTypeHTTP" "?tt \<noteq> ServiceTypeTCP" "?tt \<noteq> ServiceTypeUDP" using assms(1) by simp_all
  let ?P = "\<lambda>s. snd s = snd st \<and> no_modes (fst s)"
  have target: "?P s'" if "?P s" "target_config_step p scheme ?tt keys k s = Some s'" for scheme keys k s s'
    using that types
    by (cases s) (auto simp: target_config_step_def buildServicesAndRoutersForTrafficTarget_def split: option.splits if_splits)
  have split: "?P s'" if "?P s" "split_config_step p scheme ?tt keys k s = Some s'" for scheme keys k s s'
    using that types
    by (cases s) (auto simp: split_config_step_def buildServiceAndRoutersForTrafficSplit_def split: option.splits if_splits)
  have targets: "?P s'" if "fold_opt (target_config_step p scheme ?tt keys) ks st = Some s'" for scheme keys ks s'
    by (rule fold_opt_keeps [where P = ?P, OF that]) (use assms(3) target in blast)+
  have splits: "?P s''" if "fold_opt (split_config_step p scheme ?tt keys) ks s' = Some s''" "?P s'" for scheme keys ks s' s''
    by (rule fold_opt_keeps [where P = ?P, OF that]) (use split in blast)
  show ?thesis
  proof (cases "GetScheme (svc_Annotations svc)")
    case (Inl err)
    with assms(3,4) tt show ?thesis by (auto simp: buildConfigForService_def)
  next
    case (Inr scheme)
    note def = assms(4) [unfolded buildConfigForService_def tt Inr sum.case]
    show ?thesis
    proof (cases "pc_ACL (pv_config p)")
      case True
      with def types obtain s1 where s1: "fold_opt (target_config_step p scheme ?tt []) (svc_TrafficTargets svc) st = Some s1"
        and s2: "fold_opt (split_config_step p scheme ?tt []) (svc_TrafficSplits svc) s1 = Some st'"
        by (auto simp: buildACLConfigRoutersAndServices_def split: option.splits)
      from splits [OF s2 targets [OF s1]] show ?thesis .
    next
      case False
      with def types assms(3) show ?thesis
        by (auto simp: buildConfigRoutersAndServices_def buildServicesAndRoutersForService_def Let_def)
    qed
  qed
qed

lemma unsupported_config:
  assumes "pc_DefaultTrafficType (pv_config p) \<notin> supported_modes" "no_modes t" "BuildConfig p order t = Some (t', conf)"
  shows "conf = NewDefaultDynamicConfig"
proof -
  let ?P = "\<lambda>s. snd s = NewDefaultDynamicConfig \<and> no_modes (fst s)"
  have step: "?P s'" if s: "?P s" "config_step p k s = Some s'" for k s s'
  proof (cases "Services (fst s) k")
    case None
    with s show ?thesis by (simp add: config_step_def)
  next
    case (Some svc)
    with s(2) obtain u cfg r where b: "buildConfigForService p svc s = Some ((u, cfg), r)"
      "s' = (case r of None \<Rightarrow> (u, cfg) | Some err \<Rightarrow> (svc_error k (EBuildConfiguration err) u, cfg))"
      by (auto simp: config_step_def)
    from Some s(1) have "svc_Annotations svc annotationServiceType = None" by (auto simp: no_modes_def)
    from unsupported_service [OF assms(1) this _ b(1)] s(1) b(2) show ?thesis by (cases r) simp_all
  qed
  have "?P (t', conf)"
  proof (rule fold_opt_keeps [where P = ?P, OF assms(3) [unfolded BuildConfig_def]])
    show "?P (t, NewDefaultDynamicConfig)" using assms(2) by simp
  qed (rule step)
  then show ?thesis by simp
qed

section \<open>The shadow services\<close>

lemma unsupported_ports:
  assumes "tt \<notin> supported_modes"
  shows "shadow_ports s tt i n ns sps = Some (s, [])"
proof (induction sps arbitrary: i)
  case (Cons sp sps)
  have "\<not> isPortSuitable tt sp" using assms by (simp add: isPortSuitable_iff)
  with Cons show ?case by simp
qed simp

lemma unsupported_shadow:
  assumes "CreateOrUpdate l tk svc s = Some (s', Inr call)" "manager_ok s" "defaultTrafficType s \<notin> supported_modes"
    and "om_Annotations (ks_meta svc) annotationServiceType = None"
  shows "call_ports call = []"
proof -
  have "getShadowServicePorts (removeUnusedPortMappings shadow svc s) svc =
      Some (removeUnusedPortMappings shadow svc s, Inr [])" for shadow
  proof -
    let ?s = "removeUnusedPortMappings shadow svc s"
    have "defaultTrafficType ?s = defaultTrafficType s"
      using remove_many [OF assms(2)] by (simp add: removeUnusedPortMappings_def split: option.split)
    then show ?thesis
      using assms(3,4) unsupported_ports [of "defaultTrafficType s"] by (simp add: getShadowServicePorts_def GetTrafficType_def)
  qed
  with assms(1) show ?thesis
    by (cases l) (auto simp: CreateOrUpdate_def Let_def newShadowService_def call_ports_def)
qed

section \<open>The running controller\<close>

text \<open>A state of the cluster in which no service says what traffic it has.\<close>

definition unannotated :: "cluster \<Rightarrow> bool" where
  "unannotated b \<longleftrightarrow> (\<forall>svcs. l_Services b = Some svcs \<longrightarrow>
     (\<forall>svc\<in>set svcs. om_Annotations (ks_meta svc) annotationServiceType = None))"

lemma unannotated_topology:
  assumes "unannotated (env_cluster e)" "env_ok flt e"
    and "Build_topology (env_fuel e) (env_schedule e) (env_cluster e) flt = Some (Inr t)"
  shows "no_modes t"
proof -
  from assms(3) obtain res where res: "loadResources (env_cluster e) flt = Inr res"
    by (cases "loadResources (env_cluster e) flt") (auto simp: Build_topology_def)
  then obtain pods where pods: "l_Pods (env_cluster e) = Some pods" by (auto elim: loadResources_Inr)
  have env: "valid_schedule res (env_schedule e)" "length (sch_TrafficSplits (env_schedule e)) < env_fuel e"
    using assms(2) res by (simp_all add: env_ok_def)
  from res obtain svcs tts tss tcps hrgs pods' eps where svcs: "l_Services (env_cluster e) = Some svcs"
    and r: "res = indexPods flt pods' eps (indexSMIResources flt tts tss tcps hrgs (load_services flt svcs empty_resources))"
    by (auto simp: loadResources_def bind_res_Inr_iff loadServices_def list_required_def split: option.splits)
  have "svc \<in> set svcs" if "r_Services res k = Some svc" for k svc
    using that load_services_Services [of flt svcs empty_resources k svc]
    by (auto simp: r indexPods_def frame_simps empty_resources_def dest!: indexPodsByServiceAccount_frame split: prod.splits)
  with assms(1) svcs have plain: "om_Annotations (ks_meta svc) annotationServiceType = None" if "r_Services res k = Some svc" for k svc
    using that unfolding unannotated_def by blast
  show ?thesis unfolding no_modes_def
  proof (intro allI impI)
    fix k s assume "Services t k = Some s"
    with Build_mirrors [OF res env assms(3) pods] obtain svc where
      svc: "r_Services res k = Some svc" "svc_core s = service_node res svc" by (cases "r_Services res k") (auto dest: spec [of _ k])
    have "svc_Annotations s = om_Annotations (ks_meta svc)"
      using arg_cong [OF svc(2), of svc_Annotations] by (simp add: svc_core_def service_node_def)
    with plain [OF svc(1)] show "svc_Annotations s annotationServiceType = None" by simp
  qed
qed

text \<open>C40: The default mode is not checked. A controller started with one other than http, tcp and udp gets ready, but
  as long as no service of the cluster has an annotation for its traffic type, the configuration that it serves is
  the default one, without a router for any mesh service, and every shadow service that it writes for one is without ports.\<close>

theorem unsupported_mode_serves_nothing:
  assumes "booted cfg shadows c0" "ranges_ok cfg" "unambiguous (fresh_tcp cfg) shadows" "unambiguous (fresh_udp cfg) shadows"
    and "run numRequeues keyFunc (\<lambda>e. env_ok (controller_filter cfg) e \<and> env_cluster e \<in> Collect unannotated) c0 c calls"
    and "DefaultMode cfg \<notin> supported_modes"
  shows "getReadiness encodes (ct_store c) = respond encodes (ReadyBody True)
     \<and> getCurrentConfiguration encodes (ct_store c) = respond encodes (ConfigBody NewDefaultDynamicConfig)
     \<and> (\<forall>l tk svc m' call. om_Annotations (ks_meta svc) annotationServiceType = None
          \<and> CreateOrUpdate l tk svc (ct_manager c) = Some (m', Inr call) \<longrightarrow> call_ports call = [])"
proof -
  let ?flt = "controller_filter cfg"
  note boot = booted_ok [OF assms(1-4)] and default = booted_serves_default [OF assms(1-4)]
  have run: "run numRequeues keyFunc (\<lambda>e. env_ok (ct_resourceFilter c0) e \<and> env_cluster e \<in> Collect unannotated) c0 c calls"
    using assms(5) boot by simp
  then have "run numRequeues keyFunc (env_ok (ct_resourceFilter c0)) c0 c calls" by (rule run_mono) simp
  from run_ok [OF this boot(1)] boot booted_config [OF assms(1-4)] have ok: "manager_ok (ct_manager c)"
    and ready: "Safe_Get (api_readiness (ct_store c))" and mode: "defaultTrafficType (ct_manager c) = DefaultMode cfg"
    by (simp_all add: controller_ok_def manager_config_def)
  have "served c = NewDefaultDynamicConfig" if "built_from ?flt cfg (Collect unannotated) (served c)"
  proof -
    from that obtain e p t t' where e: "env_ok ?flt e" "unannotated (env_cluster e)"
      and t: "Build_topology (env_fuel e) (env_schedule e) (env_cluster e) ?flt = Some (Inr t)"
      and p: "pc_DefaultTrafficType (pv_config p) = DefaultMode cfg" "BuildConfig p (env_order e) t = Some (t', served c)"
      unfolding built_from_def by blast
    from unsupported_config [OF _ unannotated_topology [OF e(2,1) t] p(2)] p(1) assms(6) show ?thesis by simp
  qed
  with run_built [OF run boot(1)] default boot(3,4) have "served c = NewDefaultDynamicConfig" by auto
  with ready unsupported_shadow [OF _ ok] mode assms(6) show ?thesis
    by (auto simp: getReadiness_def getCurrentConfiguration_def)
qed

section \<open>A small installation with an odd mode\<close>

definition ex_odd_cfg :: ControllerConfig where
  "ex_odd_cfg = ex_cfg\<lparr>DefaultMode := ''grpc''\<rparr>"

lemma ex_odd_simps:
  "controller_filter ex_odd_cfg = controller_filter ex_cfg" "ranges_ok ex_odd_cfg = ranges_ok ex_cfg"
  "fresh_tcp ex_odd_cfg = fresh_tcp ex_cfg" "fresh_udp ex_odd_cfg = fresh_udp ex_cfg" "DefaultMode ex_odd_cfg \<notin> supported_modes"
  by (simp_all add: ex_odd_cfg_def controller_filter_def ranges_ok_def fresh_tcp_def fresh_udp_def)

lemma ex_odd_booted:
  "booted ex_odd_cfg [ex_shadow] (fst (Run_start ex_synced (Some [ex_shadow]) (Some [ex_shadow]) (NewMeshController ex_odd_cfg ex_api)))"
proof -
  have "startInformers ex_synced c" for c by (simp add: startInformers_iff ex_synced_def)
  then have "snd (Run_start ex_synced (Some [ex_shadow]) (Some [ex_shadow]) (NewMeshController ex_odd_cfg ex_api)) = None"
    by (simp add: Run_start_def loadPortMappersState_def LoadState_def Let_def)
  then show ?thesis unfolding booted_def using ex_new_api by (metis prod.collapse)
qed

lemma ex_mesh_unannotated: "unannotated ex_mesh"
  by (simp add: unannotated_def ex_mesh_def ex_service_def ex_meta_def)

lemma unsupported_mode_serves_nothing_witness:
  "\<exists>c0 c calls. booted ex_odd_cfg [ex_shadow] c0 \<and> QDone ''ns/svc'' \<in> set calls
     \<and> run ex_requeues ex_key (env_ok (controller_filter ex_odd_cfg)) c0 c calls
     \<and> getCurrentConfiguration (\<lambda>b. True) (ct_store c) = (StatusOK, ConfigBody NewDefaultDynamicConfig)"
proof -
  let ?flt = "controller_filter ex_odd_cfg" and ?V = "\<lambda>e. env_ok (controller_filter ex_odd_cfg) e \<and> env_cluster e \<in> Collect unannotated"
  define c0 where "c0 = fst (Run_start ex_synced (Some [ex_shadow]) (Some [ex_shadow]) (NewMeshController ex_odd_cfg ex_api))"
  note prems = ex_odd_booted [folded c0_def] ex_ranges [folded ex_odd_simps(2)] ex_unambiguous [folded ex_odd_simps(3,4)]
  note boot = booted_ok [OF prems]
  have "isWatchedResource c0 (ServiceObj ex_service)" using boot(4) ex_filter(2) by (simp add: isWatchedResource_def ex_odd_simps)
  from run.event [OF run.start [of ex_requeues ex_key ?V c0] this, where new = "[QAdd ''ns/svc'']"]
  have event: "run ex_requeues ex_key ?V c0 c0 [QAdd ''ns/svc'']"
    by (simp add: OnAdd_def enqueueWork_def ex_key_def ex_service_def ex_meta_def)
  have env: "env_ok ?flt ex_env" "?V ex_env" using ex_env_ok ex_mesh_unannotated by (simp_all add: ex_odd_simps ex_env_def)
  have "controller_ok c0 c0" using boot(1) by (simp add: controller_ok_def)
  from process_ok [OF this, of ex_env "ex_requeues [QAdd ''ns/svc''] ''ns/svc''" "''ns/svc''"] env boot(4) obtain c new where
    work: "processNextWorkItem ex_env (ex_requeues [QAdd ''ns/svc''] ''ns/svc'') ''ns/svc'' c0 = Some (c, new)" "QDone ''ns/svc'' \<in> set new"
    by auto
  from run.work [OF event env(2) _ work(1)] have run: "run ex_requeues ex_key ?V c0 c ([QAdd ''ns/svc''] @ new)"
    by (simp add: queued_def)
  from unsupported_mode_serves_nothing [OF prems run ex_odd_simps(5), of "\<lambda>b. True"]
  have "getCurrentConfiguration (\<lambda>b. True) (ct_store c) = (StatusOK, ConfigBody NewDefaultDynamicConfig)"
    by (simp add: respond_def)
  moreover from run have "run ex_requeues ex_key (env_ok ?flt) c0 c ([QAdd ''ns/svc''] @ new)" by (rule run_mono) simp
  ultimately show ?thesis using prems(1) work(2) by (intro exI [of _ c0] exI [of _ c] exI [of _ "[QAdd ''ns/svc''] @ new"]) auto
qed

end
