(* ===== verification/Harness.thy ===== *)
theory Harness
  imports GoStrings Commands Clients
begin

text \<open>
  What the integration tests drive a cluster with: retrying and conditions (\<open>integration/try\<close>) and the pod
  that runs \<open>dig\<close>, \<open>curl\<close> and \<open>nc\<close> inside the cluster (\<open>integration/tool\<close>). What the code does to the world
  is logged as a list of actions; the world answers an action from all that was done so far, so that it may
  answer the same question differently later. The back-off library, the parsers of \<open>net\<close> and \<open>net/http\<close> and
  \<open>strconv.ParseFloat\<close> are arguments. A finite floating point number is a mantissa and a binary exponent; products are not rounded.
\<close>

section \<open>Actions\<close>

datatype action =
    Exec string "string list"
  | GetDeployment string string
  | GetDaemonSet string string
  | GetPod string string
  | CreateNamespaceCall string
  | BuildClients string string
  | ServerVersion
  | ServerGroupsAndResources
  | Setenv string string

text \<open>The state of a run: what was done so far, and the client that a closure has assigned.\<close>

record 'c machine =
  mc_log :: "action list"
  mc_client :: "'c option"

definition act :: "action \<Rightarrow> (action list \<Rightarrow> 'b) \<Rightarrow> 'c machine \<Rightarrow> 'c machine \<times> 'b" where
  "act a answer m = (let h = mc_log m @ [a] in (m\<lparr>mc_log := h\<rparr>, answer h))"

lemma act_answers [simp]:
  "mc_log (fst (act a answer m)) = mc_log m @ [a]" "mc_client (fst (act a answer m)) = mc_client m"
  "snd (act a answer m) = answer (mc_log m @ [a])"
  by (simp_all add: act_def Let_def)

lemma act_eq: "act a answer m = (m', x) \<longleftrightarrow> m' = m\<lparr>mc_log := mc_log m @ [a]\<rparr> \<and> x = answer (mc_log m @ [a])"
  by (auto simp: act_def Let_def)

section \<open>Retrying (\<open>try.go\<close>)\<close>

datatype float64 = Float (mantissa: int) (exponent: int)

definition CITimeoutMultiplier :: float64 where "CITimeoutMultiplier = Float 3 0"

definition getCITimeoutMultiplier :: "(string \<Rightarrow> string) \<Rightarrow> (string \<Rightarrow> float64 option) \<Rightarrow> float64" where
  "getCITimeoutMultiplier getenv parseFloat =
     (let ciTimeoutMultiplier = getenv ''CI_TIMEOUT_MULTIPLIER'' in
      if ciTimeoutMultiplier = [] then CITimeoutMultiplier
      else case parseFloat ciTimeoutMultiplier of None \<Rightarrow> CITimeoutMultiplier | Some multiplier \<Rightarrow> multiplier)"

text \<open>The product of an integer and a number, converted to an integer, which truncates.\<close>

definition scaled :: "int \<Rightarrow> float64 \<Rightarrow> int" where
  "scaled n x = (let p = n * mantissa x in
     if 0 \<le> exponent x then p * 2 ^ nat (exponent x) else sgn p * (\<bar>p\<bar> div 2 ^ nat (- exponent x)))"

definition applyCIMultiplier :: "(string \<Rightarrow> string) \<Rightarrow> (string \<Rightarrow> float64 option) \<Rightarrow> int \<Rightarrow> int" where
  "applyCIMultiplier getenv parseFloat timeout =
     (if getenv ''CI'' = [] then timeout
      else scaled timeout (getCITimeoutMultiplier getenv parseFloat))"

text \<open>An operation of a retry reads and changes the state of the run, and panics are turned into errors.\<close>

definition with_recover :: "('s \<Rightarrow> 's \<times> 'e outcome) \<Rightarrow> 's \<Rightarrow> 's \<times> 'e recovered option" where
  "with_recover f s = (case f s of (s', out) \<Rightarrow> (s', OperationWithRecover (\<lambda>_. out)))"

type_synonym ('s, 'e) retrier = "int \<Rightarrow> ('s \<Rightarrow> 's \<times> 'e option) \<Rightarrow> 's \<Rightarrow> ('s \<times> 'e option) option"

text \<open>\<open>backoff.Retry\<close> is an argument. It calls the operation once or more, until it returns no error or the
  back-off stops, and returns the last error. The argument before the operation is \<open>MaxElapsedTime\<close>: the back-off
  stops at some time unless it is 0. \<open>None\<close> is not to return.\<close>

inductive attempts :: "('s \<Rightarrow> 's \<times> 'e option) \<Rightarrow> 's \<Rightarrow> 's \<Rightarrow> 'e option \<Rightarrow> bool" for f where
  last: "f s = (s', r) \<Longrightarrow> attempts f s s' r"
| again: "f s = (s1, Some e) \<Longrightarrow> attempts f s1 s' r \<Longrightarrow> attempts f s s' r"

definition documented_retry :: "('s, 'e) retrier \<Rightarrow> bool" where
  "documented_retry retry \<longleftrightarrow>
     (\<forall>d f s s' r. retry d f s = Some (s', r) \<longrightarrow> attempts f s s' r) \<and> (\<forall>d f s. d \<noteq> 0 \<longrightarrow> retry d f s \<noteq> None)"

datatype 'e retry_error = UnableExecute "'e recovered"

definition Retry_op ::
  "('s, 'e recovered) retrier \<Rightarrow> (string \<Rightarrow> string) \<Rightarrow> (string \<Rightarrow> float64 option) \<Rightarrow> ('s \<Rightarrow> 's \<times> 'e outcome) \<Rightarrow> int \<Rightarrow>
     's \<Rightarrow> ('s \<times> 'e retry_error option) option" where
  "Retry_op retry getenv parseFloat f timeout s =
     map_option (\<lambda>(s', err). (s', map_option UnableExecute err))
       (retry (applyCIMultiplier getenv parseFloat timeout) (with_recover f) s)"

text \<open>One attempt succeeds when the operation returns no error; a panic is an attempt that fails.\<close>

lemma with_recover_None [simp]: "with_recover f s = (s', None) \<longleftrightarrow> f s = (s', Returned None)"
  by (auto simp: with_recover_def OperationWithRecover_def split: prod.splits outcome.splits)

text \<open>The attempts that failed.\<close>

definition failed_attempts :: "('s \<Rightarrow> 's \<times> 'e option) \<Rightarrow> ('s \<times> 's) set" where
  "failed_attempts f = {(s, s'). \<exists>e. f s = (s', Some e)}"

lemma attempts_last: "attempts f s s' r \<Longrightarrow> \<exists>s0. (s, s0) \<in> (failed_attempts f)\<^sup>* \<and> f s0 = (s', r)"
proof (induction rule: attempts.induct)
  case (last s s' r)
  then show ?case by blast
next
  case (again s s1 e s' r)
  from again.hyps(1) have "(s, s1) \<in> failed_attempts f" by (simp add: failed_attempts_def)
  with again.IH show ?case by (meson converse_rtrancl_into_rtrancl)
qed

lemma attempts_invariant:
  assumes "attempts f s s' r" "P s" "\<And>s s' r. P s \<Longrightarrow> f s = (s', r) \<Longrightarrow> P s'"
  shows "P s'"
  using assms(1,2)
proof (induction rule: attempts.induct)
  case (last s s' r)
  show ?case by (rule assms(3) [OF last(2,1)])
next
  case (again s s1 e s' r)
  show ?case by (rule again.IH) (rule assms(3) [OF again.prems again.hyps(1)])
qed

text \<open>\<open>Retry\<close> returns whenever the timeout in force is not zero, and then without an error exactly when the last
  attempt succeeded.\<close>

lemma Retry_returns:
  assumes "documented_retry retry" "applyCIMultiplier getenv parseFloat timeout \<noteq> 0"
  shows "\<exists>s' err. Retry_op retry getenv parseFloat f timeout s = Some (s', err)"
  using assms by (auto simp: Retry_op_def documented_retry_def)

lemma Retry_attempts:
  assumes "documented_retry retry" "Retry_op retry getenv parseFloat f timeout s = Some (s', err)"
  shows "\<exists>r. err = map_option UnableExecute r \<and> attempts (with_recover f) s s' r"
  using assms by (auto simp: Retry_op_def documented_retry_def)

lemma Retry_ok:
  assumes "documented_retry retry" "Retry_op retry getenv parseFloat f timeout s = Some (s', None)"
  shows "attempts (with_recover f) s s' None"
  using Retry_attempts [OF assms] by auto

lemma no_CI_timeout [simp]: "getenv ''CI'' = [] \<Longrightarrow> applyCIMultiplier getenv parseFloat timeout = timeout"
  by (simp add: applyCIMultiplier_def)

text \<open>Unless the environment asks for another factor, the timeouts are three times as long in CI.\<close>

lemma CI_timeout:
  assumes "getenv ''CI'' \<noteq> []" "getenv ''CI_TIMEOUT_MULTIPLIER'' = [] \<or> parseFloat (getenv ''CI_TIMEOUT_MULTIPLIER'') = None"
  shows "applyCIMultiplier getenv parseFloat timeout = 3 * timeout"
proof -
  have "getCITimeoutMultiplier getenv parseFloat = Float 3 0"
    using assms(2) by (auto simp: getCITimeoutMultiplier_def CITimeoutMultiplier_def Let_def split: option.split)
  then show ?thesis using assms(1) by (simp add: applyCIMultiplier_def scaled_def Let_def)
qed

text \<open>A multiplier of zero makes the limit zero, which is no limit.\<close>

lemma zero_multiplier:
  assumes "getenv ''CI'' \<noteq> []" "getenv ''CI_TIMEOUT_MULTIPLIER'' \<noteq> []" "parseFloat (getenv ''CI_TIMEOUT_MULTIPLIER'') = Some (Float 0 e)"
  shows "applyCIMultiplier getenv parseFloat timeout = 0"
  using assms by (simp add: applyCIMultiplier_def getCITimeoutMultiplier_def scaled_def Let_def)

section \<open>Conditions (\<open>condition.go\<close>)\<close>

datatype condition_error = ECouldNotFind string string | EReadBody | EStatusCode int int

text \<open>A response whose body may be read once: \<open>None\<close> is a body that cannot be read.\<close>

record Response =
  rs_StatusCode :: int
  rs_Body :: "string option"

type_synonym StringCondition = "string \<Rightarrow> condition_error option"
type_synonym ResponseCondition = "Response \<Rightarrow> Response \<times> condition_error option"

definition StringContains :: "string list \<Rightarrow> StringCondition" where
  "StringContains values res =
     map_option (\<lambda>value. ECouldNotFind value res) (List.find (\<lambda>value. \<not> Contains res value) values)"

definition BodyContains :: "string list \<Rightarrow> ResponseCondition" where
  "BodyContains values res =
     (case rs_Body res of
        None \<Rightarrow> (res, Some EReadBody)
      | Some body \<Rightarrow>
          (res\<lparr>rs_Body := Some []\<rparr>,
           map_option (\<lambda>value. ECouldNotFind value body) (List.find (\<lambda>value. \<not> Contains body value) values)))"

definition StatusCodeIs :: "int \<Rightarrow> ResponseCondition" where
  "StatusCodeIs status res =
     (res, if rs_StatusCode res \<noteq> status then Some (EStatusCode (rs_StatusCode res) status) else None)"

lemma find_None [simp]: "List.find P xs = None \<longleftrightarrow> (\<forall>x\<in>set xs. \<not> P x)"
  by (induction xs) auto

lemma StringContains_None: "StringContains values res = None \<longleftrightarrow> (\<forall>value\<in>set values. Contains res value)"
  by (simp add: StringContains_def)

lemma BodyContains_None:
  "snd (BodyContains values res) = None \<longleftrightarrow> (\<exists>body. rs_Body res = Some body \<and> (\<forall>value\<in>set values. Contains body value))"
  by (simp add: BodyContains_def split: option.split)

section \<open>The tool pod (\<open>tool.go\<close>)\<close>

record Tool =
  tl_name :: string
  tl_namespace :: string

definition New_tool :: "string \<Rightarrow> string \<Rightarrow> Tool" where
  "New_tool name namespace = \<lparr>tl_name = name, tl_namespace = namespace\<rparr>"

datatype tool_error = EKubectl "string list" string | ENoIP string | ENoHTTPResponse | ECondition condition_error

text \<open>A program ends with or without success and with the output it made.\<close>

type_synonym exec_answer = "action list \<Rightarrow> bool \<times> string"

definition exec_args :: "Tool \<Rightarrow> string list \<Rightarrow> string list" where
  "exec_args t args =
     [''exec'', ''-i'', tl_name t, ''--request-timeout=3s'', ''-n'', tl_namespace t, ''--''] @ args"

definition tool_exec :: "exec_answer \<Rightarrow> Tool \<Rightarrow> string list \<Rightarrow> 'c machine \<Rightarrow> 'c machine \<times> (tool_error + string)" where
  "tool_exec answer t args m =
     (case act (Exec ''kubectl'' (exec_args t args)) answer m of
        (m', ok, output) \<Rightarrow> (m', if ok then Inr output else Inl (EKubectl (exec_args t args) output)))"

text \<open>\<open>strings.TrimSpace\<close> on ASCII text.\<close>

definition is_space :: "char \<Rightarrow> bool" where
  "is_space c \<longleftrightarrow> of_char c \<in> {9 :: nat, 10, 11, 12, 13, 32}"

definition TrimSpace :: "string \<Rightarrow> string" where
  "TrimSpace s = rev (dropWhile is_space (rev (dropWhile is_space s)))"

definition Dig :: "exec_answer \<Rightarrow> (string \<Rightarrow> bool) \<Rightarrow> Tool \<Rightarrow> string \<Rightarrow> 'c machine \<Rightarrow> 'c machine \<times> tool_error option" where
  "Dig answer parseIP t url m =
     (case tool_exec answer t [''dig'', url, ''+short'', ''+timeout=3''] m of
        (m', Inl err) \<Rightarrow> (m', Some err)
      | (m', Inr output) \<Rightarrow> (m', if parseIP (TrimSpace output) then None else Some (ENoIP output)))"

text \<open>The loop over the conditions of \<open>Curl\<close>.\<close>

fun check_response :: "ResponseCondition list \<Rightarrow> Response \<Rightarrow> condition_error option" where
  "check_response [] resp = None"
| "check_response (condition # conditions) resp =
     (case condition resp of
        (resp', Some err) \<Rightarrow> Some err
      | (resp', None) \<Rightarrow> check_response conditions resp')"

text \<open>The headers come in the order in which the map is ranged over.\<close>

definition curl_args :: "string \<Rightarrow> (string \<times> string) list \<Rightarrow> string list" where
  "curl_args url headers =
     fold (\<lambda>(key, value) args. args @ [''-H'', key @ '': '' @ value]) headers [''curl'', ''-s'', ''-D-'', ''-m'', ''2''] @ [url]"

definition Curl ::
  "exec_answer \<Rightarrow> (string \<Rightarrow> Response option) \<Rightarrow> Tool \<Rightarrow> string \<Rightarrow> (string \<times> string) list \<Rightarrow> ResponseCondition list \<Rightarrow>
     'c machine \<Rightarrow> 'c machine \<times> tool_error option" where
  "Curl answer readResponse t url headers conditions m =
     (case tool_exec answer t (curl_args url headers) m of
        (m', Inl err) \<Rightarrow> (m', Some err)
      | (m', Inr output) \<Rightarrow>
          (m', case readResponse output of
                 None \<Rightarrow> Some ENoHTTPResponse
               | Some resp \<Rightarrow> map_option ECondition (check_response conditions resp)))"

fun check_string :: "StringCondition list \<Rightarrow> string \<Rightarrow> condition_error option" where
  "check_string [] output = None"
| "check_string (condition # conditions) output =
     (case condition output of Some err \<Rightarrow> Some err | None \<Rightarrow> check_string conditions output)"

definition netcat_command :: "string \<Rightarrow> int \<Rightarrow> bool \<Rightarrow> string" where
  "netcat_command url port udp =
     (if udp then ''echo '' @ [CHR 39] @ ''WHO'' @ [CHR 39] @ '' | nc -u -w 1 '' @ url @ '' '' @ itoa port
      else ''echo '' @ [CHR 39] @ ''WHO'' @ [CHR 39] @ '' | nc -q 0 '' @ url @ '' '' @ itoa port)"

definition Netcat ::
  "exec_answer \<Rightarrow> Tool \<Rightarrow> string \<Rightarrow> int \<Rightarrow> bool \<Rightarrow> StringCondition list \<Rightarrow> 'c machine \<Rightarrow> 'c machine \<times> tool_error option" where
  "Netcat answer t url port udp conditions m =
     (case tool_exec answer t [''ash'', ''-c'', netcat_command url port udp] m of
        (m', Inl err) \<Rightarrow> (m', Some err)
      | (m', Inr output) \<Rightarrow> (m', map_option ECondition (check_string conditions output)))"

section \<open>What the checks mean\<close>

lemma tool_exec_log: "mc_log (fst (tool_exec answer t args m)) = mc_log m @ [Exec ''kubectl'' (exec_args t args)]"
  by (simp add: tool_exec_def act_def Let_def split: prod.split)

lemma tool_exec_Inr:
  "tool_exec answer t args m = (m', Inr output) \<longleftrightarrow>
     m' = m\<lparr>mc_log := mc_log m @ [Exec ''kubectl'' (exec_args t args)]\<rparr>
     \<and> answer (mc_log m @ [Exec ''kubectl'' (exec_args t args)]) = (True, output)"
  by (auto simp: tool_exec_def act_eq split: prod.splits if_splits)

lemma curl_args_eq: "curl_args url headers = [''curl'', ''-s'', ''-D-'', ''-m'', ''2''] @ concat (map (\<lambda>(key, value). [''-H'', key @ '': '' @ value]) headers) @ [url]"
proof -
  have "fold (\<lambda>(key, value) args. args @ [''-H'', key @ '': '' @ value]) hs args
     = args @ concat (map (\<lambda>(key, value). [''-H'', key @ '': '' @ value]) hs)" for hs args
    by (induction hs arbitrary: args) auto
  then show ?thesis by (simp add: curl_args_def)
qed

text \<open>A check through the tool pod runs one command in the pod, and holds exactly when it ends well with an output
  that meets the conditions.\<close>

lemma Dig_None:
  "snd (Dig answer parseIP t url m) = None \<longleftrightarrow>
     (\<exists>output. answer (mc_log m @ [Exec ''kubectl'' (exec_args t [''dig'', url, ''+short'', ''+timeout=3''])]) = (True, output)
        \<and> parseIP (TrimSpace output))"
  by (auto simp: Dig_def tool_exec_def act_def Let_def split: prod.split if_splits)

lemma Curl_None:
  "snd (Curl answer readResponse t url headers conditions m) = None \<longleftrightarrow>
     (\<exists>output resp. answer (mc_log m @ [Exec ''kubectl'' (exec_args t (curl_args url headers))]) = (True, output)
        \<and> readResponse output = Some resp \<and> check_response conditions resp = None)"
  by (auto simp: Curl_def tool_exec_def act_def Let_def split: prod.split if_splits option.splits)

lemma check_string_None: "check_string conditions output = None \<longleftrightarrow> (\<forall>condition\<in>set conditions. condition output = None)"
  by (induction conditions) (auto split: option.split)

lemma Netcat_None:
  "snd (Netcat answer t url port udp conditions m) = None \<longleftrightarrow>
     (\<exists>output. answer (mc_log m @ [Exec ''kubectl'' (exec_args t [''ash'', ''-c'', netcat_command url port udp])]) = (True, output)
        \<and> (\<forall>condition\<in>set conditions. condition output = None))"
  by (auto simp: Netcat_def tool_exec_def act_def Let_def check_string_None split: prod.split if_splits)

lemma tool_log:
  "mc_log (fst (Dig answer parseIP t url m)) = mc_log m @ [Exec ''kubectl'' (exec_args t [''dig'', url, ''+short'', ''+timeout=3''])]"
  "mc_log (fst (Curl answer readResponse t url headers conditions m)) = mc_log m @ [Exec ''kubectl'' (exec_args t (curl_args url headers))]"
  "mc_log (fst (Netcat answer t url port udp conds m)) = mc_log m @ [Exec ''kubectl'' (exec_args t [''ash'', ''-c'', netcat_command url port udp])]"
  by (simp_all add: Dig_def Curl_def Netcat_def tool_exec_def act_def Let_def split: prod.split)

text \<open>A body is read once: a second condition on the body finds it empty.\<close>

lemma Contains_Nil: "Contains [] sub \<longleftrightarrow> sub = []"
  by (auto simp: Contains_iff)

lemma check_response_append:
  "check_response (conditions @ rest) resp = None \<Longrightarrow> \<exists>resp'. check_response rest resp' = None"
  by (induction conditions arbitrary: resp) (auto split: prod.splits option.splits)

lemma read_body_stays:
  assumes "rs_Body resp = Some []" "set conditions \<subseteq> range BodyContains \<union> range StatusCodeIs"
    and "check_response (conditions @ BodyContains values # rest) resp = None"
  shows "set values \<subseteq> {[]}"
  using assms
proof (induction conditions arbitrary: resp)
  case Nil
  then have "\<forall>value\<in>set values. Contains [] value"
    by (auto simp: BodyContains_def split: option.splits)
  then show ?case by (auto simp: Contains_Nil)
next
  case (Cons condition conditions)
  from Cons.prems(2) have "rs_Body (fst (condition resp)) = Some []"
    using Cons.prems(1) by (auto simp: BodyContains_def StatusCodeIs_def)
  moreover from Cons.prems(3) have "check_response (conditions @ BodyContains values # rest) (fst (condition resp)) = None"
    by (auto split: prod.splits option.splits)
  ultimately show ?case using Cons.IH Cons.prems(2) by simp
qed

theorem Curl_reads_body_once:
  assumes "snd (Curl answer readResponse t url headers (before @ BodyContains first # between @ BodyContains second # rest) m) = None"
    and "set between \<subseteq> range BodyContains \<union> range StatusCodeIs"
  shows "set second \<subseteq> {[]}"
proof -
  from assms(1) obtain resp where "check_response (before @ BodyContains first # between @ BodyContains second # rest) resp = None"
    by (auto simp: Curl_None)
  from check_response_append [OF this] obtain resp' where resp': "check_response (BodyContains first # between @ BodyContains second # rest) resp' = None"
    by blast
  then have "rs_Body (fst (BodyContains first resp')) = Some []"
      "check_response (between @ BodyContains second # rest) (fst (BodyContains first resp')) = None"
    by (auto simp: BodyContains_def split: prod.splits option.splits)
  from read_body_stays [OF this(1) assms(2) this(2)] show ?thesis .
qed

end
