(* ===== verification/K3d.thy ===== *)
theory K3d
  imports Harness "HOL-Library.Sublist"
begin

text \<open>
  The cluster of the integration tests (\<open>integration/k3d/k3d.go\<close>): starting and stopping a k3s cluster in Docker
  through the programs \<open>docker\<close>, \<open>k3d\<close> and \<open>kubectl\<close>, and waiting until workloads are ready. The programs, the API
  server of the cluster and the back-off library are arguments that answer from all that was done so far.
\<close>

section \<open>The outside\<close>

record DeploymentState =
  ds_UpdatedReplicas :: int32
  ds_Replicas :: int32
  ds_AvailableReplicas :: int32
  ds_ObservedGeneration :: "64 word"
  ds_Generation :: "64 word"
  ds_SpecReplicas :: "int32 option"

record DaemonSetState =
  ns_NumberReady :: int32
  ns_DesiredNumberScheduled :: int32

record PodCondition =
  pc_Type :: string
  pc_Status :: string

datatype k3d_error =
    EGetwd
  | EPullImages string
  | ECreateCluster string
  | EImportImages string
  | EKubeConfig string string
  | EBuildClients client_error
  | EGetServerVersion
  | ECreateClient "k3d_error retry_error"
  | ESetenv
  | EServerGroups
  | ETimedOut "k3d_error retry_error"
  | EStopCluster
  | ECreateNamespace string
  | EApply string
  | ENotYetCreated string
  | EUnableGet string string
  | ENotReady
  | EWaiting string string "k3d_error retry_error"

type_synonym ('k, 'a, 's, 't) run_state = "('k, 'a, 's, 't) ClientWrapper machine"

record ('r, 'k, 'a, 's, 't) outside =
  out_Exec :: exec_answer
  out_Getwd :: "string option"
  out_Getenv :: "string \<Rightarrow> string"
  out_ParseFloat :: "string \<Rightarrow> float64 option"
  out_Library :: "action list \<Rightarrow> ('r, 'k, 'a, 's, 't) client_library"
  out_ServerVersion :: "action list \<Rightarrow> bool"
  out_ServerGroups :: "action list \<Rightarrow> bool"
  out_Setenv :: "action list \<Rightarrow> bool"
  out_CreateNamespace :: "action list \<Rightarrow> bool"
  out_Deployment :: "action list \<Rightarrow> api_error + DeploymentState"
  out_DaemonSet :: "action list \<Rightarrow> api_error + DaemonSetState"
  out_Pod :: "action list \<Rightarrow> api_error + PodCondition list"
  out_Retry :: "(('k, 'a, 's, 't) run_state, k3d_error recovered) retrier"

abbreviation retry_outside where
  "retry_outside out \<equiv> Retry_op (out_Retry out) (out_Getenv out) (out_ParseFloat out)"

text \<open>What returns an error or a value, or does not return.\<close>

type_synonym ('m, 'e, 'x) step = "'m \<Rightarrow> ('m \<times> ('e + 'x)) option"

definition and_next :: "('m, 'e, 'x) step \<Rightarrow> ('x \<Rightarrow> ('m, 'e, 'y) step) \<Rightarrow> ('m, 'e, 'y) step" where
  "and_next f g m = (case f m of
     None \<Rightarrow> None
   | Some (m', Inl err) \<Rightarrow> Some (m', Inl err)
   | Some (m', Inr x) \<Rightarrow> g x m')"

definition wrap_step :: "('e \<Rightarrow> 'f) \<Rightarrow> ('m \<Rightarrow> ('m \<times> 'e option) option) \<Rightarrow> ('m, 'f, unit) step" where
  "wrap_step w f m = map_option (\<lambda>(m', err). (m', case err of None \<Rightarrow> Inr () | Some e \<Rightarrow> Inl (w e))) (f m)"

text \<open>A program is run for its output.\<close>

definition run_program :: "('r, 'k, 'a, 's, 't) outside \<Rightarrow> string \<Rightarrow> string list \<Rightarrow> (string \<Rightarrow> 'e) \<Rightarrow> ('c machine, 'e, string) step" where
  "run_program out program args failure m =
     (case act (Exec program args) (out_Exec out) m of
        (m', ok, output) \<Rightarrow> Some (m', if ok then Inr output else Inl (failure output)))"

section \<open>Starting a cluster\<close>

record DockerImage =
  im_Name :: string
  im_Local :: bool

record ClusterOptions =
  op_Cmd :: "string list"
  op_Images :: "DockerImage list"

definition WithoutTraefik :: "ClusterOptions \<Rightarrow> ClusterOptions" where
  "WithoutTraefik opts = opts\<lparr>op_Cmd := op_Cmd opts @ [''--k3s-server-arg'', ''--no-deploy=traefik'']\<rparr>"

definition WithoutCoreDNS :: "ClusterOptions \<Rightarrow> ClusterOptions" where
  "WithoutCoreDNS opts = opts\<lparr>op_Cmd := op_Cmd opts @ [''--k3s-server-arg'', ''--no-deploy=coredns'']\<rparr>"

definition WithImages :: "DockerImage list \<Rightarrow> ClusterOptions \<Rightarrow> ClusterOptions" where
  "WithImages images opts = opts\<lparr>op_Images := op_Images opts @ images\<rparr>"

fun pullDockerImages :: "('r, 'k, 'a, 's, 't) outside \<Rightarrow> DockerImage list \<Rightarrow> ('c machine, k3d_error, unit) step" where
  "pullDockerImages out [] m = Some (m, Inr ())"
| "pullDockerImages out (img # images) m =
     (if im_Local img then pullDockerImages out images m
      else and_next (run_program out ''docker'' [''pull'', im_Name img] EPullImages) (\<lambda>output. pullDockerImages out images) m)"

definition k3sImage :: string where "k3sImage = ''rancher/k3s''"
definition k3sVersion :: string where "k3sVersion = ''v1.18.6-k3s1''"

definition create_args :: "string \<Rightarrow> string list \<Rightarrow> string list" where
  "create_args clusterName cmdOpts =
     [''cluster'', ''create'', clusterName, ''--no-lb'', ''--api-port'', ''8443'', ''--agents'', ''1'',
      ''--image'', k3sImage @ '':'' @ k3sVersion, ''--wait'', ''--timeout'', ''30s''] @ cmdOpts"

definition createCluster :: "('r, 'k, 'a, 's, 't) outside \<Rightarrow> string \<Rightarrow> string list \<Rightarrow> ('c machine, k3d_error, string) step" where
  "createCluster out clusterName cmdOpts = run_program out ''k3d'' (create_args clusterName cmdOpts) ECreateCluster"

definition import_args :: "string \<Rightarrow> DockerImage list \<Rightarrow> string list" where
  "import_args clusterName images =
     fold (\<lambda>img args. args @ [im_Name img]) images [''image'', ''import'', ''--cluster'', clusterName]"

definition importDockerImages :: "('r, 'k, 'a, 's, 't) outside \<Rightarrow> string \<Rightarrow> DockerImage list \<Rightarrow> ('c machine, k3d_error, string) step" where
  "importDockerImages out clusterName images = run_program out ''k3d'' (import_args clusterName images) EImportImages"

definition TrimSuffix :: "string \<Rightarrow> string \<Rightarrow> string" where
  "TrimSuffix s sfx = (if HasPrefix (rev s) (rev sfx) then take (length s - length sfx) s else s)"

text \<open>The operation that \<open>createK8sClient\<close> retries. It assigns the captured variable \<open>client\<close>, also when it fails later.\<close>

definition client_attempt ::
  "('r, 'k, 'a, 's, 't) outside \<Rightarrow> string \<Rightarrow> string \<Rightarrow> ('k, 'a, 's, 't) run_state \<Rightarrow> ('k, 'a, 's, 't) run_state \<times> k3d_error outcome" where
  "client_attempt out masterURL kubeConfigPath m =
     (case act (BuildClients masterURL kubeConfigPath) (\<lambda>h. NewClient (out_Library out h) (out_Getenv out) masterURL kubeConfigPath) m of
        (m1, Inl err) \<Rightarrow> (m1\<lparr>mc_client := None\<rparr>, Returned (Some (EBuildClients err)))
      | (m1, Inr client) \<Rightarrow>
          (case act ServerVersion (out_ServerVersion out) (m1\<lparr>mc_client := Some client\<rparr>) of
             (m2, ok) \<Rightarrow> (m2, Returned (if ok then None else Some EGetServerVersion))))"

definition seconds :: int where "seconds = 1000000000"

text \<open>The part of \<open>createK8sClient\<close> after the kubeconfig was written.\<close>

definition make_client ::
  "('r, 'k, 'a, 's, 't) outside \<Rightarrow> string \<Rightarrow> string \<Rightarrow> (('k, 'a, 's, 't) run_state, k3d_error, ('k, 'a, 's, 't) ClientWrapper option) step" where
  "make_client out masterURL kubeConfigPath =
     and_next (wrap_step ECreateClient (retry_outside out (client_attempt out masterURL kubeConfigPath) (30 * seconds)))
       (\<lambda>_ m. case act (Setenv ''KUBECONFIG'' kubeConfigPath) (out_Setenv out) m of
          (m', ok) \<Rightarrow> Some (m', if ok then Inr (mc_client m') else Inl ESetenv))"

definition createK8sClient ::
  "('r, 'k, 'a, 's, 't) outside \<Rightarrow> string \<Rightarrow> string \<Rightarrow> (('k, 'a, 's, 't) run_state, k3d_error, ('k, 'a, 's, 't) ClientWrapper option) step" where
  "createK8sClient out clusterName masterURL =
     and_next (run_program out ''k3d'' [''kubeconfig'', ''write'', clusterName] (EKubeConfig clusterName)) (\<lambda>output.
       let kubeConfigPath = TrimSuffix output [CHR 10] in make_client out masterURL kubeConfigPath)"

definition groups_attempt ::
  "('r, 'k, 'a, 's, 't) outside \<Rightarrow> ('k, 'a, 's, 't) run_state \<Rightarrow> ('k, 'a, 's, 't) run_state \<times> k3d_error outcome" where
  "groups_attempt out m =
     (case act ServerGroupsAndResources (out_ServerGroups out) m of
        (m', ok) \<Rightarrow> (m', Returned (if ok then None else Some EServerGroups)))"

definition waitClusterReady :: "('r, 'k, 'a, 's, 't) outside \<Rightarrow> (('k, 'a, 's, 't) run_state, k3d_error, unit) step" where
  "waitClusterReady out = wrap_step ETimedOut (retry_outside out (groups_attempt out) (60 * seconds))"

record ('k, 'a, 's, 't) Cluster =
  cl_workingDir :: string
  cl_Client :: "('k, 'a, 's, 't) ClientWrapper option"
  cl_Name :: string

definition default_options :: ClusterOptions where
  "default_options = \<lparr>op_Cmd = [], op_Images = [\<lparr>im_Name = ''rancher/coredns-coredns:1.6.3'', im_Local = False\<rparr>]\<rparr>"

definition NewCluster ::
  "('r, 'k, 'a, 's, 't) outside \<Rightarrow> string \<Rightarrow> string \<Rightarrow> (ClusterOptions \<Rightarrow> ClusterOptions) list \<Rightarrow>
     (('k, 'a, 's, 't) run_state, k3d_error, ('k, 'a, 's, 't) Cluster) step" where
  "NewCluster out masterURL name opts =
     (let clusterOpts = fold (\<lambda>opt. opt) opts default_options in
      and_next (\<lambda>m. Some (m, case out_Getwd out of None \<Rightarrow> Inl EGetwd | Some dir \<Rightarrow> Inr dir)) (\<lambda>workingDir.
      and_next (pullDockerImages out (op_Images clusterOpts)) (\<lambda>_.
      and_next (createCluster out name (op_Cmd clusterOpts)) (\<lambda>_.
      and_next (importDockerImages out name (op_Images clusterOpts)) (\<lambda>_.
      and_next (createK8sClient out name masterURL) (\<lambda>client.
      and_next (waitClusterReady out) (\<lambda>_ m.
        Some (m, Inr \<lparr>cl_workingDir = workingDir, cl_Client = client, cl_Name = name\<rparr>))))))))"

section \<open>Using and stopping a cluster\<close>

definition Cluster_Stop :: "('r, 'k, 'a, 's, 't) outside \<Rightarrow> ('k, 'a, 's, 't) Cluster \<Rightarrow> 'c machine \<Rightarrow> 'c machine \<times> k3d_error option" where
  "Cluster_Stop out c m =
     (case act (Exec ''k3d'' [''cluster'', ''delete'', cl_Name c]) (out_Exec out) m of
        (m', ok, output) \<Rightarrow> (m', if ok then None else Some EStopCluster))"

definition Cluster_CreateNamespace :: "('r, 'k, 'a, 's, 't) outside \<Rightarrow> string \<Rightarrow> 'c machine \<Rightarrow> 'c machine \<times> k3d_error option" where
  "Cluster_CreateNamespace out name m =
     (case act (CreateNamespaceCall name) (out_CreateNamespace out) m of
        (m', ok) \<Rightarrow> (m', if ok then None else Some (ECreateNamespace name)))"

text \<open>\<open>path.Join\<close> and \<open>path.Clean\<close>.\<close>

definition path_element :: "bool \<Rightarrow> string \<Rightarrow> string list \<Rightarrow> string list" where
  "path_element rooted p parts =
     (if p = ''..'' then
        (if parts \<noteq> [] \<and> last parts \<noteq> ''..'' then butlast parts else if rooted then parts else parts @ [p])
      else if p = [] \<or> p = ''.'' then parts else parts @ [p])"

definition path_Clean :: "string \<Rightarrow> string" where
  "path_Clean path =
     (let rooted = HasPrefix path ''/'';
          joined = Join (fold (path_element rooted) (SplitChar (CHR ''/'') path) []) ''/'' in
      if rooted then ''/'' @ joined else if joined = [] then ''.'' else joined)"

definition path_Join :: "string list \<Rightarrow> string" where
  "path_Join elems = (case dropWhile (\<lambda>e. e = []) elems of [] \<Rightarrow> [] | rest \<Rightarrow> path_Clean (Join rest ''/''))"

definition Cluster_Apply ::
  "('r, 'k, 'a, 's, 't) outside \<Rightarrow> ('k, 'a, 's, 't) Cluster \<Rightarrow> string \<Rightarrow> 'c machine \<Rightarrow> 'c machine \<times> k3d_error option" where
  "Cluster_Apply out c resourcesPath m =
     (case act (Exec ''kubectl'' [''apply'', ''-f'', path_Join [cl_workingDir c, resourcesPath]]) (out_Exec out) m of
        (m', ok, output) \<Rightarrow> (m', if ok then None else Some (EApply output)))"

text \<open>A failure to delete is only logged.\<close>

definition Cluster_Delete ::
  "('r, 'k, 'a, 's, 't) outside \<Rightarrow> ('k, 'a, 's, 't) Cluster \<Rightarrow> string \<Rightarrow> 'c machine \<Rightarrow> 'c machine" where
  "Cluster_Delete out c resourcesPath m =
     fst (act (Exec ''kubectl'' [''delete'', ''-f'', path_Join [cl_workingDir c, resourcesPath], ''--force'', ''--grace-period=0''])
       (out_Exec out) m)"

section \<open>Waiting\<close>

definition get_failed :: "string \<Rightarrow> string \<Rightarrow> api_error \<Rightarrow> k3d_error" where
  "get_failed name namespace err = (if err = NotFound then ENotYetCreated name else EUnableGet name namespace)"

text \<open>The dereferenced \<open>Spec.Replicas\<close> may be nil.\<close>

definition deployment_attempt ::
  "('r, 'k, 'a, 's, 't) outside \<Rightarrow> string \<Rightarrow> string \<Rightarrow> ('k, 'a, 's, 't) run_state \<Rightarrow> ('k, 'a, 's, 't) run_state \<times> k3d_error outcome" where
  "deployment_attempt out name namespace m =
     (case act (GetDeployment namespace name) (out_Deployment out) m of
        (m', Inl err) \<Rightarrow> (m', Returned (Some (get_failed name namespace err)))
      | (m', Inr d) \<Rightarrow>
          (m', case ds_SpecReplicas d of
                 None \<Rightarrow> Panicked
               | Some replicas \<Rightarrow>
                   if ds_UpdatedReplicas d = replicas \<and> ds_Replicas d = replicas \<and> ds_AvailableReplicas d = replicas
                     \<and> ds_Generation d \<le>s ds_ObservedGeneration d
                   then Returned None else Returned (Some ENotReady)))"

definition WaitReadyDeployment ::
  "('r, 'k, 'a, 's, 't) outside \<Rightarrow> string \<Rightarrow> string \<Rightarrow> int \<Rightarrow> (('k, 'a, 's, 't) run_state, k3d_error, unit) step" where
  "WaitReadyDeployment out name namespace timeout =
     wrap_step (EWaiting name namespace) (retry_outside out (deployment_attempt out name namespace) timeout)"

definition daemonset_attempt ::
  "('r, 'k, 'a, 's, 't) outside \<Rightarrow> string \<Rightarrow> string \<Rightarrow> ('k, 'a, 's, 't) run_state \<Rightarrow> ('k, 'a, 's, 't) run_state \<times> k3d_error outcome" where
  "daemonset_attempt out name namespace m =
     (case act (GetDaemonSet namespace name) (out_DaemonSet out) m of
        (m', Inl err) \<Rightarrow> (m', Returned (Some (get_failed name namespace err)))
      | (m', Inr d) \<Rightarrow> (m', Returned (if ns_NumberReady d = ns_DesiredNumberScheduled d then None else Some ENotReady)))"

definition WaitReadyDaemonSet ::
  "('r, 'k, 'a, 's, 't) outside \<Rightarrow> string \<Rightarrow> string \<Rightarrow> int \<Rightarrow> (('k, 'a, 's, 't) run_state, k3d_error, unit) step" where
  "WaitReadyDaemonSet out name namespace timeout =
     wrap_step (EWaiting name namespace) (retry_outside out (daemonset_attempt out name namespace) timeout)"

fun isPodReady :: "PodCondition list \<Rightarrow> bool" where
  "isPodReady [] = False"
| "isPodReady (condition # conditions) =
     (if pc_Type condition = ''Ready'' then pc_Status condition = ''True'' else isPodReady conditions)"

definition pod_attempt ::
  "('r, 'k, 'a, 's, 't) outside \<Rightarrow> string \<Rightarrow> string \<Rightarrow> ('k, 'a, 's, 't) run_state \<Rightarrow> ('k, 'a, 's, 't) run_state \<times> k3d_error outcome" where
  "pod_attempt out name namespace m =
     (case act (GetPod namespace name) (out_Pod out) m of
        (m', Inl err) \<Rightarrow> (m', Returned (Some (get_failed name namespace err)))
      | (m', Inr conditions) \<Rightarrow> (m', Returned (if isPodReady conditions then None else Some ENotReady)))"

definition WaitReadyPod ::
  "('r, 'k, 'a, 's, 't) outside \<Rightarrow> string \<Rightarrow> string \<Rightarrow> int \<Rightarrow> (('k, 'a, 's, 't) run_state, k3d_error, unit) step" where
  "WaitReadyPod out name namespace timeout =
     wrap_step (EWaiting name namespace) (retry_outside out (pod_attempt out name namespace) timeout)"

lemma isPodReady_iff:
  "isPodReady conditions \<longleftrightarrow> (\<exists>c. List.find (\<lambda>c. pc_Type c = ''Ready'') conditions = Some c \<and> pc_Status c = ''True'')"
  by (induction conditions) auto

lemma path_Join_plain: "path_Join [''/work'', ''testdata/./x.yaml''] = ''/work/testdata/x.yaml''" "path_Join [''/work/a'', ''../b/''] = ''/work/b''"
  by code_simp+

section \<open>Steps\<close>

lemma and_next_Some:
  "and_next f g m = Some (m', r) \<longleftrightarrow>
     (\<exists>e. f m = Some (m', Inl e) \<and> r = Inl e) \<or> (\<exists>m1 x. f m = Some (m1, Inr x) \<and> g x m1 = Some (m', r))"
  by (auto simp: and_next_def split: option.split sum.split)

lemma and_next_returns: "\<exists>m' r. f m = Some (m', r) \<Longrightarrow> (\<And>x m'. \<exists>m'' r. g x m' = Some (m'', r)) \<Longrightarrow> \<exists>m' r. and_next f g m = Some (m', r)"
  by (force simp: and_next_def split: sum.split)

lemma run_program_Some:
  "run_program out program args failure m = Some (m', r) \<longleftrightarrow>
     m' = m\<lparr>mc_log := mc_log m @ [Exec program args]\<rparr>
     \<and> r = (case out_Exec out (mc_log m @ [Exec program args]) of (ok, output) \<Rightarrow> if ok then Inr output else Inl (failure output))"
  by (auto simp: run_program_def act_eq split: prod.splits)

lemma run_program_returns: "\<exists>m' r. run_program out program args failure m = Some (m', r)"
  by (simp add: run_program_def split: prod.split)

text \<open>An operation that makes one request per attempt: the run logs as many as there were attempts, and when it succeeds the
  last answer was the one waited for.\<close>

lemma retried_request:
  assumes "documented_retry (out_Retry out)" "wrap_step w (retry_outside out f timeout) m = Some (m', r)"
    and one: "\<And>m. mc_log (fst (f m)) = mc_log m @ [a]" "\<And>m. mc_client (fst (f m)) = mc_client m"
    and ok: "\<And>m m'. f m = (m', Returned None) \<Longrightarrow> good (mc_log m')"
  shows "\<exists>n. mc_log m' = mc_log m @ replicate (Suc n) a" "mc_client m' = mc_client m" "r = Inr () \<Longrightarrow> good (mc_log m')"
proof -
  from assms(2) obtain err where run: "retry_outside out f timeout m = Some (m', err)"
    and r: "r = (case err of None \<Rightarrow> Inr () | Some e \<Rightarrow> Inl (w e))" by (auto simp: wrap_step_def)
  from Retry_attempts [OF assms(1) run] obtain x where x: "err = map_option UnableExecute x" "attempts (with_recover f) m m' x" by blast
  have step: "mc_log (fst (with_recover f s)) = mc_log s @ [a]" "mc_client (fst (with_recover f s)) = mc_client s" for s
    using one [of s] by (cases "f s"; simp add: with_recover_def)+
  show "\<exists>n. mc_log m' = mc_log m @ replicate (Suc n) a"
    using x(2)
  proof (induction rule: attempts.induct)
    case (last s s' r)
    with step(1) [of s] have "mc_log s' = mc_log s @ replicate (Suc 0) a" by simp
    then show ?case by blast
  next
    case (again s s1 e s' r)
    then obtain n where "mc_log s' = mc_log s1 @ replicate (Suc n) a" by blast
    with again.hyps(1) step(1) [of s] have "mc_log s' = mc_log s @ replicate (Suc (Suc n)) a" by simp
    then show ?case by blast
  qed
  show "mc_client m' = mc_client m"
    by (rule attempts_invariant [OF x(2), of "\<lambda>s. mc_client s = mc_client m"]) (use step(2) in \<open>auto simp: prod_eq_iff\<close>)
  assume "r = Inr ()"
  with r x(1) have "x = None" by (cases x) auto
  with attempts_last [OF x(2)] ok show "good (mc_log m')" by auto
qed

section \<open>Waiting means that it is ready\<close>

definition deployment_ready :: "DeploymentState \<Rightarrow> bool" where
  "deployment_ready d \<longleftrightarrow> ds_SpecReplicas d = Some (ds_UpdatedReplicas d) \<and> ds_SpecReplicas d = Some (ds_Replicas d)
     \<and> ds_SpecReplicas d = Some (ds_AvailableReplicas d) \<and> ds_Generation d \<le>s ds_ObservedGeneration d"

lemma attempts_one:
  "mc_log (fst (deployment_attempt out name namespace m)) = mc_log m @ [GetDeployment namespace name]"
  "mc_log (fst (daemonset_attempt out name namespace m)) = mc_log m @ [GetDaemonSet namespace name]"
  "mc_log (fst (pod_attempt out name namespace m)) = mc_log m @ [GetPod namespace name]"
  "mc_log (fst (groups_attempt out m)) = mc_log m @ [ServerGroupsAndResources]"
  "mc_client (fst (deployment_attempt out name namespace m)) = mc_client m"
  "mc_client (fst (daemonset_attempt out name namespace m)) = mc_client m"
  "mc_client (fst (pod_attempt out name namespace m)) = mc_client m"
  "mc_client (fst (groups_attempt out m)) = mc_client m"
  by (simp_all add: deployment_attempt_def daemonset_attempt_def pod_attempt_def groups_attempt_def act_def Let_def split: sum.split)

lemma attempts_ready:
  "deployment_attempt out name namespace m = (m', Returned None) \<Longrightarrow> \<exists>d. out_Deployment out (mc_log m') = Inr d \<and> deployment_ready d"
  "daemonset_attempt out name namespace m = (m', Returned None) \<Longrightarrow>
     \<exists>d. out_DaemonSet out (mc_log m') = Inr d \<and> ns_NumberReady d = ns_DesiredNumberScheduled d"
  "pod_attempt out name namespace m = (m', Returned None) \<Longrightarrow> \<exists>cs. out_Pod out (mc_log m') = Inr cs \<and> isPodReady cs"
  "groups_attempt out m = (m', Returned None) \<Longrightarrow> out_ServerGroups out (mc_log m')"
  by (auto simp: deployment_attempt_def daemonset_attempt_def pod_attempt_def groups_attempt_def deployment_ready_def act_def Let_def
      split: sum.splits option.splits if_splits)

text \<open>When waiting for a deployment ends well, the last of its requests was answered with a deployment that is ready, and
  nothing but requests for that deployment was made.\<close>

theorem WaitReadyDeployment_ready:
  assumes "documented_retry (out_Retry out)" "WaitReadyDeployment out name namespace timeout m = Some (m', Inr ())"
  shows "\<exists>n d. mc_log m' = mc_log m @ replicate (Suc n) (GetDeployment namespace name)
     \<and> out_Deployment out (mc_log m') = Inr d \<and> deployment_ready d"
  using retried_request [OF assms(1) assms(2) [unfolded WaitReadyDeployment_def] attempts_one(1,5),
      where good = "\<lambda>h. \<exists>d. out_Deployment out h = Inr d \<and> deployment_ready d"] attempts_ready(1) by blast

lemma WaitReadyDaemonSet_ready:
  assumes "documented_retry (out_Retry out)" "WaitReadyDaemonSet out name namespace timeout m = Some (m', Inr ())"
  shows "\<exists>n d. mc_log m' = mc_log m @ replicate (Suc n) (GetDaemonSet namespace name)
     \<and> out_DaemonSet out (mc_log m') = Inr d \<and> ns_NumberReady d = ns_DesiredNumberScheduled d"
  using retried_request [OF assms(1) assms(2) [unfolded WaitReadyDaemonSet_def] attempts_one(2,6),
      where good = "\<lambda>h. \<exists>d. out_DaemonSet out h = Inr d \<and> ns_NumberReady d = ns_DesiredNumberScheduled d"] attempts_ready(2) by blast

lemma WaitReadyPod_ready:
  assumes "documented_retry (out_Retry out)" "WaitReadyPod out name namespace timeout m = Some (m', Inr ())"
  shows "\<exists>n cs. mc_log m' = mc_log m @ replicate (Suc n) (GetPod namespace name)
     \<and> out_Pod out (mc_log m') = Inr cs \<and> isPodReady cs"
  using retried_request [OF assms(1) assms(2) [unfolded WaitReadyPod_def] attempts_one(3,7),
      where good = "\<lambda>h. \<exists>cs. out_Pod out h = Inr cs \<and> isPodReady cs"] attempts_ready(3) by blast

section \<open>What starting a cluster does\<close>

definition pulls :: "DockerImage list \<Rightarrow> action list" where
  "pulls images = map (\<lambda>img. Exec ''docker'' [''pull'', im_Name img]) (filter (\<lambda>img. \<not> im_Local img) images)"

definition start_commands :: "string \<Rightarrow> ClusterOptions \<Rightarrow> action list" where
  "start_commands name opts = pulls (op_Images opts)
     @ [Exec ''k3d'' (create_args name (op_Cmd opts)),
        Exec ''k3d'' ([''image'', ''import'', ''--cluster'', name] @ map im_Name (op_Images opts)),
        Exec ''k3d'' [''kubeconfig'', ''write'', name]]"

lemma import_args_eq: "import_args name images = [''image'', ''import'', ''--cluster'', name] @ map im_Name images"
proof -
  have "fold (\<lambda>img args. args @ [im_Name img]) xs args = args @ map im_Name xs" for xs :: "DockerImage list" and args
    by (induction xs arbitrary: args) auto
  then show ?thesis by (simp add: import_args_def)
qed

lemma pullDockerImages_log:
  "pullDockerImages out images m = Some (m', r) \<Longrightarrow>
     \<exists>acts. m' = m\<lparr>mc_log := mc_log m @ acts\<rparr> \<and> prefix acts (pulls images) \<and> (r = Inr () \<longrightarrow> acts = pulls images)"
proof (induction images arbitrary: m)
  case Nil
  then have "m' = m\<lparr>mc_log := mc_log m @ []\<rparr>" by simp
  then show ?case by (auto simp: pulls_def)
next
  case (Cons img images)
  show ?case
  proof (cases "im_Local img")
    case True
    with Cons show ?thesis by (simp add: pulls_def)
  next
    case False
    let ?a = "Exec ''docker'' [''pull'', im_Name img]"
    let ?m = "m\<lparr>mc_log := mc_log m @ [?a]\<rparr>"
    have pulls: "pulls (img # images) = ?a # pulls images" using False by (simp add: pulls_def)
    from Cons.prems False consider e where "m' = ?m" "r = Inl e" | "pullDockerImages out images ?m = Some (m', r)"
      by (auto simp: and_next_Some run_program_Some)
    then show ?thesis
    proof cases
      case 1
      then show ?thesis unfolding pulls by (intro exI [of _ "[?a]"]) auto
    next
      case 2
      from Cons.IH [OF this] obtain acts where "m' = ?m\<lparr>mc_log := mc_log ?m @ acts\<rparr>" "prefix acts (pulls images)"
        "r = Inr () \<longrightarrow> acts = pulls images" by blast
      then show ?thesis unfolding pulls by (intro exI [of _ "?a # acts"]) auto
    qed
  qed
qed

text \<open>The attempts to make a client: what they log, and what is known after the one that succeeds.\<close>

lemma client_attempt_log:
  assumes "client_attempt out masterURL kube m = (m', x)"
  shows "\<exists>acts. mc_log m' = mc_log m @ acts \<and> set acts \<subseteq> {BuildClients masterURL kube, ServerVersion}"
  using assms by (auto simp: client_attempt_def act_def Let_def split: sum.splits)

lemma client_attempt_ok:
  assumes "client_attempt out masterURL kube m = (m', Returned None)"
  shows "\<exists>h client. mc_client m' = Some client \<and> NewClient (out_Library out h) (out_Getenv out) masterURL kube = Inr client
     \<and> mc_log m' = h @ [ServerVersion] \<and> out_ServerVersion out (mc_log m')"
  using assms by (auto simp: client_attempt_def act_def Let_def split: sum.splits if_splits)

lemma client_attempts:
  assumes "attempts (with_recover (client_attempt out masterURL kube)) m m' x"
  shows "\<exists>acts. mc_log m' = mc_log m @ acts \<and> set acts \<subseteq> {BuildClients masterURL kube, ServerVersion}"
    and "x = None \<Longrightarrow> \<exists>h client. mc_client m' = Some client \<and> NewClient (out_Library out h) (out_Getenv out) masterURL kube = Inr client
     \<and> mc_log m' = h @ [ServerVersion] \<and> out_ServerVersion out (mc_log m')"
proof -
  let ?P = "\<lambda>s :: ('a, 'b, 'c, 'd) run_state. \<exists>acts. mc_log s = mc_log m @ acts \<and> set acts \<subseteq> {BuildClients masterURL kube, ServerVersion}"
  show "?P m'"
  proof (rule attempts_invariant [OF assms])
    show "?P m" by simp
    fix s s' r
    assume "?P s" "with_recover (client_attempt out masterURL kube) s = (s', r)"
    moreover from this(2) obtain y where "client_attempt out masterURL kube s = (s', y)" by (auto simp: with_recover_def split: prod.splits)
    from client_attempt_log [OF this] obtain more where "mc_log s' = mc_log s @ more" "set more \<subseteq> {BuildClients masterURL kube, ServerVersion}"
      by blast
    ultimately show "?P s'" by auto
  qed
  assume "x = None"
  with attempts_last [OF assms] obtain s0 where "client_attempt out masterURL kube s0 = (m', Returned None)" by auto
  from client_attempt_ok [OF this] show "\<exists>h client. mc_client m' = Some client
     \<and> NewClient (out_Library out h) (out_Getenv out) masterURL kube = Inr client
     \<and> mc_log m' = h @ [ServerVersion] \<and> out_ServerVersion out (mc_log m')" .
qed

lemma retried_client:
  assumes "documented_retry (out_Retry out)"
    and "make_client out masterURL kube m = Some (m', r)"
  shows "\<exists>tries rest. mc_log m' = mc_log m @ tries @ rest \<and> set tries \<subseteq> {BuildClients masterURL kube, ServerVersion}
     \<and> set rest \<subseteq> {Setenv ''KUBECONFIG'' kube}
     \<and> (\<forall>c. r = Inr c \<longrightarrow> rest = [Setenv ''KUBECONFIG'' kube]
          \<and> (\<exists>h client. c = Some client \<and> NewClient (out_Library out h) (out_Getenv out) masterURL kube = Inr client
               \<and> out_ServerVersion out (mc_log m @ tries)))"
proof -
  from assms(2) obtain m1 err where run: "retry_outside out (client_attempt out masterURL kube) (30 * seconds) m = Some (m1, err)"
    by (auto simp: make_client_def and_next_Some wrap_step_def)
  from Retry_attempts [OF assms(1) run] obtain x where x: "err = map_option UnableExecute x"
    and tried: "attempts (with_recover (client_attempt out masterURL kube)) m m1 x" by blast
  from client_attempts(1) [OF tried] obtain tries where
    tries: "mc_log m1 = mc_log m @ tries" "set tries \<subseteq> {BuildClients masterURL kube, ServerVersion}" by blast
  show ?thesis
  proof (cases x)
    case (Some e)
    with assms(2) run x have "m' = m1" "\<exists>e. r = Inl e" by (auto simp: make_client_def and_next_Some wrap_step_def)
    with tries show ?thesis by (intro exI [of _ tries] exI [of _ "[]"]) auto
  next
    case None
    with assms(2) run x have m': "m' = m1\<lparr>mc_log := mc_log m1 @ [Setenv ''KUBECONFIG'' kube]\<rparr>"
      "\<forall>c. r = Inr c \<longrightarrow> c = mc_client m1" by (auto simp: make_client_def and_next_Some wrap_step_def act_def Let_def split: if_splits)
    from client_attempts(2) [OF tried None] obtain h client where "mc_client m1 = Some client"
      "NewClient (out_Library out h) (out_Getenv out) masterURL kube = Inr client" "out_ServerVersion out (mc_log m1)" by blast
    with tries m' show ?thesis by (intro exI [of _ tries] exI [of _ "[Setenv ''KUBECONFIG'' kube]"]) auto
  qed
qed

lemma waitClusterReady_log:
  assumes "documented_retry (out_Retry out)" "waitClusterReady out m = Some (m', r)"
  shows "\<exists>n. mc_log m' = mc_log m @ replicate (Suc n) ServerGroupsAndResources"
    "r = Inr () \<Longrightarrow> out_ServerGroups out (mc_log m')"
  using retried_request [OF assms(1) assms(2) [unfolded waitClusterReady_def] attempts_one(4,8), where good = "out_ServerGroups out"]
    attempts_ready(4) by blast+

lemma client_then_ready:
  assumes retry: "documented_retry (out_Retry out)"
    and run: "and_next (make_client out masterURL kube) (\<lambda>client. and_next (waitClusterReady out)
      (\<lambda>_ m. Some (m, Inr \<lparr>cl_workingDir = dir, cl_Client = client, cl_Name = name\<rparr>))) m = Some (m', r)"
  shows "\<exists>tries rest waits. mc_log m' = mc_log m @ tries @ rest @ waits \<and> set tries \<subseteq> {BuildClients masterURL kube, ServerVersion}
     \<and> set rest \<subseteq> {Setenv ''KUBECONFIG'' kube} \<and> set waits \<subseteq> {ServerGroupsAndResources}
     \<and> (\<forall>k. r = Inr k \<longrightarrow> rest = [Setenv ''KUBECONFIG'' kube] \<and> cl_Name k = name \<and> cl_workingDir k = dir
          \<and> (\<exists>h client. cl_Client k = Some client \<and> NewClient (out_Library out h) (out_Getenv out) masterURL kube = Inr client)
          \<and> out_ServerVersion out (mc_log m @ tries) \<and> out_ServerGroups out (mc_log m'))"
proof -
  from run consider (give_up) e where "make_client out masterURL kube m = Some (m', Inl e)" "r = Inl e"
    | (made) m5 c where "make_client out masterURL kube m = Some (m5, Inr c)" "and_next (waitClusterReady out)
        (\<lambda>_ m. Some (m, Inr \<lparr>cl_workingDir = dir, cl_Client = c, cl_Name = name\<rparr>)) m5 = Some (m', r)"
    unfolding and_next_Some [of "make_client out masterURL kube"] by blast
  then show ?thesis
  proof cases
    case give_up
    from retried_client [OF retry give_up(1)] obtain tries rest where "mc_log m' = mc_log m @ tries @ rest @ []"
      "set tries \<subseteq> {BuildClients masterURL kube, ServerVersion}" "set rest \<subseteq> {Setenv ''KUBECONFIG'' kube}"
      by auto
    then show ?thesis using give_up(2) by (intro exI [of _ tries] exI [of _ rest] exI [of _ "[]"]) simp
  next
    case made
    from retried_client [OF retry made(1)] obtain tries where tries: "mc_log m5 = mc_log m @ tries @ [Setenv ''KUBECONFIG'' kube]"
      "set tries \<subseteq> {BuildClients masterURL kube, ServerVersion}"
      "\<exists>h client. c = Some client \<and> NewClient (out_Library out h) (out_Getenv out) masterURL kube = Inr client"
      "out_ServerVersion out (mc_log m @ tries)" by auto
    from made(2) obtain x where wait: "waitClusterReady out m5 = Some (m', x)"
      and r: "r = map_sum id (\<lambda>_. \<lparr>cl_workingDir = dir, cl_Client = c, cl_Name = name\<rparr>) x"
      by (auto simp: and_next_Some)
    from waitClusterReady_log(1) [OF retry wait] obtain n where
      "mc_log m' = mc_log m5 @ replicate (Suc n) ServerGroupsAndResources" by blast
    moreover have "cl_Name k = name \<and> cl_workingDir k = dir \<and> cl_Client k = c \<and> out_ServerGroups out (mc_log m')" if "r = Inr k" for k
      using that r waitClusterReady_log(2) [OF retry wait] by (cases x) auto
    ultimately show ?thesis using tries
      by (intro exI [of _ tries] exI [of _ "[Setenv ''KUBECONFIG'' kube]"] exI [of _ "replicate (Suc n) ServerGroupsAndResources"]) auto
  qed
qed

text \<open>The programs that are run between pulling and making the client.\<close>

lemma and_next_assoc: "and_next (and_next f g) h m = and_next f (\<lambda>x. and_next (g x) h) m"
  by (simp add: and_next_def split: option.split sum.split)

lemma run_next:
  assumes "and_next (run_program out program args failure) g m = Some (m', r)"
  obtains (failed) e where "m' = m\<lparr>mc_log := mc_log m @ [Exec program args]\<rparr>" "r = Inl e"
  | (ran) answer where "out_Exec out (mc_log m @ [Exec program args]) = (True, answer)"
      "g answer (m\<lparr>mc_log := mc_log m @ [Exec program args]\<rparr>) = Some (m', r)"
  using assms by (auto simp: and_next_Some run_program_Some split: prod.splits if_splits)

text \<open>Everything that starting a cluster does, whether it succeeds or not: a prefix of the fixed commands, then attempts to make
  a client, the setting of the environment and waiting.\<close>

lemma NewCluster_log:
  assumes retry: "documented_retry (out_Retry out)" and run: "NewCluster out masterURL name opts m = Some (m', r)"
  defines "fixed \<equiv> start_commands name (fold (\<lambda>opt. opt) opts default_options)"
  obtains (early) acts err where "mc_log m' = mc_log m @ acts" "prefix acts fixed" "r = Inl err"
  | (late) kube tries rest waits where "kube = TrimSuffix (snd (out_Exec out (mc_log m @ fixed))) [CHR 10]"
      "mc_log m' = mc_log m @ fixed @ tries @ rest @ waits" "set tries \<subseteq> {BuildClients masterURL kube, ServerVersion}"
      "set rest \<subseteq> {Setenv ''KUBECONFIG'' kube}" "set waits \<subseteq> {ServerGroupsAndResources}"
      "\<And>c. r = Inr c \<Longrightarrow> rest = [Setenv ''KUBECONFIG'' kube] \<and> cl_Name c = name \<and> out_Getwd out = Some (cl_workingDir c)
         \<and> (\<exists>h client. cl_Client c = Some client \<and> NewClient (out_Library out h) (out_Getenv out) masterURL kube = Inr client)
         \<and> out_ServerVersion out (mc_log m @ fixed @ tries) \<and> out_ServerGroups out (mc_log m')"
proof -
  let ?opts = "fold (\<lambda>opt. opt) opts default_options"
  let ?pulls = "pulls (op_Images ?opts)" and ?create = "Exec ''k3d'' (create_args name (op_Cmd ?opts))"
  let ?import = "Exec ''k3d'' (import_args name (op_Images ?opts))" and ?kubecfg = "Exec ''k3d'' [''kubeconfig'', ''write'', name]"
  have fixed: "fixed = ?pulls @ [?create, ?import, ?kubecfg]" by (simp add: fixed_def start_commands_def import_args_eq)
  show thesis
  proof (cases "out_Getwd out")
    case None
    with run have "mc_log m' = mc_log m @ []" "\<exists>err. r = Inl err" by (auto simp: NewCluster_def Let_def and_next_Some)
    then show thesis using early [of "[]"] by auto
  next
    case (Some dir)
    from run Some consider (pull) e where "pullDockerImages out (op_Images ?opts) m = Some (m', Inl e)" "r = Inl e"
      | (on) m1 where "pullDockerImages out (op_Images ?opts) m = Some (m1, Inr ())"
          "and_next (createCluster out name (op_Cmd ?opts)) (\<lambda>_.
             and_next (importDockerImages out name (op_Images ?opts)) (\<lambda>_.
             and_next (createK8sClient out name masterURL) (\<lambda>client.
             and_next (waitClusterReady out) (\<lambda>_ m.
               Some (m, Inr \<lparr>cl_workingDir = dir, cl_Client = client, cl_Name = name\<rparr>))))) m1 = Some (m', r)"
      by (auto simp: NewCluster_def Let_def and_next_Some)
    then show thesis
    proof cases
      case pull
      with pullDockerImages_log [OF pull(1)] show thesis using early fixed by fastforce
    next
      case on
      from pullDockerImages_log [OF on(1)] have m1: "mc_log m1 = mc_log m @ ?pulls" by auto
      let ?m2 = "m1\<lparr>mc_log := mc_log m1 @ [?create]\<rparr>" and ?m3 = "m1\<lparr>mc_log := mc_log m1 @ [?create, ?import]\<rparr>"
        and ?m4 = "m1\<lparr>mc_log := mc_log m1 @ [?create, ?import, ?kubecfg]\<rparr>"
      have early: thesis if "mc_log m' = mc_log m @ ?pulls @ acts" "prefix acts [?create, ?import, ?kubecfg]" "r = Inl e" for acts e
        using early [of "?pulls @ acts" e] that fixed by simp
      from on(2) [unfolded createCluster_def] show thesis
      proof (cases rule: run_next)
        case (failed e)
        then show thesis using early [of "[?create]"] m1 by simp
      next
        case (ran output1)
        from ran(2) [unfolded importDockerImages_def] show thesis
        proof (cases rule: run_next)
          case (failed e)
          then show thesis using early [of "[?create, ?import]"] m1 by simp
        next
          case (ran output2)
          then have client: "and_next (createK8sClient out name masterURL) (\<lambda>client. and_next (waitClusterReady out)
              (\<lambda>_ m. Some (m, Inr \<lparr>cl_workingDir = dir, cl_Client = client, cl_Name = name\<rparr>))) ?m3 = Some (m', r)" by simp
          from client [unfolded createK8sClient_def Let_def and_next_assoc] show thesis
          proof (cases rule: run_next)
            case (failed e)
            then show thesis using early [of "[?create, ?import, ?kubecfg]"] m1 by simp
          next
            case (ran answer3)
            let ?kube = "TrimSuffix answer3 [CHR 10]"
            have m4: "mc_log ?m4 = mc_log m @ fixed" using m1 fixed by simp
            have kube: "?kube = TrimSuffix (snd (out_Exec out (mc_log m @ fixed))) [CHR 10]" using ran(1) m1 fixed by simp
            from ran(2) have "and_next (make_client out masterURL ?kube) (\<lambda>client. and_next (waitClusterReady out)
              (\<lambda>_ m. Some (m, Inr \<lparr>cl_workingDir = dir, cl_Client = client, cl_Name = name\<rparr>))) ?m4 = Some (m', r)"
              by (simp add: and_next_assoc)
            from client_then_ready [OF retry this, unfolded m4 append_assoc] obtain tries rest waits where
              log: "mc_log m' = mc_log m @ fixed @ tries @ rest @ waits" "set tries \<subseteq> {BuildClients masterURL ?kube, ServerVersion}"
                "set rest \<subseteq> {Setenv ''KUBECONFIG'' ?kube}" "set waits \<subseteq> {ServerGroupsAndResources}"
              and ok: "\<forall>k. r = Inr k \<longrightarrow> rest = [Setenv ''KUBECONFIG'' ?kube] \<and> cl_Name k = name \<and> cl_workingDir k = dir
                \<and> (\<exists>h client. cl_Client k = Some client \<and> NewClient (out_Library out h) (out_Getenv out) masterURL ?kube = Inr client)
                \<and> out_ServerVersion out (mc_log m @ fixed @ tries) \<and> out_ServerGroups out (mc_log m')"
              by (elim exE conjE) (rule that; assumption)
            show thesis by (rule late [OF kube log]) (use ok Some in auto)
          qed
        qed
      qed
    qed
  qed
qed

text \<open>C39: When \<open>NewCluster\<close> succeeds, it has pulled exactly the images that are not local, created the cluster with the options
  asked for, imported all images, and written the kubeconfig; the client that it returns was built from that kubeconfig, whose path
  \<open>KUBECONFIG\<close> holds from then on, and the API server of the cluster has answered.\<close>

theorem NewCluster_succeeds:
  assumes "documented_retry (out_Retry out)" "NewCluster out masterURL name opts m = Some (m', Inr c)"
  defines "fixed \<equiv> start_commands name (fold (\<lambda>opt. opt) opts default_options)"
  shows "\<exists>kube tries waits h client. mc_log m' = mc_log m @ fixed @ tries @ [Setenv ''KUBECONFIG'' kube] @ waits
     \<and> set tries \<subseteq> {BuildClients masterURL kube, ServerVersion} \<and> set waits \<subseteq> {ServerGroupsAndResources}
     \<and> kube = TrimSuffix (snd (out_Exec out (mc_log m @ fixed))) [CHR 10]
     \<and> cl_Name c = name \<and> cl_Client c = Some client \<and> out_Getwd out = Some (cl_workingDir c)
     \<and> NewClient (out_Library out h) (out_Getenv out) masterURL kube = Inr client
     \<and> out_ServerVersion out (mc_log m @ fixed @ tries) \<and> out_ServerGroups out (mc_log m')"
  using assms(1,2)
proof (cases rule: NewCluster_log [consumes 2])
  case (late kube tries rest waits)
  from late(6) [OF refl] obtain h client where "rest = [Setenv ''KUBECONFIG'' kube]" "cl_Name c = name" "cl_Client c = Some client"
    "out_Getwd out = Some (cl_workingDir c)" "NewClient (out_Library out h) (out_Getenv out) masterURL kube = Inr client"
    "out_ServerVersion out (mc_log m @ fixed @ tries)" "out_ServerGroups out (mc_log m')" unfolding fixed_def by blast
  with late(1-5) show ?thesis unfolding fixed_def by blast
qed simp

text \<open>It never deletes a cluster: when a step after the creation fails, the cluster that was created is left behind, and it is not
  returned.\<close>

theorem NewCluster_never_deletes:
  assumes "documented_retry (out_Retry out)" "NewCluster out masterURL name opts m = Some (m', r)"
  shows "\<exists>acts. mc_log m' = mc_log m @ acts \<and> (\<forall>args. Exec ''k3d'' ([''cluster'', ''delete''] @ args) \<notin> set acts)"
  using assms
proof (cases rule: NewCluster_log [consumes 2])
  case (early acts err)
  let ?fixed = "start_commands name (fold (\<lambda>opt. opt) opts default_options)"
  have "Exec ''k3d'' ([''cluster'', ''delete''] @ args) \<notin> set ?fixed" for args
    by (auto simp: start_commands_def pulls_def create_args_def)
  with early(1,2) set_mono_prefix [OF early(2)] show ?thesis by blast
next
  case (late kube tries rest waits)
  let ?fixed = "start_commands name (fold (\<lambda>opt. opt) opts default_options)"
  have "Exec ''k3d'' ([''cluster'', ''delete''] @ args) \<notin> set ?fixed" for args
    by (auto simp: start_commands_def pulls_def create_args_def)
  with late(2-5) show ?thesis by (intro exI [of _ "?fixed @ tries @ rest @ waits"]) auto
qed

lemma pullDockerImages_returns: "\<exists>m' r. pullDockerImages out images m = Some (m', r)"
  by (induction images arbitrary: m) (auto intro!: and_next_returns run_program_returns)

text \<open>It returns whenever the time limits in force are not zero, as they are outside CI.\<close>

lemma NewCluster_returns:
  assumes "documented_retry (out_Retry out)" "applyCIMultiplier (out_Getenv out) (out_ParseFloat out) (30 * seconds) \<noteq> 0"
    and "applyCIMultiplier (out_Getenv out) (out_ParseFloat out) (60 * seconds) \<noteq> 0"
  shows "\<exists>m' r. NewCluster out masterURL name opts m = Some (m', r)"
proof -
  have retried: "\<exists>m' r. wrap_step w (retry_outside out f t) m = Some (m', r)"
    if "applyCIMultiplier (out_Getenv out) (out_ParseFloat out) t \<noteq> 0"
    for w :: "k3d_error retry_error \<Rightarrow> k3d_error" and f t m
    using Retry_returns [OF assms(1) that, of f m] by (auto simp: wrap_step_def)
  show ?thesis
    unfolding NewCluster_def createCluster_def importDockerImages_def createK8sClient_def make_client_def waitClusterReady_def Let_def
    by (intro and_next_returns pullDockerImages_returns run_program_returns retried assms(2,3)) (simp_all split: prod.split)
qed

section \<open>Examples\<close>

text \<open>A back-off that allows three more attempts.\<close>

fun try_times :: "nat \<Rightarrow> ('s \<Rightarrow> 's \<times> 'e option) \<Rightarrow> 's \<Rightarrow> 's \<times> 'e option" where
  "try_times 0 f s = f s"
| "try_times (Suc n) f s = (case f s of (s', None) \<Rightarrow> (s', None) | (s', Some e) \<Rightarrow> try_times n f s')"

lemma try_times_attempts: "try_times n f s = (s', r) \<Longrightarrow> attempts f s s' r"
proof (induction n arbitrary: s)
  case 0
  then show ?case by (simp add: attempts.last)
next
  case (Suc n)
  obtain s1 x where one: "f s = (s1, x)" by fastforce
  with Suc show ?case by (cases x) (auto intro: attempts.intros)
qed

lemma documented_try_times: "documented_retry (\<lambda>d f s. Some (try_times 3 f s))"
  by (simp add: documented_retry_def try_times_attempts)

definition ex_outside :: "(string, unit, unit, unit, unit) outside" where
  "ex_outside = \<lparr>out_Exec = (\<lambda>h. (True, case last h of
       Exec program args \<Rightarrow> if args = [''kubeconfig'', ''write'', ''mesh''] then ''/tmp/kubeconfig'' @ [CHR 10] else [] | _ \<Rightarrow> [])),
     out_Getwd = Some ''/work'', out_Getenv = ex_getenv, out_ParseFloat = (\<lambda>s. None), out_Library = (\<lambda>h. ex_library),
     out_ServerVersion = (\<lambda>h. 6 < length h), out_ServerGroups = (\<lambda>h. True), out_Setenv = (\<lambda>h. True), out_CreateNamespace = (\<lambda>h. True),
     out_Deployment = (\<lambda>h. if length h < 2 then Inl NotFound else Inr \<lparr>ds_UpdatedReplicas = 1, ds_Replicas = 1, ds_AvailableReplicas = 1,
       ds_ObservedGeneration = 1, ds_Generation = 1, ds_SpecReplicas = Some 1\<rparr>),
     out_DaemonSet = (\<lambda>h. Inl NotFound), out_Pod = (\<lambda>h. Inl NotFound), out_Retry = (\<lambda>d f s. Some (try_times 3 f s))\<rparr>"

lemma ex_outside_retry: "documented_retry (out_Retry ex_outside)"
  using documented_try_times by (simp add: ex_outside_def)

text \<open>A run in which the API server of the cluster answers at the second attempt only.\<close>

definition ex_options :: "(ClusterOptions \<Rightarrow> ClusterOptions) list" where
  "ex_options = [WithoutTraefik, WithImages [\<lparr>im_Name = ''traefik/mesh:latest'', im_Local = True\<rparr>]]"

definition ex_start :: "(unit, unit, unit, unit) run_state" where "ex_start = \<lparr>mc_log = [], mc_client = None\<rparr>"

lemma ex_cluster_starts:
  "case NewCluster ex_outside ''https://127.0.0.1:8443'' ''mesh'' ex_options ex_start of
     Some (m', Inr c) \<Rightarrow> mc_log m' =
         [Exec ''docker'' [''pull'', ''rancher/coredns-coredns:1.6.3''],
          Exec ''k3d'' (create_args ''mesh'' [''--k3s-server-arg'', ''--no-deploy=traefik'']),
          Exec ''k3d'' [''image'', ''import'', ''--cluster'', ''mesh'', ''rancher/coredns-coredns:1.6.3'', ''traefik/mesh:latest''],
          Exec ''k3d'' [''kubeconfig'', ''write'', ''mesh''],
          BuildClients ''https://127.0.0.1:8443'' ''/tmp/kubeconfig'', ServerVersion,
          BuildClients ''https://127.0.0.1:8443'' ''/tmp/kubeconfig'', ServerVersion,
          Setenv ''KUBECONFIG'' ''/tmp/kubeconfig'', ServerGroupsAndResources]
     | _ \<Rightarrow> False"
  by code_simp

lemma result_cases:
  assumes "case x of Some (m, Inr c) \<Rightarrow> P m c | _ \<Rightarrow> False"
  obtains m c where "x = Some (m, Inr c)" "P m c"
proof (cases x)
  case (Some y)
  with assms that show thesis by (cases y; cases "snd y") auto
qed (use assms in simp)

lemma result_error:
  assumes "case x of None \<Rightarrow> False | Some (m, r) \<Rightarrow> is_err r \<and> P m"
  obtains m e where "x = Some (m, Inl e)" "P m"
proof (cases x)
  case (Some y)
  with assms that show thesis by (cases y; cases "snd y") auto
qed (use assms in simp)

lemma NewCluster_succeeds_witness:
  "\<exists>m' c tries waits client. NewCluster ex_outside ''https://127.0.0.1:8443'' ''mesh'' ex_options ex_start = Some (m', Inr c)
     \<and> mc_log m' = start_commands ''mesh'' (fold (\<lambda>opt. opt) ex_options default_options)
         @ tries @ [Setenv ''KUBECONFIG'' ''/tmp/kubeconfig''] @ waits
     \<and> set tries \<subseteq> {BuildClients ''https://127.0.0.1:8443'' ''/tmp/kubeconfig'', ServerVersion} \<and> cl_Client c = Some client"
proof -
  obtain m' c where run: "NewCluster ex_outside ''https://127.0.0.1:8443'' ''mesh'' ex_options ex_start = Some (m', Inr c)"
    by (rule result_cases [OF ex_cluster_starts])
  have "TrimSuffix (snd (out_Exec ex_outside (mc_log ex_start @ start_commands ''mesh'' (fold (\<lambda>opt. opt) ex_options default_options)))) [CHR 10]
      = ''/tmp/kubeconfig''" by code_simp
  with NewCluster_succeeds [OF ex_outside_retry run] run show ?thesis by (auto simp: ex_start_def)
qed

text \<open>A run in which the images cannot be imported.\<close>

definition ex_refusing :: "(string, unit, unit, unit, unit) outside" where
  "ex_refusing = ex_outside\<lparr>out_Exec := (\<lambda>h. (case last h of Exec program args \<Rightarrow> take 1 args \<noteq> [''image''] | _ \<Rightarrow> True, []))\<rparr>"

lemma ex_refused:
  "case NewCluster ex_refusing ''https://127.0.0.1:8443'' ''mesh'' ex_options ex_start of
     None \<Rightarrow> False
   | Some (m', r) \<Rightarrow> is_err r \<and> Exec ''k3d'' (create_args ''mesh'' [''--k3s-server-arg'', ''--no-deploy=traefik'']) \<in> set (mc_log m')"
  by code_simp

lemma NewCluster_never_deletes_witness:
  "\<exists>m' err. NewCluster ex_refusing ''https://127.0.0.1:8443'' ''mesh'' ex_options ex_start = Some (m', Inl err)
     \<and> Exec ''k3d'' (create_args ''mesh'' [''--k3s-server-arg'', ''--no-deploy=traefik'']) \<in> set (mc_log m')
     \<and> Exec ''k3d'' [''cluster'', ''delete'', ''mesh''] \<notin> set (mc_log m')"
proof -
  obtain m' err where run: "NewCluster ex_refusing ''https://127.0.0.1:8443'' ''mesh'' ex_options ex_start = Some (m', Inl err)"
    and created: "Exec ''k3d'' (create_args ''mesh'' [''--k3s-server-arg'', ''--no-deploy=traefik'']) \<in> set (mc_log m')"
    by (rule result_error [OF ex_refused])
  have "documented_retry (out_Retry ex_refusing)" using ex_outside_retry by (simp add: ex_refusing_def)
  from NewCluster_never_deletes [OF this run] obtain acts where
    acts: "mc_log m' = mc_log ex_start @ acts" "\<forall>args. Exec ''k3d'' ([''cluster'', ''delete''] @ args) \<notin> set acts" by blast
  from acts(2) [THEN spec, of "[''mesh'']"] have "Exec ''k3d'' [''cluster'', ''delete'', ''mesh''] \<notin> set acts" by simp
  with acts(1) run created show ?thesis by (auto simp: ex_start_def)
qed

lemma ex_deployment:
  "case WaitReadyDeployment ex_outside ''whoami'' ''test'' (30 * seconds) ex_start of Some (m', Inr x) \<Rightarrow> length (mc_log m') = 2 | _ \<Rightarrow> False"
  by (simp add: WaitReadyDeployment_def wrap_step_def Retry_op_def ex_outside_def ex_getenv_def ex_start_def with_recover_def
      OperationWithRecover_def deployment_attempt_def act_def numeral_3_eq_3 get_failed_def)

lemma WaitReadyDeployment_ready_witness:
  "\<exists>m' d. WaitReadyDeployment ex_outside ''whoami'' ''test'' (30 * seconds) ex_start = Some (m', Inr ())
     \<and> mc_log m' = [GetDeployment ''test'' ''whoami'', GetDeployment ''test'' ''whoami'']
     \<and> out_Deployment ex_outside (mc_log m') = Inr d \<and> deployment_ready d"
proof -
  obtain m' where run: "WaitReadyDeployment ex_outside ''whoami'' ''test'' (30 * seconds) ex_start = Some (m', Inr ())" "length (mc_log m') = 2"
    by (rule result_cases [OF ex_deployment]) auto
  from WaitReadyDeployment_ready [OF ex_outside_retry run(1)] obtain n d where
    "mc_log m' = mc_log ex_start @ replicate (Suc n) (GetDeployment ''test'' ''whoami'')"
    "out_Deployment ex_outside (mc_log m') = Inr d" "deployment_ready d" by blast
  moreover from this(1) run(2) have "Suc n = 2" by (simp add: ex_start_def)
  ultimately show ?thesis using run(1) by (auto simp: ex_start_def numeral_2_eq_2)
qed

end
