(* ===== verification/ClientMock.thy ===== *)
theory ClientMock
  imports GoStrings ResourceFilter
begin

text \<open>
  The client of the tests (\<open>pkg/k8s/client_mock.go\<close>) with the kinds of objects it knows (\<open>pkg/k8s/constants.go\<close>): a file
  of YAML documents is split and decoded, and each fake client set gets the objects of its kinds. The decoder is an argument,
  as is the file system; a fake client set is represented by the objects it is made of, and \<open>None\<close> is a panic.
\<close>

section \<open>Kinds\<close>

definition TrafficSplitObjectKind :: string where "TrafficSplitObjectKind = ''TrafficSplit''"
definition TrafficTargetObjectKind :: string where "TrafficTargetObjectKind = ''TrafficTarget''"
definition HTTPRouteGroupObjectKind :: string where "HTTPRouteGroupObjectKind = ''HTTPRouteGroup''"
definition TCPRouteObjectKind :: string where "TCPRouteObjectKind = ''TCPRoute''"

definition CoreObjectKinds :: string where
  "CoreObjectKinds = ''Deployment|Endpoints|Service|Ingress|Secret|Namespace|Pod|ConfigMap''"
definition AccessObjectKinds :: string where "AccessObjectKinds = TrafficTargetObjectKind"
definition SpecsObjectKinds :: string where "SpecsObjectKinds = HTTPRouteGroupObjectKind @ ''|'' @ TCPRouteObjectKind"
definition SplitObjectKinds :: string where "SplitObjectKinds = TrafficSplitObjectKind"

section \<open>Parsing\<close>

text \<open>\<open>strings.Split\<close> for a separator that is not empty.\<close>

function Split :: "string \<Rightarrow> string \<Rightarrow> string list" where
  "Split s sep = (case Index s sep of
     None \<Rightarrow> [s]
   | Some i \<Rightarrow> if sep = [] then [s] else take i s # Split (drop (i + length sep) s) sep)"
  by pat_completeness auto
termination
proof (relation "measure (length \<circ> fst)")
  fix s sep :: string and i
  assume "Index s sep = Some i" "sep \<noteq> []"
  then have "drop i s \<noteq> []" using Index_SomeD [of s sep i] by (auto simp: HasPrefix_iff)
  then have "i < length s" "0 < length sep" using \<open>sep \<noteq> []\<close> by simp_all
  then have "length s - (i + length sep) < length s" by linarith
  then show "((drop (i + length sep) s, sep), s, sep) \<in> measure (length \<circ> fst)" by simp
qed simp

declare Split.simps [simp del]

text \<open>A regular expression that is an alternative of plain words, not anchored, matches what contains one of them.\<close>

definition acceptedK8sTypes :: "string \<Rightarrow> bool" where
  "acceptedK8sTypes kind \<longleftrightarrow>
     (\<exists>word\<in>set (SplitChar (CHR ''|'') (Join [CoreObjectKinds, AccessObjectKinds, SpecsObjectKinds, SplitObjectKinds] ''|'')). Contains kind word)"

fun parse_files :: "(string \<Rightarrow> ('o \<times> string) option) \<Rightarrow> string list \<Rightarrow> 'o list option" where
  "parse_files decode [] = Some []"
| "parse_files decode (file # files) =
     (if file = [CHR 10] \<or> file = [] then parse_files decode files
      else case decode file of
        None \<Rightarrow> None
      | Some (obj, kind) \<Rightarrow>
          if \<not> acceptedK8sTypes kind then None
          else map_option (\<lambda>objs. obj # objs) (parse_files decode files))"

definition MustParseYaml :: "(string \<Rightarrow> ('o \<times> string) option) \<Rightarrow> string \<Rightarrow> 'o list option" where
  "MustParseYaml decode content = parse_files decode (Split content ''---'')"

definition filterObjectsByKind :: "('o \<Rightarrow> string) \<Rightarrow> 'o list \<Rightarrow> string \<Rightarrow> 'o list" where
  "filterObjectsByKind kind objects filter_kinds =
     filter (\<lambda>item. contains (SplitChar (CHR ''|'') filter_kinds) (kind item)) objects"

record 'o ClientMock =
  mock_kubeClient :: "'o list option"
  mock_accessClient :: "'o list option"
  mock_specsClient :: "'o list option"
  mock_splitClient :: "'o list option"

definition NewClientMock ::
  "(string \<Rightarrow> string option) \<Rightarrow> (string \<Rightarrow> ('o \<times> string) option) \<Rightarrow> ('o \<Rightarrow> string) \<Rightarrow> string \<Rightarrow> 'o ClientMock option" where
  "NewClientMock readFile decode kind path =
     (case readFile (''./testdata/'' @ path) of
        None \<Rightarrow> None
      | Some yamlContent \<Rightarrow> map_option (\<lambda>k8sObjects.
          \<lparr>mock_kubeClient = Some (filterObjectsByKind kind k8sObjects CoreObjectKinds), mock_accessClient = None,
           mock_specsClient = Some (filterObjectsByKind kind k8sObjects SpecsObjectKinds),
           mock_splitClient = Some (filterObjectsByKind kind k8sObjects SplitObjectKinds)\<rparr>) (MustParseYaml decode yamlContent))"

section \<open>What reaches the clients\<close>

lemma Split_Join: "sep \<noteq> [] \<Longrightarrow> Join (Split s sep) sep = s"
proof (induction s sep rule: Split.induct)
  case (1 s sep)
  show ?case
  proof (cases "Index s sep")
    case None
    then show ?thesis by (simp add: Split.simps)
  next
    case (Some i)
    from Index_SomeD [OF this] obtain rest where rest: "drop i s = sep @ rest" by (auto simp: HasPrefix_iff)
    then have "drop (i + length sep) s = rest" by (metis add.commute append_eq_conv_conj drop_drop)
    with Some 1 have "Join (Split rest sep) sep = rest" by simp
    moreover have "Split rest sep \<noteq> []" by (simp add: Split.simps split: option.split)
    moreover have "Split s sep = take i s # Split rest sep"
      using Some \<open>drop (i + length sep) s = rest\<close> "1.prems" by (subst Split.simps) simp
    ultimately have "Join (Split s sep) sep = take i s @ sep @ rest" by (cases "Split rest sep") auto
    with rest show ?thesis by (metis append_take_drop_id)
  qed
qed

definition blank :: "string \<Rightarrow> bool" where "blank file \<longleftrightarrow> file = [CHR 10] \<or> file = []"

lemma parse_files_Some:
  "parse_files decode files = Some objs \<longleftrightarrow>
     list_all2 (\<lambda>file obj. \<exists>kind. decode file = Some (obj, kind) \<and> acceptedK8sTypes kind) (filter (\<lambda>file. \<not> blank file) files) objs"
proof (induction files arbitrary: objs)
  case Nil
  then show ?case by auto
next
  case (Cons f fs)
  show ?case
  proof (cases "blank f")
    case True
    with Cons show ?thesis by (auto simp: blank_def)
  next
    case False
    with Cons show ?thesis
      by (cases objs) (auto simp: blank_def list_all2_Cons1 split: option.splits)
  qed
qed

lemma kinds_split:
  "SplitChar (CHR ''|'') CoreObjectKinds =
     [''Deployment'', ''Endpoints'', ''Service'', ''Ingress'', ''Secret'', ''Namespace'', ''Pod'', ''ConfigMap'']"
  "SplitChar (CHR ''|'') SpecsObjectKinds = [''HTTPRouteGroup'', ''TCPRoute'']" "SplitChar (CHR ''|'') SplitObjectKinds = [''TrafficSplit'']"
  by code_simp+

lemma accepted_iff:
  "acceptedK8sTypes kind \<longleftrightarrow> (\<exists>word\<in>{''Deployment'', ''Endpoints'', ''Service'', ''Ingress'', ''Secret'', ''Namespace'', ''Pod'', ''ConfigMap'',
     ''TrafficTarget'', ''HTTPRouteGroup'', ''TCPRoute'', ''TrafficSplit''}. Contains kind word)"
proof -
  have "SplitChar (CHR ''|'') (Join [CoreObjectKinds, AccessObjectKinds, SpecsObjectKinds, SplitObjectKinds] ''|'')
    = [''Deployment'', ''Endpoints'', ''Service'', ''Ingress'', ''Secret'', ''Namespace'', ''Pod'', ''ConfigMap'',
       ''TrafficTarget'', ''HTTPRouteGroup'', ''TCPRoute'', ''TrafficSplit'']" by code_simp
  then show ?thesis unfolding acceptedK8sTypes_def by (simp only: list.set)
qed

text \<open>Parsing panics on a document that cannot be decoded or whose kind contains no accepted name. Otherwise every client gets the
  objects of exactly its kinds, in order. So an object whose kind only contains an accepted name reaches no client, and no
  traffic target does, since there is no client for them.\<close>

theorem NewClientMock_objects:
  assumes "NewClientMock readFile decode kind path = Some c"
  shows "\<exists>content objs. readFile (''./testdata/'' @ path) = Some content
     \<and> list_all2 (\<lambda>file obj. \<exists>k. decode file = Some (obj, k) \<and> acceptedK8sTypes k)
         (filter (\<lambda>file. \<not> blank file) (Split content ''---'')) objs
     \<and> mock_kubeClient c = Some (filter (\<lambda>obj. kind obj \<in> {''Deployment'', ''Endpoints'', ''Service'', ''Ingress'', ''Secret'', ''Namespace'',
         ''Pod'', ''ConfigMap''}) objs)
     \<and> mock_specsClient c = Some (filter (\<lambda>obj. kind obj \<in> {''HTTPRouteGroup'', ''TCPRoute''}) objs)
     \<and> mock_splitClient c = Some (filter (\<lambda>obj. kind obj = ''TrafficSplit'') objs)
     \<and> mock_accessClient c = None"
proof -
  from assms obtain content objs where parsed: "readFile (''./testdata/'' @ path) = Some content" "MustParseYaml decode content = Some objs"
    and c: "mock_kubeClient c = Some (filterObjectsByKind kind objs CoreObjectKinds)"
      "mock_specsClient c = Some (filterObjectsByKind kind objs SpecsObjectKinds)"
      "mock_splitClient c = Some (filterObjectsByKind kind objs SplitObjectKinds)" "mock_accessClient c = None"
    by (auto simp: NewClientMock_def split: option.splits)
  have "list_all2 (\<lambda>file obj. \<exists>k. decode file = Some (obj, k) \<and> acceptedK8sTypes k)
         (filter (\<lambda>file. \<not> blank file) (Split content ''---'')) objs"
    using parsed(2) by (simp add: MustParseYaml_def parse_files_Some)
  with parsed(1) c show ?thesis unfolding filterObjectsByKind_def contains_iff kinds_split by (intro exI conjI) (assumption | simp)+
qed

lemma accepted_and_dropped: "acceptedK8sTypes ''ServiceAccount''" "acceptedK8sTypes ''TrafficTarget''" "\<not> acceptedK8sTypes ''Job''"
  by code_simp+

end
