(* ===== verification/Wiring.thy ===== *)
theory Wiring
  imports Controller Clients Watching
begin

text \<open>
  How the parts are put together: the routes of the API server (\<open>pkg/api/api.go\<close>), the constructors of the provider, of the
  topology builder and of the DNS client, whether the cluster knows topology keys (\<open>pkg/controller/service.go\<close>), the context
  that follows the stop channel (\<open>cmd/context.go\<close>), and the version command (\<open>cmd/version\<close>, \<open>pkg/version\<close>).
  The router is an argument with its documented behaviour, matching and the cleaning of paths, as is the version
  library.
\<close>

section \<open>Routes\<close>

datatype handler = CurrentConfiguration | CurrentTopology | MeshNodes | MeshNodeConfiguration | Readiness

definition routes :: "(string \<times> handler) list" where
  "routes =
     [(''/api/configuration/current'', CurrentConfiguration),
      (''/api/topology/current'', CurrentTopology),
      (''/api/status/nodes'', MeshNodes),
      (''/api/status/node/{node}/configuration'', MeshNodeConfiguration),
      (''/api/status/readiness'', Readiness)]"

text \<open>A matcher takes a template and a path, and yields the variables of the template.\<close>

type_synonym matcher = "string \<Rightarrow> string \<Rightarrow> (string \<rightharpoonup> string) option"

text \<open>What the router documents: a template without variables matches itself only, a variable in braces
  matches a part of the path that is not empty and has no slash.\<close>

definition documented_matcher :: "matcher \<Rightarrow> bool" where
  "documented_matcher matches \<longleftrightarrow>
     (\<forall>template path. CHR ''{'' \<notin> set template \<longrightarrow> matches template path = (if path = template then Some Map.empty else None))
     \<and> (\<forall>pre var post path vars. CHR ''{'' \<notin> set pre \<union> set var \<union> set post \<longrightarrow> CHR ''}'' \<notin> set pre \<union> set var \<union> set post \<longrightarrow>
          (matches (pre @ ''{'' @ var @ ''}'' @ post) path = Some vars \<longleftrightarrow>
             (\<exists>part. path = pre @ part @ post \<and> part \<noteq> [] \<and> CHR ''/'' \<notin> set part \<and> vars = [var \<mapsto> part])))"

text \<open>What a request needs besides the store: whether bodies can be written, the pods, and the client that asks a node.\<close>

record request_env =
  rq_encodes :: "body \<Rightarrow> bool"
  rq_podList :: "MeshPod list option"
  rq_podGet :: "string \<Rightarrow> string \<Rightarrow> pod_lookup"
  rq_httpGet :: "string \<Rightarrow> string option"

definition call_handler :: "request_env \<Rightarrow> API \<Rightarrow> handler \<Rightarrow> (string \<rightharpoonup> string) \<Rightarrow> response" where
  "call_handler q a h vars =
     (case h of
        CurrentConfiguration \<Rightarrow> getCurrentConfiguration (rq_encodes q) a
      | CurrentTopology \<Rightarrow> getCurrentTopology (rq_encodes q) a
      | MeshNodes \<Rightarrow> getMeshNodes (rq_encodes q) (rq_podList q)
      | MeshNodeConfiguration \<Rightarrow> getMeshNodeConfiguration (rq_encodes q) (rq_podGet q) (rq_httpGet q) a (str_get vars ''node'')
      | Readiness \<Rightarrow> getReadiness (rq_encodes q) a)"

text \<open>The first route that matches is taken; no route is \<open>404\<close>.\<close>

fun dispatch :: "matcher \<Rightarrow> (string \<times> handler) list \<Rightarrow> string \<Rightarrow> (handler \<times> (string \<rightharpoonup> string)) option" where
  "dispatch matches [] path = None"
| "dispatch matches ((template, h) # rs) path =
     (case matches template path of Some vars \<Rightarrow> Some (h, vars) | None \<Rightarrow> dispatch matches rs path)"

text \<open>Before it looks at the routes the router cleans the path, and redirects to the clean one when that is another
  (\<open>301\<close>, with the path in the \<open>Location\<close> header). \<open>Inl\<close> is a redirection. What it documents of cleaning: a path
  is clean when it starts with a slash, and none of its parts between slashes is empty, a dot or two dots,
  but for the last one, which may be empty; cleaning yields a clean path, the same when it was clean before.\<close>

definition clean_path :: "string \<Rightarrow> bool" where
  "clean_path path = (case SplitChar (CHR ''/'') path of
     before # part # parts \<Rightarrow> before = [] \<and> list_all (\<lambda>p. p \<notin> {[], ''.'', ''..''}) (butlast (part # parts))
       \<and> last (part # parts) \<notin> {''.'', ''..''}
   | _ \<Rightarrow> False)"

definition documented_cleaning :: "(string \<Rightarrow> string) \<Rightarrow> bool" where
  "documented_cleaning clean \<longleftrightarrow> (\<forall>path. clean_path (clean path) \<and> (clean_path path \<longrightarrow> clean path = path))"

definition ServeHTTP :: "(string \<Rightarrow> string) \<Rightarrow> matcher \<Rightarrow> request_env \<Rightarrow> API \<Rightarrow> string \<Rightarrow> string + response" where
  "ServeHTTP clean matches q a path =
     (if clean path \<noteq> path then Inl (clean path)
      else case dispatch matches routes path of
        None \<Rightarrow> Inr (StatusNotFound, EmptyBody)
      | Some (h, vars) \<Rightarrow> Inr (call_handler q a h vars))"

lemma matched:
  assumes "documented_matcher matches"
  shows "matches ''/api/configuration/current'' path = (if path = ''/api/configuration/current'' then Some Map.empty else None)"
    "matches ''/api/topology/current'' path = (if path = ''/api/topology/current'' then Some Map.empty else None)"
    "matches ''/api/status/nodes'' path = (if path = ''/api/status/nodes'' then Some Map.empty else None)"
    "matches ''/api/status/readiness'' path = (if path = ''/api/status/readiness'' then Some Map.empty else None)"
    "matches ''/api/status/node/{node}/configuration'' path = Some vars \<longleftrightarrow>
       (\<exists>node. path = ''/api/status/node/'' @ node @ ''/configuration'' \<and> node \<noteq> [] \<and> CHR ''/'' \<notin> set node \<and> vars = [''node'' \<mapsto> node])"
proof -
  note laws = assms [unfolded documented_matcher_def, THEN conjunct1, rule_format] assms [unfolded documented_matcher_def, THEN conjunct2, rule_format]
  show "matches ''/api/configuration/current'' path = (if path = ''/api/configuration/current'' then Some Map.empty else None)"
    by (rule laws(1)) simp
  show "matches ''/api/topology/current'' path = (if path = ''/api/topology/current'' then Some Map.empty else None)"
    by (rule laws(1)) simp
  show "matches ''/api/status/nodes'' path = (if path = ''/api/status/nodes'' then Some Map.empty else None)"
    by (rule laws(1)) simp
  show "matches ''/api/status/readiness'' path = (if path = ''/api/status/readiness'' then Some Map.empty else None)"
    by (rule laws(1)) simp
  show "matches ''/api/status/node/{node}/configuration'' path = Some vars \<longleftrightarrow>
       (\<exists>node. path = ''/api/status/node/'' @ node @ ''/configuration'' \<and> node \<noteq> [] \<and> CHR ''/'' \<notin> set node \<and> vars = [''node'' \<mapsto> node])"
    using laws(2) [of "''/api/status/node/''" "''node''" "''/configuration''" path vars] by simp
qed

text \<open>The order of the routes does not matter, as no path is matched by two of them: a clean path is answered by
  the handler registered for it, the node's name being what stands between the two fixed parts, and every
  other path is redirected to a clean one or not found.\<close>

lemma ServeHTTP_routes:
  assumes "documented_matcher matches" "documented_cleaning clean" "clean_path path"
  shows "path = ''/api/configuration/current'' \<Longrightarrow> ServeHTTP clean matches q a path = Inr (getCurrentConfiguration (rq_encodes q) a)"
    "path = ''/api/topology/current'' \<Longrightarrow> ServeHTTP clean matches q a path = Inr (getCurrentTopology (rq_encodes q) a)"
    "path = ''/api/status/nodes'' \<Longrightarrow> ServeHTTP clean matches q a path = Inr (getMeshNodes (rq_encodes q) (rq_podList q))"
    "path = ''/api/status/readiness'' \<Longrightarrow> ServeHTTP clean matches q a path = Inr (getReadiness (rq_encodes q) a)"
    "path = ''/api/status/node/'' @ node @ ''/configuration'' \<Longrightarrow> node \<noteq> [] \<Longrightarrow> CHR ''/'' \<notin> set node \<Longrightarrow>
       ServeHTTP clean matches q a path = Inr (getMeshNodeConfiguration (rq_encodes q) (rq_podGet q) (rq_httpGet q) a node)"
proof -
  have clean: "clean path = path" using assms(2,3) by (simp add: documented_cleaning_def)
  have apart: "matches ''/api/status/node/{node}/configuration'' x = None"
    if "\<nexists>node. x = ''/api/status/node/'' @ node @ ''/configuration''" for x
    using that matched(5) [OF assms(1), of x] by (cases "matches ''/api/status/node/{node}/configuration'' x") auto
  note unf = ServeHTTP_def routes_def call_handler_def clean matched(1-4) [OF assms(1)]
  show "path = ''/api/configuration/current'' \<Longrightarrow> ServeHTTP clean matches q a path = Inr (getCurrentConfiguration (rq_encodes q) a)"
    "path = ''/api/topology/current'' \<Longrightarrow> ServeHTTP clean matches q a path = Inr (getCurrentTopology (rq_encodes q) a)"
    "path = ''/api/status/nodes'' \<Longrightarrow> ServeHTTP clean matches q a path = Inr (getMeshNodes (rq_encodes q) (rq_podList q))"
    using clean by (simp_all add: unf)
  show "path = ''/api/status/readiness'' \<Longrightarrow> ServeHTTP clean matches q a path = Inr (getReadiness (rq_encodes q) a)"
    using clean apart [of "''/api/status/readiness''"] by (simp add: unf)
  show "ServeHTTP clean matches q a path = Inr (getMeshNodeConfiguration (rq_encodes q) (rq_podGet q) (rq_httpGet q) a node)"
    if "path = ''/api/status/node/'' @ node @ ''/configuration''" "node \<noteq> []" "CHR ''/'' \<notin> set node"
    using that clean matched(5) [OF assms(1), of path "[''node'' \<mapsto> node]"] by (simp add: unf str_get_def)
qed

text \<open>A matcher that behaves so.\<close>

definition ex_matches :: matcher where
  "ex_matches template path =
     (if CHR ''{'' \<notin> set template then (if path = template then Some Map.empty else None)
      else
        let pre = takeWhile (\<lambda>c. c \<noteq> CHR ''{'') template;
            rest = drop (length pre + 1) template;
            var = takeWhile (\<lambda>c. c \<noteq> CHR ''}'') rest;
            post = drop (length var + 1) rest;
            part = take (length path - length post - length pre) (drop (length pre) path)
        in if path = pre @ part @ post \<and> part \<noteq> [] \<and> CHR ''/'' \<notin> set part then Some [var \<mapsto> part] else None)"

lemma ex_matches_variable:
  assumes "CHR ''{'' \<notin> set pre \<union> set var \<union> set post" "CHR ''}'' \<notin> set pre \<union> set var \<union> set post"
  shows "ex_matches (pre @ ''{'' @ var @ ''}'' @ post) path = Some vars \<longleftrightarrow>
    (\<exists>part. path = pre @ part @ post \<and> part \<noteq> [] \<and> CHR ''/'' \<notin> set part \<and> vars = [var \<mapsto> part])"
proof -
  have pre: "takeWhile (\<lambda>c. c \<noteq> CHR ''{'') (pre @ ''{'' @ var @ ''}'' @ post) = pre" using assms(1) by (subst takeWhile_append2) auto
  have var: "takeWhile (\<lambda>c. c \<noteq> CHR ''}'') (var @ ''}'' @ post) = var" using assms(2) by (subst takeWhile_append2) auto
  then have eq: "ex_matches (pre @ ''{'' @ var @ ''}'' @ post) path =
     (let part = take (length path - length post - length pre) (drop (length pre) path)
      in if path = pre @ part @ post \<and> part \<noteq> [] \<and> CHR ''/'' \<notin> set part then Some [var \<mapsto> part] else None)"
    using pre by (simp add: ex_matches_def Let_def)
  show ?thesis unfolding eq by (auto simp: Let_def)
qed

lemma ex_matches_documented: "documented_matcher ex_matches"
  unfolding documented_matcher_def
proof (intro conjI allI impI)
  fix template path :: string
  assume "CHR ''{'' \<notin> set template"
  then show "ex_matches template path = (if path = template then Some Map.empty else None)" by (simp add: ex_matches_def)
next
  fix pre var post path :: string and vars
  assume "CHR ''{'' \<notin> set pre \<union> set var \<union> set post" "CHR ''}'' \<notin> set pre \<union> set var \<union> set post"
  then show "ex_matches (pre @ ''{'' @ var @ ''}'' @ post) path = Some vars \<longleftrightarrow>
    (\<exists>part. path = pre @ part @ post \<and> part \<noteq> [] \<and> CHR ''/'' \<notin> set part \<and> vars = [var \<mapsto> part])"
    by (rule ex_matches_variable)
qed

definition ex_request :: request_env where
  "ex_request = \<lparr>rq_encodes = (\<lambda>b. True), rq_podList = Some [],
     rq_podGet = (\<lambda>ns n. if n = ''p'' then PodFound \<lparr>mp_Name = ''p'', mp_PodIP = ''10.0.0.1'', mp_ContainerReady = [True]\<rparr> else PodNotFound),
     rq_httpGet = (\<lambda>url. if url = ''http://10.0.0.1:8080/api/rawdata'' then Some ''{}'' else None)\<rparr>"

text \<open>Sending everything that is not clean to the root is one way to clean.\<close>

definition ex_clean :: "string \<Rightarrow> string" where
  "ex_clean path = (if clean_path path then path else ''/'')"

lemma ex_clean_documented: "documented_cleaning ex_clean"
  by (simp add: documented_cleaning_def ex_clean_def clean_path_def)

lemma ServeHTTP_routes_witness:
  "\<exists>a. NewAPI [True] ''mesh'' = Some a
     \<and> ServeHTTP ex_clean ex_matches ex_request a ''/api/configuration/current'' = Inr (StatusOK, ConfigBody NewDefaultDynamicConfig)
     \<and> ServeHTTP ex_clean ex_matches ex_request a ''/api/status/node/p/configuration'' = Inr (StatusOK, RawBody ''{}'')
     \<and> ServeHTTP ex_clean ex_matches ex_request a ''/api//status/readiness'' = Inl ''/''"
proof -
  obtain a where a: "NewAPI [True] ''mesh'' = Some a" by (simp add: NewAPI_def)
  then have conf: "Safe_Get (api_configuration a) = NewDefaultDynamicConfig" by (auto simp: NewAPI_def)
  note serve = ServeHTTP_routes [OF ex_matches_documented ex_clean_documented, where q = ex_request and a = a]
  have paths: "clean_path ''/api/configuration/current''" "clean_path ''/api/status/node/p/configuration''"
    "\<not> clean_path ''/api//status/readiness''"
    by (simp_all add: clean_path_def)
  have "ServeHTTP ex_clean ex_matches ex_request a ''/api//status/readiness'' = Inl ''/''"
    using paths(3) by (simp add: ServeHTTP_def ex_clean_def)
  then show ?thesis
    using a conf serve(1) [OF paths(1)] serve(5) [OF paths(2), of "''p''"]
    by (simp add: getCurrentConfiguration_def getMeshNodeConfiguration_def respond_def ex_request_def)
qed

section \<open>Constructors\<close>

definition New_provider ::
  "(string \<Rightarrow> string \<Rightarrow> int32 \<Rightarrow> int32 option) \<Rightarrow> (string \<Rightarrow> string \<Rightarrow> int32 \<Rightarrow> int32 option) \<Rightarrow>
     (annotations \<Rightarrow> ann_error + (string \<times> Middleware) list) \<Rightarrow> Config \<Rightarrow> Provider" where
  "New_provider tcpTable udpTable middlewareBuilder cfg =
     \<lparr>pv_config = cfg, pv_tcpFind = tcpTable, pv_udpFind = udpTable, pv_buildServiceMiddleware = middlewareBuilder,
      pv_ranges = as_listed\<rparr>"

definition NewBuilder ::
  "KService list option \<Rightarrow> Endpoints list option \<Rightarrow> KPod list option \<Rightarrow> KTrafficTarget list option option \<Rightarrow>
     KTrafficSplit list option \<Rightarrow> HTTPRouteGroup list option option \<Rightarrow> TCPRoute list option option \<Rightarrow> cluster" where
  "NewBuilder serviceLister endpointLister podLister trafficTargetLister trafficSplitLister httpRouteGroupLister tcpRoutesLister =
     \<lparr>l_Services = serviceLister, l_Pods = podLister, l_Endpoints = endpointLister, l_TrafficSplits = trafficSplitLister,
      l_HTTPRouteGroups = httpRouteGroupLister, l_TCPRoutes = tcpRoutesLister, l_TrafficTargets = trafficTargetLister\<rparr>"

text \<open>The provider of a controller is the one \<open>NewMeshController\<close> makes, over the tables as they are now and with
  the orders of the build at hand.\<close>

lemma provider_of_New:
  "provider_of choices c = (New_provider (Find (tcpStateTable (ct_manager c))) (Find (udpStateTable (ct_manager c))) BuildMiddlewares
     \<lparr>pc_MinHTTPPort = cc_MinHTTPPort (ct_cfg c), pc_MaxHTTPPort = cc_MaxHTTPPort (ct_cfg c), pc_ACL = ACLEnabled (ct_cfg c),
      pc_DefaultTrafficType = DefaultMode (ct_cfg c)\<rparr>)\<lparr>pv_ranges := choices\<rparr>"
  by (simp add: provider_of_def New_provider_def)

text \<open>Without access control there is no lister of traffic targets, and the builder sees none.\<close>

lemma NewBuilder_listers:
  assumes "lists_all svcs (RService -` C)" "lists_all pods (RPod -` C)" "lists_all eps (REndpoints -` C)"
    and "lists_all tss (RTrafficSplit -` C)" "lists_all hrgs (RHTTPRouteGroup -` C)" "lists_all trs (RTCPRoute -` C)"
    and "lists_all tts (RTrafficTarget -` C)"
  shows "listers cfg C (NewBuilder (Some svcs) (Some eps) (Some pods) (if ACLEnabled cfg then Some (Some tts) else None)
     (Some tss) (Some (Some hrgs)) (Some (Some trs)))"
  using assms by (simp add: NewBuilder_def listers_def)

text \<open>The version library parses what the server says; the cluster knows topology keys from version 1.17 on, and a failure
  to find out is taken for no.\<close>

definition getServerVersion :: "string option \<Rightarrow> (string \<Rightarrow> 'v option) \<Rightarrow> 'v option" where
  "getServerVersion serverVersion newVersion = (case serverVersion of None \<Rightarrow> None | Some gitVersion \<Rightarrow> newVersion gitVersion)"

definition knows_topology_keys :: "string option \<Rightarrow> (string \<Rightarrow> 'v option) \<Rightarrow> ('v \<Rightarrow> bool) \<Rightarrow> bool" where
  "knows_topology_keys serverVersion newVersion atLeast117 =
     (case getServerVersion serverVersion newVersion of None \<Rightarrow> False | Some v \<Rightarrow> atLeast117 v)"

section \<open>The context that follows the stop channel\<close>

record stop_context =
  sc_parent :: bool       \<comment> \<open>the parent context is done\<close>
  sc_stop :: bool         \<comment> \<open>the stop channel is closed or holds a message\<close>
  sc_cancelled :: bool    \<comment> \<open>the new context was cancelled\<close>
  sc_returned :: bool     \<comment> \<open>the goroutine has returned\<close>

definition ContextWithStopChan :: "bool \<Rightarrow> bool \<Rightarrow> stop_context" where
  "ContextWithStopChan parent_done stopped =
     \<lparr>sc_parent = parent_done, sc_stop = stopped, sc_cancelled = False, sc_returned = False\<rparr>"

text \<open>A context is done when it was cancelled or its parent is done.\<close>

definition ctx_Done :: "stop_context \<Rightarrow> bool" where "ctx_Done s \<longleftrightarrow> sc_parent s \<or> sc_cancelled s"

inductive context_step :: "stop_context \<Rightarrow> stop_context \<Rightarrow> bool" where
  parent: "context_step s (s\<lparr>sc_parent := True\<rparr>)"
| stop: "context_step s (s\<lparr>sc_stop := True\<rparr>)"
| goroutine: "\<not> sc_returned s \<Longrightarrow> ctx_Done s \<or> sc_stop s \<Longrightarrow> context_step s (s\<lparr>sc_cancelled := True, sc_returned := True\<rparr>)"

inductive_cases context_stepE: "context_step s s'"

text \<open>The new context is never done without a reason, and once there is a reason the goroutine can run to its end, after
  which the context is done.\<close>

lemma stop_context_invariant:
  assumes "context_step\<^sup>*\<^sup>* (ContextWithStopChan p q) s"
  shows "(ctx_Done s \<longrightarrow> sc_parent s \<or> sc_stop s) \<and> (sc_returned s \<longrightarrow> sc_cancelled s)"
  using assms
proof (induction rule: rtranclp_induct)
  case base
  then show ?case by (simp add: ContextWithStopChan_def ctx_Done_def)
next
  case (step s s')
  from step(2) show ?case by (cases rule: context_step.cases) (use step(3) in \<open>auto simp: ctx_Done_def\<close>)
qed

lemma stop_context_ends:
  assumes "context_step\<^sup>*\<^sup>* (ContextWithStopChan p q) s" "sc_parent s \<or> sc_stop s" "\<not> sc_returned s"
  shows "\<exists>s'. context_step s s' \<and> sc_returned s' \<and> ctx_Done s'"
  using context_step.goroutine [of s] assms(2,3) by (auto simp: ctx_Done_def)

section \<open>The version command\<close>

definition newline :: string where "newline = [CHR 10]"

record build_info =
  bi_Version :: string
  bi_Commit :: string
  bi_Date :: string

definition default_build_info :: build_info where
  "default_build_info = \<lparr>bi_Version = ''dev'', bi_Commit = ''I don'' @ [CHR 39] @ ''t remember exactly'',
     bi_Date = ''I don'' @ [CHR 39] @ ''t remember exactly''\<rparr>"

definition printVersion :: "build_info \<Rightarrow> string \<Rightarrow> string \<Rightarrow> string \<Rightarrow> string \<Rightarrow> string" where
  "printVersion v goVersion compiler os arch =
     newline @ ''version     : '' @ bi_Version v @ newline
     @ ''commit      : '' @ bi_Commit v @ newline
     @ ''build date  : '' @ bi_Date v @ newline
     @ ''go version  : '' @ goVersion @ newline
     @ ''go compiler : '' @ compiler @ newline
     @ ''platform    : '' @ os @ ''/'' @ arch @ newline"

end
