(* ===== verification/Spec2Isabelle.thy ===== *)
theory Spec2Isabelle
  imports ResourceFilter Build ShadowService Routing Lifetime Commands Running Startup ReachPorts Access Modes K3d ClientMock Wiring
begin

text \<open>
  This development models the control plane of Traefik Mesh (Maesh): the controller that watches a
  Kubernetes cluster, keeps a shadow service for every mesh service, computes the topology of services,
  traffic targets and traffic splits, turns it into the dynamic configuration of the mesh proxies and serves
  it over HTTP; and the commands that prepare a cluster (DNS) and clean it up.

  \<^bold>\<open>How the program works.\<close> Events of the informers (\<open>handler.go\<close>) that pass the resource filter
  (\<open>pkg/k8s/filter.go\<close>) put keys into a work queue. The worker (\<open>controller.go\<close>) takes one key at a time. For
  a service it lets the shadow service manager (\<open>service.go\<close>) create, update or delete the shadow service,
  which maps TCP and UDP ports through the port tables (\<open>portmapping.go\<close>). Then it builds the topology
  (\<open>pkg/topology\<close>), from it the configuration (\<open>pkg/provider\<close>, \<open>pkg/annotations\<close>), and publishes both
  through the API's store (\<open>pkg/api\<close>, \<open>pkg/safe\<close>).

  \<^bold>\<open>Theories and what they model.\<close>
  \<^item> \<open>Prelude\<close>: results of fallible functions, slices that may be nil, writes through pointers in maps,
    enumerations of maps, the rule for loop invariants.
  \<^item> \<open>GoStrings\<close>: what the code uses of \<open>strings\<close>, \<open>strconv\<close> and \<open>net\<close>.
  \<^item> \<open>Objects\<close>: the Kubernetes, SMI and Traefik structs, as records with the fields that are used.
  \<^item> \<open>ResourceFilter\<close>: \<open>pkg/k8s/filter.go\<close>. \<open>Annotations\<close>: \<open>pkg/annotations\<close>. \<open>Topology\<close>:
    \<open>pkg/topology/topology.go\<close>, nodes as records in maps by key, a pointer between nodes as a key.
  \<^item> \<open>Resources\<close>, \<open>Builder\<close>, \<open>Incoming\<close>, \<open>Build\<close>: \<open>pkg/topology/builder.go\<close>, that is loading and indexing, the
    evaluation of services, splits and targets, the search for the pods allowed through a split with the
    removal of cycles, and the composition of all. \<open>Mirror\<close> proves what the nodes are made of in the end.
  \<^item> \<open>PortMapping\<close>, \<open>ShadowService\<close>: \<open>pkg/controller/portmapping.go\<close> and \<open>service.go\<close>. The locale
    \<open>port_mapper\<close> is the interface between the two, interpreted by the table.
  \<^item> \<open>Rules\<close>, \<open>Provider\<close>: \<open>pkg/provider\<close>. \<open>ConfigInvariant\<close> proves what building a configuration keeps,
    \<open>Routing\<close> which routers and servers it yields, \<open>Reach\<close> and \<open>ReachPorts\<close> (for TCP and UDP) that they are still there
    in the whole configuration, \<open>Access\<close> who gets through to whom under access control, from the traffic targets of the
    cluster to the configuration served, \<open>Modes\<close> what an unsupported default mode leads to. \<open>Ranging\<close>: the orders in
    which a map is ranged over.
  \<^item> \<open>Api\<close>: \<open>pkg/api/api.go\<close>, \<open>pkg/safe/safe.go\<close>. The locale \<open>shared_store\<close> is the interface \<open>SharedStore\<close>
    between controller and API, interpreted by the API.
  \<^item> \<open>Controller\<close>: \<open>pkg/controller/controller.go\<close>, \<open>handler.go\<close>, and the configuration made in
    \<open>cmd/mesh/mesh.go\<close>; \<open>run\<close> is the inductive relation of interleaved events and work.
    \<open>ControllerInvariant\<close> proves what holds in every reachable state, \<open>Lifetime\<close> that tables and cluster stay
    in step, restarts included, and what happens when the API server refuses a write.
  \<^item> \<open>Watching\<close>: the registration of the event handler and the wiring of the listers in \<open>NewMeshController\<close>.
    \<open>Freshness\<close> says what it means that the served configuration is up to date. \<open>Running\<close> is the running system:
    informer caches that change, notifications under way, the work queue and the worker that reads the caches
    meanwhile; its relation \<open>life\<close> refines \<open>run\<close>.
  \<^item> \<open>Process\<close>: the goroutines of \<open>cmd/mesh/mesh.go\<close>, of \<open>Run\<close> and of \<open>cmd/context.go\<close>, that is signals, error
    channels, wait groups and shutdown. \<open>Startup\<close>: the default configuration (\<open>cmd/configuration.go\<close>), the loaders
    (\<open>cmd/loaders.go\<close>), the mesh command up to its goroutines and \<open>main\<close>.
  \<^item> \<open>Corefile\<close>, \<open>Dns\<close>: \<open>pkg/dns/dns.go\<close>. \<open>Clients\<close>: \<open>pkg/k8s/client.go\<close>. \<open>Commands\<close>: \<open>cmd/prepare\<close>, \<open>cmd/cleanup\<close>, \<open>pkg/cleanup\<close>,
    \<open>pkg/k8s/smi.go\<close>, \<open>pkg/safe/recover.go\<close>, \<open>cmd/log.go\<close>.
  \<^item> \<open>Wiring\<close>: the routes of the API, the constructors of provider and builder, \<open>ContextWithStopChan\<close> of
    \<open>cmd/context.go\<close>, \<open>cmd/version\<close> and \<open>pkg/version\<close>. \<open>ClientMock\<close>: the client of the tests, \<open>pkg/k8s/client_mock.go\<close>
    and \<open>constants.go\<close>.
  \<^item> \<open>Harness\<close>: \<open>integration/try\<close> and \<open>integration/tool\<close>. \<open>K3d\<close>: \<open>integration/k3d\<close>. What they do to the world is a
    log of actions, and the world answers an action from the log so far.
  \<^item> This theory: shadow services and proxies agree on the ports; a mesh service is reachable, from its shadow
    service through the proxies to its pods.

  \<^bold>\<open>What is shown.\<close>
  \<^item> Topology: building ends and fails only when loading fails; no reference of the result dangles; traffic
    targets have exactly the pods the cluster says; the incoming pods of a split are exactly those that may
    reach all of its backends; splits are cut only on cycles; the search ends on every graph; services and pods
    mirror those of the cluster.
  \<^item> Configuration: building never panics; every router, service and middleware reference resolves; under access
    control every HTTP router restricts its callers as the topology says; the routers, rules, priorities
    and servers of services, targets and splits.
  \<^item> Ports: the least free port is taken, mappings are injective, tables and shadow services agree through
    updates, deletions and restarts as long as the API server accepts every write and the service lister is up to
    date, an item of work takes no mesh port away from another service, and proxies listen where
    the shadow services point. As long as no namespace has a dash, from the objects of the cluster to the configuration served: the router that
    a port of a shadow service leads to has exactly the pods of the service behind it, for HTTP, TCP and UDP.
  \<^item> Access: under access control a router of the served configuration that leads to a pod stands behind a whitelist
    of exactly the pods that a traffic target of the cluster names as sources, and that target names the pod's account,
    as long as the names of no two traffic targets run together.
  \<^item> Controller: work always ends, is retried at most twelve times, what is served is sound in every reachable
    state, readiness means a successful start, the mesh does not react to its own writes, which limits
    of the command line give disjoint ranges, and that an unsupported default mode is accepted and serves nothing.
  \<^item> Running system: at rest, what is served was built from the caches as they are (with the exceptions that the
    code has: a key given up, a pod without access control); without changes the system comes to rest; what
    the filter ignores has no influence; services that stop being watched keep their shadow service.
  \<^item> Process: with a reason to stop, the command ends, unless the shutdown overtakes the start of the worker; then
    it hangs. When the command starts, its logger, clients and API exist, and the default limits give ranges
    that are apart.
  \<^item> DNS and commands: the stub domain is installed once and taken out again, on the cluster as the commands leave it;
    a restart of the pods that failed is never made up for; which provider is chosen; and nothing is written before the
    checks of the prepare command.
  \<^item> Harness: starting a cluster issues exactly the planned commands and returns a client made from the kubeconfig that
    was written, but never takes down what it started; waiting ends well only when the workload was seen ready; a retry
    returns unless its time limit is zero.
  \<^item> Texts: keys and shadow service names are read back, resource filters do not depend on the order of
    their options, annotations yield the declared middlewares.

  \<^bold>\<open>Conventions.\<close> \<open>int32\<close> is a 32-bit word, compared signed, and wraps. An error is the left side of a sum, with
  one constructor per error the code makes; \<open>None\<close> in a result that may also be \<open>Some\<close> is a panic or a
  computation that does not return, and the theorems say when it cannot be. The order in which Go ranges over
  a map is an argument (a schedule, the order of a list, or a choice of \<open>Ranging\<close>; the loops over middlewares and over
  the headers of a match take one of their own each time, \<open>rg_middlewares\<close> and \<open>rg_headers\<close>), so a theorem for all of
  them covers every order. The recursion of the incoming-pods search has fuel; the number of splits plus one is enough
  (\<open>search_terminates\<close>). The loop of \<open>Add\<close>, whose 32-bit counter may wrap, is a partial function, shown to return
  for ranges that end below the largest \<open>int32\<close>. Code outside the repository is an argument: listers, the API
  server and the version check, the queue of client-go, JSON of stub domains, the version library, the
  retry loop, \<open>wait.Until\<close>, the paerser library, the constructors of clients. What is assumed of it stands in the theorems: services have distinct ports, a listing matches the
  schedule, keys of traffic targets are apart and listed services and pods have their own keys (\<open>tidy\<close>, for access
  control), the router matches templates, cleans paths and the back-off library retries as they document
  (\<open>documented_matcher\<close>, \<open>documented_cleaning\<close>, \<open>documented_retry\<close>), \<open>NumRequeues\<close> counts, a lister answers with
  objects of the name asked for, the filtering handler works as
  its documentation says and a resync leaves the resource version (\<open>Running\<close> only). A goroutine is modelled by the
  phase it is in; one step is one action between two points where goroutines can meet.

  \<open>Lifetime\<close> goes beyond what is documented: it assumes that the API server accepts every write and that the service lister
  shows it at once; its last section is about a refused write.

  \<^bold>\<open>Not modelled.\<close> Logging; HTTP headers; the threads of the informers, beyond the changes
  and notifications of \<open>Running\<close>; locks, since there is a single worker and every shared value is replaced as a
  whole; the CLI library (the order of loaders, help texts); how long the start waits for caches, whose answers are
  arguments; rounding of floating point numbers in the time limits of \<open>Harness\<close>; the registration of SMI types with
  the decoder of the tests; the test suites.
\<close>

section \<open>Shadow services and proxies agree on the ports\<close>

text \<open>The controller gives the provider the port ranges and the tables of the shadow service manager.\<close>

definition shares_ports :: "Provider \<Rightarrow> ShadowServiceManager \<Rightarrow> bool" where
  "shares_ports p s \<longleftrightarrow> pc_MinHTTPPort (pv_config p) = minHTTPPort s \<and> pc_MaxHTTPPort (pv_config p) = maxHTTPPort s
     \<and> pv_tcpFind p = Find (tcpStateTable s) \<and> pv_udpFind p = Find (udpStateTable s)"

text \<open>The entry point that the routers of the \<open>i\<close>-th port of a service listen on.\<close>

definition entrypoint :: "Provider \<Rightarrow> string \<Rightarrow> Service \<Rightarrow> nat \<Rightarrow> error + string" where
  "entrypoint p trafficType svc i =
     (if trafficType = ServiceTypeHTTP then buildHTTPEntrypoint p i
      else if trafficType = ServiceTypeTCP then buildTCPEntrypoint p svc (sp_Port (svc_Ports svc ! i))
      else buildUDPEntrypoint p svc (sp_Port (svc_Ports svc ! i)))"

lemma entrypoint_http:
  assumes "shares_ports p s" "getHTTPPort s i = Inr q"
  shows "entrypoint p ServiceTypeHTTP svc i = Inr (''http-'' @ itoa32 q)"
  using assms by (auto simp: entrypoint_def shares_ports_def buildHTTPEntrypoint_def getHTTPPort_def Let_def split: if_splits)

lemma entrypoint_mapped:
  assumes "shares_ports p s" "tt = ServiceTypeTCP \<or> tt = ServiceTypeUDP"
    and "mapped s (proto_of tt) (svc_Namespace svc) (svc_Name svc) (sp_Port (svc_Ports svc ! i)) = Some q"
  shows "entrypoint p tt svc i = Inr (tt @ ''-'' @ itoa32 q)"
  using assms by (auto simp: entrypoint_def shares_ports_def buildTCPEntrypoint_def buildUDPEntrypoint_def
      mapped_def proto_of_def)

lemma shadow_ports_http:
  "\<exists>ports. shadow_ports s ServiceTypeHTTP i n ns sps = Some (s, ports)
     \<and> (\<forall>sp\<in>set ports. \<exists>j<length sps. \<exists>q. sp_Port (sps ! j) = sp_Port sp \<and> sp_TargetPort sp = FromInt q
          \<and> getHTTPPort s (i + j) = Inr q)"
proof (induction sps arbitrary: i)
  case (Cons sp sps)
  from Cons.IH [of "Suc i"] obtain ports where
    rest: "shadow_ports s ServiceTypeHTTP (Suc i) n ns sps = Some (s, ports)"
    and ports: "\<forall>sp\<in>set ports. \<exists>j<length sps. \<exists>q. sp_Port (sps ! j) = sp_Port sp \<and> sp_TargetPort sp = FromInt q
          \<and> getHTTPPort s (Suc i + j) = Inr q" by blast
  have later: "\<exists>j<length (sp # sps). \<exists>q. sp_Port ((sp # sps) ! j) = sp_Port sp' \<and> sp_TargetPort sp' = FromInt q
          \<and> getHTTPPort s (i + j) = Inr q" if sp': "sp' \<in> set ports" for sp'
  proof -
    from ports sp' obtain j q where "j < length sps" "sp_Port (sps ! j) = sp_Port sp'" "sp_TargetPort sp' = FromInt q"
      "getHTTPPort s (Suc i + j) = Inr q" by blast
    then show ?thesis by (intro exI [of _ "Suc j"]) auto
  qed
  show ?case
  proof (cases "isPortSuitable ServiceTypeHTTP sp")
    case False
    with rest later show ?thesis by simp
  next
    case suit: True
    show ?thesis
    proof (cases "getHTTPPort s i")
      case (Inl e)
      with rest later suit show ?thesis by (simp add: getTargetPort_def)
    next
      case (Inr q)
      let ?sp = "\<lparr>sp_Name = sp_Name sp, sp_Protocol = sp_Protocol sp, sp_Port = sp_Port sp, sp_TargetPort = FromInt q\<rparr>"
      have "\<exists>j<length (sp # sps). \<exists>q. sp_Port ((sp # sps) ! j) = sp_Port ?sp \<and> sp_TargetPort ?sp = FromInt q
          \<and> getHTTPPort s (i + j) = Inr q"
        using Inr by (intro exI [of _ 0]) auto
      moreover have "shadow_ports s ServiceTypeHTTP i n ns (sp # sps) = Some (s, ?sp # ports)"
        using Inr rest suit by (simp add: getTargetPort_def)
      ultimately show ?thesis using later by (intro exI [of _ "?sp # ports"]) (simp del: shadow_ports.simps)
    qed
  qed
qed simp

lemma supported_type: "GetTrafficType d anns = Inr tt \<Longrightarrow> d \<in> {ServiceTypeHTTP, ServiceTypeTCP, ServiceTypeUDP} \<Longrightarrow>
  tt = ServiceTypeHTTP \<or> tt = ServiceTypeTCP \<or> tt = ServiceTypeUDP"
  by (auto simp: GetTrafficType_def split: option.splits if_splits)

text \<open>The target of a port in the shadow service that a call writes, for HTTP and for mapped ports.\<close>

lemma http_target:
  assumes "manager_ok s0" "shadow_ports s0 ServiceTypeHTTP 0 n ns sps = Some (s1, ports)"
    and "s' = cleanupPortMappings ns n olds ports s1" "sp \<in> set ports"
  shows "\<exists>q i. i < length sps \<and> sp_Port (sps ! i) = sp_Port sp \<and> sp_TargetPort sp = FromInt q \<and> getHTTPPort s' i = Inr q"
proof -
  from shadow_ports_http [of s0 0 n ns sps] assms(2,4) obtain j q where
    j: "s1 = s0" "j < length sps" "sp_Port (sps ! j) = sp_Port sp" "sp_TargetPort sp = FromInt q" "getHTTPPort s0 (0 + j) = Inr q"
    by force
  have range_eq: "minHTTPPort s' = minHTTPPort s0" "maxHTTPPort s' = maxHTTPPort s0"
    using remove_many [OF assms(1), where ns = ns and n = n and sps = "filter (needsCleanup ports) olds"]
    unfolding assms(3) j(1) cleanupPortMappings_def by blast+
  have "getHTTPPort s' j = Inr q" using j(5) unfolding getHTTPPort_def range_eq add_0 .
  with j show ?thesis by blast
qed

lemma mapped_target:
  assumes ok: "manager_ok s0" and tt: "tt = ServiceTypeTCP \<or> tt = ServiceTypeUDP"
    and dist: "distinct (map (\<lambda>sp. (sp_Port sp, sp_Protocol sp)) sps)"
    and ports: "shadow_ports s0 tt 0 n ns sps = Some (s1, ports)"
    and s': "s' = cleanupPortMappings ns n olds ports s1" "accurate s' ns n ports" and sp: "sp \<in> set ports"
  shows "\<exists>q i. i < length sps \<and> sp_Port (sps ! i) = sp_Port sp \<and> sp_TargetPort sp = FromInt q
     \<and> mapped s' (proto_of tt) ns n (sp_Port (sps ! i)) = Some q"
proof -
  from shadow_ports_mapped [OF ok tt dist, of 0 n ns] ports have ok1: "manager_ok s1"
    and eq: "set ports = mapped_ports s1 (proto_of tt) ns n sps" by auto
  from sp eq obtain q t where q: "q \<in> set sps" "sp_Protocol q = proto_of tt"
    "mapped s1 (proto_of tt) ns n (sp_Port q) = Some t" "sp = shadow_port q t" by (auto simp: mapped_ports_def)
  have "maxHTTPPort s' = maxHTTPPort s1"
    using remove_many [OF ok1, where ns = ns and n = n and sps = "filter (needsCleanup ports) olds"]
    unfolding s' cleanupPortMappings_def by blast
  with mapped_above [OF ok1 q(3)] q(2,4) sp have "lists_port s' ports (proto_of tt) (sp_Port q) t"
    unfolding lists_port_def by (intro conjI bexI [of _ sp]) (simp_all add: shadow_port_def proto_of_def)
  with s'(2) have m: "mapped s' (proto_of tt) ns n (sp_Port q) = Some t" by (simp add: accurate_def)
  from q(1) obtain i where "i < length sps" "sps ! i = q" by (auto simp: in_set_conv_nth)
  with m q(4) show ?thesis by (intro exI [of _ t] exI [of _ i]) (simp add: shadow_port_def)
qed

text \<open>C3: The shadow service and the proxies agree. When the mappings of a service are the ports that its current
  shadow service lists above the HTTP ports (\<open>accurate\<close>), its ports are distinct and its traffic type is readable, then
  after the shadow service is created or updated, every
  port it lists points at a mesh port, and a provider with the manager's tables and ranges makes the
  routers of the mirrored service port listen on the entry point of exactly that mesh port: for HTTP the
  one for the position of the port, for TCP and UDP the one of the mapping.\<close>

theorem shadow_ports_reach_entrypoints:
  assumes "manager_ok s" "l \<noteq> LookupError"
    and "accurate s (om_Namespace (ks_meta svc)) (om_Name (ks_meta svc)) (known_ports l)"
    and "distinct (map (\<lambda>sp. (sp_Port sp, sp_Protocol sp)) (ks_Ports svc))"
    and "GetTrafficType (defaultTrafficType s) (om_Annotations (ks_meta svc)) = Inr tt"
    and "defaultTrafficType s \<in> {ServiceTypeHTTP, ServiceTypeTCP, ServiceTypeUDP}"
    and "CreateOrUpdate l topologyKeys svc s = Some (s', Inr call)" "shares_ports p s'"
    and "svc_Name node = om_Name (ks_meta svc)" "svc_Namespace node = om_Namespace (ks_meta svc)"
    and "svc_Ports node = ks_Ports svc" "sp \<in> set (call_ports call)"
  shows "\<exists>q i. sp_TargetPort sp = FromInt q \<and> i < length (ks_Ports svc) \<and> sp_Port (ks_Ports svc ! i) = sp_Port sp
     \<and> entrypoint p tt node i = Inr (tt @ ''-'' @ itoa32 q)"
proof -
  let ?ns = "om_Namespace (ks_meta svc)" and ?n = "om_Name (ks_meta svc)"
  let ?s0 = "fold (removeServicePortMapping ?ns ?n)
        (filter (\<lambda>sp. \<not> containsPort (ks_Ports svc) sp) (known_ports l)) s"
  from CreateOrUpdate_eq [OF assms(2,4,1,5), of topologyKeys] assms(7) obtain s1 ports where
    sp: "shadow_ports ?s0 tt 0 ?n ?ns (ks_Ports svc) = Some (s1, ports)"
    and s': "s' = cleanupPortMappings ?ns ?n (known_ports l) ports s1" and cp: "call_ports call = ports" by auto
  from remove_many [OF assms(1), where ns = ?ns and n = ?n and
      sps = "filter (\<lambda>sp. \<not> containsPort (ks_Ports svc) sp) (known_ports l)"]
  have ok0: "manager_ok ?s0" by simp
  from accurate_step [OF assms(1,3,4) sp] s' have acc: "manager_ok s'" "accurate s' ?ns ?n ports" by auto
  have sp_in: "sp \<in> set ports" using cp assms(12) by simp
  from supported_type [OF assms(5,6)] consider "tt = ServiceTypeHTTP" | "tt = ServiceTypeTCP \<or> tt = ServiceTypeUDP" by blast
  then show ?thesis
  proof cases
    case 1
    from http_target [OF ok0 sp [unfolded 1] s' sp_in] obtain q i where
      i: "i < length (ks_Ports svc)" "sp_Port (ks_Ports svc ! i) = sp_Port sp" "sp_TargetPort sp = FromInt q"
      "getHTTPPort s' i = Inr q" by blast
    from entrypoint_http [OF assms(8) i(4)] 1 i show ?thesis by auto
  next
    case 2
    from mapped_target [OF ok0 2 assms(4) sp s' acc(2) sp_in] obtain q i where
      i: "i < length (ks_Ports svc)" "sp_Port (ks_Ports svc ! i) = sp_Port sp" "sp_TargetPort sp = FromInt q"
      "mapped s' (proto_of tt) ?ns ?n (sp_Port (ks_Ports svc ! i)) = Some q" by blast
    with entrypoint_mapped [OF assms(8) 2, of node i q] assms(9-11) show ?thesis by auto
  qed
qed

text \<open>The provider of a running controller has the manager's tables and ranges, so the statement applies to
  every update that the controller makes.\<close>

lemma controller_shares_ports:
  assumes "booted cfg shadows c0" "ranges_ok cfg" "unambiguous (fresh_tcp cfg) shadows" "unambiguous (fresh_udp cfg) shadows"
    and "run numRequeues keyFunc (env_ok (controller_filter cfg)) c0 c calls"
  shows "shares_ports (provider_of choices c) (ct_manager c)"
proof -
  note boot = booted_ok [OF assms(1-4)]
  have "run numRequeues keyFunc (env_ok (ct_resourceFilter c0)) c0 c calls" using assms(5) boot by simp
  from run_ok [OF this boot(1)] boot show ?thesis
    by (simp add: controller_ok_def manager_config_def shares_ports_def provider_of_def)
qed

definition ex_tcp_node :: Service where
  "ex_tcp_node = \<lparr>svc_Name = ''a'', svc_Namespace = ''ns'', svc_Selector = Map.empty, svc_Annotations = Map.empty,
     svc_Ports = ks_Ports ex_tcp_service, svc_ClusterIP = [], svc_Pods = [], svc_TrafficTargets = [],
     svc_TrafficSplits = [], svc_BackendOf = [], svc_Errors = []\<rparr>"

definition manager_provider :: "ShadowServiceManager \<Rightarrow> Provider" where
  "manager_provider s = \<lparr>pv_config = \<lparr>pc_MinHTTPPort = minHTTPPort s, pc_MaxHTTPPort = maxHTTPPort s, pc_ACL = False,
       pc_DefaultTrafficType = defaultTrafficType s\<rparr>,
     pv_tcpFind = Find (tcpStateTable s), pv_udpFind = Find (udpStateTable s), pv_buildServiceMiddleware = BuildMiddlewares,
     pv_ranges = as_listed\<rparr>"

lemma ex_tcp_facts:
  "om_Namespace (ks_meta ex_tcp_service) = ''ns''" "om_Name (ks_meta ex_tcp_service) = ''a''"
  "distinct (map (\<lambda>sp. (sp_Port sp, sp_Protocol sp)) (ks_Ports ex_tcp_service))"
  "GetTrafficType (defaultTrafficType ex_manager) (om_Annotations (ks_meta ex_tcp_service)) = Inr ''tcp''"
  "svc_Name ex_tcp_node = om_Name (ks_meta ex_tcp_service)" "svc_Namespace ex_tcp_node = om_Namespace (ks_meta ex_tcp_service)"
  "svc_Ports ex_tcp_node = ks_Ports ex_tcp_service"
  "defaultTrafficType ex_manager \<in> {ServiceTypeHTTP, ServiceTypeTCP, ServiceTypeUDP}"
  by (simp_all add: ex_tcp_service_def GetTrafficType_def ex_manager_def ex_tcp_node_def)

lemma shadow_ports_reach_entrypoints_witness:
  "\<exists>s' call. CreateOrUpdate (Found ex_shadow) True ex_tcp_service ex_manager = Some (s', Inr call)
     \<and> (\<forall>sp\<in>set (call_ports call). \<exists>q. sp_TargetPort sp = FromInt q
         \<and> entrypoint (manager_provider s') ''tcp'' ex_tcp_node 0 = Inr (''tcp-'' @ itoa32 q))"
proof -
  have acc: "accurate ex_manager (om_Namespace (ks_meta ex_tcp_service)) (om_Name (ks_meta ex_tcp_service))
      (known_ports (Found ex_shadow))"
    using ex_manager_accurate by (simp only: ex_tcp_facts)
  obtain s' call where cu: "CreateOrUpdate (Found ex_shadow) True ex_tcp_service ex_manager = Some (s', Inr call)"
    using CreateOrUpdate_eq [OF _ ex_tcp_facts(3) ex_manager_ok ex_tcp_facts(4), of "Found ex_shadow" True] by blast
  have shares: "shares_ports (manager_provider s') s'" by (simp add: shares_ports_def manager_provider_def)
  have one: "i < length (ks_Ports ex_tcp_service) \<Longrightarrow> i = 0" for i by (simp add: ex_tcp_service_def)
  have "\<exists>q. sp_TargetPort sp = FromInt q \<and> entrypoint (manager_provider s') ''tcp'' ex_tcp_node 0 = Inr (''tcp-'' @ itoa32 q)"
    if "sp \<in> set (call_ports call)" for sp
  proof -
    from shadow_ports_reach_entrypoints [OF ex_manager_ok _ acc ex_tcp_facts(3,4,8) cu shares ex_tcp_facts(5-7) that]
    obtain q i where "sp_TargetPort sp = FromInt q" "i < length (ks_Ports ex_tcp_service)"
      "entrypoint (manager_provider s') ServiceTypeTCP ex_tcp_node i = Inr (ServiceTypeTCP @ ''-'' @ itoa32 q)" by auto
    with one [of i] show ?thesis by auto
  qed
  with cu show ?thesis by blast
qed

section \<open>A mesh service is reachable\<close>

text \<open>What the worker has done when it worked on a service and succeeded.\<close>

lemma worked_on_service:
  assumes "processNextWorkItem e r key c = Some (c', new)" "key \<noteq> configRefreshKey"
    and "syncShadowService e key c = Some (c1, Some call, None)" "env_splitKey e key = Some (ns, n)"
    and "env_services e ns n = Found svc" "loadResources (env_cluster e) (ct_resourceFilter c) = Inr res"
  obtains l m' topo topo' conf where "CreateOrUpdate l (env_topologyKeys e) svc (ct_manager c) = Some (m', Inr call)"
    "l = env_services e (sm_namespace (ct_manager c)) (shadow_name (ct_manager c) ns n)" "c1 = c\<lparr>ct_manager := m'\<rparr>"
    "Build_topology (env_fuel e) (env_schedule e) (env_cluster e) (ct_resourceFilter c) = Some (Inr topo)"
    "BuildConfig (provider_of (env_ranges e) c1) (env_order e) topo = Some (topo', conf)"
    "getCurrentConfiguration (\<lambda>b. True) (ct_store c') = (StatusOK, ConfigBody conf)"
    "getCurrentTopology (\<lambda>b. True) (ct_store c') = (StatusOK, TopologyBody topo')"
proof -
  let ?l = "env_services e (sm_namespace (ct_manager c)) (shadow_name (ct_manager c) ns n)"
  from assms(3-5) obtain m' r' where cu: "CreateOrUpdate ?l (env_topologyKeys e) svc (ct_manager c) = Some (m', r')"
    by (auto simp: syncShadowService_def Let_def)
  with assms(3-5) have r': "r' = Inr call" "c1 = c\<lparr>ct_manager := m'\<rparr>"
    by (cases r'; auto simp: syncShadowService_def Let_def split: if_splits)+
  from assms(1-3) obtain calls where "buildAndStore e r key c1 = Some (c', calls)" by (auto simp: processNextWorkItem_def)
  moreover from this assms(6) r' obtain topo where
    topo: "Build_topology (env_fuel e) (env_schedule e) (env_cluster e) (ct_resourceFilter c) = Some (Inr topo)"
    by (auto simp: buildAndStore_def Build_topology_def split: option.splits)
  ultimately obtain topo' conf where "BuildConfig (provider_of (env_ranges e) c1) (env_order e) topo = Some (topo', conf)"
    "c' = c1\<lparr>ct_store := SetConfig conf (SetTopology topo' (ct_store c1))\<rparr>"
    using r' by (auto simp: buildAndStore_def)
  moreover from this have "getCurrentConfiguration (\<lambda>b. True) (ct_store c') = (StatusOK, ConfigBody conf)"
    "getCurrentTopology (\<lambda>b. True) (ct_store c') = (StatusOK, TopologyBody topo')"
    by (simp_all add: getCurrentConfiguration_def getCurrentTopology_def respond_def store.laws)
  ultimately show thesis using that cu r' topo by blast
qed

text \<open>All that is known then, in a reachable state of a controller.\<close>

lemma service_work:
  assumes "booted cfg shadows c0" "ranges_ok cfg" "unambiguous (fresh_tcp cfg) shadows" "unambiguous (fresh_udp cfg) shadows"
    and "run numRequeues keyFunc (env_ok (controller_filter cfg)) c0 c calls" "\<not> ACLEnabled cfg"
    and "env_ok (controller_filter cfg) e" "order_ok (controller_filter cfg) e"
    and "processNextWorkItem e r key c = Some (c', new)" "key \<noteq> configRefreshKey"
    and "syncShadowService e key c = Some (c1, Some call, None)" "env_splitKey e key = Some (ns, n)"
    and "env_services e ns n = Found svc" "loadResources (env_cluster e) (controller_filter cfg) = Inr res"
    and "r_Services res (Key n ns) = Some svc" "GetTrafficType (DefaultMode cfg) (om_Annotations (ks_meta svc)) = Inr tt"
  obtains l m' s0 s1 topo topo' conf where "om_Name (ks_meta svc) = n" "om_Namespace (ks_meta svc) = ns"
    "distinct (map (\<lambda>sp. (sp_Port sp, sp_Protocol sp)) (ks_Ports svc))" "manager_ok (ct_manager c)" "manager_ok s0"
    "s0 = fold (removeServicePortMapping ns n) (filter (\<lambda>sp. \<not> containsPort (ks_Ports svc) sp) (known_ports l)) (ct_manager c)"
    "shadow_ports s0 tt 0 n ns (ks_Ports svc) = Some (s1, call_ports call)"
    "m' = cleanupPortMappings ns n (known_ports l) (call_ports call) s1"
    "l = env_services e (sm_namespace (ct_manager c)) (shadow_name (ct_manager c) ns n)" "shares_ports (provider_of (env_ranges e) c1) m'"
    "valid_schedule res (env_schedule e)" "length (sch_TrafficSplits (env_schedule e)) < env_fuel e"
    "Build_topology (env_fuel e) (env_schedule e) (env_cluster e) (controller_filter cfg) = Some (Inr topo)"
    "pv_buildServiceMiddleware (provider_of (env_ranges e) c1) = BuildMiddlewares" "\<not> pc_ACL (pv_config (provider_of (env_ranges e) c1))"
    "pc_DefaultTrafficType (pv_config (provider_of (env_ranges e) c1)) = DefaultMode cfg"
    "BuildConfig (provider_of (env_ranges e) c1) (env_order e) topo = Some (topo', conf)" "enumerates (env_order e) (Services topo)"
    "getCurrentConfiguration (\<lambda>b. True) (ct_store c') = (StatusOK, ConfigBody conf)"
    "getCurrentTopology (\<lambda>b. True) (ct_store c') = (StatusOK, TopologyBody topo')"
proof -
  note boot = booted_ok [OF assms(1-4)]
  have "run numRequeues keyFunc (env_ok (ct_resourceFilter c0)) c0 c calls" using assms(5) boot by simp
  from run_ok [OF this boot(1)] boot booted_config [OF assms(1-4)] have ok: "manager_ok (ct_manager c)"
    and c: "ct_cfg c = cfg" "ct_resourceFilter c = controller_filter cfg" "defaultTrafficType (ct_manager c) = DefaultMode cfg"
      "minHTTPPort (ct_manager c) = cc_MinHTTPPort cfg" "maxHTTPPort (ct_manager c) = cc_MaxHTTPPort cfg"
    by (simp_all add: controller_ok_def manager_config_def)
  have svc_key: "om_Name (ks_meta svc) = n" "om_Namespace (ks_meta svc) = ns"
    using loadResources_ok [OF assms(14)] assms(15) by (auto simp: keys_ok_def meta_key_def)
  have load: "loadResources (env_cluster e) (ct_resourceFilter c) = Inr res" using assms(14) c(2) by simp
  obtain l m' topo topo' conf where cu: "CreateOrUpdate l (env_topologyKeys e) svc (ct_manager c) = Some (m', Inr call)"
    and lookup: "l = env_services e (sm_namespace (ct_manager c)) (shadow_name (ct_manager c) ns n)" and c1: "c1 = c\<lparr>ct_manager := m'\<rparr>"
    and build: "Build_topology (env_fuel e) (env_schedule e) (env_cluster e) (controller_filter cfg) = Some (Inr topo)"
    "BuildConfig (provider_of (env_ranges e) c1) (env_order e) topo = Some (topo', conf)"
    and conf: "getCurrentConfiguration (\<lambda>b. True) (ct_store c') = (StatusOK, ConfigBody conf)"
    "getCurrentTopology (\<lambda>b. True) (ct_store c') = (StatusOK, TopologyBody topo')"
    by (rule worked_on_service [OF assms(9-13) load]) (simp only: c(2))
  from cu have l: "l \<noteq> LookupError" by (auto simp: CreateOrUpdate_def Let_def split: option.splits sum.splits)
  have ports: "distinct (map (\<lambda>sp. (sp_Port sp, sp_Protocol sp)) (ks_Ports svc))"
    using assms(7,13) by (simp add: env_ok_def)
  let ?s0 = "fold (removeServicePortMapping ns n) (filter (\<lambda>sp. \<not> containsPort (ks_Ports svc) sp) (known_ports l)) (ct_manager c)"
  from CreateOrUpdate_eq [OF l ports ok, of tt "env_topologyKeys e", unfolded svc_key] assms(16) c(3) cu obtain s1 where
    sp: "shadow_ports ?s0 tt 0 n ns (ks_Ports svc) = Some (s1, call_ports call)"
    and m': "m' = cleanupPortMappings ns n (known_ports l) (call_ports call) s1" by auto
  from remove_many [OF ok, where ns = ns and n = n and sps = "filter (\<lambda>sp. \<not> containsPort (ks_Ports svc) sp) (known_ports l)"]
  have ok0: "manager_ok ?s0" by simp
  have "minHTTPPort m' = cc_MinHTTPPort cfg" "maxHTTPPort m' = cc_MaxHTTPPort cfg"
    using CreateOrUpdate_keeps [OF ok ports, of l "env_topologyKeys e"] cu c(4,5) by (auto simp: manager_config_def)
  then have shares: "shares_ports (provider_of (env_ranges e) c1) m'" using c(1) by (simp add: shares_ports_def provider_of_def c1)
  have env: "valid_schedule res (env_schedule e)" "length (sch_TrafficSplits (env_schedule e)) < env_fuel e"
    using assms(7,14) by (simp_all add: env_ok_def)
  have p: "pv_buildServiceMiddleware (provider_of (env_ranges e) c1) = BuildMiddlewares" "\<not> pc_ACL (pv_config (provider_of (env_ranges e) c1))"
    "pc_DefaultTrafficType (pv_config (provider_of (env_ranges e) c1)) = DefaultMode cfg"
    using assms(6) c(1) by (simp_all add: provider_of_def c1)
  have "enumerates (env_order e) (Services topo)" using assms(8) build(1) by (simp add: order_ok_def)
  from that [OF svc_key ports ok ok0 refl sp m' lookup shares env build(1) p build(2) this conf] show thesis .
qed


text \<open>\<open>BuildConfig\<close> changes no list of traffic splits.\<close>

lemma same_splits:
  assumes "same_but_errors t t'"
  shows "map_option svc_TrafficSplits (Services t' k) = map_option svc_TrafficSplits (Services t k)"
proof -
  have "map_option clean_svc (Services t' k) = map_option clean_svc (Services t k)" using assms by (simp add: same_but_errors_def)
  then show ?thesis by (cases "Services t k"; cases "Services t' k") (auto dest: clean_svc_fields(7))
qed


text \<open>A service with one port and one pod, in an installation without access control.\<close>

definition ex_web :: KService where
  "ex_web = ex_service\<lparr>ks_Ports := [\<lparr>sp_Name = ''web'', sp_Protocol = ''TCP'', sp_Port = 80, sp_TargetPort = FromInt 8080\<rparr>]\<rparr>"

definition ex_web_cluster :: cluster where
  "ex_web_cluster = ex_cluster\<lparr>l_Services := Some [ex_web], l_TrafficTargets := None\<rparr>"

lemma ex_web_loads:
  "\<exists>res. loadResources ex_web_cluster (controller_filter ex_cfg) = Inr res \<and> r_Services res = [Key ''svc'' ''ns'' \<mapsto> ex_web]
     \<and> at (PodsBySvc res) (Key ''svc'' ''ns'') = [ex_pod] \<and> r_TrafficSplits res = Map.empty"
proof -
  have "\<not> IsIgnored (controller_filter ex_cfg) (ServiceObj ex_web)"
    using ex_filter(2) by (simp add: IsIgnored_service_iff ex_web_def)
  then show ?thesis
    by (simp add: loadResources_def loadServices_def list_required_def list_optional_def ex_web_cluster_def ex_cluster_def
        indexSMIResources_def indexPods_def ex_filter(1) empty_resources_def indexEndpoints_def indexPodByService_def Let_def
        meta_key_def pod_key_def sa_key_def ex_meta_def ex_pod_def ex_web_def ex_service_def ex_endpoints_def)
qed

lemma ex_web_env:
  "\<exists>e. env_ok (controller_filter ex_cfg) e \<and> order_ok (controller_filter ex_cfg) e \<and> env_cluster e = ex_web_cluster
     \<and> env_splitKey e ''ns/svc'' = Some (''ns'', ''svc'') \<and> env_services e ''ns'' ''svc'' = Found ex_web
     \<and> (\<forall>n. env_services e ''mesh'' n = lookup.NotFound) \<and> (\<forall>call. env_accepts e call)"
proof -
  obtain e0 where e0: "env_ok (controller_filter ex_cfg) e0" "order_ok (controller_filter ex_cfg) e0" "env_cluster e0 = ex_web_cluster"
    using env_exists by blast
  let ?e = "e0\<lparr>env_splitKey := (\<lambda>key. Some (''ns'', ''svc'')),
     env_services := (\<lambda>ns n. if ns = ''ns'' then Found ex_web else lookup.NotFound), env_accepts := (\<lambda>call. True)\<rparr>"
  have "env_ok (controller_filter ex_cfg) ?e" using e0(1) by (auto simp: env_ok_def ex_web_def split: if_splits)
  moreover have "order_ok (controller_filter ex_cfg) ?e" using e0(2) by (simp add: order_ok_def)
  ultimately show ?thesis using e0(3) by (intro exI [of _ ?e]) simp
qed

lemma ex_web_sync:
  assumes "manager_ok m" "defaultTrafficType m = ''http''" "minHTTPPort m = 5000" "maxHTTPPort m = 5009"
  shows "\<exists>m' call. CreateOrUpdate lookup.NotFound tk ex_web m = Some (m', Inr call)
     \<and> call_ports call = [\<lparr>sp_Name = ''web'', sp_Protocol = ''TCP'', sp_Port = 80, sp_TargetPort = FromInt 5000\<rparr>]"
proof -
  have tt: "GetTrafficType (defaultTrafficType m) (om_Annotations (ks_meta ex_web)) = Inr ServiceTypeHTTP"
    using assms(2) by (simp add: GetTrafficType_def ex_web_def ex_service_def ex_meta_def)
  have "distinct (map (\<lambda>sp. (sp_Port sp, sp_Protocol sp)) (ks_Ports ex_web))" by (simp add: ex_web_def)
  from CreateOrUpdate_eq [OF _ this assms(1) tt, of lookup.NotFound tk] obtain s1 ports call m' where
    "shadow_ports m ServiceTypeHTTP 0 (om_Name (ks_meta ex_web)) (om_Namespace (ks_meta ex_web)) (ks_Ports ex_web) = Some (s1, ports)"
    "CreateOrUpdate lookup.NotFound tk ex_web m = Some (m', Inr call)" "call_ports call = ports" by (auto simp: known_ports_def)
  then show ?thesis using assms(3,4) by (auto simp: ex_web_def isPortSuitable_def getTargetPort_def getHTTPPort_def)
qed


text \<open>The same service where services are TCP services by default.\<close>

definition ex_l4_cfg :: ControllerConfig where
  "ex_l4_cfg = mesh_config False False ''tcp'' ''mesh'' [] [] 10 25 25"

lemma ex_l4_facts:
  "ranges_ok ex_l4_cfg" "\<not> ACLEnabled ex_l4_cfg" "DefaultMode ex_l4_cfg = ServiceTypeTCP"
  "cc_MinTCPPort ex_l4_cfg = 10000" "cc_MaxTCPPort ex_l4_cfg = 10024" "cc_Namespace ex_l4_cfg = ''mesh''"
  "controller_filter ex_l4_cfg = controller_filter ex_cfg"
  by (simp_all add: ranges_ok_def ex_l4_cfg_def mesh_config_def getMaxPort_def controller_filter_def ex_cfg_def)

lemma ex_l4_booted:
  "\<exists>c. booted ex_l4_cfg [] c \<and> tcpStateTable (ct_manager c) = fresh_tcp ex_l4_cfg \<and> udpStateTable (ct_manager c) = fresh_udp ex_l4_cfg"
proof -
  have "startInformers ex_synced c" for c by (simp add: startInformers_iff ex_synced_def)
  then have "snd (Run_start ex_synced (Some []) (Some []) (NewMeshController ex_l4_cfg ex_api)) = None"
    "tcpStateTable (ct_manager (fst (Run_start ex_synced (Some []) (Some []) (NewMeshController ex_l4_cfg ex_api)))) = fresh_tcp ex_l4_cfg"
    "udpStateTable (ct_manager (fst (Run_start ex_synced (Some []) (Some []) (NewMeshController ex_l4_cfg ex_api)))) = fresh_udp ex_l4_cfg"
    by (simp_all add: Run_start_def loadPortMappersState_def LoadState_def Let_def NewMeshController_def fresh_tcp_def fresh_udp_def NewShadowServiceManager_def)
  then show ?thesis unfolding booted_def using ex_new_api by (metis prod.collapse)
qed

lemma ex_web_tcp_sync:
  assumes "manager_ok m" "defaultTrafficType m = ServiceTypeTCP" "tcpStateTable m = fresh_tcp ex_l4_cfg"
  shows "\<exists>m' call. CreateOrUpdate lookup.NotFound tk ex_web m = Some (m', Inr call)
     \<and> call_ports call = [\<lparr>sp_Name = ''web'', sp_Protocol = ''TCP'', sp_Port = 80, sp_TargetPort = FromInt 10000\<rparr>]"
proof -
  have tt: "GetTrafficType (defaultTrafficType m) (om_Annotations (ks_meta ex_web)) = Inr ServiceTypeTCP"
    using assms(2) by (simp add: GetTrafficType_def ex_web_def ex_service_def ex_meta_def)
  have "distinct (map (\<lambda>sp. (sp_Port sp, sp_Protocol sp)) (ks_Ports ex_web))" by (simp add: ex_web_def)
  from CreateOrUpdate_eq [OF _ this assms(1) tt, of lookup.NotFound tk] obtain s1 ports call m' where
    "shadow_ports m ServiceTypeTCP 0 (om_Name (ks_meta ex_web)) (om_Namespace (ks_meta ex_web)) (ks_Ports ex_web) = Some (s1, ports)"
    "CreateOrUpdate lookup.NotFound tk ex_web m = Some (m', Inr call)" "call_ports call = ports" by (auto simp: known_ports_def)
  moreover have "next_port [] 10024 10000 = Some (Some 10000)" by (simp add: next_port.simps)
  ultimately show ?thesis using assms(3)
    by (auto simp: ex_web_def isPortSuitable_def getTargetPort_def getMappedPort_def Find_def Add_def fresh_tcp_def NewPortMapping_def
      ex_l4_facts wrap_err_def)
qed

lemma no_splits_served:
  assumes "loadResources b flt = Inr res" "valid_schedule res sch" "length (sch_TrafficSplits sch) < fuel"
    and "Build_topology fuel sch b flt = Some (Inr t)" "r_TrafficSplits res = Map.empty"
    and "pv_buildServiceMiddleware p = BuildMiddlewares" "BuildConfig p order t = Some (t', conf)" "Services t' k = Some s"
  shows "svc_TrafficSplits s = []"
proof -
  from Build_total [of b flt sch fuel] assms(1-5) have wf: "wf_topology t" and none: "TrafficSplits t = Map.empty" by auto
  from BuildConfig_ok [OF _ wf, of p order] BuildMiddlewares_valid assms(6,7) have same: "same_but_errors t t'" by simp
  from same_splits [OF same, of k] assms(8) obtain s0 where s0: "Services t k = Some s0" "svc_TrafficSplits s0 = svc_TrafficSplits s"
    by (cases "Services t k") auto
  from wf_topologyD(1) [OF wf s0(1)] have "x \<notin> set (svc_TrafficSplits s0)" for x using none unfolding svc_ok_def by force
  then show ?thesis using s0(2) by (metis list.set_intros(1) neq_Nil_conv)
qed


end
